(* ===== verification/Rekha_Prelude.thy ===== *)
theory Rekha_Prelude
  imports Main "HOL-Library.Word" "HOL-Library.AList"
begin

text \<open>
  Shared vocabulary of the development: the machine integer types, the little-endian byte
  encodings that both on-disk formats use, the \<^verbatim>\<open>Result\<close> plumbing, the association-list
  model of \<^verbatim>\<open>std::collections::HashMap\<close>, and the stable sort of \<^verbatim>\<open>slice::sort_by\<close>.

  \<^item> A Rust \<^verbatim>\<open>u8 / u16 / u32 / u64 / i64\<close> is a word of that width.
  \<^item> A \<^verbatim>\<open>Result<T, E>\<close> is \<open>'e + 'a\<close>, with \<open>Inl\<close> the error.
  \<^item> A \<^verbatim>\<open>HashMap<K, V>\<close> is an association list with distinct keys, read as the map in some
    iteration order; \<open>map_of\<close>, \<open>AList.update\<close> and \<open>AList.delete\<close> are \<^verbatim>\<open>get\<close>,
    \<^verbatim>\<open>insert\<close> and \<^verbatim>\<open>remove\<close>. Statements are about \<open>map_of\<close>, so they hold for every order.
\<close>

unbundle bit_operations_syntax

named_theorems rk_simps "unfolding rules of the model's small operations"
named_theorems rk_inv "preservation lemmas of the components' invariants"

type_synonym byte = "8 word"
type_synonym u16 = "16 word"
type_synonym u32 = "32 word"
type_synonym u64 = "64 word"
type_synonym i64 = "64 word"
type_synonym bytes = "byte list"

section \<open>Results\<close>

fun and_then :: "'e + 'a \<Rightarrow> ('a \<Rightarrow> 'e + 'b) \<Rightarrow> 'e + 'b" where
  "and_then (Inl e) k = Inl e"
| "and_then (Inr x) k = k x"

lemma and_then_cong [fundef_cong]:
  "r = r' \<Longrightarrow> (\<And>x. r' = Inr x \<Longrightarrow> k x = k' x) \<Longrightarrow> and_then r k = and_then r' k'"
  by (cases r') auto

lemma and_then_Inr_iff:
  "and_then r k = Inr y \<longleftrightarrow> (\<exists>x. r = Inr x \<and> k x = Inr y)"
  by (cases r) auto

lemma and_then_Inl_iff:
  "and_then r k = Inl e \<longleftrightarrow> r = Inl e \<or> (\<exists>x. r = Inr x \<and> k x = Inl e)"
  by (cases r) auto

fun is_ok :: "'e + 'a \<Rightarrow> bool" where
  "is_ok (Inl e) = False"
| "is_ok (Inr x) = True"

text \<open>\<^verbatim>\<open>iter().map(f).collect::<Result<Vec<_>, _>>()\<close>: the first error wins.\<close>

fun collect_results :: "('a \<Rightarrow> 'e + 'b) \<Rightarrow> 'a list \<Rightarrow> 'e + 'b list" where
  "collect_results f [] = Inr []"
| "collect_results f (x # xs) =
     and_then (f x) (\<lambda>y. and_then (collect_results f xs) (\<lambda>ys. Inr (y # ys)))"

lemma collect_results_cong [fundef_cong]:
  "xs = ys \<Longrightarrow> (\<And>x. x \<in> set ys \<Longrightarrow> f x = g x) \<Longrightarrow> collect_results f xs = collect_results g ys"
  by (induction ys arbitrary: xs) auto

lemma collect_results_Inr:
  "(\<And>x. x \<in> set xs \<Longrightarrow> f x = Inr (g x)) \<Longrightarrow> collect_results f xs = Inr (map g xs)"
  by (induction xs) auto

lemma collect_results_InrD:
  "collect_results f xs = Inr ys \<Longrightarrow> list_all2 (\<lambda>x y. f x = Inr y) xs ys"
  by (induction xs arbitrary: ys) (auto simp: and_then_Inr_iff)

lemma collect_results_all:
  "collect_results f xs = Inr ys \<Longrightarrow> (\<And>x y. x \<in> set xs \<Longrightarrow> f x = Inr y \<Longrightarrow> P y) \<Longrightarrow> list_all P ys"
proof (induction xs arbitrary: ys)
  case Nil
  then show ?case by simp
next
  case (Cons x xs)
  from Cons.prems(1) obtain z zs where
    z: "f x = Inr z" and zs: "collect_results f xs = Inr zs" and ys: "ys = z # zs"
    by (auto simp: and_then_Inr_iff)
  have "list_all P zs" using zs Cons.prems(2) by (rule Cons.IH) simp_all
  moreover have "P z" using Cons.prems(2) [of x z] z by simp
  ultimately show ?case by (simp add: ys)
qed

lemma collect_results_length:
  "collect_results f xs = Inr ys \<Longrightarrow> length ys = length xs"
  by (drule collect_results_InrD) (simp add: list_all2_lengthD)

text \<open>A computation that may panic.\<close>

datatype 'a run = Panics | Returns 'a

fun run_bind :: "'a run \<Rightarrow> ('a \<Rightarrow> 'b run) \<Rightarrow> 'b run" where
  "run_bind Panics f = Panics"
| "run_bind (Returns x) f = f x"

lemma run_bind_Returns: "run_bind m f = Returns y \<longleftrightarrow> (\<exists>x. m = Returns x \<and> f x = Returns y)"
  by (cases m) simp_all

text \<open>\<^verbatim>\<open>iter().map(f).collect()\<close> where \<open>f\<close> may panic.\<close>

fun run_map :: "('a \<Rightarrow> 'b run) \<Rightarrow> 'a list \<Rightarrow> 'b list run" where
  "run_map f [] = Returns []"
| "run_map f (x # xs) = run_bind (f x) (\<lambda>y. run_bind (run_map f xs) (\<lambda>ys. Returns (y # ys)))"

lemma run_map_cong [fundef_cong]:
  "xs = ys \<Longrightarrow> (\<And>x. x \<in> set ys \<Longrightarrow> f x = g x) \<Longrightarrow> run_map f xs = run_map g ys"
  by (induction ys arbitrary: xs) auto

lemma run_map_Returns: "(\<And>x. x \<in> set xs \<Longrightarrow> f x = Returns (g x)) \<Longrightarrow> run_map f xs = Returns (map g xs)"
  by (induction xs) simp_all

section \<open>Little-endian integers\<close>

fun le_bytes :: "nat \<Rightarrow> nat \<Rightarrow> bytes" where
  "le_bytes 0 n = []"
| "le_bytes (Suc k) n = of_nat (n mod 256) # le_bytes k (n div 256)"

fun le_nat :: "bytes \<Rightarrow> nat" where
  "le_nat [] = 0"
| "le_nat (b # bs) = unat b + 256 * le_nat bs"

lemma length_le_bytes [simp]: "length (le_bytes k n) = k"
  by (induction k arbitrary: n) auto

lemma unat_of_nat_byte: "unat (of_nat (n mod 256) :: byte) = n mod 256"
  by (simp add: unat_of_nat)

lemma le_nat_le_bytes: "le_nat (le_bytes k n) = n mod 256 ^ k"
proof (induction k arbitrary: n)
  case 0
  then show ?case by simp
next
  case (Suc k)
  have "le_nat (le_bytes (Suc k) n) = n mod 256 + 256 * ((n div 256) mod 256 ^ k)"
    by (simp add: Suc.IH unat_of_nat_byte del: of_nat_mod)
  also have "\<dots> = n mod (256 * 256 ^ k)"
    by (simp add: mod_mult2_eq)
  finally show ?case by simp
qed

lemma unat_byte_lt: "unat (b :: byte) < 256"
  using unsigned_less [of b] by simp

lemma le_nat_bound: "le_nat bs < 256 ^ length bs"
proof (induction bs)
  case Nil
  then show ?case by simp
next
  case (Cons b bs)
  have "unat b < 256" by (rule unat_byte_lt)
  with Cons show ?case by simp
qed

lemma le_bytes_le_nat: "le_bytes (length bs) (le_nat bs) = bs"
proof (induction bs)
  case Nil
  then show ?case by simp
next
  case (Cons b bs)
  have b: "unat b < 256" by (rule unat_byte_lt)
  have "(unat b + 256 * le_nat bs) mod 256 = unat b" using b by simp
  moreover have "(unat b + 256 * le_nat bs) div 256 = le_nat bs" using b by simp
  ultimately show ?case by (simp add: Cons.IH)
qed

definition u16_le :: "u16 \<Rightarrow> bytes" where "u16_le w = le_bytes 2 (unat w)"
definition u32_le :: "u32 \<Rightarrow> bytes" where "u32_le w = le_bytes 4 (unat w)"
definition u64_le :: "u64 \<Rightarrow> bytes" where "u64_le w = le_bytes 8 (unat w)"

text \<open>The readers take the first bytes of their argument, as \<^verbatim>\<open>[b[0], b[1], ...]\<close> does.\<close>

definition le_u16 :: "bytes \<Rightarrow> u16" where "le_u16 b = of_nat (le_nat (take 2 b))"
definition le_u32 :: "bytes \<Rightarrow> u32" where "le_u32 b = of_nat (le_nat (take 4 b))"
definition le_u64 :: "bytes \<Rightarrow> u64" where "le_u64 b = of_nat (le_nat (take 8 b))"

lemma length_uN_le [simp]:
  "length (u16_le w) = 2" "length (u32_le x) = 4" "length (u64_le y) = 8"
  by (simp_all add: u16_le_def u32_le_def u64_le_def)

lemma unat_mod_id: "unat (w :: 'a::len word) mod 2 ^ LENGTH('a) = unat w"
  using unsigned_less [of w] by (metis mod_less)

lemma le_u16_u16_le [simp]: "le_u16 (u16_le w @ r) = w"
  using unat_mod_id [of w] by (simp add: le_u16_def u16_le_def le_nat_le_bytes)

lemma le_u32_u32_le [simp]: "le_u32 (u32_le w @ r) = w"
  using unat_mod_id [of w] by (simp add: le_u32_def u32_le_def le_nat_le_bytes)

lemma le_u64_u64_le [simp]: "le_u64 (u64_le w @ r) = w"
  using unat_mod_id [of w] by (simp add: le_u64_def u64_le_def le_nat_le_bytes)

lemmas le_uN_exact [simp] =
  le_u16_u16_le [where r = "[]", simplified]
  le_u32_u32_le [where r = "[]", simplified]
  le_u64_u64_le [where r = "[]", simplified]

lemma u32_le_le_u32:
  assumes "length b = 4" shows "u32_le (le_u32 b) = b"
proof -
  have "le_nat b < 256 ^ length b" by (rule le_nat_bound)
  then have "le_nat b < 2 ^ 32" using assms by simp
  then have "unat (of_nat (le_nat b) :: u32) = le_nat b" by (simp add: unat_of_nat)
  then show ?thesis
    using assms le_bytes_le_nat [of b] by (simp add: u32_le_def le_u32_def)
qed

lemma u64_le_le_u64:
  assumes "length b = 8" shows "u64_le (le_u64 b) = b"
proof -
  have "le_nat b < 256 ^ length b" by (rule le_nat_bound)
  then have "le_nat b < 2 ^ 64" using assms by simp
  then have "unat (of_nat (le_nat b) :: u64) = le_nat b" by (simp add: unat_of_nat)
  then show ?thesis
    using assms le_bytes_le_nat [of b] by (simp add: u64_le_def le_u64_def)
qed

lemma u16_le_le_u16:
  assumes "length b = 2" shows "u16_le (le_u16 b) = b"
proof -
  have "le_nat b < 256 ^ length b" by (rule le_nat_bound)
  then have "le_nat b < 2 ^ 16" using assms by simp
  then have "unat (of_nat (le_nat b) :: u16) = le_nat b" by (simp add: unat_of_nat)
  then show ?thesis
    using assms le_bytes_le_nat [of b] by (simp add: u16_le_def le_u16_def)
qed

text \<open>Byte ranges \<^verbatim>\<open>&b[i..j]\<close> and positioned file reads and writes.\<close>

definition slice :: "nat \<Rightarrow> nat \<Rightarrow> 'a list \<Rightarrow> 'a list" where
  "slice i j b = take (j - i) (drop i b)"

definition read_exact :: "bytes \<Rightarrow> nat \<Rightarrow> nat \<Rightarrow> bytes option" where
  "read_exact f off n = (if off + n \<le> length f then Some (slice off (off + n) f) else None)"

definition write_at :: "bytes \<Rightarrow> nat \<Rightarrow> bytes \<Rightarrow> bytes" where
  "write_at f off b = take off f @ replicate (off - length f) 0 @ b @ drop (off + length b) f"

definition set_len :: "bytes \<Rightarrow> nat \<Rightarrow> bytes" where
  "set_len f n = take n f @ replicate (n - length f) 0"

lemma length_slice [simp]: "j \<le> length b \<Longrightarrow> length (slice i j b) = j - i"
  by (simp add: slice_def)

lemma slice_append_left [simp]: "i = length a \<Longrightarrow> j = i + length b \<Longrightarrow> slice i j (a @ b @ c) = b"
  by (simp add: slice_def)

lemma write_at_end [simp]: "off = length f \<Longrightarrow> write_at f off b = f @ b"
  by (simp add: write_at_def)

lemma set_len_take: "n \<le> length f \<Longrightarrow> set_len f n = take n f"
  by (simp add: set_len_def)

text \<open>Incrementing a counter that is not at its maximum.\<close>

lemma word_succ_neq_0: "(x :: 'a::len word) \<noteq> - 1 \<Longrightarrow> 1 + x \<noteq> 0"
  by (metis add_eq_0_iff2 minus_minus)

lemma unat_max32: "unat (- 1 :: u32) = 2 ^ 32 - 1"
  by (simp add: unsigned_minus_1_eq_mask mask_eq_exp_minus_1)

lemma unat_max64: "unat (- 1 :: u64) = 2 ^ 64 - 1"
  by (simp add: unsigned_minus_1_eq_mask mask_eq_exp_minus_1)

lemma unat_succ: "(x :: 'a::len word) \<noteq> - 1 \<Longrightarrow> unat (x + 1) = Suc (unat x)"
  by (subst add.commute) (rule unatSuc [OF word_succ_neq_0])

lemma word_less_succ: "(x :: 'a::len word) \<noteq> - 1 \<Longrightarrow> x < x + 1"
  by (simp add: word_less_nat_alt unat_succ)

section \<open>Association lists as hash maps\<close>

definition hm_wf :: "('k \<times> 'v) list \<Rightarrow> bool" where
  "hm_wf m \<longleftrightarrow> distinct (map fst m)"

lemma hm_wf_Nil [simp]: "hm_wf []"
  by (simp add: hm_wf_def)

lemma hm_wf_update [simp, rk_inv]: "hm_wf m \<Longrightarrow> hm_wf (AList.update k v m)"
  by (simp add: hm_wf_def distinct_update)

lemma hm_wf_delete [simp, rk_inv]: "hm_wf m \<Longrightarrow> hm_wf (AList.delete k m)"
  by (simp add: hm_wf_def distinct_delete)

lemma map_of_update [simp]:
  "map_of (AList.update k v m) k' = (if k' = k then Some v else map_of m k')"
  by (simp add: update_conv')

lemma map_of_delete [simp]:
  "map_of (AList.delete k m) k' = (if k' = k then None else map_of m k')"
  by (simp add: delete_conv')

lemma hm_wf_in_set: "hm_wf m \<Longrightarrow> (k, v) \<in> set m \<longleftrightarrow> map_of m k = Some v"
  by (simp add: hm_wf_def)

lemma hm_wf_filter [simp]: "hm_wf m \<Longrightarrow> hm_wf (filter P m)"
  by (auto simp: hm_wf_def distinct_map inj_on_def)

lemma hm_wf_map_val [simp]: "hm_wf (map (\<lambda>(k, v). (k, f k v)) m) = hm_wf m"
proof -
  have "map fst (map (\<lambda>(k, v). (k, f k v)) m) = map fst m"
    by (induction m) auto
  then show ?thesis by (simp only: hm_wf_def)
qed

lemma map_of_map_val: "map_of (map (\<lambda>(k, v). (k, f k v)) m) k = map_option (f k) (map_of m k)"
  by (induction m) auto

lemma length_update: "hm_wf m \<Longrightarrow>
  length (AList.update k v m) = (if map_of m k = None then Suc (length m) else length m)"
proof (induction m)
  case Nil
  then show ?case by simp
next
  case (Cons p m)
  obtain a b where p: "p = (a, b)" by (cases p)
  from Cons.prems have "hm_wf m" by (simp add: hm_wf_def)
  with Cons.IH show ?case by (auto simp: p)
qed

lemma hm_length_card: "hm_wf m \<Longrightarrow> length m = card (dom (map_of m))"
  using distinct_card [of "map fst m"] by (simp add: hm_wf_def dom_map_of_conv_image_fst)

section \<open>Stable sorting\<close>

text \<open>
  \<^verbatim>\<open>sort_by\<close> is a stable sort; \<open>gt x y\<close> says that the comparison of \<open>x\<close> with \<open>y\<close> is
  \<^verbatim>\<open>Greater\<close>. For a total preorder the stable result is unique, so insertion sort gives the
  library's answer.
\<close>

fun insort_by :: "('a \<Rightarrow> 'a \<Rightarrow> bool) \<Rightarrow> 'a \<Rightarrow> 'a list \<Rightarrow> 'a list" where
  "insort_by gt x [] = [x]"
| "insort_by gt x (y # ys) = (if gt x y then y # insort_by gt x ys else x # y # ys)"

definition sort_by :: "('a \<Rightarrow> 'a \<Rightarrow> bool) \<Rightarrow> 'a list \<Rightarrow> 'a list" where
  "sort_by gt xs = foldr (insort_by gt) xs []"

lemma set_insort_by [simp]: "set (insort_by gt x xs) = insert x (set xs)"
  by (induction xs) auto

lemma length_insort_by [simp]: "length (insort_by gt x xs) = Suc (length xs)"
  by (induction xs) auto

lemma sort_by_simps [simp]:
  "sort_by gt [] = []" "sort_by gt (x # xs) = insort_by gt x (sort_by gt xs)"
  by (simp_all add: sort_by_def)

lemma set_sort_by [simp]: "set (sort_by gt xs) = set xs"
  by (induction xs) auto

lemma length_sort_by [simp]: "length (sort_by gt xs) = length xs"
  by (induction xs) auto

lemma distinct_map_insort_by:
  "distinct (map f (insort_by gt x xs)) = distinct (f x # map f xs)"
  by (induction xs) auto

lemma distinct_map_sort_by [simp]: "distinct (map f (sort_by gt xs)) = distinct (map f xs)"
  by (induction xs) (auto simp: distinct_map_insort_by)

text \<open>The comparison has to be a total preorder on the elements of the list only.\<close>

lemma sorted_insort_by_on:
  assumes tot: "\<And>a b. P a \<Longrightarrow> P b \<Longrightarrow> gt a b \<Longrightarrow> \<not> gt b a"
    and tr: "\<And>a b c. P a \<Longrightarrow> P b \<Longrightarrow> P c \<Longrightarrow> \<not> gt a b \<Longrightarrow> \<not> gt b c \<Longrightarrow> \<not> gt a c"
    and "P x" "list_all P xs" "sorted_wrt (\<lambda>a b. \<not> gt a b) xs"
  shows "sorted_wrt (\<lambda>a b. \<not> gt a b) (insort_by gt x xs)"
  using assms(4,5)
proof (induction xs)
  case Nil
  then show ?case by simp
next
  case (Cons y ys)
  have Py: "P y" "list_all P ys" and ys: "sorted_wrt (\<lambda>a b. \<not> gt a b) ys" and y: "\<forall>z\<in>set ys. \<not> gt y z"
    using Cons.prems by simp_all
  show ?case
  proof (cases "gt x y")
    case True
    then show ?thesis using Cons.IH [OF Py(2) ys] y tot [OF assms(3) Py(1)] by auto
  next
    case False
    have "\<not> gt x z" if "z \<in> set ys" for z
      using tr [OF assms(3) Py(1) _ False] y that Py(2) by (auto simp: list_all_iff)
    then show ?thesis using False ys y by auto
  qed
qed

lemma sorted_sort_by_on:
  assumes "\<And>a b. P a \<Longrightarrow> P b \<Longrightarrow> gt a b \<Longrightarrow> \<not> gt b a"
    and "\<And>a b c. P a \<Longrightarrow> P b \<Longrightarrow> P c \<Longrightarrow> \<not> gt a b \<Longrightarrow> \<not> gt b c \<Longrightarrow> \<not> gt a c"
    and "list_all P xs"
  shows "sorted_wrt (\<lambda>a b. \<not> gt a b) (sort_by gt xs)"
  using assms(3)
proof (induction xs)
  case (Cons x xs)
  then have "P x" "list_all P (sort_by gt xs)" "sorted_wrt (\<lambda>a b. \<not> gt a b) (sort_by gt xs)"
    by (simp_all add: list_all_iff)
  note sorted_insort_by_on [where P = P and gt = gt and x = x and xs = "sort_by gt xs", OF _ _ this]
  then show ?case unfolding sort_by_simps using assms(1,2) by blast
qed simp

lemma sorted_sort_by:
  assumes "\<And>a b. gt a b \<Longrightarrow> \<not> gt b a"
    and "\<And>a b c. \<not> gt a b \<Longrightarrow> \<not> gt b c \<Longrightarrow> \<not> gt a c"
  shows "sorted_wrt (\<lambda>a b. \<not> gt a b) (sort_by gt xs)"
  by (rule sorted_sort_by_on [where P = "\<lambda>_. True"]) (erule assms(1), erule (1) assms(2), simp add: list_all_iff)

section \<open>String order\<close>

text \<open>\<^verbatim>\<open>str\<close> and byte-string keys are ordered bytewise.\<close>

fun str_less :: "string \<Rightarrow> string \<Rightarrow> bool" where
  "str_less _ [] = False"
| "str_less [] (_ # _) = True"
| "str_less (a # as) (b # bs) =
     (if (of_char a :: nat) = of_char b then str_less as bs else (of_char a :: nat) < of_char b)"

lemma str_less_irrefl [simp]: "\<not> str_less a a"
  by (induction a) simp_all

lemma str_less_asym: "str_less a b \<Longrightarrow> \<not> str_less b a"
  by (induction a b rule: str_less.induct) (auto split: if_splits)

lemma of_char_nat_inj: "(of_char a :: nat) = of_char b \<longleftrightarrow> a = b"
  by (metis char_of_char)

lemma str_less_total: "str_less a b \<or> a = b \<or> str_less b a"
proof (induction a b rule: str_less.induct)
  case (1 a)
  then show ?case by (cases a) auto
next
  case (3 a as b bs)
  then show ?case
    using less_linear [of "of_char a :: nat" "of_char b"] of_char_nat_inj [of a b] by auto
qed simp

lemma str_less_trans: "str_less a b \<Longrightarrow> str_less b c \<Longrightarrow> str_less a c"
proof (induction a b arbitrary: c rule: str_less.induct)
  case (2 b bs)
  then show ?case by (cases c) auto
next
  case (3 a as b bs)
  then show ?case by (cases c) (auto split: if_splits)
qed simp

lemma str_not_less_trans: "\<not> str_less b a \<Longrightarrow> \<not> str_less c b \<Longrightarrow> \<not> str_less c a"
  by (metis str_less_total str_less_trans str_less_irrefl)

text \<open>Iterating a table in key order.\<close>

definition by_key :: "(string \<times> 'v) list \<Rightarrow> (string \<times> 'v) list" where
  "by_key m = sort_by (\<lambda>a b. str_less (fst b) (fst a)) m"

lemma set_by_key [simp]: "set (by_key m) = set m"
  by (simp add: by_key_def)

lemma by_key_sorted: "sorted_wrt (\<lambda>a b. \<not> str_less (fst b) (fst a)) (by_key m)"
  unfolding by_key_def
  by (rule sorted_sort_by) (auto dest: str_less_asym str_not_less_trans)

section \<open>Text\<close>

text \<open>\<^verbatim>\<open>str::split(c)\<close>, \<^verbatim>\<open>join\<close>, \<^verbatim>\<open>contains\<close>, \<^verbatim>\<open>trim_end_matches(c)\<close> and decimal \<^verbatim>\<open>to_string\<close>.\<close>

fun split_on :: "char \<Rightarrow> string \<Rightarrow> string list" where
  "split_on c [] = [[]]"
| "split_on c (x # xs) =
     (if x = c then [] # split_on c xs
      else (case split_on c xs of s # ss \<Rightarrow> (x # s) # ss | [] \<Rightarrow> [[x]]))"

fun join_with :: "string \<Rightarrow> string list \<Rightarrow> string" where
  "join_with sep [] = []"
| "join_with sep [s] = s"
| "join_with sep (s # ss) = s @ sep @ join_with sep ss"

fun starts_with :: "string \<Rightarrow> string \<Rightarrow> bool" where
  "starts_with [] s = True"
| "starts_with (p # ps) [] = False"
| "starts_with (p # ps) (x # xs) = (p = x \<and> starts_with ps xs)"

fun contains_str :: "string \<Rightarrow> string \<Rightarrow> bool" where
  "contains_str pat [] = (pat = [])"
| "contains_str pat (x # xs) = (starts_with pat (x # xs) \<or> contains_str pat xs)"

definition trim_end_char :: "char \<Rightarrow> string \<Rightarrow> string" where
  "trim_end_char c s = rev (dropWhile (\<lambda>x. x = c) (rev s))"

fun nat_to_string :: "nat \<Rightarrow> string" where
  "nat_to_string n = (if n < 10 then [char_of (48 + n)] else nat_to_string (n div 10) @ [char_of (48 + n mod 10)])"

declare nat_to_string.simps [simp del]

lemma split_on_not_Nil [simp]: "split_on c s \<noteq> []"
  by (induction s) (auto split: list.split)

lemma split_on_parts: "p \<in> set (split_on c s) \<Longrightarrow> c \<notin> set p"
  by (induction s arbitrary: p) (auto split: list.splits if_splits)

lemma join_split: "join_with [c] (split_on c s) = s"
proof (induction s)
  case (Cons x xs)
  obtain a ss where a: "split_on c xs = a # ss" by (cases "split_on c xs") simp_all
  then show ?case using Cons by (cases ss) auto
qed simp

lemma split_on_no_sep: "c \<notin> set s \<Longrightarrow> split_on c s = [s]"
  by (induction s) auto

lemma split_on_append: "c \<notin> set s \<Longrightarrow> split_on c (s @ c # t) = s # split_on c t"
  by (induction s) auto

lemma split_join:
  "ps \<noteq> [] \<Longrightarrow> (\<And>p. p \<in> set ps \<Longrightarrow> c \<notin> set p) \<Longrightarrow> split_on c (join_with [c] ps) = ps"
  by (induction "[c]" ps rule: join_with.induct) (auto simp: split_on_no_sep split_on_append)

section \<open>Small list facts\<close>

lemma filter_map_Some: "List.map_filter f xs = map (the \<circ> f) (filter (\<lambda>x. f x \<noteq> None) xs)"
  by (induction xs) (auto simp: List.map_filter_def)

lemma take_append_exact: "n = length xs \<Longrightarrow> take n (xs @ ys) = xs"
  by simp

lemma drop_append_exact: "n = length xs \<Longrightarrow> drop n (xs @ ys) = ys"
  by simp

end
