(* ===== verification/Float_Bits.thy ===== *)
theory Float_Bits
  imports Rekha_Prelude
begin

text \<open>
  IEEE 754 binary64 values (Rust \<^verbatim>\<open>f64\<close>) as their 64-bit patterns: NaN and finiteness tests,
  the comparison operators, and the \<^verbatim>\<open>i64 as f64\<close> cast (round to nearest, ties to even).
  A pattern is a sign bit over a 63-bit magnitude; for non-NaN values the order of the reals is
  the order of the signed magnitudes, which is how the comparisons are written.
\<close>

type_synonym f64 = "64 word"
type_synonym f32 = "32 word"

definition f64_mag :: "f64 \<Rightarrow> nat" where
  "f64_mag w = unat w mod 2 ^ 63"

definition f64_neg :: "f64 \<Rightarrow> bool" where
  "f64_neg w \<longleftrightarrow> 2 ^ 63 \<le> unat w"

definition f64_inf_mag :: nat where
  "f64_inf_mag = 2047 * 2 ^ 52"

definition f64_is_nan :: "f64 \<Rightarrow> bool" where
  "f64_is_nan w \<longleftrightarrow> f64_inf_mag < f64_mag w"

definition f64_is_finite :: "f64 \<Rightarrow> bool" where
  "f64_is_finite w \<longleftrightarrow> f64_mag w < f64_inf_mag"

definition f64_key :: "f64 \<Rightarrow> int" where
  "f64_key w = (if f64_neg w then - int (f64_mag w) else int (f64_mag w))"

definition f64_eq :: "f64 \<Rightarrow> f64 \<Rightarrow> bool" where
  "f64_eq a b \<longleftrightarrow> \<not> f64_is_nan a \<and> \<not> f64_is_nan b \<and> f64_key a = f64_key b"

definition f64_lt :: "f64 \<Rightarrow> f64 \<Rightarrow> bool" where
  "f64_lt a b \<longleftrightarrow> \<not> f64_is_nan a \<and> \<not> f64_is_nan b \<and> f64_key a < f64_key b"

definition f64_le :: "f64 \<Rightarrow> f64 \<Rightarrow> bool" where
  "f64_le a b \<longleftrightarrow> \<not> f64_is_nan a \<and> \<not> f64_is_nan b \<and> f64_key a \<le> f64_key b"

lemmas f64_cmp_defs = f64_eq_def f64_lt_def f64_le_def

lemma f64_finite_not_nan: "f64_is_finite w \<Longrightarrow> \<not> f64_is_nan w"
  by (simp add: f64_is_finite_def f64_is_nan_def)

lemma f64_nan_incomparable:
  "f64_is_nan a \<Longrightarrow> \<not> f64_eq a b \<and> \<not> f64_lt a b \<and> \<not> f64_le a b \<and> \<not> f64_lt b a \<and> \<not> f64_le b a"
  by (simp add: f64_cmp_defs)

section \<open>The cast from i64\<close>

text \<open>\<open>bitlen n\<close> is the position of the highest set bit of \<open>n > 0\<close>.\<close>

fun bitlen :: "nat \<Rightarrow> nat" where
  "bitlen n = (if n < 2 then 0 else Suc (bitlen (n div 2)))"

declare bitlen.simps [simp del]

lemma bitlen_bounds: "0 < n \<Longrightarrow> 2 ^ bitlen n \<le> n \<and> n < 2 ^ Suc (bitlen n)"
proof (induction n rule: bitlen.induct)
  case (1 n)
  show ?case
  proof (cases "n < 2")
    case True
    with 1 show ?thesis by (simp add: bitlen.simps [of n])
  next
    case False
    with "1.IH" have "2 ^ bitlen (n div 2) \<le> n div 2 \<and> n div 2 < 2 ^ Suc (bitlen (n div 2))"
      by simp
    with False show ?thesis by (auto simp: bitlen.simps [of n])
  qed
qed

text \<open>
  The magnitude bits of the double nearest to \<open>n\<close>: with \<open>e\<close> the exponent, an integer below
  \<open>2 ^ 53\<close> is shifted up exactly; a larger one is shifted down and rounded to even. The
  addition lets a mantissa that rounds up to \<open>2 ^ 53\<close> carry into the exponent.
\<close>

definition f64_round_shift :: "nat \<Rightarrow> nat \<Rightarrow> nat" where
  "f64_round_shift n s =
     (let q = n div 2 ^ s; r = n mod 2 ^ s; half = 2 ^ (s - 1)
      in if half < r \<or> (r = half \<and> odd q) then Suc q else q)"

definition f64_mag_of_nat :: "nat \<Rightarrow> nat" where
  "f64_mag_of_nat n =
     (if n = 0 then 0
      else let e = bitlen n
           in (e + 1022) * 2 ^ 52
              + (if e \<le> 52 then n * 2 ^ (52 - e) else f64_round_shift n (e - 52)))"

definition i64_to_f64 :: "i64 \<Rightarrow> f64" where
  "i64_to_f64 i =
     (let m = f64_mag_of_nat (nat \<bar>sint i\<bar>)
      in of_nat (if sint i < 0 then 2 ^ 63 + m else m))"

lemma f64_round_shift_le:
  assumes "n < 2 ^ 53 * 2 ^ s"
  shows "f64_round_shift n s \<le> 2 ^ 53"
proof -
  have "n div 2 ^ s < 2 ^ 53" using assms by (simp add: less_mult_imp_div_less)
  then show ?thesis by (simp add: f64_round_shift_def Let_def)
qed

lemma f64_mag_of_nat_bound:
  assumes "n \<le> 2 ^ 63"
  shows "f64_mag_of_nat n < f64_inf_mag"
proof (cases "n = 0")
  case True
  then show ?thesis by (simp add: f64_mag_of_nat_def f64_inf_mag_def)
next
  case False
  define e where "e = bitlen n"
  from False have b: "2 ^ e \<le> n" "n < 2 ^ Suc e"
    using bitlen_bounds [of n] by (auto simp: e_def)
  have e63: "e \<le> 63"
  proof (rule ccontr)
    assume "\<not> e \<le> 63"
    then have "(2::nat) ^ 64 \<le> 2 ^ e" by (intro power_increasing) auto
    with b(1) assms show False by simp
  qed
  have tail: "(if e \<le> 52 then n * 2 ^ (52 - e) else f64_round_shift n (e - 52)) \<le> 2 ^ 53"
  proof (cases "e \<le> 52")
    case True
    have "n * 2 ^ (52 - e) \<le> 2 ^ Suc e * 2 ^ (52 - e)"
      using b(2) by (intro mult_right_mono) auto
    also have "\<dots> = 2 ^ 53" using True by (simp flip: power_Suc power_add)
    finally show ?thesis using True by simp
  next
    case False
    have "n < 2 ^ 53 * 2 ^ (e - 52)"
    proof -
      have "(2::nat) ^ Suc e = 2 ^ (53 + (e - 52))" using False by (intro arg_cong [where f = "(^) 2"]) simp
      then show ?thesis using b(2) by (simp add: power_add)
    qed
    then show ?thesis using False f64_round_shift_le by simp
  qed
  have "f64_mag_of_nat n \<le> (e + 1022) * 2 ^ 52 + 2 ^ 53"
    using False tail by (simp add: f64_mag_of_nat_def Let_def flip: e_def)
  also have "\<dots> \<le> (63 + 1022) * 2 ^ 52 + 2 ^ 53"
    using e63 by (intro add_right_mono mult_right_mono) auto
  also have "\<dots> < f64_inf_mag" by (simp add: f64_inf_mag_def)
  finally show ?thesis .
qed

lemma sint_abs_le: "nat \<bar>sint (i :: i64)\<bar> \<le> 2 ^ 63"
  using sint_ge [of i] sint_lt [of i] by simp

lemma f64_of_mag:
  assumes "m < 2 ^ 63"
  shows "f64_mag (of_nat m) = m" "f64_mag (of_nat (2 ^ 63 + m)) = m"
    "\<not> f64_neg (of_nat m)" "f64_neg (of_nat (2 ^ 63 + m))"
proof -
  have a: "unat (of_nat m :: f64) = m" using assms by (simp add: unat_of_nat)
  have b: "unat (of_nat (2 ^ 63 + m) :: f64) = 2 ^ 63 + m"
    using assms by (subst unat_of_nat) simp
  show "f64_mag (of_nat m) = m" "\<not> f64_neg (of_nat m)"
    using assms by (simp_all add: f64_mag_def f64_neg_def a)
  show "f64_mag (of_nat (2 ^ 63 + m)) = m" "f64_neg (of_nat (2 ^ 63 + m))"
    unfolding f64_mag_def f64_neg_def b using assms by simp_all
qed

lemma inf_mag_lt: "f64_inf_mag < 2 ^ 63"
  by (simp add: f64_inf_mag_def)

lemma f64_mag_i64: "f64_mag (i64_to_f64 i) = f64_mag_of_nat (nat \<bar>sint i\<bar>)"
proof -
  have "f64_mag_of_nat (nat \<bar>sint i\<bar>) < 2 ^ 63"
    using f64_mag_of_nat_bound [OF sint_abs_le] inf_mag_lt by (rule less_trans)
  moreover define m where "m = f64_mag_of_nat (nat \<bar>sint i\<bar>)"
  moreover have "i64_to_f64 i = of_nat (if sint i < 0 then 2 ^ 63 + m else m)"
    unfolding m_def i64_to_f64_def Let_def ..
  ultimately show ?thesis
    using f64_of_mag [of m] by (metis (full_types))
qed

lemma f64_neg_i64: "f64_neg (i64_to_f64 i) \<longleftrightarrow> sint i < 0"
proof -
  have "f64_mag_of_nat (nat \<bar>sint i\<bar>) < 2 ^ 63"
    using f64_mag_of_nat_bound [OF sint_abs_le] inf_mag_lt by (rule less_trans)
  moreover define m where "m = f64_mag_of_nat (nat \<bar>sint i\<bar>)"
  moreover have "i64_to_f64 i = of_nat (if sint i < 0 then 2 ^ 63 + m else m)"
    unfolding m_def i64_to_f64_def Let_def ..
  ultimately show ?thesis
    using f64_of_mag [of m] by (metis (full_types))
qed

lemma i64_to_f64_finite: "f64_is_finite (i64_to_f64 i)"
  using f64_mag_of_nat_bound [OF sint_abs_le] by (simp add: f64_is_finite_def f64_mag_i64)

section \<open>Exactness below 2 to the 53\<close>

lemma f64_mag_of_nat_small:
  assumes "0 < n" "bitlen n \<le> 52"
  shows "(bitlen n + 1023) * 2 ^ 52 \<le> f64_mag_of_nat n"
    and "f64_mag_of_nat n < (bitlen n + 1024) * 2 ^ 52"
proof -
  define e where "e = bitlen n"
  have b: "2 ^ e \<le> n" "n < 2 ^ Suc e"
    using bitlen_bounds [OF assms(1)] by (auto simp: e_def)
  have e: "e \<le> 52" using assms by (simp add: e_def)
  have m: "f64_mag_of_nat n = (e + 1022) * 2 ^ 52 + n * 2 ^ (52 - e)"
    using assms e by (simp add: f64_mag_of_nat_def Let_def flip: e_def)
  have lo: "2 ^ 52 \<le> n * 2 ^ (52 - e)"
  proof -
    have "(2::nat) ^ 52 = 2 ^ e * 2 ^ (52 - e)" using e by (simp flip: power_add)
    also have "\<dots> \<le> n * 2 ^ (52 - e)" using b(1) by (rule mult_right_mono) simp
    finally show ?thesis .
  qed
  have hi: "n * 2 ^ (52 - e) < 2 ^ 53"
  proof -
    have "n * 2 ^ (52 - e) < 2 ^ Suc e * 2 ^ (52 - e)" using b(2) by simp
    also have "\<dots> = (2::nat) ^ 53" using e by (simp flip: power_Suc power_add)
    finally show ?thesis .
  qed
  show "(bitlen n + 1023) * 2 ^ 52 \<le> f64_mag_of_nat n"
    using m lo by (simp add: algebra_simps flip: e_def)
  show "f64_mag_of_nat n < (bitlen n + 1024) * 2 ^ 52"
    using m hi by (simp add: algebra_simps flip: e_def)
qed

lemma bitlen_mono: "0 < m \<Longrightarrow> m \<le> n \<Longrightarrow> bitlen m \<le> bitlen n"
proof -
  assume a: "0 < m" "m \<le> n"
  then have "(2::nat) ^ bitlen m < 2 ^ Suc (bitlen n)"
    using bitlen_bounds [of m] bitlen_bounds [of n] by linarith
  then have "bitlen m < Suc (bitlen n)" by (rule power_less_imp_less_exp [rotated]) simp
  then show ?thesis by simp
qed

lemma bitlen_lt: "0 < n \<Longrightarrow> n < 2 ^ k \<Longrightarrow> bitlen n < k"
  using bitlen_bounds [of n] power_less_imp_less_exp [of "2::nat" "bitlen n" k]
  by (meson le_less_trans one_less_numeral_iff semiring_norm(76))

lemma f64_mag_of_nat_strict_mono:
  assumes "m < n" "n < 2 ^ 53"
  shows "f64_mag_of_nat m < f64_mag_of_nat n"
proof (cases "m = 0")
  case True
  have "bitlen n \<le> 52" using assms bitlen_lt [of n 53] by simp
  then have "(bitlen n + 1023) * 2 ^ 52 \<le> f64_mag_of_nat n"
    using f64_mag_of_nat_small assms by simp
  moreover have "0 < (bitlen n + 1023) * 2 ^ 52" by simp
  ultimately have "0 < f64_mag_of_nat n" by (rule less_le_trans [rotated])
  then show ?thesis using True by (simp add: f64_mag_of_nat_def)
next
  case False
  have en: "bitlen n \<le> 52" using assms bitlen_lt [of n 53] by simp
  have em: "bitlen m \<le> bitlen n" using False assms bitlen_mono by simp
  show ?thesis
  proof (cases "bitlen m = bitlen n")
    case True
    then show ?thesis
      using False assms en by (simp add: f64_mag_of_nat_def Let_def)
  next
    case lt: False
    have "f64_mag_of_nat m < (bitlen m + 1024) * 2 ^ 52"
      using f64_mag_of_nat_small(2) [of m] False em en by simp
    also have "\<dots> \<le> (bitlen n + 1023) * 2 ^ 52"
      using lt em by (intro mult_right_mono) auto
    also have "\<dots> \<le> f64_mag_of_nat n"
      using f64_mag_of_nat_small(1) [of n] assms en by simp
    finally show ?thesis .
  qed
qed

definition i64_exact :: "i64 \<Rightarrow> bool" where
  "i64_exact i \<longleftrightarrow> \<bar>sint i\<bar> < 2 ^ 53"

lemma i64_to_f64_eq_iff:
  assumes "i64_exact i" "i64_exact j"
  shows "f64_eq (i64_to_f64 i) (i64_to_f64 j) \<longleftrightarrow> i = j"
proof
  assume eq: "f64_eq (i64_to_f64 i) (i64_to_f64 j)"
  let ?m = "nat \<bar>sint i\<bar>" and ?n = "nat \<bar>sint j\<bar>"
  have b: "?m < 2 ^ 53" "?n < 2 ^ 53"
    using assms by (simp_all add: i64_exact_def)
  have keys: "f64_key (i64_to_f64 i) = f64_key (i64_to_f64 j)"
    using eq by (simp add: f64_eq_def)
  have pos: "0 < f64_mag_of_nat k" if "0 < k" "k < 2 ^ 53" for k
    using f64_mag_of_nat_strict_mono [OF that] by (simp add: f64_mag_of_nat_def)
  have "f64_mag_of_nat ?m = f64_mag_of_nat ?n"
    using keys by (auto simp: f64_key_def f64_mag_i64 split: if_splits)
  then have mn: "?m = ?n"
    using f64_mag_of_nat_strict_mono b by (metis less_irrefl nat_neq_iff)
  have "sint i = sint j"
  proof (cases "?m = 0")
    case True
    with mn show ?thesis by simp
  next
    case False
    then have p: "0 < f64_mag_of_nat ?m" using b pos by simp
    have "sint i < 0 \<longleftrightarrow> sint j < 0"
      using keys p mn by (auto simp: f64_key_def f64_mag_i64 f64_neg_i64 split: if_splits)
    with mn show ?thesis by linarith
  qed
  then show "i = j" by (rule signed_word_eqI)
next
  assume "i = j"
  then show "f64_eq (i64_to_f64 i) (i64_to_f64 j)"
    using f64_finite_not_nan [OF i64_to_f64_finite] by (simp add: f64_eq_def)
qed

end
