(* ===== verification/Core_Types.thy ===== *)
theory Core_Types
  imports Float_Bits
begin

text \<open>
  The shared vocabulary of \<^verbatim>\<open>crates/rekha-core\<close>: metadata values and their serde forms
  (\<^verbatim>\<open>types.rs\<close>), distance spaces, WAL operations (\<^verbatim>\<open>op.rs\<close>), collection configuration
  (\<^verbatim>\<open>config.rs\<close>) and the fencing and ordering primitives (\<^verbatim>\<open>cluster.rs\<close>).

  \<^verbatim>\<open>serde_json::Value\<close> is the datatype \<open>json\<close> with the constructors the code matches on; its
  number type is a parameter \<open>'n\<close> whose accessors are the record \<open>num_ops\<close>, and a map is the
  list of its entries in iteration order.
\<close>

section \<open>JSON values\<close>

datatype 'n json =
    JNull
  | JBool bool
  | JNumber 'n
  | JString string
  | JArray "'n json list"
  | JObject "(string \<times> 'n json) list"

record 'n num_ops =
  num_as_i64 :: "'n \<Rightarrow> i64 option"
  num_as_f64 :: "'n \<Rightarrow> f64 option"
  num_from_i64 :: "i64 \<Rightarrow> 'n"
  num_from_f64 :: "f64 \<Rightarrow> 'n option"

text \<open>What \<^verbatim>\<open>serde_json::Number\<close> documents of these accessors.\<close>

definition num_laws :: "'n num_ops \<Rightarrow> bool" where
  "num_laws N \<longleftrightarrow>
     (\<forall>i. num_as_i64 N (num_from_i64 N i) = Some i) \<and>
     (\<forall>f n. num_from_f64 N f = Some n \<longrightarrow> num_as_i64 N n = None \<and> num_as_f64 N n = Some f) \<and>
     (\<forall>f. num_from_f64 N f = None \<longleftrightarrow> \<not> f64_is_finite f) \<and>
     (\<forall>n f. num_as_f64 N n = Some f \<longrightarrow> f64_is_finite f)"

text \<open>\<^verbatim>\<open>Value::from(i64)\<close> and \<^verbatim>\<open>Value::from(f64)\<close>; a non-finite float becomes null.\<close>

definition json_of_i64 :: "'n num_ops \<Rightarrow> i64 \<Rightarrow> 'n json" where
  "json_of_i64 N i = JNumber (num_from_i64 N i)"

definition json_of_f64 :: "'n num_ops \<Rightarrow> f64 \<Rightarrow> 'n json" where
  "json_of_f64 N f = (case num_from_f64 N f of Some n \<Rightarrow> JNumber n | None \<Rightarrow> JNull)"

lemma num_laws_i64: "num_laws N \<Longrightarrow> num_as_i64 N (num_from_i64 N i) = Some i"
  by (simp add: num_laws_def)

lemma num_laws_f64:
  "num_laws N \<Longrightarrow> f64_is_finite f \<Longrightarrow>
     \<exists>n. num_from_f64 N f = Some n \<and> num_as_i64 N n = None \<and> num_as_f64 N n = Some f"
  by (metis num_laws_def option.exhaust)

section \<open>Metadata values (types.rs)\<close>

datatype metadata_value =
    Str string
  | Bool bool
  | IntV i64
  | Float f64

type_synonym metadata = "(string \<times> metadata_value) list"

text \<open>The derived \<^verbatim>\<open>PartialEq\<close>: the float case is IEEE equality, so NaN differs from itself.\<close>

fun mv_eq :: "metadata_value \<Rightarrow> metadata_value \<Rightarrow> bool" where
  "mv_eq (Str a) (Str b) = (a = b)"
| "mv_eq (Bool a) (Bool b) = (a = b)"
| "mv_eq (IntV a) (IntV b) = (a = b)"
| "mv_eq (Float a) (Float b) = f64_eq a b"
| "mv_eq _ _ = False"

text \<open>\<^verbatim>\<open>HashMap\<close>'s \<^verbatim>\<open>PartialEq\<close>: equal sizes, and every entry found equal in the other map.\<close>

definition metadata_eq :: "metadata \<Rightarrow> metadata \<Rightarrow> bool" where
  "metadata_eq m n \<longleftrightarrow> length m = length n \<and>
     list_all (\<lambda>(k, v). case map_of n k of Some w \<Rightarrow> mv_eq v w | None \<Rightarrow> False) m"

fun opt_metadata_eq :: "metadata option \<Rightarrow> metadata option \<Rightarrow> bool" where
  "opt_metadata_eq None None = True"
| "opt_metadata_eq (Some m) (Some n) = metadata_eq m n"
| "opt_metadata_eq _ _ = False"

fun as_f64 :: "metadata_value \<Rightarrow> f64 option" where
  "as_f64 (IntV i) = Some (i64_to_f64 i)"
| "as_f64 (Float f) = Some f"
| "as_f64 _ = None"

text \<open>
  The two serde forms. A human-readable format gets the bare value; any other format gets a
  newtype variant with its index and name.
\<close>

datatype serde_prim = PStr string | PBool bool | PI64 i64 | PF64 f64

datatype serde_out = Prim serde_prim | NewtypeVariant u32 string serde_prim

fun mv_serialize :: "bool \<Rightarrow> metadata_value \<Rightarrow> serde_out" where
  "mv_serialize human (Str s) = (if human then Prim (PStr s) else NewtypeVariant 0 ''Str'' (PStr s))"
| "mv_serialize human (Bool b) = (if human then Prim (PBool b) else NewtypeVariant 1 ''Bool'' (PBool b))"
| "mv_serialize human (IntV i) = (if human then Prim (PI64 i) else NewtypeVariant 2 ''Int'' (PI64 i))"
| "mv_serialize human (Float f) = (if human then Prim (PF64 f) else NewtypeVariant 3 ''Float'' (PF64 f))"

datatype mv_serde_error = InvalidNumber | InvalidMetadataValue | UnknownVariant

fun mv_deserialize_human :: "'n num_ops \<Rightarrow> 'n json \<Rightarrow> mv_serde_error + metadata_value" where
  "mv_deserialize_human N (JString s) = Inr (Str s)"
| "mv_deserialize_human N (JBool b) = Inr (Bool b)"
| "mv_deserialize_human N (JNumber n) =
     (case num_as_i64 N n of
        Some i \<Rightarrow> Inr (IntV i)
      | None \<Rightarrow> (case num_as_f64 N n of Some f \<Rightarrow> Inr (Float f) | None \<Rightarrow> Inl InvalidNumber))"
| "mv_deserialize_human N _ = Inl InvalidMetadataValue"

text \<open>The derived \<^verbatim>\<open>Helper\<close> enum reads a variant index and that variant's payload.\<close>

fun mv_deserialize_variant :: "u32 \<Rightarrow> serde_prim \<Rightarrow> mv_serde_error + metadata_value" where
  "mv_deserialize_variant i (PStr s) = (if i = 0 then Inr (Str s) else Inl UnknownVariant)"
| "mv_deserialize_variant i (PBool b) = (if i = 1 then Inr (Bool b) else Inl UnknownVariant)"
| "mv_deserialize_variant i (PI64 n) = (if i = 2 then Inr (IntV n) else Inl UnknownVariant)"
| "mv_deserialize_variant i (PF64 f) = (if i = 3 then Inr (Float f) else Inl UnknownVariant)"

fun json_of_prim :: "'n num_ops \<Rightarrow> serde_prim \<Rightarrow> 'n json" where
  "json_of_prim N (PStr s) = JString s"
| "json_of_prim N (PBool b) = JBool b"
| "json_of_prim N (PI64 i) = json_of_i64 N i"
| "json_of_prim N (PF64 f) = json_of_f64 N f"

fun mv_serde_roundtrips :: "'n num_ops \<Rightarrow> metadata_value \<Rightarrow> serde_out \<Rightarrow> bool" where
  "mv_serde_roundtrips N v (Prim p) = (mv_deserialize_human N (json_of_prim N p) = Inr v)"
| "mv_serde_roundtrips N v (NewtypeVariant i _ p) = (mv_deserialize_variant i p = Inr v)"

fun mv_finite :: "metadata_value \<Rightarrow> bool" where
  "mv_finite (Float f) = f64_is_finite f"
| "mv_finite _ = True"

lemma mv_serde_binary: "mv_serde_roundtrips N v (mv_serialize False v)"
  by (cases v) simp_all

lemma mv_serde_human:
  "num_laws N \<Longrightarrow> mv_finite v \<Longrightarrow> mv_serde_roundtrips N v (mv_serialize True v)"
  by (cases v)
    (auto simp: json_of_i64_def json_of_f64_def num_laws_i64 dest: num_laws_f64 split: option.splits)

section \<open>Distance spaces\<close>

datatype distance = L2 | Cosine | Ip

definition distance_default :: distance where "distance_default = L2"

fun distance_name :: "distance \<Rightarrow> string" where
  "distance_name L2 = ''l2''"
| "distance_name Cosine = ''cosine''"
| "distance_name Ip = ''ip''"

definition ascii_lower :: "char \<Rightarrow> char" where
  "ascii_lower c =
     (let n = (of_char c :: nat) in if 65 \<le> n \<and> n \<le> 90 then char_of (n + 32) else c)"

definition to_ascii_lowercase :: "string \<Rightarrow> string" where
  "to_ascii_lowercase s = map ascii_lower s"

datatype distance_parse_error = DistanceParseError string

definition distance_from_str :: "string \<Rightarrow> distance_parse_error + distance" where
  "distance_from_str s =
     (let t = to_ascii_lowercase s
      in if t = ''l2'' then Inr L2
         else if t = ''cosine'' then Inr Cosine
         else if t = ''ip'' then Inr Ip
         else Inl (DistanceParseError s))"

lemma distance_from_str_name: "distance_from_str (distance_name d) = Inr d"
  by (cases d) (simp_all add: distance_from_str_def to_ascii_lowercase_def ascii_lower_def)

section \<open>WAL operations (op.rs)\<close>

type_synonym id = string
type_synonym document = string
type_synonym embedding = "f32 list"

datatype operation =
    Add id embedding "metadata option" "document option"
  | Update id "metadata option" "document option"
  | Delete id
  | Upsert id embedding "metadata option" "document option"

fun op_id :: "operation \<Rightarrow> id" where
  "op_id (Add i _ _ _) = i"
| "op_id (Update i _ _) = i"
| "op_id (Delete i) = i"
| "op_id (Upsert i _ _ _) = i"

fun op_kind :: "operation \<Rightarrow> string" where
  "op_kind (Add _ _ _ _) = ''add''"
| "op_kind (Update _ _ _) = ''update''"
| "op_kind (Delete _) = ''delete''"
| "op_kind (Upsert _ _ _ _) = ''upsert''"

section \<open>Configuration (config.rs)\<close>

type_synonym uuid = "128 word"

record hnsw_config =
  hc_m :: nat
  hc_ef_construction :: nat
  hc_ef_search :: nat
  hc_batch_size :: nat
  hc_sync_threshold :: nat
  hc_max_scan :: nat

definition hnsw_default :: hnsw_config where
  "hnsw_default = \<lparr>hc_m = 16, hc_ef_construction = 200, hc_ef_search = 100,
     hc_batch_size = 100, hc_sync_threshold = 1000, hc_max_scan = 10000\<rparr>"

record collection_config =
  cc_id :: uuid
  cc_tenant :: string
  cc_database :: string
  cc_name :: string
  cc_dimension :: nat
  cc_space :: distance
  cc_metadata :: "metadata option"
  cc_hnsw :: hnsw_config
  cc_created_at_ms :: u64

text \<open>The fresh uuid and the clock reading are arguments; the \<^verbatim>\<open>u128 as u64\<close> cast truncates.\<close>

definition collection_config_new ::
  "uuid \<Rightarrow> nat \<Rightarrow> string \<Rightarrow> nat \<Rightarrow> distance \<Rightarrow> collection_config" where
  "collection_config_new fresh now_ms name dimension space =
     \<lparr>cc_id = fresh, cc_tenant = ''default_tenant'', cc_database = ''default_database'',
      cc_name = name, cc_dimension = dimension, cc_space = space, cc_metadata = None,
      cc_hnsw = hnsw_default, cc_created_at_ms = of_nat now_ms\<rparr>"

section \<open>Fencing and ordering (cluster.rs)\<close>

text \<open>Both derive \<^verbatim>\<open>Ord\<close>: by the field, and lexicographically on \<^verbatim>\<open>(node, seq)\<close>.\<close>

datatype epoch = Epoch (epoch_val: u64)

datatype clock_tag = ClockTag (tag_node: u64) (tag_seq: u64)

instantiation epoch :: linorder
begin

definition less_eq_epoch :: "epoch \<Rightarrow> epoch \<Rightarrow> bool" where
  "less_eq_epoch a b \<longleftrightarrow> epoch_val a \<le> epoch_val b"

definition less_epoch :: "epoch \<Rightarrow> epoch \<Rightarrow> bool" where
  "less_epoch a b \<longleftrightarrow> epoch_val a < epoch_val b"

instance
  by standard (auto simp: less_eq_epoch_def less_epoch_def epoch.expand)

end

instantiation clock_tag :: linorder
begin

definition less_eq_clock_tag :: "clock_tag \<Rightarrow> clock_tag \<Rightarrow> bool" where
  "less_eq_clock_tag a b \<longleftrightarrow>
     tag_node a < tag_node b \<or> (tag_node a = tag_node b \<and> tag_seq a \<le> tag_seq b)"

definition less_clock_tag :: "clock_tag \<Rightarrow> clock_tag \<Rightarrow> bool" where
  "less_clock_tag a b \<longleftrightarrow>
     tag_node a < tag_node b \<or> (tag_node a = tag_node b \<and> tag_seq a < tag_seq b)"

instance
  by standard (auto simp: less_eq_clock_tag_def less_clock_tag_def clock_tag.expand)

end

datatype replica_state = Initializing | Active | Partial | Dead

record replica_info =
  ri_node :: u64
  ri_state :: replica_state
  ri_log_offset :: u64

end
