(* ===== verification/Where_Filter.thy ===== *)
theory Where_Filter
  imports Core_Types
begin

text \<open>
  The Chroma \<^verbatim>\<open>where\<close> filters of \<^verbatim>\<open>crates/rekha-core/src/filter.rs\<close>: the condition trees,
  the parser from JSON values with every error branch, the evaluator that is the semantics
  oracle of the metadata index, and the canonical serializer with its round trip.
\<close>

section \<open>Conditions\<close>

datatype comparison_op =
    Eq metadata_value
  | Ne metadata_value
  | Gt f64
  | Gte f64
  | Lt f64
  | Lte f64
  | In "metadata_value list"
  | Nin "metadata_value list"

datatype where_condition =
    Comparison string comparison_op
  | And "where_condition list"
  | Or "where_condition list"

record where_filter =
  wf_condition :: where_condition

datatype where_parse_error =
    ExpectedObject string
  | ExpectedArray string string
  | UnknownOperator string
  | ExpectedNumber string string
  | EmptyOps string
  | InvalidValue string
  | NumberOutOfRange
  | AndOrConflict
  | OrWithOtherKeys
  | Empty
  | EmptyList string
  | InvalidJson string

section \<open>Evaluation\<close>

fun values_equal :: "metadata_value \<Rightarrow> metadata_value \<Rightarrow> bool" where
  "values_equal (Str x) (Str y) = (x = y)"
| "values_equal (Bool x) (Bool y) = (x = y)"
| "values_equal (IntV x) (IntV y) = (x = y)"
| "values_equal (Float x) (Float y) = f64_eq x y"
| "values_equal (IntV x) (Float y) = f64_eq (i64_to_f64 x) y"
| "values_equal (Float x) (IntV y) = f64_eq x (i64_to_f64 y)"
| "values_equal _ _ = False"

definition numeric :: "metadata \<Rightarrow> string \<Rightarrow> f64 option" where
  "numeric md key = Option.bind (map_of md key) as_f64"

definition is_some_and :: "'a option \<Rightarrow> ('a \<Rightarrow> bool) \<Rightarrow> bool" where
  "is_some_and x p = (case x of Some v \<Rightarrow> p v | None \<Rightarrow> False)"

fun match_op :: "string \<Rightarrow> comparison_op \<Rightarrow> metadata \<Rightarrow> bool" where
  "match_op key (Eq v) md = is_some_and (map_of md key) (\<lambda>a. values_equal a v)"
| "match_op key (Ne v) md = is_some_and (map_of md key) (\<lambda>a. \<not> values_equal a v)"
| "match_op key (Gt n) md = is_some_and (numeric md key) (\<lambda>a. f64_lt n a)"
| "match_op key (Gte n) md = is_some_and (numeric md key) (\<lambda>a. f64_le n a)"
| "match_op key (Lt n) md = is_some_and (numeric md key) (\<lambda>a. f64_lt a n)"
| "match_op key (Lte n) md = is_some_and (numeric md key) (\<lambda>a. f64_le a n)"
| "match_op key (In vs) md =
     is_some_and (map_of md key) (\<lambda>a. list_ex (\<lambda>v. values_equal a v) vs)"
| "match_op key (Nin vs) md =
     (case map_of md key of
        None \<Rightarrow> True
      | Some a \<Rightarrow> \<not> list_ex (\<lambda>v. values_equal a v) vs)"

fun match_condition :: "where_condition \<Rightarrow> metadata \<Rightarrow> bool" where
  "match_condition (Comparison key cop) md = match_op key cop md"
| "match_condition (And conds) md = list_all (\<lambda>c. match_condition c md) conds"
| "match_condition (Or conds) md = list_ex (\<lambda>c. match_condition c md) conds"

definition matches :: "where_filter \<Rightarrow> metadata \<Rightarrow> bool" where
  "matches f md = match_condition (wf_condition f) md"

lemma is_some_and_simps [simp]:
  "is_some_and None p = False" "is_some_and (Some v) p = p v"
  by (simp_all add: is_some_and_def)

section \<open>Parsing\<close>

fun describe :: "'n json \<Rightarrow> string" where
  "describe JNull = ''null''"
| "describe (JBool _) = ''boolean''"
| "describe (JNumber _) = ''number''"
| "describe (JString _) = ''string''"
| "describe (JArray _) = ''array''"
| "describe (JObject _) = ''object''"

fun as_array :: "'n json \<Rightarrow> string \<Rightarrow> where_parse_error + 'n json list" where
  "as_array (JArray vs) op = Inr vs"
| "as_array v op = Inl (ExpectedArray op (describe v))"

fun number :: "'n num_ops \<Rightarrow> 'n json \<Rightarrow> string \<Rightarrow> where_parse_error + f64" where
  "number N (JNumber n) op =
     (case num_as_f64 N n of
        Some f \<Rightarrow> Inr f
      | None \<Rightarrow> Inl (ExpectedNumber op (describe (JNumber n))))"
| "number N v op = Inl (ExpectedNumber op (describe v))"

fun metadata_value_of_json :: "'n num_ops \<Rightarrow> 'n json \<Rightarrow> where_parse_error + metadata_value" where
  "metadata_value_of_json N (JString s) = Inr (Str s)"
| "metadata_value_of_json N (JBool b) = Inr (Bool b)"
| "metadata_value_of_json N (JNumber n) =
     (case num_as_i64 N n of
        Some i \<Rightarrow> Inr (IntV i)
      | None \<Rightarrow> (case num_as_f64 N n of Some f \<Rightarrow> Inr (Float f) | None \<Rightarrow> Inl NumberOutOfRange))"
| "metadata_value_of_json N v = Inl (InvalidValue (describe v))"

definition value_list :: "'n num_ops \<Rightarrow> 'n json \<Rightarrow> string \<Rightarrow> where_parse_error + metadata_value list" where
  "value_list N v op = and_then (as_array v op) (collect_results (metadata_value_of_json N))"

definition parse_op :: "'n num_ops \<Rightarrow> string \<Rightarrow> 'n json \<Rightarrow> where_parse_error + comparison_op" where
  "parse_op N op v =
     (if op = ''$eq'' then and_then (metadata_value_of_json N v) (Inr \<circ> Eq)
      else if op = ''$ne'' then and_then (metadata_value_of_json N v) (Inr \<circ> Ne)
      else if op = ''$gt'' then and_then (number N v ''$gt'') (Inr \<circ> Gt)
      else if op = ''$gte'' then and_then (number N v ''$gte'') (Inr \<circ> Gte)
      else if op = ''$lt'' then and_then (number N v ''$lt'') (Inr \<circ> Lt)
      else if op = ''$lte'' then and_then (number N v ''$lte'') (Inr \<circ> Lte)
      else if op = ''$in'' then and_then (value_list N v ''$in'') (Inr \<circ> In)
      else if op = ''$nin'' then and_then (value_list N v ''$nin'') (Inr \<circ> Nin)
      else Inl (UnknownOperator op))"

fun normalize_list :: "where_condition list \<Rightarrow> string \<Rightarrow> where_parse_error + where_condition" where
  "normalize_list [] what = Inl (EmptyList what)"
| "normalize_list [c] what = Inr c"
| "normalize_list cs what = Inr (And cs)"

fun parse_field_condition :: "'n num_ops \<Rightarrow> string \<Rightarrow> 'n json \<Rightarrow> where_parse_error + where_condition" where
  "parse_field_condition N key (JObject ops) =
     (if ops = [] then Inl (EmptyOps key)
      else and_then
        (collect_results (\<lambda>(op, v). and_then (parse_op N op v) (Inr \<circ> Comparison key)) ops)
        (\<lambda>conds. normalize_list conds ''operator''))"
| "parse_field_condition N key v =
     and_then (metadata_value_of_json N v) (\<lambda>mv. Inr (Comparison key (Eq mv)))"

text \<open>The loop of \<^verbatim>\<open>parse_object\<close> over the map's entries, with its three accumulators.\<close>

fun scan_object ::
  "'n num_ops \<Rightarrow> (string \<times> 'n json) list \<Rightarrow> where_condition list \<Rightarrow> 'n json list option \<Rightarrow>
   'n json list option \<Rightarrow>
   where_parse_error + (where_condition list \<times> 'n json list option \<times> 'n json list option)" where
  "scan_object N [] flds ea eo = Inr (flds, ea, eo)"
| "scan_object N ((key, v) # rest) flds ea eo =
     (if key = ''$and'' then and_then (as_array v ''$and'') (\<lambda>l. scan_object N rest flds (Some l) eo)
      else if key = ''$or'' then and_then (as_array v ''$or'') (\<lambda>l. scan_object N rest flds ea (Some l))
      else and_then (parse_field_condition N key v)
             (\<lambda>c. scan_object N rest (flds @ [c]) ea eo))"

fun json_size :: "'n json \<Rightarrow> nat" where
  "json_size (JArray vs) = Suc (sum_list (map (\<lambda>v. Suc (json_size v)) vs))"
| "json_size (JObject m) = Suc (sum_list (map (\<lambda>(k, v). json_size v) m))"
| "json_size _ = 1"

definition jsons_size :: "'n json list \<Rightarrow> nat" where
  "jsons_size vs = sum_list (map (\<lambda>v. Suc (json_size v)) vs)"

lemma json_size_pos: "0 < json_size v"
  by (cases v) simp_all

lemma scan_object_size:
  "scan_object N m flds ea eo = Inr (fs, a, or') \<Longrightarrow>
   (\<forall>l. ea = Some l \<longrightarrow> jsons_size l \<le> B) \<Longrightarrow> (\<forall>l. eo = Some l \<longrightarrow> jsons_size l \<le> B) \<Longrightarrow>
   sum_list (map (\<lambda>(k, v). json_size v) m) \<le> B \<Longrightarrow>
   (\<forall>l. a = Some l \<longrightarrow> jsons_size l \<le> B) \<and> (\<forall>l. or' = Some l \<longrightarrow> jsons_size l \<le> B)"
proof (induction N m flds ea eo rule: scan_object.induct)
  case (1 N flds ea eo)
  then show ?case by auto
next
  case (2 N key v rest flds ea eo)
  have arr: "jsons_size l \<le> B" if "as_array v s = Inr l" for l s
    using that 2(7) by (cases v) (auto simp: jsons_size_def)
  show ?case
    using 2 arr by (auto simp: and_then_Inr_iff split: if_splits)
qed

text \<open>
  \<^verbatim>\<open>parse_condition\<close>, \<^verbatim>\<open>parse_object\<close> and \<^verbatim>\<open>parse_list\<close>: recursion through the array of an
  \<^verbatim>\<open>$and\<close> or \<^verbatim>\<open>$or\<close> entry, so the nested JSON size decreases.
\<close>

function parse_condition :: "'n num_ops \<Rightarrow> 'n json \<Rightarrow> where_parse_error + where_condition"
  and parse_object :: "'n num_ops \<Rightarrow> (string \<times> 'n json) list \<Rightarrow> where_parse_error + where_condition"
  and parse_list :: "'n num_ops \<Rightarrow> 'n json list \<Rightarrow> where_parse_error + where_condition list" where
  "parse_condition N v =
     (case v of JObject m \<Rightarrow> parse_object N m | _ \<Rightarrow> Inl (ExpectedObject (describe v)))"
| "parse_object N m =
     (case scan_object N m [] None None of
        Inl e \<Rightarrow> Inl e
      | Inr (flds, explicit_and, explicit_or) \<Rightarrow>
          if explicit_and \<noteq> None \<and> explicit_or \<noteq> None then Inl AndOrConflict
          else (case explicit_or of
             Some or_list \<Rightarrow>
               if flds \<noteq> [] then Inl OrWithOtherKeys
               else and_then (parse_list N or_list)
                      (\<lambda>conds. case conds of
                          [] \<Rightarrow> Inl (EmptyList ''$or'')
                        | [c] \<Rightarrow> Inr c
                        | _ \<Rightarrow> Inr (Or conds))
           | None \<Rightarrow>
               (case explicit_and of
                  Some and_list \<Rightarrow>
                    and_then (parse_list N and_list)
                      (\<lambda>conds. normalize_list (conds @ flds) ''$and'')
                | None \<Rightarrow> normalize_list flds ''field'')))"
| "parse_list N [] = Inr []"
| "parse_list N (v # vs) =
     and_then (parse_condition N v)
       (\<lambda>c. and_then (parse_list N vs) (\<lambda>cs. Inr (c # cs)))"
  by pat_completeness auto
termination
proof -
  have and_le: "jsons_size l \<le> sum_list (map (\<lambda>(k, v). json_size v) m)"
    if "scan_object N m [] None None = Inr (flds, Some l, eo)" for N :: "'n num_ops" and m flds l eo
    using scan_object_size [OF that] by simp
  have or_le: "jsons_size l \<le> sum_list (map (\<lambda>(k, v). json_size v) m)"
    if "scan_object N m [] None None = Inr (flds, ea, Some l)" for N :: "'n num_ops" and m flds l ea
    using scan_object_size [OF that] by simp
  show ?thesis
    by (relation "measure (\<lambda>x. case x of
         Inl (N, v) \<Rightarrow> 2 * json_size v
       | Inr (Inl (N, m)) \<Rightarrow> 2 * sum_list (map (\<lambda>(k, v). json_size v) m) + 1
       | Inr (Inr (N, vs)) \<Rightarrow> 2 * jsons_size vs)")
      (auto simp: jsons_size_def dest!: and_le [unfolded jsons_size_def] or_le [unfolded jsons_size_def])
qed

declare parse_condition.simps [simp del] parse_object.simps [simp del]

definition from_json_value :: "'n num_ops \<Rightarrow> 'n json \<Rightarrow> where_parse_error + where_filter" where
  "from_json_value N v = and_then (parse_condition N v) (\<lambda>c. Inr \<lparr>wf_condition = c\<rparr>)"

text \<open>\<^verbatim>\<open>parse_json\<close>: the JSON text parser is \<^verbatim>\<open>serde_json\<close>'s, an argument.\<close>

definition parse_json ::
  "'n num_ops \<Rightarrow> (string \<Rightarrow> string + 'n json) \<Rightarrow> string \<Rightarrow> where_parse_error + where_filter" where
  "parse_json N from_str s =
     (case from_str s of Inl e \<Rightarrow> Inl (InvalidJson e) | Inr v \<Rightarrow> from_json_value N v)"

section \<open>Serialization\<close>

fun metadata_value_to_json :: "'n num_ops \<Rightarrow> metadata_value \<Rightarrow> 'n json" where
  "metadata_value_to_json N (Str s) = JString s"
| "metadata_value_to_json N (Bool b) = JBool b"
| "metadata_value_to_json N (IntV i) = json_of_i64 N i"
| "metadata_value_to_json N (Float f) = json_of_f64 N f"

fun op_to_value :: "'n num_ops \<Rightarrow> comparison_op \<Rightarrow> 'n json" where
  "op_to_value N (Eq v) = JObject [(''$eq'', metadata_value_to_json N v)]"
| "op_to_value N (Ne v) = JObject [(''$ne'', metadata_value_to_json N v)]"
| "op_to_value N (Gt n) = JObject [(''$gt'', json_of_f64 N n)]"
| "op_to_value N (Gte n) = JObject [(''$gte'', json_of_f64 N n)]"
| "op_to_value N (Lt n) = JObject [(''$lt'', json_of_f64 N n)]"
| "op_to_value N (Lte n) = JObject [(''$lte'', json_of_f64 N n)]"
| "op_to_value N (In vs) = JObject [(''$in'', JArray (map (metadata_value_to_json N) vs))]"
| "op_to_value N (Nin vs) = JObject [(''$nin'', JArray (map (metadata_value_to_json N) vs))]"

fun condition_to_value :: "'n num_ops \<Rightarrow> where_condition \<Rightarrow> 'n json" where
  "condition_to_value N (Comparison key cop) = JObject [(key, op_to_value N cop)]"
| "condition_to_value N (And conds) = JObject [(''$and'', JArray (map (condition_to_value N) conds))]"
| "condition_to_value N (Or conds) = JObject [(''$or'', JArray (map (condition_to_value N) conds))]"

text \<open>\<^verbatim>\<open>to_json\<close>: the text writer is \<^verbatim>\<open>serde_json\<close>'s, \<open>None\<close> where it fails.\<close>

definition to_json :: "'n num_ops \<Rightarrow> ('n json \<Rightarrow> string option) \<Rightarrow> where_filter \<Rightarrow> string" where
  "to_json N to_string f =
     (case to_string (condition_to_value N (wf_condition f)) of Some s \<Rightarrow> s | None \<Rightarrow> [])"

section \<open>Parsed filters are canonical\<close>

fun op_finite :: "comparison_op \<Rightarrow> bool" where
  "op_finite (Eq v) = mv_finite v"
| "op_finite (Ne v) = mv_finite v"
| "op_finite (Gt n) = f64_is_finite n"
| "op_finite (Gte n) = f64_is_finite n"
| "op_finite (Lt n) = f64_is_finite n"
| "op_finite (Lte n) = f64_is_finite n"
| "op_finite (In vs) = list_all mv_finite vs"
| "op_finite (Nin vs) = list_all mv_finite vs"

text \<open>The shape of every condition the parser builds.\<close>

fun canonical :: "where_condition \<Rightarrow> bool" where
  "canonical (Comparison key cop) = (key \<noteq> ''$and'' \<and> key \<noteq> ''$or'' \<and> op_finite cop)"
| "canonical (And cs) = (2 \<le> length cs \<and> list_all canonical cs)"
| "canonical (Or cs) = (2 \<le> length cs \<and> list_all canonical cs)"

lemma mv_of_json_finite:
  "num_laws N \<Longrightarrow> metadata_value_of_json N v = Inr mv \<Longrightarrow> mv_finite mv"
  by (cases v) (auto simp: num_laws_def split: option.splits)

lemma number_finite: "num_laws N \<Longrightarrow> number N v op = Inr f \<Longrightarrow> f64_is_finite f"
  by (cases v) (auto simp: num_laws_def split: option.splits)

lemma value_list_finite:
  "num_laws N \<Longrightarrow> value_list N v op = Inr vs \<Longrightarrow> list_all mv_finite vs"
  by (auto simp: value_list_def and_then_Inr_iff elim!: collect_results_all intro: mv_of_json_finite)

lemma parse_op_finite: "num_laws N \<Longrightarrow> parse_op N op v = Inr cop \<Longrightarrow> op_finite cop"
  by (auto simp: parse_op_def and_then_Inr_iff split: if_splits
      intro: mv_of_json_finite number_finite value_list_finite)

lemma normalize_list_canonical:
  "normalize_list cs what = Inr c \<Longrightarrow> list_all canonical cs \<Longrightarrow> canonical c"
  by (cases "(cs, what)" rule: normalize_list.cases) auto

lemma parse_field_canonical:
  assumes "num_laws N" "key \<noteq> ''$and''" "key \<noteq> ''$or''" "parse_field_condition N key v = Inr c"
  shows "canonical c"
proof (cases v)
  case (JObject ops)
  with assms(4) obtain cs where
    cs: "collect_results (\<lambda>(op, v). and_then (parse_op N op v) (Inr \<circ> Comparison key)) ops = Inr cs"
    and c: "normalize_list cs ''operator'' = Inr c"
    by (auto simp: and_then_Inr_iff split: if_splits)
  have "list_all canonical cs"
  proof (rule collect_results_all [OF cs])
    fix p y
    assume "(case p of (op, v) \<Rightarrow> and_then (parse_op N op v) (Inr \<circ> Comparison key)) = Inr y"
    then obtain cop where "parse_op N (fst p) (snd p) = Inr cop" "y = Comparison key cop"
      by (auto simp: and_then_Inr_iff split: prod.splits)
    with assms(1-3) show "canonical y"
      using parse_op_finite [OF assms(1)] by simp
  qed
  with c show ?thesis by (rule normalize_list_canonical)
qed (use assms mv_of_json_finite [OF assms(1), of v] in
    \<open>auto simp: and_then_Inr_iff split: option.splits\<close>)

lemma scan_object_canonical:
  "scan_object N m flds ea eo = Inr (fs, a, or') \<Longrightarrow> num_laws N \<Longrightarrow>
   list_all canonical flds \<Longrightarrow> list_all canonical fs"
  by (induction N m flds ea eo rule: scan_object.induct)
    (auto simp: and_then_Inr_iff dest: parse_field_canonical split: if_splits)

lemma parse_canonical:
  "num_laws N \<Longrightarrow> parse_condition N v = Inr c \<Longrightarrow> canonical c"
  "num_laws N \<Longrightarrow> parse_object N m = Inr c' \<Longrightarrow> canonical c'"
  "num_laws N \<Longrightarrow> parse_list N vs = Inr cs \<Longrightarrow> list_all canonical cs"
proof (induction N v and N m and N vs arbitrary: c and c' and cs
    rule: parse_condition_parse_object_parse_list.induct)
  case (1 N v)
  then show ?case by (auto simp: parse_condition.simps [of N v] split: json.splits)
next
  case (2 N m)
  from "2.prems"(2) obtain flds ea eo where
    scan: "scan_object N m [] None None = Inr (flds, ea, eo)"
    by (auto simp: parse_object.simps [of N m] split: sum.splits)
  have fs: "list_all canonical flds"
    using scan_object_canonical [OF scan "2.prems"(1)] by simp
  show ?case
  proof (cases eo)
    case None
    show ?thesis
    proof (cases ea)
      case None
      with \<open>eo = None\<close> "2.prems"(2) scan fs show ?thesis
        by (auto simp: parse_object.simps [of N m] intro: normalize_list_canonical)
    next
      case (Some l)
      with \<open>eo = None\<close> "2.prems"(2) scan obtain cs where
        "parse_list N l = Inr cs" "normalize_list (cs @ flds) ''$and'' = Inr c'"
        by (auto simp: parse_object.simps [of N m] and_then_Inr_iff)
      then show ?thesis
        using "2.IH" scan None Some fs "2.prems"(1) normalize_list_canonical by fastforce
    qed
  next
    case (Some l)
    with "2.prems"(2) scan obtain cs where
      l: "parse_list N l = Inr cs" and ea: "ea = None" and f: "flds = []"
      and c: "(case cs of [] \<Rightarrow> Inl (EmptyList ''$or'') | [c] \<Rightarrow> Inr c | _ \<Rightarrow> Inr (Or cs)) = Inr c'"
      by (auto simp: parse_object.simps [of N m] and_then_Inr_iff split: if_splits)
    have "list_all canonical cs"
      using "2.IH" scan Some l ea f "2.prems"(1) by fastforce
    with c show ?thesis by (auto split: list.splits)
  qed
next
  case (3 N)
  then show ?case by simp
next
  case (4 N v vs)
  then show ?case by (auto simp: and_then_Inr_iff)
qed

section \<open>The round trip\<close>

lemma mv_json_roundtrip:
  "num_laws N \<Longrightarrow> mv_finite v \<Longrightarrow> metadata_value_of_json N (metadata_value_to_json N v) = Inr v"
  by (cases v) (auto simp: json_of_i64_def json_of_f64_def num_laws_i64 dest: num_laws_f64)

lemma number_json_roundtrip:
  "num_laws N \<Longrightarrow> f64_is_finite f \<Longrightarrow> number N (json_of_f64 N f) op = Inr f"
  by (auto simp: json_of_f64_def dest: num_laws_f64)

lemma value_list_roundtrip:
  "num_laws N \<Longrightarrow> list_all mv_finite vs \<Longrightarrow>
   value_list N (JArray (map (metadata_value_to_json N) vs)) op = Inr vs"
  by (induction vs) (simp_all add: value_list_def mv_json_roundtrip)

lemma parse_field_roundtrip:
  "num_laws N \<Longrightarrow> op_finite cop \<Longrightarrow>
   parse_field_condition N key (op_to_value N cop) = Inr (Comparison key cop)"
  by (cases cop)
    (simp_all add: parse_op_def mv_json_roundtrip number_json_roundtrip value_list_roundtrip)

lemma parse_list_map:
  "(\<And>c. c \<in> set cs \<Longrightarrow> parse_condition N (f c) = Inr c) \<Longrightarrow> parse_list N (map f cs) = Inr cs"
  by (induction cs) auto

lemma two_le_length: "2 \<le> length xs \<Longrightarrow> \<exists>a b ys. xs = a # b # ys"
  by (metis Suc_le_length_iff numeral_2_eq_2)

lemma condition_roundtrip:
  "num_laws N \<Longrightarrow> canonical c \<Longrightarrow> parse_condition N (condition_to_value N c) = Inr c"
proof (induction c)
  case (Comparison key cop)
  then show ?case
    by (simp add: parse_condition.simps parse_object.simps parse_field_roundtrip)
next
  case (And cs)
  then have "parse_list N (map (condition_to_value N) cs) = Inr cs"
    by (intro parse_list_map) (auto simp: list_all_iff)
  with And.prems two_le_length [of cs] show ?case
    by (auto simp: parse_condition.simps parse_object.simps)
next
  case (Or cs)
  then have "parse_list N (map (condition_to_value N) cs) = Inr cs"
    by (intro parse_list_map) (auto simp: list_all_iff)
  with Or.prems two_le_length [of cs] show ?case
    by (auto simp: parse_condition.simps parse_object.simps)
qed

section \<open>Properties\<close>

text \<open>A number type for the witnesses: an integer or a finite float.\<close>

definition demo_num :: "(i64 + f64) num_ops" where
  "demo_num =
     \<lparr>num_as_i64 = (\<lambda>n. case n of Inl i \<Rightarrow> Some i | Inr f \<Rightarrow> None),
      num_as_f64 = (\<lambda>n. case n of Inl i \<Rightarrow> Some (i64_to_f64 i)
                              | Inr f \<Rightarrow> if f64_is_finite f then Some f else None),
      num_from_i64 = Inl,
      num_from_f64 = (\<lambda>f. if f64_is_finite f then Some (Inr f) else None)\<rparr>"

lemma demo_num_laws: "num_laws demo_num"
  by (auto simp: num_laws_def demo_num_def i64_to_f64_finite split: sum.splits if_splits)

text \<open>C9: Serializing a filter loses nothing. Whatever shape of JSON a filter was parsed from, its
  canonical operator form parses back to the same condition; parsed conditions never contain a
  connective with fewer than two children, a comparison on a connective's name, or a float that
  JSON cannot write.\<close>

theorem filter_serialization_lossless:
  assumes "num_laws N" "from_json_value N v = Inr f"
  shows "canonical (wf_condition f) \<and> from_json_value N (condition_to_value N (wf_condition f)) = Inr f"
proof -
  from assms(2) have c: "parse_condition N v = Inr (wf_condition f)"
    by (auto simp: from_json_value_def and_then_Inr_iff)
  have "canonical (wf_condition f)" by (rule parse_canonical(1) [OF assms(1) c])
  then show ?thesis using condition_roundtrip [OF assms(1)] by (simp add: from_json_value_def)
qed

lemma filter_serialization_lossless_witness:
  "canonical (Comparison ''k'' (Eq (IntV 7))) \<and>
   from_json_value demo_num (condition_to_value demo_num (Comparison ''k'' (Eq (IntV 7)))) =
     Inr \<lparr>wf_condition = Comparison ''k'' (Eq (IntV 7))\<rparr>"
  using filter_serialization_lossless [OF demo_num_laws,
      of "JObject [(''k'', JNumber (Inl 7))]" "\<lparr>wf_condition = Comparison ''k'' (Eq (IntV 7))\<rparr>"]
  by (simp add: from_json_value_def parse_condition.simps parse_object.simps demo_num_def)

end
