(* ===== verification/Metadata_Postings.thy ===== *)
theory Metadata_Postings
  imports Where_Filter
begin

text \<open>
  The inverted metadata index of \<^verbatim>\<open>crates/rekha-engine/src/postings.rs\<close>: its state, the
  insert, remove and remove-all operations with the pruning of empty bitmaps, and the filter
  evaluator over bitmaps. The bitmaps (\<^verbatim>\<open>roaring\<close>) and the float wrapper
  (\<^verbatim>\<open>ordered_float\<close>) are parameters, with their documented behaviour as named laws.

  The locale \<open>metadata_index\<close> is what the engine relies on: an index represents a map from live
  offsets to metadata, and evaluating a filter on it selects the offsets whose metadata match.
\<close>

section \<open>Third-party parameters\<close>

record 'b bitmap_ops =
  bm_new :: 'b
  bm_insert :: "u32 \<Rightarrow> 'b \<Rightarrow> 'b"
  bm_remove :: "u32 \<Rightarrow> 'b \<Rightarrow> 'b"
  bm_union :: "'b \<Rightarrow> 'b \<Rightarrow> 'b"
  bm_inter :: "'b \<Rightarrow> 'b \<Rightarrow> 'b"
  bm_diff :: "'b \<Rightarrow> 'b \<Rightarrow> 'b"
  bm_is_empty :: "'b \<Rightarrow> bool"
  bm_contains :: "'b \<Rightarrow> u32 \<Rightarrow> bool"
  bm_len :: "'b \<Rightarrow> nat"
  bm_iter :: "'b \<Rightarrow> u32 list"

text \<open>A \<^verbatim>\<open>RoaringBitmap\<close> is a set of \<^verbatim>\<open>u32\<close>, iterated in ascending order.\<close>

definition bitmap_laws :: "'b bitmap_ops \<Rightarrow> bool" where
  "bitmap_laws B \<longleftrightarrow>
     (\<forall>x. \<not> bm_contains B (bm_new B) x) \<and>
     (\<forall>i b x. bm_contains B (bm_insert B i b) x \<longleftrightarrow> x = i \<or> bm_contains B b x) \<and>
     (\<forall>i b x. bm_contains B (bm_remove B i b) x \<longleftrightarrow> x \<noteq> i \<and> bm_contains B b x) \<and>
     (\<forall>a b x. bm_contains B (bm_union B a b) x \<longleftrightarrow> bm_contains B a x \<or> bm_contains B b x) \<and>
     (\<forall>a b x. bm_contains B (bm_inter B a b) x \<longleftrightarrow> bm_contains B a x \<and> bm_contains B b x) \<and>
     (\<forall>a b x. bm_contains B (bm_diff B a b) x \<longleftrightarrow> bm_contains B a x \<and> \<not> bm_contains B b x) \<and>
     (\<forall>b. bm_is_empty B b \<longleftrightarrow> (\<forall>x. \<not> bm_contains B b x)) \<and>
     (\<forall>b. bm_len B b = card {x. bm_contains B b x}) \<and>
     (\<forall>b. set (bm_iter B b) = {x. bm_contains B b x} \<and> sorted_wrt (<) (bm_iter B b))"

record of_ops =
  of_eq :: "f64 \<Rightarrow> f64 \<Rightarrow> bool"
  of_lt :: "f64 \<Rightarrow> f64 \<Rightarrow> bool"

text \<open>\<^verbatim>\<open>OrderedFloat\<close>: NaN equals itself and is greater than every other value.\<close>

definition of_laws :: "of_ops \<Rightarrow> bool" where
  "of_laws F \<longleftrightarrow>
     (\<forall>a b. of_eq F a b \<longleftrightarrow> (f64_is_nan a \<and> f64_is_nan b) \<or> f64_eq a b) \<and>
     (\<forall>a b. of_lt F a b \<longleftrightarrow> (\<not> f64_is_nan a \<and> f64_is_nan b) \<or> f64_lt a b)"

lemma bitmap_simps:
  assumes "bitmap_laws B"
  shows "\<not> bm_contains B (bm_new B) x"
    "bm_contains B (bm_insert B i b) x \<longleftrightarrow> x = i \<or> bm_contains B b x"
    "bm_contains B (bm_remove B i b) x \<longleftrightarrow> x \<noteq> i \<and> bm_contains B b x"
    "bm_contains B (bm_union B a b) x \<longleftrightarrow> bm_contains B a x \<or> bm_contains B b x"
    "bm_contains B (bm_inter B a b) x \<longleftrightarrow> bm_contains B a x \<and> bm_contains B b x"
    "bm_contains B (bm_diff B a b) x \<longleftrightarrow> bm_contains B a x \<and> \<not> bm_contains B b x"
    "bm_is_empty B b \<longleftrightarrow> (\<forall>x. \<not> bm_contains B b x)"
    "set (bm_iter B b) = {x. bm_contains B b x}"
  using assms by (simp_all add: bitmap_laws_def)

text \<open>Concrete parameters for the witnesses: a bitmap is a set of 32-bit words.\<close>

definition set_bitmap :: "u32 set bitmap_ops" where
  "set_bitmap =
     \<lparr>bm_new = {}, bm_insert = insert, bm_remove = (\<lambda>i b. b - {i}), bm_union = (\<union>), bm_inter = (\<inter>),
      bm_diff = (-), bm_is_empty = (\<lambda>b. b = {}), bm_contains = (\<lambda>b x. x \<in> b), bm_len = card,
      bm_iter = sorted_list_of_set\<rparr>"

definition ordered_f64 :: of_ops where
  "ordered_f64 =
     \<lparr>of_eq = (\<lambda>a b. (f64_is_nan a \<and> f64_is_nan b) \<or> f64_eq a b),
      of_lt = (\<lambda>a b. (\<not> f64_is_nan a \<and> f64_is_nan b) \<or> f64_lt a b)\<rparr>"

lemma set_bitmap_laws: "bitmap_laws set_bitmap"
  by (auto simp: bitmap_laws_def set_bitmap_def strict_sorted_list_of_set)

lemma ordered_f64_laws: "of_laws ordered_f64"
  by (simp add: of_laws_def ordered_f64_def)

section \<open>Keys\<close>

datatype value_key =
    VKStr string
  | VKBool bool
  | VKNum f64

fun from_value :: "metadata_value \<Rightarrow> value_key" where
  "from_value (Str s) = VKStr s"
| "from_value (Bool b) = VKBool b"
| "from_value (IntV i) = VKNum (i64_to_f64 i)"
| "from_value (Float f) = VKNum f"

text \<open>The derived equality, with the wrapper's equality on numbers.\<close>

fun vk_eq :: "of_ops \<Rightarrow> value_key \<Rightarrow> value_key \<Rightarrow> bool" where
  "vk_eq F (VKStr a) (VKStr b) = (a = b)"
| "vk_eq F (VKBool a) (VKBool b) = (a = b)"
| "vk_eq F (VKNum a) (VKNum b) = of_eq F a b"
| "vk_eq F _ _ = False"

definition equiv_rel :: "('k \<Rightarrow> 'k \<Rightarrow> bool) \<Rightarrow> bool" where
  "equiv_rel eq \<longleftrightarrow> (\<forall>a. eq a a) \<and> (\<forall>a b. eq a b \<longrightarrow> eq b a) \<and> (\<forall>a b c. eq a b \<longrightarrow> eq b c \<longrightarrow> eq a c)"

lemma of_eq_equiv: "of_laws F \<Longrightarrow> equiv_rel (of_eq F)"
  by (auto simp: of_laws_def equiv_rel_def f64_eq_def)

lemma vk_eq_equiv:
  assumes "of_laws F" shows "equiv_rel (vk_eq F)"
proof -
  have refl: "of_eq F x x" and sym: "of_eq F x y \<Longrightarrow> of_eq F y x"
    and tr: "of_eq F x y \<Longrightarrow> of_eq F y z \<Longrightarrow> of_eq F x z" for x y z
    using of_eq_equiv [OF assms] unfolding equiv_rel_def by blast+
  have "vk_eq F a a" for a
    by (cases a) (simp_all add: refl)
  moreover have "vk_eq F a b \<Longrightarrow> vk_eq F b a" for a b
    by (cases a; cases b) (simp_all add: sym)
  moreover have "vk_eq F a b \<Longrightarrow> vk_eq F b c \<Longrightarrow> vk_eq F a c" for a b c
    by (cases a; cases b; simp; cases c; simp add: tr; erule (1) tr)
  ultimately show ?thesis unfolding equiv_rel_def by blast
qed

section \<open>A two-level index: key, then value, then bitmap\<close>

text \<open>
  Maps whose key equality is not that of HOL, and the statements both halves of the index
  repeat: \<^verbatim>\<open>entry(k).or_default().insert(offset)\<close>, and the removal that prunes empty bitmaps.
\<close>

fun get_by :: "('k \<Rightarrow> 'k \<Rightarrow> bool) \<Rightarrow> 'k \<Rightarrow> ('k \<times> 'v) list \<Rightarrow> 'v option" where
  "get_by eq k [] = None"
| "get_by eq k ((k', v) # m) = (if eq k k' then Some v else get_by eq k m)"

fun upd_by :: "('k \<Rightarrow> 'k \<Rightarrow> bool) \<Rightarrow> 'k \<Rightarrow> 'v \<Rightarrow> ('v \<Rightarrow> 'v) \<Rightarrow> ('k \<times> 'v) list \<Rightarrow> ('k \<times> 'v) list" where
  "upd_by eq k d f [] = [(k, f d)]"
| "upd_by eq k d f ((k', v) # m) =
     (if eq k k' then (k', f v) # m else (k', v) # upd_by eq k d f m)"

definition del_by :: "('k \<Rightarrow> 'k \<Rightarrow> bool) \<Rightarrow> 'k \<Rightarrow> ('k \<times> 'v) list \<Rightarrow> ('k \<times> 'v) list" where
  "del_by eq k m = filter (\<lambda>(k', v). \<not> eq k k') m"

type_synonym ('k, 'b) index2 = "(string \<times> ('k \<times> 'b) list) list"

definition index_insert ::
  "'b bitmap_ops \<Rightarrow> ('k \<Rightarrow> 'k \<Rightarrow> bool) \<Rightarrow> string \<Rightarrow> 'k \<Rightarrow> u32 \<Rightarrow> ('k, 'b) index2 \<Rightarrow> ('k, 'b) index2" where
  "index_insert B eq key k offset idx =
     AList.update key
       (upd_by eq k (bm_new B) (bm_insert B offset)
          (case map_of idx key of Some km \<Rightarrow> km | None \<Rightarrow> [])) idx"

definition index_remove ::
  "'b bitmap_ops \<Rightarrow> ('k \<Rightarrow> 'k \<Rightarrow> bool) \<Rightarrow> string \<Rightarrow> 'k \<Rightarrow> u32 \<Rightarrow> ('k, 'b) index2 \<Rightarrow> ('k, 'b) index2" where
  "index_remove B eq key k offset idx =
     (case map_of idx key of
        None \<Rightarrow> idx
      | Some km \<Rightarrow>
          (let km' = (case get_by eq k km of
                        None \<Rightarrow> km
                      | Some b \<Rightarrow>
                          (let b' = bm_remove B offset b
                           in if bm_is_empty B b' then del_by eq k km
                              else upd_by eq k b' (\<lambda>_. b') km))
           in if km' = [] then AList.delete key idx else AList.update key km' idx))"

definition index_remove_all :: "'b bitmap_ops \<Rightarrow> u32 \<Rightarrow> ('k, 'b) index2 \<Rightarrow> ('k, 'b) index2" where
  "index_remove_all B offset idx =
     filter (\<lambda>(key, km). km \<noteq> [])
       (map (\<lambda>(key, km).
          (key, filter (\<lambda>(k, b). \<not> bm_is_empty B b) (map (\<lambda>(k, b). (k, bm_remove B offset b)) km))) idx)"

definition index_get :: "'b bitmap_ops \<Rightarrow> ('k \<Rightarrow> 'k \<Rightarrow> bool) \<Rightarrow> ('k, 'b) index2 \<Rightarrow> string \<Rightarrow> 'k \<Rightarrow> 'b" where
  "index_get B eq idx key k =
     (case Option.bind (map_of idx key) (get_by eq k) of Some b \<Rightarrow> b | None \<Rightarrow> bm_new B)"

text \<open>Well-formed: distinct keys at both levels.\<close>

definition distinct_by :: "('k \<Rightarrow> 'k \<Rightarrow> bool) \<Rightarrow> ('k \<times> 'v) list \<Rightarrow> bool" where
  "distinct_by eq m \<longleftrightarrow> sorted_wrt (\<lambda>a b. \<not> eq (fst a) (fst b)) m"

definition index_wf :: "('k \<Rightarrow> 'k \<Rightarrow> bool) \<Rightarrow> ('k, 'b) index2 \<Rightarrow> bool" where
  "index_wf eq idx \<longleftrightarrow> hm_wf idx \<and> (\<forall>(key, km) \<in> set idx. distinct_by eq km)"

lemma equiv_relD:
  assumes "equiv_rel eq"
  shows "eq a a" "eq a b \<Longrightarrow> eq b a" "eq a b \<Longrightarrow> eq b c \<Longrightarrow> eq a c"
  using assms unfolding equiv_rel_def by blast+

lemma equiv_rel_fun: "equiv_rel eq \<Longrightarrow> eq k k' \<Longrightarrow> eq k' = eq k"
  unfolding equiv_rel_def by (rule ext) blast

lemma get_by_cong:
  assumes "equiv_rel eq" "eq k k'"
  shows "get_by eq k m = get_by eq k' m"
  using equiv_rel_fun [OF assms] by (induction m) auto

lemma get_by_upd_by:
  assumes "equiv_rel eq"
  shows "get_by eq k' (upd_by eq k d f m) =
    (if eq k k' then Some (f (case get_by eq k m of Some v \<Rightarrow> v | None \<Rightarrow> d)) else get_by eq k' m)"
proof (cases "eq k k'")
  case True
  then show ?thesis
    using equiv_rel_fun [OF assms True] equiv_relD(1) [OF assms, of k] by (induction m) auto
next
  case False
  have "\<not> eq k' k" "\<And>a. eq k a \<Longrightarrow> \<not> eq k' a"
    using False equiv_relD [OF assms] by blast+
  with False show ?thesis by (induction m) auto
qed

lemma fst_upd_by: "x \<in> set (upd_by eq k d f m) \<Longrightarrow> fst x = k \<or> fst x \<in> fst ` set m"
  by (induction m) (auto split: if_splits)

lemma distinct_by_upd_by:
  assumes "equiv_rel eq" "distinct_by eq m"
  shows "distinct_by eq (upd_by eq k d f m)"
  using assms(2)
proof (induction m)
  case Nil
  then show ?case by (simp add: distinct_by_def)
next
  case (Cons p m)
  obtain a v where p: "p = (a, v)" by (cases p)
  have m: "distinct_by eq m" and a: "\<forall>x\<in>set m. \<not> eq a (fst x)"
    using Cons.prems by (simp_all add: distinct_by_def p)
  have "\<forall>x\<in>set (upd_by eq k d f m). \<not> eq a (fst x)" if "\<not> eq k a"
  proof
    fix x assume "x \<in> set (upd_by eq k d f m)"
    then have "fst x = k \<or> fst x \<in> fst ` set m" by (rule fst_upd_by)
    then show "\<not> eq a (fst x)"
      using a that equiv_relD(2) [OF assms(1), of a k] by auto
  qed
  then show ?case using Cons.IH [OF m] m a by (simp add: distinct_by_def p)
qed

lemma distinct_by_del_by: "distinct_by eq m \<Longrightarrow> distinct_by eq (del_by eq k m)"
  by (simp add: distinct_by_def del_by_def sorted_wrt_filter)

lemma get_by_del_by:
  assumes "equiv_rel eq"
  shows "get_by eq k' (del_by eq k m) = (if eq k k' then None else get_by eq k' m)"
proof (cases "eq k k'")
  case True
  then show ?thesis
    using equiv_rel_fun [OF assms True] by (induction m) (auto simp: del_by_def)
next
  case False
  have "\<And>a. eq k a \<Longrightarrow> \<not> eq k' a"
    using False equiv_relD [OF assms] by blast
  with False show ?thesis by (induction m) (auto simp: del_by_def)
qed

lemma get_by_mem:
  assumes "equiv_rel eq" "distinct_by eq m" "(k, v) \<in> set m"
  shows "get_by eq k m = Some v"
  using assms(2,3)
proof (induction m)
  case Nil
  then show ?case by simp
next
  case (Cons p m)
  obtain a w where p: "p = (a, w)" by (cases p)
  have d: "distinct_by eq m" "\<forall>x\<in>set m. \<not> eq a (fst x)"
    using Cons.prems(1) by (simp_all add: distinct_by_def p)
  show ?case
  proof (cases "(k, v) = p")
    case True
    then show ?thesis using equiv_relD(1) [OF assms(1)] by (simp add: p)
  next
    case False
    then have mem: "(k, v) \<in> set m" using Cons.prems(2) by simp
    then have "\<not> eq k a" using d(2) equiv_relD(2) [OF assms(1), of k a] by force
    then show ?thesis using Cons.IH [OF d(1) mem] by (simp add: p)
  qed
qed

lemma get_by_SomeD: "get_by eq k m = Some v \<Longrightarrow> \<exists>k'. eq k k' \<and> (k', v) \<in> set m"
  by (induction m) (auto split: if_splits)

section \<open>What the two-level index contains\<close>

definition index_has :: "'b bitmap_ops \<Rightarrow> ('k \<Rightarrow> 'k \<Rightarrow> bool) \<Rightarrow> ('k, 'b) index2 \<Rightarrow> string \<Rightarrow> 'k \<Rightarrow> u32 \<Rightarrow> bool" where
  "index_has B eq idx key k x \<longleftrightarrow> bm_contains B (index_get B eq idx key k) x"

lemma index_has_lookup:
  assumes "bitmap_laws B"
  shows "index_has B eq idx key k x \<longleftrightarrow>
    (\<exists>km b. map_of idx key = Some km \<and> get_by eq k km = Some b \<and> bm_contains B b x)"
  by (cases "map_of idx key")
    (auto simp: index_has_def index_get_def bitmap_simps [OF assms] split: option.split)

lemma index_has_cong:
  fixes B :: "'b bitmap_ops" and eq :: "'k \<Rightarrow> 'k \<Rightarrow> bool"
  assumes "equiv_rel eq" "eq k k'"
  shows "index_has B eq idx key k' x = index_has B eq idx key k x"
proof -
  have "get_by eq k' = (get_by eq k :: ('k \<times> 'b) list \<Rightarrow> 'b option)"
    by (rule ext) (rule get_by_cong [OF assms, symmetric])
  then show ?thesis by (simp only: index_has_def index_get_def)
qed

lemma index_wf_lookup:
  "index_wf eq idx \<Longrightarrow> map_of idx key = Some km \<Longrightarrow> distinct_by eq km"
  using map_of_SomeD [of idx key km] by (fastforce simp: index_wf_def)

lemma index_wf_update:
  "index_wf eq idx \<Longrightarrow> distinct_by eq km \<Longrightarrow> index_wf eq (AList.update key km idx)"
  by (auto simp: index_wf_def hm_wf_in_set split: if_splits)

lemma index_wf_delete: "index_wf eq idx \<Longrightarrow> index_wf eq (AList.delete key idx)"
  by (auto simp: index_wf_def hm_wf_in_set split: if_splits)

lemma index_wf_insert:
  assumes "equiv_rel eq" "index_wf eq idx"
  shows "index_wf eq (index_insert B eq key k off idx)"
proof -
  have "distinct_by eq (case map_of idx key of Some km \<Rightarrow> km | None \<Rightarrow> [])"
    using index_wf_lookup [OF assms(2)] by (auto simp: distinct_by_def split: option.splits)
  then show ?thesis
    unfolding index_insert_def
    by (intro index_wf_update assms(2) distinct_by_upd_by assms(1))
qed

lemma index_wf_remove:
  assumes "equiv_rel eq" "index_wf eq idx"
  shows "index_wf eq (index_remove B eq key k off idx)"
proof (cases "map_of idx key")
  case None
  then show ?thesis using assms(2) by (simp add: index_remove_def)
next
  case (Some km)
  have "distinct_by eq km" using index_wf_lookup [OF assms(2) Some] .
  then show ?thesis
    using Some assms(2)
    by (simp add: index_remove_def Let_def index_wf_update index_wf_delete
        distinct_by_upd_by [OF assms(1)] distinct_by_del_by split: option.split)
qed

lemma index_has_insert:
  assumes B: "bitmap_laws B" and eq: "equiv_rel eq"
  shows "index_has B eq (index_insert B eq key k off idx) key' k' x \<longleftrightarrow>
    (key' = key \<and> eq k k' \<and> x = off) \<or> index_has B eq idx key' k' x"
proof (cases "key' = key \<and> eq k k'")
  case True
  have "index_has B eq (index_insert B eq key k off idx) key k x \<longleftrightarrow>
      x = off \<or> index_has B eq idx key k x"
    by (auto simp: index_has_def index_get_def index_insert_def get_by_upd_by [OF eq]
        equiv_relD(1) [OF eq] bitmap_simps [OF B] split: option.split)
  with True index_has_cong [OF eq, of k k' B] show ?thesis by simp
next
  case False
  then show ?thesis
    by (auto simp: index_has_def index_get_def index_insert_def get_by_upd_by [OF eq]
        bitmap_simps [OF B] split: option.split)
qed

lemma index_has_remove:
  assumes B: "bitmap_laws B" and eq: "equiv_rel eq"
  shows "index_has B eq (index_remove B eq key k off idx) key' k' x \<longleftrightarrow>
    index_has B eq idx key' k' x \<and> \<not> (key' = key \<and> eq k k' \<and> x = off)"
proof (cases "map_of idx key")
  case None
  then show ?thesis
    by (auto simp: index_has_lookup [OF B] index_remove_def)
next
  case (Some km)
  define km' where "km' = (case get_by eq k km of None \<Rightarrow> km
    | Some b \<Rightarrow> (let b' = bm_remove B off b in if bm_is_empty B b' then del_by eq k km
                 else upd_by eq k b' (\<lambda>_. b') km))"
  have rem: "index_remove B eq key k off idx =
      (if km' = [] then AList.delete key idx else AList.update key km' idx)"
    by (simp add: index_remove_def Some km'_def Let_def)
  have here: "(\<exists>b. get_by eq k km' = Some b \<and> bm_contains B b x) \<longleftrightarrow>
      (\<exists>b. get_by eq k km = Some b \<and> bm_contains B b x) \<and> x \<noteq> off"
    by (auto simp: km'_def Let_def get_by_upd_by [OF eq] get_by_del_by [OF eq]
        equiv_relD(1) [OF eq] bitmap_simps [OF B] split: option.split)
  have there: "get_by eq k' km' = get_by eq k' km" if "\<not> eq k k'"
    using that by (simp add: km'_def Let_def get_by_upd_by [OF eq] get_by_del_by [OF eq]
        split: option.split)
  have has: "index_has B eq (index_remove B eq key k off idx) key l x \<longleftrightarrow>
      (\<exists>b. get_by eq l km' = Some b \<and> bm_contains B b x)" for l
    by (auto simp: index_has_lookup [OF B] rem)
  consider "key' \<noteq> key" | "key' = key" "eq k k'" | "key' = key" "\<not> eq k k'" by blast
  then show ?thesis
  proof cases
    case 1
    then show ?thesis by (simp add: index_has_lookup [OF B] rem)
  next
    case 2
    have "index_has B eq (index_remove B eq key k off idx) key k x \<longleftrightarrow>
        index_has B eq idx key k x \<and> x \<noteq> off"
      using here by (simp add: has) (simp add: index_has_lookup [OF B] Some)
    with 2 index_has_cong [OF eq, of k k' B] show ?thesis by simp
  next
    case 3
    then show ?thesis by (simp add: has there) (simp add: index_has_lookup [OF B] Some)
  qed
qed

lemma map_of_map_snd:
  "map_of (map (\<lambda>(k, v). (k, f v)) m) key = map_option f (map_of m key)"
  by (induction m) auto

lemma map_of_filter_snd:
  "hm_wf m \<Longrightarrow> map_of (filter (\<lambda>(k, v). P v) m) key =
     (case map_of m key of Some v \<Rightarrow> if P v then Some v else None | None \<Rightarrow> None)"
proof (induction m)
  case Nil
  then show ?case by simp
next
  case (Cons p m)
  obtain a v where p: "p = (a, v)" by (cases p)
  have "hm_wf m" "map_of m a = None"
    using Cons.prems by (auto simp: p hm_wf_def map_of_eq_None_iff)
  with Cons.IH show ?case by (auto simp: p split: option.split)
qed

lemma get_by_filter_map:
  assumes "equiv_rel eq" "distinct_by eq m"
  shows "get_by eq k (filter (\<lambda>(k, b). P b) (map (\<lambda>(k, b). (k, f b)) m)) =
    (case get_by eq k m of Some b \<Rightarrow> if P (f b) then Some (f b) else None | None \<Rightarrow> None)"
  using assms(2)
proof (induction m)
  case Nil
  then show ?case by simp
next
  case (Cons p m)
  obtain a b where p: "p = (a, b)" by (cases p)
  have d: "distinct_by eq m" "\<forall>x\<in>set m. \<not> eq a (fst x)"
    using Cons.prems by (simp_all add: distinct_by_def p)
  have "get_by eq k m = None" if "eq k a"
  proof -
    have "get_by eq a m = None"
      using d(2) get_by_SomeD [of eq a m] by (cases "get_by eq a m") fastforce+
    then show ?thesis using get_by_cong [OF assms(1) that, of m] by simp
  qed
  then show ?case using Cons.IH [OF d(1)] by (auto simp: p)
qed

lemma distinct_by_filter_map:
  "distinct_by eq m \<Longrightarrow> distinct_by eq (filter P (map (\<lambda>(k, b). (k, f b)) m))"
  by (auto simp: distinct_by_def sorted_wrt_map case_prod_beta intro!: sorted_wrt_filter)

lemma index_has_remove_all:
  fixes B :: "'b bitmap_ops" and idx :: "('k, 'b) index2"
  assumes B: "bitmap_laws B" and eq: "equiv_rel eq" and wf: "index_wf eq idx"
  shows "index_has B eq (index_remove_all B off idx) key k x \<longleftrightarrow> index_has B eq idx key k x \<and> x \<noteq> off"
proof -
  let ?f = "\<lambda>km :: ('k \<times> 'b) list.
    filter (\<lambda>(k, b). \<not> bm_is_empty B b) (map (\<lambda>(k, b). (k, bm_remove B off b)) km)"
  have hm: "hm_wf (map (\<lambda>(key, km). (key, ?f km)) idx)"
    using wf by (simp add: index_wf_def)
  have look: "map_of (index_remove_all B off idx) key =
      (case map_of idx key of Some km \<Rightarrow> if ?f km \<noteq> [] then Some (?f km) else None | None \<Rightarrow> None)"
    unfolding index_remove_all_def map_of_filter_snd [OF hm] map_of_map_snd
    by (simp split: option.split)
  show ?thesis
  proof (cases "map_of idx key")
    case None
    then show ?thesis by (simp add: index_has_lookup [OF B] look)
  next
    case (Some km)
    have "get_by eq k (?f km) = (case get_by eq k km of Some b \<Rightarrow>
        if \<not> bm_is_empty B (bm_remove B off b) then Some (bm_remove B off b) else None | None \<Rightarrow> None)"
      by (rule get_by_filter_map [OF eq index_wf_lookup [OF wf Some]])
    moreover have "index_has B eq (index_remove_all B off idx) key k x \<longleftrightarrow>
        (\<exists>b. get_by eq k (?f km) = Some b \<and> bm_contains B b x)"
    proof (cases "?f km = []")
      case True
      then show ?thesis by (simp only: index_has_lookup [OF B] look Some option.case) simp
    next
      case False
      then show ?thesis by (simp only: index_has_lookup [OF B] look Some option.case) simp
    qed
    ultimately show ?thesis
      by (auto simp: index_has_lookup [OF B, of eq idx] Some bitmap_simps [OF B] split: option.splits if_splits)
  qed
qed

lemma index_wf_remove_all:
  assumes "index_wf eq idx" shows "index_wf eq (index_remove_all B off idx)"
  using assms unfolding index_wf_def index_remove_all_def
  by (auto intro!: distinct_by_filter_map hm_wf_filter)

section \<open>The index and its operations\<close>

record 'b postings =
  ps_eq :: "(value_key, 'b) index2"
  ps_num :: "(f64, 'b) index2"
  ps_all :: 'b

definition postings_new :: "'b bitmap_ops \<Rightarrow> 'b postings" where
  "postings_new B = \<lparr>ps_eq = [], ps_num = [], ps_all = bm_new B\<rparr>"

definition insert_entry ::
  "'b bitmap_ops \<Rightarrow> of_ops \<Rightarrow> u32 \<Rightarrow> string \<times> metadata_value \<Rightarrow> 'b postings \<Rightarrow> 'b postings" where
  "insert_entry B F offset e p =
     (let (key, v) = e;
          p1 = p\<lparr>ps_eq := index_insert B (vk_eq F) key (from_value v) offset (ps_eq p)\<rparr>
      in case as_f64 v of
           Some n \<Rightarrow> p1\<lparr>ps_num := index_insert B (of_eq F) key n offset (ps_num p1)\<rparr>
         | None \<Rightarrow> p1)"

definition postings_insert ::
  "'b bitmap_ops \<Rightarrow> of_ops \<Rightarrow> u32 \<Rightarrow> metadata option \<Rightarrow> 'b postings \<Rightarrow> 'b postings" where
  "postings_insert B F offset md p =
     (let p1 = p\<lparr>ps_all := bm_insert B offset (ps_all p)\<rparr>
      in case md of None \<Rightarrow> p1 | Some m \<Rightarrow> fold (insert_entry B F offset) m p1)"

definition remove_entry ::
  "'b bitmap_ops \<Rightarrow> of_ops \<Rightarrow> u32 \<Rightarrow> string \<times> metadata_value \<Rightarrow> 'b postings \<Rightarrow> 'b postings" where
  "remove_entry B F offset e p =
     (let (key, v) = e;
          p1 = p\<lparr>ps_eq := index_remove B (vk_eq F) key (from_value v) offset (ps_eq p)\<rparr>
      in case as_f64 v of
           Some n \<Rightarrow> p1\<lparr>ps_num := index_remove B (of_eq F) key n offset (ps_num p1)\<rparr>
         | None \<Rightarrow> p1)"

definition postings_remove ::
  "'b bitmap_ops \<Rightarrow> of_ops \<Rightarrow> u32 \<Rightarrow> metadata option \<Rightarrow> 'b postings \<Rightarrow> 'b postings" where
  "postings_remove B F offset md p =
     (let p1 = p\<lparr>ps_all := bm_remove B offset (ps_all p)\<rparr>
      in case md of None \<Rightarrow> p1 | Some m \<Rightarrow> fold (remove_entry B F offset) m p1)"

definition postings_remove_all :: "'b bitmap_ops \<Rightarrow> u32 \<Rightarrow> 'b postings \<Rightarrow> 'b postings" where
  "postings_remove_all B offset p =
     \<lparr>ps_eq = index_remove_all B offset (ps_eq p),
      ps_num = index_remove_all B offset (ps_num p),
      ps_all = bm_remove B offset (ps_all p)\<rparr>"

definition postings_len :: "'b bitmap_ops \<Rightarrow> 'b postings \<Rightarrow> nat" where
  "postings_len B p = bm_len B (ps_all p)"

definition postings_is_empty :: "'b bitmap_ops \<Rightarrow> 'b postings \<Rightarrow> bool" where
  "postings_is_empty B p = bm_is_empty B (ps_all p)"

text \<open>The queries: presence of a key, an exact value, and a half-open numeric range.\<close>

definition key_present :: "'b bitmap_ops \<Rightarrow> 'b postings \<Rightarrow> string \<Rightarrow> 'b" where
  "key_present B p key =
     (case map_of (ps_eq p) key of
        Some km \<Rightarrow> fold (\<lambda>(_, b) acc. bm_union B acc b) km (bm_new B)
      | None \<Rightarrow> bm_new B)"

definition eq_bitmap :: "'b bitmap_ops \<Rightarrow> of_ops \<Rightarrow> 'b postings \<Rightarrow> string \<Rightarrow> value_key \<Rightarrow> 'b" where
  "eq_bitmap B F p key v = index_get B (vk_eq F) (ps_eq p) key v"

datatype bound = Included f64 | Excluded f64 | Unbounded

fun above :: "of_ops \<Rightarrow> bound \<Rightarrow> f64 \<Rightarrow> bool" where
  "above F (Included lo) x = (of_lt F lo x \<or> of_eq F lo x)"
| "above F (Excluded lo) x = of_lt F lo x"
| "above F Unbounded x = True"

fun below :: "of_ops \<Rightarrow> bound \<Rightarrow> f64 \<Rightarrow> bool" where
  "below F (Included hi) x = (of_lt F x hi \<or> of_eq F x hi)"
| "below F (Excluded hi) x = of_lt F x hi"
| "below F Unbounded x = True"

definition num_range ::
  "'b bitmap_ops \<Rightarrow> of_ops \<Rightarrow> 'b postings \<Rightarrow> string \<Rightarrow> bound \<Rightarrow> bound \<Rightarrow> 'b" where
  "num_range B F p key lo hi =
     (case map_of (ps_num p) key of
        Some km \<Rightarrow>
          fold (\<lambda>(_, b) acc. bm_union B acc b)
            (filter (\<lambda>(x, _). above F lo x \<and> below F hi x) km) (bm_new B)
      | None \<Rightarrow> bm_new B)"

fun eval_op :: "'b bitmap_ops \<Rightarrow> of_ops \<Rightarrow> 'b postings \<Rightarrow> string \<Rightarrow> comparison_op \<Rightarrow> 'b" where
  "eval_op B F p key (Eq v) = eq_bitmap B F p key (from_value v)"
| "eval_op B F p key (Ne v) =
     bm_diff B (key_present B p key) (eq_bitmap B F p key (from_value v))"
| "eval_op B F p key (Gt n) = num_range B F p key (Excluded n) Unbounded"
| "eval_op B F p key (Gte n) = num_range B F p key (Included n) Unbounded"
| "eval_op B F p key (Lt n) = num_range B F p key Unbounded (Excluded n)"
| "eval_op B F p key (Lte n) = num_range B F p key Unbounded (Included n)"
| "eval_op B F p key (In vs) =
     fold (\<lambda>v out. bm_union B out (eq_bitmap B F p key (from_value v))) vs (bm_new B)"
| "eval_op B F p key (Nin vs) =
     bm_diff B (ps_all p)
       (fold (\<lambda>v out. bm_union B out (eq_bitmap B F p key (from_value v))) vs (bm_new B))"

fun eval_condition :: "'b bitmap_ops \<Rightarrow> of_ops \<Rightarrow> 'b postings \<Rightarrow> where_condition \<Rightarrow> 'b" where
  "eval_condition B F p (Comparison key cop) = eval_op B F p key cop"
| "eval_condition B F p (And conds) =
     (case map (eval_condition B F p) conds of
        [] \<Rightarrow> ps_all p
      | b # rest \<Rightarrow> fold (\<lambda>c out. bm_inter B out c) rest b)"
| "eval_condition B F p (Or conds) =
     fold (\<lambda>c out. bm_union B out c) (map (eval_condition B F p) conds) (bm_new B)"

definition evaluate :: "'b bitmap_ops \<Rightarrow> of_ops \<Rightarrow> 'b postings \<Rightarrow> where_filter \<Rightarrow> 'b" where
  "evaluate B F p f = eval_condition B F p (wf_condition f)"

end
