(* ===== verification/Postings_Semantics.thy ===== *)
theory Postings_Semantics
  imports Metadata_Postings
begin

text \<open>
  What the inverted index means. \<open>postings_repr\<close> relates an index to the map from live offsets
  to metadata it represents; every operation keeps the relation, and on values the f64
  normalization represents exactly, evaluating a filter selects the offsets the oracle
  \<open>match_condition\<close> selects. The engine sees this through the locale \<open>metadata_index\<close>.
\<close>

definition md_or_empty :: "metadata option \<Rightarrow> metadata" where
  "md_or_empty m = (case m of Some md \<Rightarrow> md | None \<Rightarrow> [])"

lemma md_or_empty_simps [simp]: "md_or_empty None = []" "md_or_empty (Some m) = m"
  by (simp_all add: md_or_empty_def)

definition entry_eq :: "of_ops \<Rightarrow> metadata \<Rightarrow> string \<Rightarrow> value_key \<Rightarrow> bool" where
  "entry_eq F md key k \<longleftrightarrow> (\<exists>v. (key, v) \<in> set md \<and> vk_eq F (from_value v) k)"

definition entry_num :: "of_ops \<Rightarrow> metadata \<Rightarrow> string \<Rightarrow> f64 \<Rightarrow> bool" where
  "entry_num F md key n \<longleftrightarrow>
     (\<exists>v m. (key, v) \<in> set md \<and> as_f64 v = Some m \<and> of_eq F m n)"

definition postings_repr ::
  "'b bitmap_ops \<Rightarrow> of_ops \<Rightarrow> 'b postings \<Rightarrow> (u32 \<rightharpoonup> metadata) \<Rightarrow> bool" where
  "postings_repr B F p M \<longleftrightarrow>
     bitmap_laws B \<and> of_laws F \<and>
     index_wf (vk_eq F) (ps_eq p) \<and> index_wf (of_eq F) (ps_num p) \<and>
     (\<forall>x. bm_contains B (ps_all p) x \<longleftrightarrow> M x \<noteq> None) \<and>
     (\<forall>key k x. index_has B (vk_eq F) (ps_eq p) key k x \<longleftrightarrow>
        (\<exists>md. M x = Some md \<and> entry_eq F md key k)) \<and>
     (\<forall>key n x. index_has B (of_eq F) (ps_num p) key n x \<longleftrightarrow>
        (\<exists>md. M x = Some md \<and> entry_num F md key n))"

lemma postings_repr_laws: "postings_repr B F p M \<Longrightarrow> bitmap_laws B \<and> of_laws F"
  by (simp add: postings_repr_def)

lemma index_has_Nil: "bitmap_laws B \<Longrightarrow> \<not> index_has B eq [] key k x"
  by (simp add: index_has_lookup)

lemma postings_new_repr:
  "bitmap_laws B \<Longrightarrow> of_laws F \<Longrightarrow> postings_repr B F (postings_new B) Map.empty"
  by (simp add: postings_repr_def postings_new_def index_wf_def index_has_Nil bitmap_simps)

section \<open>Insertion\<close>

lemma insert_entry_fields:
  assumes L: "bitmap_laws B" "of_laws F"
  shows "ps_all (insert_entry B F off e p) = ps_all p"
    "index_wf (vk_eq F) (ps_eq p) \<Longrightarrow> index_wf (vk_eq F) (ps_eq (insert_entry B F off e p))"
    "index_wf (of_eq F) (ps_num p) \<Longrightarrow> index_wf (of_eq F) (ps_num (insert_entry B F off e p))"
    "index_has B (vk_eq F) (ps_eq (insert_entry B F off e p)) key k x \<longleftrightarrow>
       (x = off \<and> entry_eq F [e] key k) \<or> index_has B (vk_eq F) (ps_eq p) key k x"
    "index_has B (of_eq F) (ps_num (insert_entry B F off e p)) key n x \<longleftrightarrow>
       (x = off \<and> entry_num F [e] key n) \<or> index_has B (of_eq F) (ps_num p) key n x"
  using vk_eq_equiv [OF L(2)] of_eq_equiv [OF L(2)] L(1)
  by (cases e; auto simp: insert_entry_def Let_def entry_eq_def entry_num_def index_wf_insert
      index_has_insert split: option.split)+

lemma fold_insert_entry:
  assumes L: "bitmap_laws B" "of_laws F"
    and "index_wf (vk_eq F) (ps_eq p)" "index_wf (of_eq F) (ps_num p)"
  shows "ps_all (fold (insert_entry B F off) m p) = ps_all p \<and>
    index_wf (vk_eq F) (ps_eq (fold (insert_entry B F off) m p)) \<and>
    index_wf (of_eq F) (ps_num (fold (insert_entry B F off) m p)) \<and>
    (\<forall>key k x. index_has B (vk_eq F) (ps_eq (fold (insert_entry B F off) m p)) key k x \<longleftrightarrow>
       (x = off \<and> entry_eq F m key k) \<or> index_has B (vk_eq F) (ps_eq p) key k x) \<and>
    (\<forall>key n x. index_has B (of_eq F) (ps_num (fold (insert_entry B F off) m p)) key n x \<longleftrightarrow>
       (x = off \<and> entry_num F m key n) \<or> index_has B (of_eq F) (ps_num p) key n x)"
  using assms(3-4)
proof (induction m arbitrary: p)
  case Nil
  then show ?case by (simp add: entry_eq_def entry_num_def)
next
  case (Cons e m)
  let ?p = "insert_entry B F off e p"
  note step = insert_entry_fields [OF L]
  have wf: "index_wf (vk_eq F) (ps_eq ?p)" "index_wf (of_eq F) (ps_num ?p)"
    using Cons.prems by (simp_all add: step)
  have eqs: "entry_eq F (e # m) key k \<longleftrightarrow> entry_eq F [e] key k \<or> entry_eq F m key k" for key k
    by (auto simp: entry_eq_def)
  have nums: "entry_num F (e # m) key n \<longleftrightarrow> entry_num F [e] key n \<or> entry_num F m key n" for key n
    by (auto simp: entry_num_def)
  from Cons.IH [OF wf] show ?case
    by (auto simp: step(1,4,5) eqs nums)
qed

lemma postings_insert_repr:
  assumes R: "postings_repr B F p M" and new: "M off = None"
  shows "postings_repr B F (postings_insert B F off md p) (M(off \<mapsto> md_or_empty md))"
proof -
  have L: "bitmap_laws B" "of_laws F" using postings_repr_laws [OF R] by simp_all
  let ?p = "p\<lparr>ps_all := bm_insert B off (ps_all p)\<rparr>"
  have ins: "postings_insert B F off md p = fold (insert_entry B F off) (md_or_empty md) ?p"
    by (simp add: postings_insert_def Let_def md_or_empty_def split: option.split)
  have wf: "index_wf (vk_eq F) (ps_eq ?p)" "index_wf (of_eq F) (ps_num ?p)"
    using R by (simp_all add: postings_repr_def)
  show ?thesis
    using fold_insert_entry [OF L wf, of off "md_or_empty md"] R new
    unfolding postings_repr_def ins by (auto simp: bitmap_simps [OF L(1)])
qed

section \<open>Removal\<close>

lemma remove_entry_fields:
  assumes L: "bitmap_laws B" "of_laws F"
  shows "ps_all (remove_entry B F off e p) = ps_all p"
    "index_wf (vk_eq F) (ps_eq p) \<Longrightarrow> index_wf (vk_eq F) (ps_eq (remove_entry B F off e p))"
    "index_wf (of_eq F) (ps_num p) \<Longrightarrow> index_wf (of_eq F) (ps_num (remove_entry B F off e p))"
    "index_has B (vk_eq F) (ps_eq (remove_entry B F off e p)) key k x \<longleftrightarrow>
       index_has B (vk_eq F) (ps_eq p) key k x \<and> \<not> (x = off \<and> entry_eq F [e] key k)"
    "index_has B (of_eq F) (ps_num (remove_entry B F off e p)) key n x \<longleftrightarrow>
       index_has B (of_eq F) (ps_num p) key n x \<and> \<not> (x = off \<and> entry_num F [e] key n)"
  using vk_eq_equiv [OF L(2)] of_eq_equiv [OF L(2)] L(1)
  by (cases e; auto simp: remove_entry_def Let_def entry_eq_def entry_num_def index_wf_remove
      index_has_remove split: option.split)+

lemma fold_remove_entry:
  assumes L: "bitmap_laws B" "of_laws F"
    and "index_wf (vk_eq F) (ps_eq p)" "index_wf (of_eq F) (ps_num p)"
  shows "ps_all (fold (remove_entry B F off) m p) = ps_all p \<and>
    index_wf (vk_eq F) (ps_eq (fold (remove_entry B F off) m p)) \<and>
    index_wf (of_eq F) (ps_num (fold (remove_entry B F off) m p)) \<and>
    (\<forall>key k x. index_has B (vk_eq F) (ps_eq (fold (remove_entry B F off) m p)) key k x \<longleftrightarrow>
       index_has B (vk_eq F) (ps_eq p) key k x \<and> \<not> (x = off \<and> entry_eq F m key k)) \<and>
    (\<forall>key n x. index_has B (of_eq F) (ps_num (fold (remove_entry B F off) m p)) key n x \<longleftrightarrow>
       index_has B (of_eq F) (ps_num p) key n x \<and> \<not> (x = off \<and> entry_num F m key n))"
  using assms(3-4)
proof (induction m arbitrary: p)
  case Nil
  then show ?case by (simp add: entry_eq_def entry_num_def)
next
  case (Cons e m)
  let ?p = "remove_entry B F off e p"
  note step = remove_entry_fields [OF L]
  have wf: "index_wf (vk_eq F) (ps_eq ?p)" "index_wf (of_eq F) (ps_num ?p)"
    using Cons.prems by (simp_all add: step)
  have eqs: "entry_eq F (e # m) key k \<longleftrightarrow> entry_eq F [e] key k \<or> entry_eq F m key k" for key k
    by (auto simp: entry_eq_def)
  have nums: "entry_num F (e # m) key n \<longleftrightarrow> entry_num F [e] key n \<or> entry_num F m key n" for key n
    by (auto simp: entry_num_def)
  from Cons.IH [OF wf] show ?case
    by (auto simp: step(1,4,5) eqs nums)
qed

lemma postings_remove_repr:
  assumes R: "postings_repr B F p M" and old: "M off = None \<or> M off = Some (md_or_empty md)"
  shows "postings_repr B F (postings_remove B F off md p) (M(off := None))"
proof -
  have L: "bitmap_laws B" "of_laws F" using postings_repr_laws [OF R] by simp_all
  let ?p = "p\<lparr>ps_all := bm_remove B off (ps_all p)\<rparr>"
  have rem: "postings_remove B F off md p = fold (remove_entry B F off) (md_or_empty md) ?p"
    by (simp add: postings_remove_def Let_def md_or_empty_def split: option.split)
  have wf: "index_wf (vk_eq F) (ps_eq ?p)" "index_wf (of_eq F) (ps_num ?p)"
    using R by (simp_all add: postings_repr_def)
  show ?thesis
    using fold_remove_entry [OF L wf, of off "md_or_empty md"] R old
    unfolding postings_repr_def rem by (auto simp: bitmap_simps [OF L(1)])
qed

lemma postings_remove_all_repr:
  assumes R: "postings_repr B F p M"
  shows "postings_repr B F (postings_remove_all B off p) (M(off := None))"
proof -
  have L: "bitmap_laws B" "of_laws F" using postings_repr_laws [OF R] by simp_all
  have wf: "index_wf (vk_eq F) (ps_eq p)" "index_wf (of_eq F) (ps_num p)"
    using R by (simp_all add: postings_repr_def)
  show ?thesis
    using R unfolding postings_repr_def postings_remove_all_def
    by (auto simp: index_wf_remove_all bitmap_simps [OF L(1)]
        index_has_remove_all [OF L(1) vk_eq_equiv [OF L(2)] wf(1)]
        index_has_remove_all [OF L(1) of_eq_equiv [OF L(2)] wf(2)])
qed

section \<open>Evaluation agrees with the oracle\<close>

text \<open>
  The values that normalize without loss: integers within 53 bits and floats other than NaN.
\<close>

fun mv_exact :: "metadata_value \<Rightarrow> bool" where
  "mv_exact (IntV i) = i64_exact i"
| "mv_exact (Float f) = (\<not> f64_is_nan f)"
| "mv_exact _ = True"

fun op_exact :: "comparison_op \<Rightarrow> bool" where
  "op_exact (Eq v) = mv_exact v"
| "op_exact (Ne v) = mv_exact v"
| "op_exact (Gt n) = (\<not> f64_is_nan n)"
| "op_exact (Gte n) = (\<not> f64_is_nan n)"
| "op_exact (Lt n) = (\<not> f64_is_nan n)"
| "op_exact (Lte n) = (\<not> f64_is_nan n)"
| "op_exact (In vs) = list_all mv_exact vs"
| "op_exact (Nin vs) = list_all mv_exact vs"

fun condition_exact :: "where_condition \<Rightarrow> bool" where
  "condition_exact (Comparison key cop) = op_exact cop"
| "condition_exact (And cs) = list_all condition_exact cs"
| "condition_exact (Or cs) = list_all condition_exact cs"

definition metadata_exact :: "metadata \<Rightarrow> bool" where
  "metadata_exact md \<longleftrightarrow> hm_wf md \<and> (\<forall>(k, v) \<in> set md. mv_exact v)"

lemma values_equal_key:
  "of_laws F \<Longrightarrow> mv_exact a \<Longrightarrow> mv_exact v \<Longrightarrow>
   vk_eq F (from_value a) (from_value v) \<longleftrightarrow> values_equal a v"
  by (cases a; cases v)
    (auto simp: of_laws_def i64_to_f64_eq_iff f64_finite_not_nan [OF i64_to_f64_finite])

lemma as_f64_exact: "mv_exact v \<Longrightarrow> as_f64 v = Some n \<Longrightarrow> \<not> f64_is_nan n"
  by (cases v) (auto simp: f64_finite_not_nan [OF i64_to_f64_finite])

lemma contains_fold_union:
  assumes "bitmap_laws B"
  shows "bm_contains B (fold (\<lambda>c out. bm_union B out (g c)) cs b) x \<longleftrightarrow>
    bm_contains B b x \<or> (\<exists>c\<in>set cs. bm_contains B (g c) x)"
  by (induction cs arbitrary: b) (auto simp: bitmap_simps [OF assms])

lemma contains_fold_entries:
  assumes "bitmap_laws B"
  shows "bm_contains B (fold (\<lambda>(_, b) acc. bm_union B acc b) es b0) x \<longleftrightarrow>
    bm_contains B b0 x \<or> (\<exists>(k, b)\<in>set es. bm_contains B b x)"
  by (induction es arbitrary: b0) (auto simp: bitmap_simps [OF assms])

lemma contains_fold_inter:
  assumes "bitmap_laws B"
  shows "bm_contains B (fold (\<lambda>c out. bm_inter B out c) cs b) x \<longleftrightarrow>
    bm_contains B b x \<and> (\<forall>c\<in>set cs. bm_contains B c x)"
  by (induction cs arbitrary: b) (auto simp: bitmap_simps [OF assms])

lemma index_entries:
  assumes "bitmap_laws B" "equiv_rel eq" "index_wf eq idx" "map_of idx key = Some km"
  shows "(\<exists>(k, b) \<in> set km. P k \<and> bm_contains B b x) \<longleftrightarrow>
    (\<exists>k. P k \<and> k \<in> fst ` set km \<and> index_has B eq idx key k x)"
proof -
  have d: "distinct_by eq km" using index_wf_lookup [OF assms(3,4)] .
  have "(k, b) \<in> set km \<Longrightarrow> bm_contains B b x = index_has B eq idx key k x" for k b
    using get_by_mem [OF assms(2) d] by (simp add: index_has_lookup [OF assms(1)] assms(4))
  then show ?thesis by force
qed

lemma index_has_entry:
  assumes "bitmap_laws B" "equiv_rel eq" "map_of idx key = Some km" "index_has B eq idx key k x"
  shows "\<exists>k'. eq k k' \<and> k' \<in> fst ` set km \<and> index_has B eq idx key k' x"
proof -
  obtain b where b: "get_by eq k km = Some b" "bm_contains B b x"
    using assms(3,4) by (auto simp: index_has_lookup [OF assms(1)])
  then obtain k' where k': "eq k k'" "(k', b) \<in> set km" using get_by_SomeD by fast
  then have "index_has B eq idx key k' x"
    using index_has_cong [OF assms(2) k'(1), of B idx key x] assms(4) by simp
  with k' show ?thesis by force
qed

lemma contains_key_present:
  assumes R: "postings_repr B F p M"
  shows "bm_contains B (key_present B p key) x \<longleftrightarrow> (\<exists>md. M x = Some md \<and> key \<in> fst ` set md)"
proof -
  have L: "bitmap_laws B" "of_laws F" using postings_repr_laws [OF R] by simp_all
  note eqv = vk_eq_equiv [OF L(2)]
  have wf: "index_wf (vk_eq F) (ps_eq p)" using R by (simp add: postings_repr_def)
  have truth: "index_has B (vk_eq F) (ps_eq p) key k x \<longleftrightarrow> (\<exists>md. M x = Some md \<and> entry_eq F md key k)" for k
    using R by (simp add: postings_repr_def)
  have lhs: "bm_contains B (key_present B p key) x \<longleftrightarrow> (\<exists>k. index_has B (vk_eq F) (ps_eq p) key k x)"
  proof (cases "map_of (ps_eq p) key")
    case None
    then show ?thesis by (simp add: key_present_def bitmap_simps [OF L(1)] index_has_lookup [OF L(1)])
  next
    case (Some km)
    have "bm_contains B (key_present B p key) x \<longleftrightarrow> (\<exists>(k, b) \<in> set km. True \<and> bm_contains B b x)"
      by (simp add: key_present_def Some contains_fold_entries [OF L(1)] bitmap_simps [OF L(1)])
    then show ?thesis
      using index_entries [OF L(1) eqv wf Some, of "\<lambda>_. True"] index_has_entry [OF L(1) eqv Some]
      by simp blast
  qed
  have "(\<exists>k. entry_eq F md key k) \<longleftrightarrow> key \<in> fst ` set md" for md
    using equiv_relD(1) [OF eqv] by (force simp: entry_eq_def)
  then show ?thesis by (simp only: lhs truth) blast
qed

lemma contains_eq_bitmap:
  assumes R: "postings_repr B F p M" and wf: "\<And>x md. M x = Some md \<Longrightarrow> hm_wf md"
  shows "bm_contains B (eq_bitmap B F p key k) x \<longleftrightarrow>
    (\<exists>md v. M x = Some md \<and> map_of md key = Some v \<and> vk_eq F (from_value v) k)"
  using R wf by (auto simp: postings_repr_def eq_bitmap_def entry_eq_def hm_wf_in_set
      simp flip: index_has_def)

lemma contains_num_range:
  assumes R: "postings_repr B F p M" and wf: "\<And>x md. M x = Some md \<Longrightarrow> hm_wf md"
    and resp: "\<And>a b. of_eq F a b \<Longrightarrow> (above F lo a \<and> below F hi a) = (above F lo b \<and> below F hi b)"
  shows "bm_contains B (num_range B F p key lo hi) x \<longleftrightarrow>
    (\<exists>md n. M x = Some md \<and> numeric md key = Some n \<and> above F lo n \<and> below F hi n)"
proof -
  have L: "bitmap_laws B" "of_laws F" using postings_repr_laws [OF R] by simp_all
  note eqv = of_eq_equiv [OF L(2)]
  let ?P = "\<lambda>n. above F lo n \<and> below F hi n"
  have wfn: "index_wf (of_eq F) (ps_num p)" using R by (simp add: postings_repr_def)
  have truth: "index_has B (of_eq F) (ps_num p) key n x \<longleftrightarrow> (\<exists>md. M x = Some md \<and> entry_num F md key n)" for n
    using R by (simp add: postings_repr_def)
  have lhs: "bm_contains B (num_range B F p key lo hi) x \<longleftrightarrow>
      (\<exists>n. ?P n \<and> index_has B (of_eq F) (ps_num p) key n x)"
  proof (cases "map_of (ps_num p) key")
    case None
    then show ?thesis by (simp add: num_range_def bitmap_simps [OF L(1)] index_has_lookup [OF L(1)])
  next
    case (Some km)
    have "bm_contains B (num_range B F p key lo hi) x \<longleftrightarrow> (\<exists>(n, b) \<in> set km. ?P n \<and> bm_contains B b x)"
      by (auto simp: num_range_def Some contains_fold_entries [OF L(1)] bitmap_simps [OF L(1)])
    also have "\<dots> \<longleftrightarrow> (\<exists>n. ?P n \<and> n \<in> fst ` set km \<and> index_has B (of_eq F) (ps_num p) key n x)"
      by (rule index_entries [OF L(1) eqv wfn Some])
    also have "\<dots> \<longleftrightarrow> (\<exists>n. ?P n \<and> index_has B (of_eq F) (ps_num p) key n x)"
      using index_has_entry [OF L(1) eqv Some] resp by blast
    finally show ?thesis .
  qed
  have "(\<exists>n. ?P n \<and> entry_num F md key n) \<longleftrightarrow> (\<exists>n. numeric md key = Some n \<and> ?P n)" if "M x = Some md" for md
  proof -
    have "(key, v) \<in> set md \<longleftrightarrow> map_of md key = Some v" for v
      using wf [OF that] by (rule hm_wf_in_set)
    moreover have "numeric md key = Some n \<longleftrightarrow> (\<exists>v. map_of md key = Some v \<and> as_f64 v = Some n)" for n
      by (auto simp: numeric_def bind_eq_Some_conv)
    ultimately have num: "entry_num F md key n \<longleftrightarrow> (\<exists>m. numeric md key = Some m \<and> of_eq F m n)" for n
      by (auto simp: entry_num_def)
    show ?thesis
    proof
      assume "\<exists>n. ?P n \<and> entry_num F md key n"
      then obtain n m where "?P n" "numeric md key = Some m" "of_eq F m n" using num by blast
      then show "\<exists>n. numeric md key = Some n \<and> ?P n" using resp [of m n] by blast
    next
      assume "\<exists>n. numeric md key = Some n \<and> ?P n"
      then obtain n where "numeric md key = Some n" "?P n" by blast
      then show "\<exists>n. ?P n \<and> entry_num F md key n" using equiv_relD(1) [OF eqv, of n] num by blast
    qed
  qed
  then show ?thesis by (auto simp: lhs truth)
qed

lemma bound_respects:
  assumes "of_laws F"
  shows "of_eq F a b \<Longrightarrow> above F lo a = above F lo b" "of_eq F a b \<Longrightarrow> below F hi a = below F hi b"
  using assms by (cases lo; cases hi; auto simp: of_laws_def f64_cmp_defs)+

lemma bound_exact:
  assumes "of_laws F" "\<not> f64_is_nan n" "\<not> f64_is_nan a"
  shows "above F (Excluded n) a = f64_lt n a" "above F (Included n) a = f64_le n a"
    "below F (Excluded n) a = f64_lt a n" "below F (Included n) a = f64_le a n"
  using assms by (auto simp: of_laws_def f64_cmp_defs)

lemma lookup_exact: "metadata_exact md \<Longrightarrow> map_of md key = Some v \<Longrightarrow> mv_exact v"
  by (fastforce simp: metadata_exact_def dest!: map_of_SomeD)

lemma numeric_exact: "metadata_exact md \<Longrightarrow> numeric md key = Some n \<Longrightarrow> \<not> f64_is_nan n"
  using lookup_exact [of md key] as_f64_exact by (auto simp: numeric_def bind_eq_Some_conv)

lemma eval_op_correct:
  assumes R: "postings_repr B F p M" and ex: "\<And>x md. M x = Some md \<Longrightarrow> metadata_exact md"
    and op: "op_exact cop"
  shows "bm_contains B (eval_op B F p key cop) x \<longleftrightarrow> (\<exists>md. M x = Some md \<and> match_op key cop md)"
proof -
  have L: "bitmap_laws B" "of_laws F" using postings_repr_laws [OF R] by simp_all
  have wf: "\<And>x md. M x = Some md \<Longrightarrow> hm_wf md" using ex by (simp add: metadata_exact_def)
  note eqb = contains_eq_bitmap [OF R wf]
  have rng: "bm_contains B (num_range B F p key lo hi) x \<longleftrightarrow>
      (\<exists>md n. M x = Some md \<and> numeric md key = Some n \<and> above F lo n \<and> below F hi n)" for lo hi
    by (rule contains_num_range [OF R wf]) (use bound_respects [OF L(2)] in blast)+
  note bnd = bound_exact [OF L(2)]
  have eqv: "vk_eq F (from_value a) (from_value v) = values_equal a v"
    if "M x = Some md" "map_of md key = Some a" "mv_exact v" for md a v
    using values_equal_key [OF L(2) lookup_exact [OF ex [OF that(1)] that(2)] that(3)] .
  have num: "\<not> f64_is_nan n" if "M x = Some md" "numeric md key = Some n" for md n
    using numeric_exact [OF ex [OF that(1)] that(2)] .
  have all: "bm_contains B (ps_all p) x \<longleftrightarrow> M x \<noteq> None"
    using R by (simp add: postings_repr_def)
  have union: "bm_contains B (fold (\<lambda>v out. bm_union B out (eq_bitmap B F p key (from_value v))) vs (bm_new B)) x
      \<longleftrightarrow> (\<exists>md a. M x = Some md \<and> map_of md key = Some a \<and> (\<exists>v\<in>set vs. values_equal a v))"
    if "list_all mv_exact vs" for vs
    using that by (auto simp: contains_fold_union [OF L(1)] bitmap_simps [OF L(1)] eqb list_all_iff eqv)
  show ?thesis
  proof (cases cop)
    case (Eq v)
    with op show ?thesis by (auto simp: eqb eqv is_some_and_def split: option.splits)
  next
    case (Ne v)
    have dom: "key \<in> fst ` set md \<longleftrightarrow> map_of md key \<noteq> None" for md :: metadata
      by (simp add: map_of_eq_None_iff)
    show ?thesis
    proof (cases "M x")
      case None
      then show ?thesis using Ne by (simp add: bitmap_simps [OF L(1)] contains_key_present [OF R])
    next
      case (Some md)
      with Ne op show ?thesis
        by (cases "map_of md key")
          (simp_all add: bitmap_simps [OF L(1)] contains_key_present [OF R] eqb eqv is_some_and_def dom)
    qed
  next
    case (Gt n)
    with op num show ?thesis
      by (cases "M x") (auto simp: rng bnd is_some_and_def
          simp del: above.simps(1,2) below.simps(1,2) split: option.splits)
  next
    case (Gte n)
    with op num show ?thesis
      by (cases "M x") (auto simp: rng bnd is_some_and_def
          simp del: above.simps(1,2) below.simps(1,2) split: option.splits)
  next
    case (Lt n)
    with op num show ?thesis
      by (cases "M x") (auto simp: rng bnd is_some_and_def
          simp del: above.simps(1,2) below.simps(1,2) split: option.splits)
  next
    case (Lte n)
    with op num show ?thesis
      by (cases "M x") (auto simp: rng bnd is_some_and_def
          simp del: above.simps(1,2) below.simps(1,2) split: option.splits)
  next
    case (In vs)
    with op show ?thesis
      by (cases "M x") (auto simp: union list_ex_iff is_some_and_def split: option.splits)
  next
    case (Nin vs)
    with op show ?thesis
      by (auto simp: bitmap_simps [OF L(1)] union all list_ex_iff split: option.splits)
  qed
qed

lemma eval_condition_correct:
  assumes R: "postings_repr B F p M" and ex: "\<And>x md. M x = Some md \<Longrightarrow> metadata_exact md"
  shows "condition_exact c \<Longrightarrow>
    bm_contains B (eval_condition B F p c) x \<longleftrightarrow> (\<exists>md. M x = Some md \<and> match_condition c md)"
proof (induction c)
  case (Comparison key cop)
  then show ?case using eval_op_correct [OF R _, of cop key x] ex by simp
next
  case (And cs)
  have L: "bitmap_laws B" using postings_repr_laws [OF R] by simp
  have all: "bm_contains B (ps_all p) x \<longleftrightarrow> M x \<noteq> None" using R by (simp add: postings_repr_def)
  have IH: "\<forall>c\<in>set cs. bm_contains B (eval_condition B F p c) x \<longleftrightarrow>
      (\<exists>md. M x = Some md \<and> match_condition c md)"
    using And by (auto simp: list_all_iff)
  show ?case
  proof (cases cs)
    case Nil
    then show ?thesis by (auto simp: all)
  next
    case (Cons c rest)
    with IH show ?thesis by (auto simp: contains_fold_inter [OF L] list_all_iff)
  qed
next
  case (Or cs)
  have L: "bitmap_laws B" using postings_repr_laws [OF R] by simp
  have "\<forall>c\<in>set cs. bm_contains B (eval_condition B F p c) x \<longleftrightarrow>
      (\<exists>md. M x = Some md \<and> match_condition c md)"
    using Or by (auto simp: list_all_iff)
  then show ?case
    using contains_fold_union [OF L, of "\<lambda>c. c" "map (eval_condition B F p) cs" "bm_new B" x]
    by (auto simp: bitmap_simps [OF L] list_ex_iff)
qed

section \<open>The interface the engine uses\<close>

locale metadata_index =
  fixes insert_md :: "u32 \<Rightarrow> metadata option \<Rightarrow> 'p \<Rightarrow> 'p"
    and remove_md :: "u32 \<Rightarrow> metadata option \<Rightarrow> 'p \<Rightarrow> 'p"
    and drop_offset :: "u32 \<Rightarrow> 'p \<Rightarrow> 'p"
    and selects :: "'p \<Rightarrow> where_condition \<Rightarrow> u32 \<Rightarrow> bool"
    and repr :: "'p \<Rightarrow> (u32 \<rightharpoonup> metadata) \<Rightarrow> bool"
  assumes insert_repr: "repr p M \<Longrightarrow> M off = None \<Longrightarrow>
      repr (insert_md off md p) (M(off \<mapsto> md_or_empty md))"
    and remove_repr: "repr p M \<Longrightarrow> M off = None \<or> M off = Some (md_or_empty md) \<Longrightarrow>
      repr (remove_md off md p) (M(off := None))"
    and drop_repr: "repr p M \<Longrightarrow> repr (drop_offset off p) (M(off := None))"
    and selects_iff: "repr p M \<Longrightarrow> (\<And>x md. M x = Some md \<Longrightarrow> metadata_exact md) \<Longrightarrow>
      condition_exact c \<Longrightarrow> selects p c x \<longleftrightarrow> (\<exists>md. M x = Some md \<and> match_condition c md)"
begin

text \<open>The two update sequences of the engine: re-index a live offset, and delete one.\<close>

lemma replace_repr:
  assumes "repr p M" "M off = None \<or> M off = Some (md_or_empty old)"
  shows "repr (insert_md off new (remove_md off old p)) (M(off \<mapsto> md_or_empty new))"
  using insert_repr [OF remove_repr [OF assms], of off new] by simp

lemma delete_repr:
  assumes "repr p M" "M off = None \<or> M off = Some (md_or_empty old)"
  shows "repr (drop_offset off (remove_md off old p)) (M(off := None))"
  using drop_repr [OF remove_repr [OF assms], of off] by simp

lemma replace_selects_new:
  assumes "repr p M" "M off = Some (md_or_empty old)"
    and "\<And>x md. M x = Some md \<Longrightarrow> metadata_exact md" "metadata_exact (md_or_empty new)"
    and "condition_exact c"
  shows "selects (insert_md off new (remove_md off old p)) c off \<longleftrightarrow> match_condition c (md_or_empty new)"
proof -
  have ex: "metadata_exact md" if "(M(off \<mapsto> md_or_empty new)) x = Some md" for x md
    using that assms(3,4) by (cases "x = off") auto
  show ?thesis
    using selects_iff [OF replace_repr [OF assms(1) disjI2 [OF assms(2)]] ex assms(5)] by simp
qed

end

interpretation postings: metadata_index
  "postings_insert B F" "postings_remove B F" "postings_remove_all B"
  "\<lambda>p c. bm_contains B (eval_condition B F p c)" "postings_repr B F"
  for B F
  by unfold_locales
    (simp_all add: postings_insert_repr postings_remove_repr postings_remove_all_repr
      eval_condition_correct)

section \<open>Properties\<close>

text \<open>C3: The index agrees with the oracle. On metadata and filters whose numbers an f64 represents
  exactly, evaluating any filter over the bitmaps selects precisely the indexed offsets whose
  metadata the reference semantics matches.\<close>

theorem postings_evaluate_correct:
  assumes "postings_repr B F p M" "\<And>x md. M x = Some md \<Longrightarrow> metadata_exact md"
    and "condition_exact (wf_condition f)"
  shows "bm_contains B (evaluate B F p f) x \<longleftrightarrow> (\<exists>md. M x = Some md \<and> matches f md)"
  using eval_condition_correct [OF assms] by (simp add: evaluate_def matches_def)

definition demo_postings :: "u32 set postings" where
  "demo_postings =
     postings_insert set_bitmap ordered_f64 5 (Some [(''k'', IntV 7), (''s'', Str ''x'')]) (postings_new set_bitmap)"

lemma demo_postings_repr:
  "postings_repr set_bitmap ordered_f64 demo_postings [5 \<mapsto> [(''k'', IntV 7), (''s'', Str ''x'')]]"
  using postings_insert_repr [OF postings_new_repr [OF set_bitmap_laws ordered_f64_laws],
      of 5 "Some [(''k'', IntV 7), (''s'', Str ''x'')]"]
  by (simp add: demo_postings_def)

lemma postings_evaluate_correct_witness:
  "bm_contains set_bitmap (evaluate set_bitmap ordered_f64 demo_postings
      \<lparr>wf_condition = And [Comparison ''k'' (In [IntV 7, Str ''y'']), Comparison ''s'' (Ne (Str ''z''))]\<rparr>) 5 \<and>
   \<not> bm_contains set_bitmap (evaluate set_bitmap ordered_f64 demo_postings
      \<lparr>wf_condition = And [Comparison ''k'' (In [IntV 7, Str ''y'']), Comparison ''s'' (Ne (Str ''z''))]\<rparr>) 6"
proof -
  let ?f = "\<lparr>wf_condition = And [Comparison ''k'' (In [IntV 7, Str ''y'']), Comparison ''s'' (Ne (Str ''z''))]\<rparr>"
  have ex: "metadata_exact md" if "[5 \<mapsto> [(''k'', IntV 7), (''s'', Str ''x'')]] x = Some md" for x :: u32 and md
    using that by (auto simp: metadata_exact_def hm_wf_def i64_exact_def split: if_splits)
  have "condition_exact (wf_condition ?f)" by (simp add: i64_exact_def)
  from postings_evaluate_correct [OF demo_postings_repr ex this]
  show ?thesis by (simp add: matches_def)
qed

text \<open>C14: The index tracks the live documents. Inserting at a free offset, re-indexing a live offset
  (remove with the old metadata, insert with the new) and deleting one (remove, then sweep) act on
  the represented map as the corresponding map updates.\<close>

theorem postings_updates_refine:
  assumes "postings_repr B F p M"
  shows "(M off = None \<longrightarrow> postings_repr B F (postings_insert B F off md p) (M(off \<mapsto> md_or_empty md))) \<and>
    (M off = Some (md_or_empty old) \<longrightarrow>
       postings_repr B F (postings_insert B F off md (postings_remove B F off old p)) (M(off \<mapsto> md_or_empty md)) \<and>
       postings_repr B F (postings_remove_all B off (postings_remove B F off old p)) (M(off := None)))"
  using postings.insert_repr [OF assms] postings.replace_repr [OF assms] postings.delete_repr [OF assms]
  by blast

lemma postings_updates_refine_witness:
  "postings_repr set_bitmap ordered_f64
     (postings_insert set_bitmap ordered_f64 9 (Some [(''k'', Bool True)]) demo_postings)
     [5 \<mapsto> [(''k'', IntV 7), (''s'', Str ''x'')], 9 \<mapsto> [(''k'', Bool True)]]"
  using postings_updates_refine [OF demo_postings_repr, of 9 "Some [(''k'', Bool True)]"] by simp

text \<open>Beyond 53 bits the index and the oracle differ. A document holding 2^53 + 1 is selected by the
  index for an equality filter on 2^53, since both round to the same float, while the reference
  semantics compares the integers and does not match.\<close>

theorem postings_large_integers_conflated:
  assumes "bitmap_laws B" "of_laws F"
  shows "bm_contains B
      (evaluate B F (postings_insert B F 0 (Some [(''k'', IntV 9007199254740993)]) (postings_new B))
        \<lparr>wf_condition = Comparison ''k'' (Eq (IntV 9007199254740992))\<rparr>) 0 \<and>
    \<not> matches \<lparr>wf_condition = Comparison ''k'' (Eq (IntV 9007199254740992))\<rparr> [(''k'', IntV 9007199254740993)]"
proof -
  let ?md = "[(''k'', IntV 9007199254740993)]"
  have R: "postings_repr B F (postings_insert B F 0 (Some ?md) (postings_new B)) [0 \<mapsto> ?md]"
    using postings_insert_repr [OF postings_new_repr [OF assms], of 0 "Some ?md"] by simp
  have wf: "hm_wf md" if "[0 \<mapsto> ?md] x = Some md" for x :: u32 and md
    using that by (auto simp: hm_wf_def split: if_splits)
  have "i64_to_f64 9007199254740993 = i64_to_f64 9007199254740992"
    by (simp add: i64_to_f64_def f64_mag_of_nat_def bitlen.simps f64_round_shift_def)
  then have "vk_eq F (from_value (IntV 9007199254740993)) (from_value (IntV 9007199254740992))"
    using equiv_relD(1) [OF of_eq_equiv [OF assms(2)]] by simp
  then show ?thesis
    using contains_eq_bitmap [OF R wf, where key = "''k''" and k = "from_value (IntV 9007199254740992)" and x = 0]
    by (simp add: evaluate_def matches_def)
qed

lemma postings_large_integers_conflated_witness:
  "bm_contains set_bitmap
      (evaluate set_bitmap ordered_f64
        (postings_insert set_bitmap ordered_f64 0 (Some [(''k'', IntV 9007199254740993)]) (postings_new set_bitmap))
        \<lparr>wf_condition = Comparison ''k'' (Eq (IntV 9007199254740992))\<rparr>) 0"
  using postings_large_integers_conflated [OF set_bitmap_laws ordered_f64_laws] by simp

end
