(* ===== verification/Wal.thy ===== *)
theory Wal
  imports Core_Types
begin

text \<open>
  The write-ahead log of \<^verbatim>\<open>crates/rekha-wal/src/lib.rs\<close>: the file format, opening with
  recovery of a torn tail, append, range reads and pruning. A \<open>wal\<close> is the Rust handle
  together with the bytes of the file behind it (the handle is the file's only writer).
  \<^verbatim>\<open>bincode\<close> and \<^verbatim>\<open>crc32fast\<close> are the parameter \<open>codec\<close>; offsets, lengths and record
  counts are naturals, sequence numbers and epochs are 64-bit words. I/O errors other than a
  short read are not modelled, and \<^verbatim>\<open>fsync\<close> has no effect on the bytes a process sees.
\<close>

section \<open>Parameters, constants and data\<close>

record codec =
  enc_op :: "operation \<Rightarrow> bytes option"
  dec_op :: "bytes \<Rightarrow> operation option"
  crc32 :: "bytes \<Rightarrow> u32"

text \<open>\<^verbatim>\<open>bincode::deserialize\<close> reads back what \<^verbatim>\<open>bincode::serialize\<close> wrote.\<close>

definition codec_laws :: "codec \<Rightarrow> bool" where
  "codec_laws C \<longleftrightarrow> (\<forall>op b. enc_op C op = Some b \<longrightarrow> dec_op C b = Some op)"

definition MAGIC :: bytes where "MAGIC = [0x52, 0x4B, 0x57, 0x31]"
definition VERSION :: u16 where "VERSION = 1"
definition HEADER_LEN :: nat where "HEADER_LEN = 18"
definition RECORD_HEADER_LEN :: nat where "RECORD_HEADER_LEN = 24"

record wal_options =
  wo_fsync :: bool
  wo_start_seq :: "u64 option"

definition wal_options_new :: "bool \<Rightarrow> wal_options" where
  "wal_options_new fsync = \<lparr>wo_fsync = fsync, wo_start_seq = None\<rparr>"

record wal_record =
  wr_seq :: u64
  wr_epoch :: u64
  wr_op :: operation

datatype corrupt =
    TruncatedHeader
  | BadMagic bytes
  | UnsupportedVersion u16
  | HeaderCrcMismatch
  | RecordTooLarge nat
  | OutOfBounds nat
  | FencedRecord u64 u64
  | NonMonotonic
  | CrcMismatch u64

datatype wal_error =
    Io
  | Corrupt corrupt
  | Encode
  | Fenced u64 u64

record wal =
  wal_file :: bytes
  wal_header_epoch :: u64
  wal_last_seq :: u64
  wal_len :: nat
  wal_file_len :: nat
  wal_opts :: wal_options

section \<open>The file header\<close>

definition build_header :: "codec \<Rightarrow> u64 \<Rightarrow> bytes" where
  "build_header C epoch =
     (let hdr = MAGIC @ u16_le VERSION @ u64_le epoch in hdr @ u32_le (crc32 C hdr))"

definition read_and_verify_header :: "codec \<Rightarrow> bytes \<Rightarrow> wal_error + u64" where
  "read_and_verify_header C f =
     (case read_exact f 0 HEADER_LEN of
        None \<Rightarrow> Inl (Corrupt TruncatedHeader)
      | Some hdr \<Rightarrow>
          if slice 0 4 hdr \<noteq> MAGIC then Inl (Corrupt (BadMagic (slice 0 4 hdr)))
          else if le_u16 (slice 4 6 hdr) \<noteq> VERSION
            then Inl (Corrupt (UnsupportedVersion (le_u16 (slice 4 6 hdr))))
          else if le_u32 (slice 14 18 hdr) \<noteq> crc32 C (slice 0 14 hdr)
            then Inl (Corrupt HeaderCrcMismatch)
          else Inr (le_u64 (slice 6 14 hdr)))"

section \<open>Scanning and recovery\<close>

text \<open>The 24-byte record prefix: length, CRC, sequence number and epoch.\<close>

definition record_header :: "bytes \<Rightarrow> nat \<Rightarrow> (nat \<times> u32 \<times> u64 \<times> u64) option" where
  "record_header f off =
     (case read_exact f off RECORD_HEADER_LEN of
        None \<Rightarrow> None
      | Some hdr \<Rightarrow>
          Some (unat (le_u32 (slice 0 4 hdr)), le_u32 (slice 4 8 hdr),
                le_u64 (slice 8 16 hdr), le_u64 (slice 16 24 hdr)))"

definition not_after :: "u64 \<Rightarrow> u64 option \<Rightarrow> bool" where
  "not_after seq prev = (case prev of Some p \<Rightarrow> seq \<le> p | None \<Rightarrow> False)"

function scan_loop ::
  "codec \<Rightarrow> bytes \<Rightarrow> u64 \<Rightarrow> nat \<Rightarrow> nat \<Rightarrow> nat \<Rightarrow> u64 \<Rightarrow> u64 option \<Rightarrow> wal_error + nat \<times> nat \<times> u64" where
  "scan_loop C f header_epoch file_len offset count last_seq prev_seq =
     (if offset + RECORD_HEADER_LEN \<le> file_len then
        (case record_header f offset of
           None \<Rightarrow> Inl Io
         | Some (record_len, stored_crc, seq, record_epoch) \<Rightarrow>
             if record_len < RECORD_HEADER_LEN \<or> offset + record_len > file_len
             then Inr (offset, count, last_seq)
             else if record_epoch < header_epoch then Inr (offset, count, last_seq)
             else if not_after seq prev_seq then Inr (offset, count, last_seq)
             else (case read_exact f (offset + RECORD_HEADER_LEN) (record_len - RECORD_HEADER_LEN) of
                 None \<Rightarrow> Inl Io
               | Some payload \<Rightarrow>
                   if crc32 C payload \<noteq> stored_crc then Inr (offset, count, last_seq)
                   else if dec_op C payload = None then Inr (offset, count, last_seq)
                   else scan_loop C f header_epoch file_len (offset + record_len) (count + 1)
                          seq (Some seq)))
      else Inr (offset, count, last_seq))"
  by pat_completeness auto

termination
  by (relation "measure (\<lambda>(C, f, header_epoch, file_len, offset, count, last_seq, prev_seq).
        file_len - offset)")
    (auto simp: RECORD_HEADER_LEN_def)

declare scan_loop.simps [simp del]

definition scan :: "codec \<Rightarrow> bytes \<Rightarrow> u64 \<Rightarrow> nat \<Rightarrow> wal_error + nat \<times> nat \<times> u64" where
  "scan C f header_epoch file_len = scan_loop C f header_epoch file_len HEADER_LEN 0 0 None"

text \<open>Recovery truncates the file; the first component is the file it leaves.\<close>

definition recover :: "codec \<Rightarrow> bytes \<Rightarrow> nat \<Rightarrow> u64 \<Rightarrow> wal_error + bytes \<times> nat \<times> nat \<times> u64" where
  "recover C f file_len header_epoch =
     and_then (scan C f header_epoch file_len) (\<lambda>(valid_end, count, last_seq).
       Inr (if valid_end \<noteq> file_len then set_len f valid_end else f, valid_end, count, last_seq))"

section \<open>The operations\<close>

definition saturating_sub1 :: "u64 \<Rightarrow> u64" where
  "saturating_sub1 n = (if n = 0 then 0 else n - 1)"

text \<open>\<open>f\<close> is the file's content when it is opened, empty when it was just created.\<close>

definition wal_open :: "codec \<Rightarrow> bytes \<Rightarrow> epoch \<Rightarrow> wal_options \<Rightarrow> wal_error + wal" where
  "wal_open C f epoch options =
     (let file_len = length f in
      if file_len = 0 then
        Inr \<lparr>wal_file = write_at f 0 (build_header C (epoch_val epoch)),
             wal_header_epoch = epoch_val epoch,
             wal_last_seq = (case wo_start_seq options of Some n \<Rightarrow> saturating_sub1 n | None \<Rightarrow> 0),
             wal_len = 0, wal_file_len = HEADER_LEN, wal_opts = options\<rparr>
      else
        and_then (read_and_verify_header C f) (\<lambda>header_epoch.
        and_then (recover C f file_len header_epoch) (\<lambda>(f', valid_len, count, last_seq).
          Inr \<lparr>wal_file = f', wal_header_epoch = header_epoch,
               wal_last_seq =
                 (if count = 0 then
                    (case wo_start_seq options of Some n \<Rightarrow> saturating_sub1 n | None \<Rightarrow> last_seq)
                  else last_seq),
               wal_len = count, wal_file_len = valid_len, wal_opts = options\<rparr>)))"

text \<open>The bytes one append writes.\<close>

definition record_bytes :: "codec \<Rightarrow> u64 \<Rightarrow> u64 \<Rightarrow> bytes \<Rightarrow> bytes" where
  "record_bytes C seq epoch payload =
     u32_le (of_nat (RECORD_HEADER_LEN + length payload)) @ u32_le (crc32 C payload) @
     u64_le seq @ u64_le epoch @ payload"

definition wal_append :: "codec \<Rightarrow> operation \<Rightarrow> wal \<Rightarrow> wal_error + wal \<times> wal_record" where
  "wal_append C op w =
     (let seq = wal_last_seq w + 1;
          epoch = wal_header_epoch w
      in if epoch < wal_header_epoch w then Inl (Fenced epoch (wal_header_epoch w))
      else (case enc_op C op of
          None \<Rightarrow> Inl Encode
        | Some payload \<Rightarrow>
            (let total_len = RECORD_HEADER_LEN + length payload in
             if total_len > 2 ^ 32 - 1 then Inl (Corrupt (RecordTooLarge total_len))
             else
               (let buf = record_bytes C seq epoch payload in
                Inr (w\<lparr>wal_file := write_at (wal_file w) (wal_file_len w) buf,
                       wal_file_len := wal_file_len w + length buf,
                       wal_last_seq := seq,
                       wal_len := wal_len w + 1\<rparr>,
                     \<lparr>wr_seq = seq, wr_epoch = epoch, wr_op = op\<rparr>)))))"

definition wal_is_empty :: "wal \<Rightarrow> bool" where
  "wal_is_empty w = (wal_len w = 0)"

definition wal_epoch :: "wal \<Rightarrow> u64" where
  "wal_epoch w = wal_header_epoch w"

definition wal_size_bytes :: "wal \<Rightarrow> nat" where
  "wal_size_bytes w = wal_file_len w"

function read_loop ::
  "codec \<Rightarrow> wal \<Rightarrow> u64 \<Rightarrow> u64 \<Rightarrow> nat \<Rightarrow> u64 option \<Rightarrow> wal_record list \<Rightarrow> wal_error + wal_record list" where
  "read_loop C w from to_seq offset prev_seq out =
     (if offset + RECORD_HEADER_LEN \<le> wal_file_len w then
        (case record_header (wal_file w) offset of
           None \<Rightarrow> Inl Io
         | Some (record_len, stored_crc, seq, record_epoch) \<Rightarrow>
             if record_len < RECORD_HEADER_LEN \<or> offset + record_len > wal_file_len w
             then Inl (Corrupt (OutOfBounds offset))
             else if record_epoch < wal_header_epoch w
             then Inl (Corrupt (FencedRecord record_epoch (wal_header_epoch w)))
             else if not_after seq prev_seq then Inl (Corrupt NonMonotonic)
             else (case read_exact (wal_file w) (offset + RECORD_HEADER_LEN)
                          (record_len - RECORD_HEADER_LEN) of
                 None \<Rightarrow> Inl Io
               | Some payload \<Rightarrow>
                   if crc32 C payload \<noteq> stored_crc then Inl (Corrupt (CrcMismatch seq))
                   else if seq \<ge> from then
                     (if seq > to_seq then Inr out
                      else (case dec_op C payload of
                          None \<Rightarrow> Inl Encode
                        | Some op \<Rightarrow>
                            read_loop C w from to_seq (offset + record_len) (Some seq)
                              (out @ [\<lparr>wr_seq = seq, wr_epoch = record_epoch, wr_op = op\<rparr>])))
                   else read_loop C w from to_seq (offset + record_len) (Some seq) out))
      else Inr out)"
  by pat_completeness auto

termination
  by (relation "measure (\<lambda>(C, w, from, to_seq, offset, prev_seq, out). wal_file_len w - offset)")
    (auto simp: RECORD_HEADER_LEN_def)

declare read_loop.simps [simp del]

definition wal_read_range :: "codec \<Rightarrow> u64 \<Rightarrow> u64 \<Rightarrow> wal \<Rightarrow> wal_error + wal_record list" where
  "wal_read_range C from to_seq w =
     (if from > to_seq then Inr [] else read_loop C w from to_seq HEADER_LEN None [])"

text \<open>Pruning copies the kept records into a temporary file, here the accumulator.\<close>

function prune_loop :: "wal \<Rightarrow> u64 \<Rightarrow> nat \<Rightarrow> bytes \<Rightarrow> wal_error + bytes" where
  "prune_loop w keep_from offset tmp =
     (if offset + RECORD_HEADER_LEN \<le> wal_file_len w then
        (case record_header (wal_file w) offset of
           None \<Rightarrow> Inl Io
         | Some (record_len, _, seq, _) \<Rightarrow>
             if record_len < RECORD_HEADER_LEN \<or> offset + record_len > wal_file_len w
             then Inl (Corrupt (OutOfBounds offset))
             else if seq > keep_from then
               (case read_exact (wal_file w) offset record_len of
                  None \<Rightarrow> Inl Io
                | Some buf \<Rightarrow> prune_loop w keep_from (offset + record_len) (tmp @ buf))
             else prune_loop w keep_from (offset + record_len) tmp)
      else Inr tmp)"
  by pat_completeness auto

termination
  by (relation "measure (\<lambda>(w, keep_from, offset, tmp). wal_file_len w - offset)")
    (auto simp: RECORD_HEADER_LEN_def)

declare prune_loop.simps [simp del]

definition wal_prune :: "codec \<Rightarrow> u64 \<Rightarrow> wal \<Rightarrow> wal_error + wal" where
  "wal_prune C keep_from w =
     and_then (prune_loop w keep_from HEADER_LEN (build_header C (wal_header_epoch w))) (\<lambda>tmp.
     and_then (recover C tmp (length tmp) (wal_header_epoch w)) (\<lambda>(f', valid_len, count, last_seq).
       Inr (w\<lparr>wal_file := f', wal_file_len := valid_len, wal_len := count, wal_last_seq := last_seq\<rparr>)))"

end
