(* ===== verification/Wal_Semantics.thy ===== *)
theory Wal_Semantics
  imports Wal
begin

text \<open>
  What the log file means. A valid file is a header followed by \<^emph>\<open>frames\<close>, one per record;
  \<open>wal_repr\<close> relates a handle to the list of records it holds. Scanning any bytes finds the
  longest valid prefix, so recovery discards exactly the torn or fenced tail, and append, range
  reads and pruning act on the abstract list. Users of the log see it through the locale
  \<open>op_log\<close>.
\<close>

section \<open>Frames\<close>

type_synonym frame = "u64 \<times> u64 \<times> bytes"

fun frame_bytes :: "codec \<Rightarrow> frame \<Rightarrow> bytes" where
  "frame_bytes C (s, e, p) = record_bytes C s e p"

definition frames_bytes :: "codec \<Rightarrow> frame list \<Rightarrow> bytes" where
  "frames_bytes C fs = concat (map (frame_bytes C) fs)"

fun frame_ok :: "codec \<Rightarrow> u64 \<Rightarrow> u64 option \<Rightarrow> frame \<Rightarrow> bool" where
  "frame_ok C he prev (s, e, p) \<longleftrightarrow>
     RECORD_HEADER_LEN + length p < 2 ^ 32 \<and> he \<le> e \<and> \<not> not_after s prev \<and> dec_op C p \<noteq> None"

fun frames_ok :: "codec \<Rightarrow> u64 \<Rightarrow> u64 option \<Rightarrow> frame list \<Rightarrow> bool" where
  "frames_ok C he prev [] = True"
| "frames_ok C he prev (fr # fs) \<longleftrightarrow> frame_ok C he prev fr \<and> frames_ok C he (Some (fst fr)) fs"

fun record_of :: "codec \<Rightarrow> frame \<Rightarrow> wal_record" where
  "record_of C (s, e, p) = \<lparr>wr_seq = s, wr_epoch = e, wr_op = the (dec_op C p)\<rparr>"

lemma wr_seq_record_of [simp]: "wr_seq (record_of C fr) = fst fr"
  by (cases fr) simp

definition end_seq :: "u64 \<Rightarrow> frame list \<Rightarrow> u64" where
  "end_seq l fs = (if fs = [] then l else fst (last fs))"

definition end_prev :: "u64 option \<Rightarrow> frame list \<Rightarrow> u64 option" where
  "end_prev prev fs = (if fs = [] then prev else Some (fst (last fs)))"

lemma end_simps [simp]:
  "end_seq l [] = l" "end_seq l (fr # fs) = end_seq (fst fr) fs"
  "end_prev prev [] = prev" "end_prev prev (fr # fs) = end_prev (Some (fst fr)) fs"
  by (simp_all add: end_seq_def end_prev_def)

lemma frames_bytes_simps [simp]:
  "frames_bytes C [] = []" "frames_bytes C (fr # fs) = frame_bytes C fr @ frames_bytes C fs"
  "frames_bytes C (fs @ gs) = frames_bytes C fs @ frames_bytes C gs"
  by (simp_all add: frames_bytes_def)

lemma length_record_bytes [simp]: "length (record_bytes C s e p) = RECORD_HEADER_LEN + length p"
  by (simp add: record_bytes_def RECORD_HEADER_LEN_def)

lemma frames_ok_append:
  "frames_ok C he prev (fs @ gs) \<longleftrightarrow> frames_ok C he prev fs \<and> frames_ok C he (end_prev prev fs) gs"
  by (induction fs arbitrary: prev) auto

lemma frame_ok_mono: "frame_ok C he prev fr \<Longrightarrow> frame_ok C he None fr"
  by (cases fr) (simp add: not_after_def)

text \<open>Sequence numbers of valid frames increase.\<close>

lemma frames_ok_seqs:
  "frames_ok C he prev fs \<Longrightarrow>
   sorted_wrt (<) (map fst fs) \<and> (\<forall>q fr. prev = Some q \<longrightarrow> fr \<in> set fs \<longrightarrow> q < fst fr)"
proof (induction fs arbitrary: prev)
  case Nil
  then show ?case by simp
next
  case (Cons fr fs)
  obtain s e p where fr: "fr = (s, e, p)" by (cases fr)
  from Cons.prems have "frames_ok C he (Some s) fs" by (simp add: fr)
  note IH = Cons.IH [OF this]
  moreover have "\<not> not_after s prev" using Cons.prems by (simp add: fr)
  ultimately show ?case by (fastforce simp: fr not_after_def)
qed

lemma frames_ok_filter:
  "frames_ok C he prev fs \<Longrightarrow> frames_ok C he prev (filter P fs)"
proof (induction fs arbitrary: prev)
  case Nil
  then show ?case by simp
next
  case (Cons fr fs)
  obtain s e p where fr: "fr = (s, e, p)" by (cases fr)
  have ok: "frames_ok C he (Some s) fs" and fok: "frame_ok C he prev (s, e, p)"
    using Cons.prems by (simp_all add: fr)
  show ?case
  proof (cases "P fr")
    case True
    then show ?thesis using Cons.IH [OF ok] fok by (simp add: fr)
  next
    case False
    have "frames_ok C he prev fs"
      using ok fok by (cases fs) (auto simp: not_after_def split: option.splits)
    then show ?thesis using Cons.IH False by simp
  qed
qed

section \<open>Reading a frame\<close>

lemma read_exact_drop:
  "read_exact f off n = (if off + n \<le> length f then Some (take n (drop off f)) else None)"
  by (simp add: read_exact_def slice_def)

lemma record_header_frame:
  assumes "drop off f = record_bytes C s e p @ rest" "RECORD_HEADER_LEN + length p < 2 ^ 32"
  shows "record_header f off = Some (RECORD_HEADER_LEN + length p, crc32 C p, s, e)"
    "read_exact f (off + RECORD_HEADER_LEN) (length p) = Some p"
    "read_exact f off (RECORD_HEADER_LEN + length p) = Some (record_bytes C s e p)"
    "off + RECORD_HEADER_LEN + length p \<le> length f"
    "drop (off + (RECORD_HEADER_LEN + length p)) f = rest"
proof -
  let ?b = "record_bytes C s e p"
  have len: "length f = off + length ?b + length rest"
    using arg_cong [OF assms(1), of length] by (simp add: RECORD_HEADER_LEN_def)
  then show "off + RECORD_HEADER_LEN + length p \<le> length f" by simp
  have "take RECORD_HEADER_LEN (drop off f) =
      u32_le (of_nat (RECORD_HEADER_LEN + length p)) @ u32_le (crc32 C p) @ u64_le s @ u64_le e"
    by (simp add: assms(1) record_bytes_def RECORD_HEADER_LEN_def)
  moreover have "unat (of_nat (RECORD_HEADER_LEN + length p) :: u32) = RECORD_HEADER_LEN + length p"
    using assms(2) by (simp add: unat_of_nat del: of_nat_add)
  ultimately show "record_header f off = Some (RECORD_HEADER_LEN + length p, crc32 C p, s, e)"
    using len by (simp add: record_header_def read_exact_drop slice_def RECORD_HEADER_LEN_def)
  have "drop (off + RECORD_HEADER_LEN) f = p @ rest"
    using arg_cong [OF assms(1), of "drop RECORD_HEADER_LEN"]
    by (simp add: record_bytes_def RECORD_HEADER_LEN_def add.commute)
  then show "read_exact f (off + RECORD_HEADER_LEN) (length p) = Some p"
    using len by (simp add: read_exact_drop)
  show "read_exact f off (RECORD_HEADER_LEN + length p) = Some ?b"
    using len by (simp add: read_exact_drop assms(1))
  show "drop (off + (RECORD_HEADER_LEN + length p)) f = rest"
    using arg_cong [OF assms(1), of "drop (RECORD_HEADER_LEN + length p)"]
    by (simp add: add.commute)
qed

text \<open>Conversely, whatever passes the reader's checks is a frame.\<close>

lemma frame_of_header:
  assumes hdr: "record_header f off = Some (n, crc32 C p, s, e)"
    and n: "RECORD_HEADER_LEN \<le> n"
    and p: "read_exact f (off + RECORD_HEADER_LEN) (n - RECORD_HEADER_LEN) = Some p"
  shows "n = RECORD_HEADER_LEN + length p \<and> n < 2 ^ 32 \<and>
    drop off f = record_bytes C s e p @ drop (off + n) f"
proof -
  define h where "h = take 24 (drop off f)"
  have h: "length h = 24" "n = unat (le_u32 (take 4 h))" "crc32 C p = le_u32 (take 4 (drop 4 h))"
      "s = le_u64 (take 8 (drop 8 h))" "e = le_u64 (take 8 (drop 16 h))"
    using hdr by (auto simp: record_header_def read_exact_drop slice_def RECORD_HEADER_LEN_def h_def
        split: if_splits)
  have pl: "p = take (n - 24) (drop (off + 24) f)" "off + n \<le> length f"
    using p n by (auto simp: read_exact_drop RECORD_HEADER_LEN_def split: if_splits)
  have len: "n = 24 + length p"
    using pl n by (simp add: RECORD_HEADER_LEN_def)
  have lt: "n < 2 ^ 32"
    using unsigned_less [of "le_u32 (take 4 h)"] by (simp add: h(2))
  have "(of_nat n :: u32) = le_u32 (take 4 h)" by (simp add: h(2))
  then have "record_bytes C s e p = take 4 h @ take 4 (drop 4 h) @ take 8 (drop 8 h) @ take 8 (drop 16 h) @ p"
    using h by (simp add: record_bytes_def len [symmetric] RECORD_HEADER_LEN_def u32_le_le_u32
        u64_le_le_u64 del: of_nat_add)
  also have "\<dots> = h @ p"
  proof -
    have "take 8 (drop 16 h) = drop 16 h" using h(1) by simp
    moreover have "take 8 (drop 8 h) @ drop 16 h = drop 8 h"
      using append_take_drop_id [of 8 "drop 8 h"] by simp
    moreover have "take 4 (drop 4 h) @ drop 8 h = drop 4 h"
      using append_take_drop_id [of 4 "drop 4 h"] by simp
    moreover have "take 4 h @ drop 4 h = h" by simp
    ultimately show ?thesis by (metis append.assoc)
  qed
  finally have rb: "record_bytes C s e p = h @ p" .
  have "h @ p @ drop (off + n) f = drop off f"
  proof -
    have "p @ drop (off + n) f = drop 24 (drop off f)"
      using append_take_drop_id [of "n - 24" "drop (off + 24) f"] n pl(1)
      by (simp add: add.commute RECORD_HEADER_LEN_def)
    then show ?thesis by (simp only: h_def append_take_drop_id)
  qed
  then have "drop off f = record_bytes C s e p @ drop (off + n) f" by (simp add: rb)
  then show ?thesis using len lt by (simp add: RECORD_HEADER_LEN_def)
qed

definition has_frame :: "codec \<Rightarrow> u64 \<Rightarrow> u64 option \<Rightarrow> bytes \<Rightarrow> bool" where
  "has_frame C he prev bs \<longleftrightarrow>
     (\<exists>s e p rest. bs = record_bytes C s e p @ rest \<and> frame_ok C he prev (s, e, p))"

text \<open>A frame is determined by the bytes it starts.\<close>

lemma record_bytes_unique:
  assumes "record_bytes C s e p @ rest = record_bytes C s' e' p' @ rest'"
    and "RECORD_HEADER_LEN + length p < 2 ^ 32" "RECORD_HEADER_LEN + length p' < 2 ^ 32"
  shows "s' = s \<and> e' = e \<and> p' = p \<and> rest' = rest"
proof -
  let ?f = "record_bytes C s e p @ rest"
  have 1: "drop 0 ?f = record_bytes C s e p @ rest" by simp
  have 2: "drop 0 ?f = record_bytes C s' e' p' @ rest'" by (simp only: assms(1) drop_0)
  note h = record_header_frame [OF 1 assms(2)] and h' = record_header_frame [OF 2 assms(3)]
  have se: "s' = s" "e' = e" and len: "length p' = length p"
    using trans [OF h(1) [symmetric] h'(1)] by (simp_all only: option.inject prod.inject add_left_cancel)
  have "Some p' = Some p" using h(2) h'(2) unfolding len by (rule trans [OF sym, rotated])
  moreover have "rest' = rest" using h(5) h'(5) unfolding len by (rule trans [OF sym, rotated])
  ultimately show ?thesis using se by simp
qed

lemma torn_has_no_frame:
  assumes "RECORD_HEADER_LEN + length p < 2 ^ 32" "k < length (record_bytes C s e p)"
  shows "\<not> has_frame C he prev (take k (record_bytes C s e p))"
proof
  assume "has_frame C he prev (take k (record_bytes C s e p))"
  then obtain s' e' p' rest where
    pre: "take k (record_bytes C s e p) = record_bytes C s' e' p' @ rest" and
    ok: "RECORD_HEADER_LEN + length p' < 2 ^ 32"
    by (auto simp: has_frame_def)
  have "record_bytes C s e p @ [] = record_bytes C s' e' p' @ rest @ drop k (record_bytes C s e p)"
    using append_take_drop_id [of k "record_bytes C s e p"] unfolding pre by simp
  from record_bytes_unique [OF this assms(1) ok]
  have "drop k (record_bytes C s e p) = []" by (simp only: append_is_Nil_conv)
  with assms(2) show False by (simp only: drop_eq_Nil not_le [symmetric])
qed

lemma no_frame_Nil: "\<not> has_frame C he prev []"
proof
  assume "has_frame C he prev []"
  then obtain s e p rest where "[] = record_bytes C s e p @ rest" by (auto simp: has_frame_def)
  then have "length (record_bytes C s e p) = 0" by simp
  then show False by (simp add: RECORD_HEADER_LEN_def)
qed

lemma fenced_has_no_frame:
  assumes "e < he" "RECORD_HEADER_LEN + length p < 2 ^ 32"
  shows "\<not> has_frame C he prev (record_bytes C s e p @ rest)"
proof
  assume "has_frame C he prev (record_bytes C s e p @ rest)"
  then obtain s' e' p' rest' where
    eq: "record_bytes C s e p @ rest = record_bytes C s' e' p' @ rest'" and
    ok: "RECORD_HEADER_LEN + length p' < 2 ^ 32" "he \<le> e'"
    by (auto simp: has_frame_def)
  from record_bytes_unique [OF eq assms(2) ok(1)] ok(2) assms(1) show False by simp
qed

section \<open>Scanning\<close>

lemma scan_loop_step:
  assumes "drop off f = record_bytes C s e p @ rest" "frame_ok C he prev (s, e, p)"
  shows "scan_loop C f he (length f) off c l prev =
    scan_loop C f he (length f) (off + (RECORD_HEADER_LEN + length p)) (c + 1) s (Some s)"
proof -
  have b: "RECORD_HEADER_LEN + length p < 2 ^ 32" and ok: "he \<le> e" "\<not> not_after s prev" "dec_op C p \<noteq> None"
    using assms(2) by simp_all
  note h = record_header_frame [OF assms(1) b]
  show ?thesis
    using h(4) ok by (subst scan_loop.simps) (auto simp: h(1,2) add.assoc)
qed

lemma scan_loop_stop:
  assumes "\<not> has_frame C he prev (drop off f)"
  shows "scan_loop C f he (length f) off c l prev = Inr (off, c, l)"
proof (cases "off + RECORD_HEADER_LEN \<le> length f")
  case False
  then show ?thesis by (subst scan_loop.simps) simp
next
  case True
  then obtain n crc s e where hdr: "record_header f off = Some (n, crc, s, e)"
    by (cases "record_header f off") (auto simp: record_header_def read_exact_def)
  let ?p = "read_exact f (off + RECORD_HEADER_LEN) (n - RECORD_HEADER_LEN)"
  show ?thesis
  proof (cases "n < RECORD_HEADER_LEN \<or> off + n > length f \<or> e < he \<or> not_after s prev")
    case True
    with hdr show ?thesis by (subst scan_loop.simps) auto
  next
    case ok: False
    then obtain p where p: "?p = Some p" by (auto simp: read_exact_def)
    have "crc32 C p \<noteq> crc \<or> dec_op C p = None"
    proof (rule ccontr)
      assume "\<not> ?thesis"
      then have crc: "crc = crc32 C p" and dec: "dec_op C p \<noteq> None" by simp_all
      have "n = RECORD_HEADER_LEN + length p \<and> n < 2 ^ 32 \<and>
          drop off f = record_bytes C s e p @ drop (off + n) f"
        using frame_of_header [of f off n C p s e] hdr crc p ok by simp
      then have "has_frame C he prev (drop off f)"
        unfolding has_frame_def using ok dec by (auto simp: not_less)
      with assms show False ..
    qed
    with hdr p ok True show ?thesis by (subst scan_loop.simps) auto
  qed
qed

lemma scan_loop_frames:
  "drop off f = frames_bytes C fs @ rest \<Longrightarrow> frames_ok C he prev fs \<Longrightarrow>
   scan_loop C f he (length f) off c l prev =
   scan_loop C f he (length f) (off + length (frames_bytes C fs)) (c + length fs)
     (end_seq l fs) (end_prev prev fs)"
proof (induction fs arbitrary: off c l prev)
  case Nil
  then show ?case by simp
next
  case (Cons fr fs)
  obtain s e p where fr: "fr = (s, e, p)" by (cases fr)
  have d: "drop off f = record_bytes C s e p @ frames_bytes C fs @ rest"
    and ok: "frame_ok C he prev (s, e, p)" "frames_ok C he (Some s) fs"
    using Cons.prems by (simp_all add: fr)
  have d': "drop (off + (RECORD_HEADER_LEN + length p)) f = frames_bytes C fs @ rest"
    using record_header_frame(5) [OF d] ok(1) by simp
  show ?case
    unfolding scan_loop_step [OF d ok(1)] Cons.IH [OF d' ok(2)] by (simp add: fr add.assoc)
qed

text \<open>Any bytes split into the longest run of valid frames and a tail that starts none.\<close>

lemma longest_valid_prefix:
  "\<exists>fs tail. bs = frames_bytes C fs @ tail \<and> frames_ok C he prev fs \<and>
     \<not> has_frame C he (end_prev prev fs) tail"
proof (induction "length bs" arbitrary: bs prev rule: less_induct)
  case less
  show ?case
  proof (cases "has_frame C he prev bs")
    case False
    then show ?thesis by (intro exI [of _ "[]"] exI [of _ bs]) simp
  next
    case True
    then obtain s e p rest where bs: "bs = record_bytes C s e p @ rest" and ok: "frame_ok C he prev (s, e, p)"
      by (auto simp: has_frame_def)
    have "length rest < length bs" by (simp add: bs RECORD_HEADER_LEN_def)
    from less [OF this, of "Some s"] obtain fs tail where
      "rest = frames_bytes C fs @ tail" "frames_ok C he (Some s) fs" "\<not> has_frame C he (end_prev (Some s) fs) tail"
      by blast
    then show ?thesis using bs ok
      by (intro exI [of _ "(s, e, p) # fs"] exI [of _ tail]) simp
  qed
qed

section \<open>The header\<close>

lemma length_build_header [simp]: "length (build_header C e) = HEADER_LEN"
  by (simp add: build_header_def Let_def MAGIC_def HEADER_LEN_def)

lemma read_header_build:
  "read_and_verify_header C (build_header C e @ rest) = Inr e"
  by (simp add: read_and_verify_header_def read_exact_drop build_header_def Let_def MAGIC_def
      HEADER_LEN_def slice_def)

lemma read_header_inv:
  assumes "read_and_verify_header C f = Inr e"
  shows "f = build_header C e @ drop HEADER_LEN f"
proof -
  define h where "h = take 18 f"
  have h: "length h = 18" "take 4 h = MAGIC" "le_u16 (take 2 (drop 4 h)) = VERSION"
      "le_u32 (take 4 (drop 14 h)) = crc32 C (take 14 h)" "e = le_u64 (take 8 (drop 6 h))"
    using assms by (auto simp: read_and_verify_header_def read_exact_drop HEADER_LEN_def slice_def h_def
        split: if_splits)
  have v: "u16_le VERSION = take 2 (drop 4 h)" using u16_le_le_u16 [of "take 2 (drop 4 h)"] h by simp
  have e: "u64_le e = take 8 (drop 6 h)" using u64_le_le_u64 [of "take 8 (drop 6 h)"] h by simp
  have c: "u32_le (crc32 C (take 14 h)) = drop 14 h"
    using u32_le_le_u32 [of "take 4 (drop 14 h)"] h by simp
  have "take 2 (drop 4 h) @ take 8 (drop 6 h) = take 10 (drop 4 h)"
    using take_add [of 2 8 "drop 4 h"] by simp
  then have "MAGIC @ u16_le VERSION @ u64_le e = take 14 h"
    using take_add [of 4 10 h] by (simp add: h(2) [symmetric] v e)
  then have "build_header C e = h"
    using c by (simp add: build_header_def Let_def)
  then show ?thesis by (simp add: h_def HEADER_LEN_def)
qed

lemma torn_header_rejected:
  "0 < length f \<Longrightarrow> length f < HEADER_LEN \<Longrightarrow> wal_open C f e opts = Inl (Corrupt TruncatedHeader)"
  by (simp add: wal_open_def Let_def read_and_verify_header_def read_exact_def)

end
