(* ===== verification/Wal_Log.thy ===== *)
theory Wal_Log
  imports Wal_Semantics "HOL-Library.Sublist"
begin

text \<open>
  The log as a list of records: the representation invariant of the handle, what opening,
  appending, range reads and pruning do to the list, the interface \<open>op_log\<close> the engine relies on
  with its interpretation, and crash safety as a step relation in which an append may be cut
  off after any number of bytes.
\<close>

definition wal_repr :: "codec \<Rightarrow> wal \<Rightarrow> frame list \<Rightarrow> bool" where
  "wal_repr C w fs \<longleftrightarrow>
     codec_laws C \<and>
     wal_file w = build_header C (wal_header_epoch w) @ frames_bytes C fs \<and>
     wal_file_len w = length (wal_file w) \<and>
     wal_len w = length fs \<and>
     frames_ok C (wal_header_epoch w) None fs \<and>
     (fs \<noteq> [] \<longrightarrow> wal_last_seq w = fst (last fs))"

definition log_repr :: "codec \<Rightarrow> wal \<Rightarrow> wal_record list \<Rightarrow> bool" where
  "log_repr C w rs \<longleftrightarrow> (\<exists>fs. wal_repr C w fs \<and> rs = map (record_of C) fs)"

definition writable :: "codec \<Rightarrow> operation \<Rightarrow> bool" where
  "writable C op \<longleftrightarrow>
     (case enc_op C op of None \<Rightarrow> False | Some p \<Rightarrow> RECORD_HEADER_LEN + length p < 2 ^ 32)"

section \<open>Opening\<close>

lemma scan_file:
  assumes "f = build_header C he @ frames_bytes C fs @ tail" "frames_ok C he None fs"
    and "\<not> has_frame C he (end_prev None fs) tail"
  shows "scan C f he (length f) =
    Inr (HEADER_LEN + length (frames_bytes C fs), length fs, end_seq 0 fs)"
proof -
  have d: "drop HEADER_LEN f = frames_bytes C fs @ tail" by (simp add: assms(1))
  have "drop (HEADER_LEN + length (frames_bytes C fs)) f = tail"
    using arg_cong [OF d, of "drop (length (frames_bytes C fs))"] by (simp add: add.commute)
  then show ?thesis
    unfolding scan_def scan_loop_frames [OF d assms(2)] using assms(3) by (simp add: scan_loop_stop)
qed

lemma recover_file:
  assumes "f = build_header C he @ frames_bytes C fs @ tail" "frames_ok C he None fs"
    and "\<not> has_frame C he (end_prev None fs) tail"
  shows "recover C f (length f) he =
    Inr (build_header C he @ frames_bytes C fs, HEADER_LEN + length (frames_bytes C fs),
      length fs, end_seq 0 fs)"
  unfolding recover_def scan_file [OF assms] by (auto simp: assms(1) set_len_take)

text \<open>What the handle holds after opening a file of valid frames and an invalid tail.\<close>

lemma wal_open_file:
  assumes "codec_laws C" "f = build_header C he @ frames_bytes C fs @ tail" "frames_ok C he None fs"
    and "\<not> has_frame C he (end_prev None fs) tail"
  shows "\<exists>w. wal_open C f ep opts = Inr w \<and> wal_repr C w fs \<and> wal_header_epoch w = he \<and> wal_opts w = opts \<and>
    wal_last_seq w = (case wo_start_seq opts of Some n \<Rightarrow> end_seq (saturating_sub1 n) fs | None \<Rightarrow> end_seq 0 fs)"
proof -
  have ne: "f \<noteq> []" using arg_cong [OF assms(2), of length] by (auto simp: HEADER_LEN_def)
  have "read_and_verify_header C f = Inr he" using assms(2) by (simp add: read_header_build)
  then show ?thesis
    unfolding wal_open_def Let_def using ne assms(1,3)
    by (auto simp: recover_file [OF assms(2-4)] wal_repr_def end_seq_def split: option.split)
qed

lemma wal_open_new:
  assumes "codec_laws C"
  shows "\<exists>w. wal_open C [] ep opts = Inr w \<and> wal_repr C w [] \<and> wal_header_epoch w = epoch_val ep \<and>
    wal_opts w = opts \<and>
    wal_last_seq w = (case wo_start_seq opts of Some n \<Rightarrow> saturating_sub1 n | None \<Rightarrow> 0)"
  using assms by (auto simp: wal_open_def Let_def wal_repr_def HEADER_LEN_def)

lemma wal_open_any:
  assumes "codec_laws C" "read_and_verify_header C f = Inr he"
  obtains w fs tail where "wal_open C f ep opts = Inr w" "wal_repr C w fs" "wal_header_epoch w = he"
    "f = wal_file w @ tail" "\<not> has_frame C he (end_prev None fs) tail"
proof -
  obtain fs tail where d: "drop HEADER_LEN f = frames_bytes C fs @ tail" and
    ok: "frames_ok C he None fs" "\<not> has_frame C he (end_prev None fs) tail"
    using longest_valid_prefix by blast
  have f: "f = build_header C he @ frames_bytes C fs @ tail"
    using read_header_inv [OF assms(2)] d by simp
  from wal_open_file [OF assms(1) f ok] show thesis
    using that [of _ fs tail] f ok by (auto simp: wal_repr_def)
qed

lemma wal_reopen:
  assumes "wal_repr C w fs"
  shows "\<exists>w'. wal_open C (wal_file w) ep opts = Inr w' \<and> wal_repr C w' fs \<and>
    wal_header_epoch w' = wal_header_epoch w \<and> wal_opts w' = opts \<and>
    wal_last_seq w' = (case wo_start_seq opts of Some n \<Rightarrow> end_seq (saturating_sub1 n) fs | None \<Rightarrow> end_seq 0 fs)"
  using assms by (intro wal_open_file [where tail = "[]"]) (simp_all add: wal_repr_def no_frame_Nil)

section \<open>Appending\<close>

lemma seq_after:
  assumes "wal_repr C w fs" "wal_last_seq w \<noteq> - 1"
  shows "\<not> not_after (wal_last_seq w + 1) (end_prev None fs)"
proof -
  have "wal_last_seq w < wal_last_seq w + 1"
    using assms(2) by (rule word_less_succ)
  then show ?thesis using assms(1) by (auto simp: not_after_def end_prev_def wal_repr_def)
qed

lemma wal_append_repr:
  assumes R: "wal_repr C w fs" and wr: "writable C op" and "wal_last_seq w \<noteq> - 1"
  obtains w' p where "enc_op C op = Some p" "RECORD_HEADER_LEN + length p < 2 ^ 32"
    "wal_append C op w = Inr (w', \<lparr>wr_seq = wal_last_seq w + 1, wr_epoch = wal_header_epoch w, wr_op = op\<rparr>)"
    "wal_file w' = wal_file w @ record_bytes C (wal_last_seq w + 1) (wal_header_epoch w) p"
    "wal_repr C w' (fs @ [(wal_last_seq w + 1, wal_header_epoch w, p)])"
    "wal_last_seq w' = wal_last_seq w + 1" "wal_header_epoch w' = wal_header_epoch w"
proof -
  obtain p where p: "enc_op C op = Some p" and len: "RECORD_HEADER_LEN + length p < 2 ^ 32"
    using wr by (auto simp: writable_def split: option.splits)
  have dec: "dec_op C p = Some op" using R p by (simp add: wal_repr_def codec_laws_def)
  let ?fr = "(wal_last_seq w + 1, wal_header_epoch w, p)"
  let ?w' = "w\<lparr>wal_file := wal_file w @ record_bytes C (wal_last_seq w + 1) (wal_header_epoch w) p,
               wal_file_len := wal_file_len w + (RECORD_HEADER_LEN + length p),
               wal_last_seq := wal_last_seq w + 1, wal_len := wal_len w + 1\<rparr>"
  have app: "wal_append C op w = Inr (?w', \<lparr>wr_seq = wal_last_seq w + 1, wr_epoch = wal_header_epoch w, wr_op = op\<rparr>)"
    using R p len by (simp add: wal_append_def Let_def wal_repr_def)
  have "frame_ok C (wal_header_epoch w) (end_prev None fs) ?fr"
    using seq_after [OF R assms(3)] len dec by simp
  then have "wal_repr C ?w' (fs @ [?fr])"
    using R by (simp add: wal_repr_def frames_ok_append)
  from that [OF p len app _ this] show thesis by simp
qed

section \<open>Reading a range\<close>

lemma read_loop_frames:
  assumes "wal_file_len w = length (wal_file w)"
  shows "drop off (wal_file w) = frames_bytes C fs \<Longrightarrow> frames_ok C (wal_header_epoch w) prev fs \<Longrightarrow>
    read_loop C w from to_seq off prev out =
      Inr (out @ map (record_of C) (filter (\<lambda>fr. from \<le> fst fr \<and> fst fr \<le> to_seq) fs))"
proof (induction fs arbitrary: off prev out)
  case Nil
  then have "length (wal_file w) \<le> off" by simp
  then show ?case using assms by (subst read_loop.simps) (simp add: RECORD_HEADER_LEN_def)
next
  case (Cons fr fs)
  obtain s e p where fr: "fr = (s, e, p)" by (cases fr)
  have d: "drop off (wal_file w) = record_bytes C s e p @ frames_bytes C fs"
    and ok: "RECORD_HEADER_LEN + length p < 2 ^ 32" "wal_header_epoch w \<le> e" "\<not> not_after s prev"
    and rest: "frames_ok C (wal_header_epoch w) (Some s) fs"
    using Cons.prems by (simp_all add: fr)
  obtain op where op: "dec_op C p = Some op" using Cons.prems by (auto simp: fr)
  note h = record_header_frame [OF d ok(1)]
  note IH = Cons.IH [OF h(5) rest]
  have tail: "filter (\<lambda>fr. from \<le> fst fr \<and> fst fr \<le> to_seq) fs = []" if "to_seq < s"
    using frames_ok_seqs [OF rest] that by (fastforce simp: filter_empty_conv)
  show ?case
    using h(4) ok tail by (subst read_loop.simps)
      (auto simp: assms h(1,2) IH fr op not_less add.assoc)
qed

lemma wal_read_range_frames:
  assumes "wal_repr C w fs"
  shows "wal_read_range C from to_seq w =
    Inr (map (record_of C) (filter (\<lambda>fr. from \<le> fst fr \<and> fst fr \<le> to_seq) fs))"
proof (cases "from > to_seq")
  case True
  then have "filter (\<lambda>fr. from \<le> fst fr \<and> fst fr \<le> to_seq) fs = []"
    by (auto simp: filter_empty_conv)
  then show ?thesis using True by (simp add: wal_read_range_def)
next
  case False
  have len: "wal_file_len w = length (wal_file w)" and d: "drop HEADER_LEN (wal_file w) = frames_bytes C fs"
    and ok: "frames_ok C (wal_header_epoch w) None fs"
    using assms by (simp_all add: wal_repr_def)
  show ?thesis using read_loop_frames [OF len d ok] False by (simp add: wal_read_range_def)
qed

section \<open>Pruning\<close>

lemma prune_loop_frames:
  assumes "wal_file_len w = length (wal_file w)"
  shows "drop off (wal_file w) = frames_bytes C fs \<Longrightarrow> frames_ok C he prev fs \<Longrightarrow>
    prune_loop w keep off tmp = Inr (tmp @ frames_bytes C (filter (\<lambda>fr. keep < fst fr) fs))"
proof (induction fs arbitrary: off prev tmp)
  case Nil
  then have "length (wal_file w) \<le> off" by simp
  then show ?case using assms by (subst prune_loop.simps) (simp add: RECORD_HEADER_LEN_def)
next
  case (Cons fr fs)
  obtain s e p where fr: "fr = (s, e, p)" by (cases fr)
  have d: "drop off (wal_file w) = record_bytes C s e p @ frames_bytes C fs"
    and len: "RECORD_HEADER_LEN + length p < 2 ^ 32" and rest: "frames_ok C he (Some s) fs"
    using Cons.prems by (simp_all add: fr)
  note h = record_header_frame [OF d len]
  show ?case
    using h(4) by (subst prune_loop.simps) (auto simp: assms h(1,3) Cons.IH [OF h(5) rest] fr add.assoc)
qed

lemma wal_prune_repr:
  fixes keep :: u64
  assumes "wal_repr C w fs"
  defines "gs \<equiv> filter (\<lambda>fr. keep < fst fr) fs"
  shows "\<exists>w'. wal_prune C keep w = Inr w' \<and> wal_repr C w' gs \<and>
    wal_header_epoch w' = wal_header_epoch w \<and> wal_last_seq w' = end_seq 0 gs \<and> wal_opts w' = wal_opts w"
proof -
  let ?he = "wal_header_epoch w"
  have len: "wal_file_len w = length (wal_file w)" and d: "drop HEADER_LEN (wal_file w) = frames_bytes C fs"
    and ok: "frames_ok C ?he None fs" and C: "codec_laws C"
    using assms(1) by (simp_all add: wal_repr_def)
  have ok': "frames_ok C ?he None gs" unfolding gs_def using ok by (rule frames_ok_filter)
  let ?f = "build_header C ?he @ frames_bytes C gs"
  have "recover C ?f (length ?f) ?he = Inr (?f, HEADER_LEN + length (frames_bytes C gs), length gs, end_seq 0 gs)"
    using recover_file [of ?f C ?he gs "[]"] ok' by (simp add: no_frame_Nil)
  then show ?thesis
    using prune_loop_frames [OF len d ok, of keep "build_header C ?he"] ok' C
    by (simp add: wal_prune_def gs_def [symmetric] wal_repr_def end_seq_def)
qed

section \<open>The interface of the log\<close>

text \<open>The engine appends a batch one operation at a time and stops at the first error.\<close>

fun append_each ::
  "(operation \<Rightarrow> 'w \<Rightarrow> wal_error + 'w \<times> wal_record) \<Rightarrow> operation list \<Rightarrow> 'w \<Rightarrow>
    wal_error + 'w \<times> wal_record list" where
  "append_each app [] w = Inr (w, [])"
| "append_each app (op # ops) w =
     and_then (app op w) (\<lambda>(w1, r).
     and_then (append_each app ops w1) (\<lambda>(w2, rs). Inr (w2, r # rs)))"

definition in_range :: "u64 \<Rightarrow> u64 \<Rightarrow> wal_record \<Rightarrow> bool" where
  "in_range from to_seq r \<longleftrightarrow> from \<le> wr_seq r \<and> wr_seq r \<le> to_seq"

locale op_log =
  fixes repr :: "'w \<Rightarrow> wal_record list \<Rightarrow> bool"
    and last_seq :: "'w \<Rightarrow> u64"
    and append :: "operation \<Rightarrow> 'w \<Rightarrow> wal_error + 'w \<times> wal_record"
    and read_range :: "u64 \<Rightarrow> u64 \<Rightarrow> 'w \<Rightarrow> wal_error + wal_record list"
    and prune :: "u64 \<Rightarrow> 'w \<Rightarrow> wal_error + 'w"
    and fits :: "operation \<Rightarrow> bool"
  assumes repr_sorted: "repr w rs \<Longrightarrow> sorted_wrt (<) (map wr_seq rs)"
    and repr_last: "repr w rs \<Longrightarrow> rs \<noteq> [] \<Longrightarrow> last_seq w = wr_seq (last rs)"
    and append_ok: "repr w rs \<Longrightarrow> fits op \<Longrightarrow> last_seq w \<noteq> - 1 \<Longrightarrow>
      \<exists>w' r. append op w = Inr (w', r) \<and> repr w' (rs @ [r]) \<and> wr_op r = op \<and>
        wr_seq r = last_seq w + 1 \<and> last_seq w' = last_seq w + 1"
    and range_ok: "repr w rs \<Longrightarrow> read_range from to_seq w = Inr (filter (in_range from to_seq) rs)"
    and prune_ok: "repr w rs \<Longrightarrow> \<exists>w'. prune keep w = Inr w' \<and> repr w' (filter (\<lambda>r. keep < wr_seq r) rs)"
begin

lemma seq_bounded:
  assumes "repr w rs" "r \<in> set rs" shows "wr_seq r \<le> last_seq w"
proof -
  from assms(2) have ne: "rs \<noteq> []" by auto
  then obtain init l where rs: "rs = init @ [l]" by (cases rs rule: rev_cases) auto
  have "\<forall>x\<in>set init. wr_seq x < wr_seq l"
    using repr_sorted [OF assms(1)] by (auto simp: rs sorted_wrt_append)
  then show ?thesis using assms(2) repr_last [OF assms(1) ne] by (auto simp: rs)
qed

lemma append_each_ok:
  "repr w rs \<Longrightarrow> list_all fits ops \<Longrightarrow> unat (last_seq w) + length ops < 2 ^ 64 \<Longrightarrow>
   \<exists>w' new. append_each append ops w = Inr (w', new) \<and> repr w' (rs @ new) \<and> map wr_op new = ops \<and>
     map (\<lambda>r. unat (wr_seq r)) new = [Suc (unat (last_seq w)) ..< Suc (unat (last_seq w) + length ops)] \<and>
     unat (last_seq w') = unat (last_seq w) + length ops"
proof (induction ops arbitrary: w rs)
  case Nil
  then show ?case by simp
next
  case (Cons op ops)
  have nmax: "last_seq w \<noteq> - 1" using Cons.prems(3) by (auto simp: unat_max64)
  obtain w1 r where 1: "append op w = Inr (w1, r)" "repr w1 (rs @ [r])" "wr_op r = op"
    "wr_seq r = last_seq w + 1" "last_seq w1 = last_seq w + 1"
    using append_ok [OF Cons.prems(1) _ nmax, of op] Cons.prems(2) by auto
  have l1: "unat (last_seq w1) = Suc (unat (last_seq w))"
    using unat_succ [OF nmax] 1(5) by simp
  have "list_all fits ops" "unat (last_seq w1) + length ops < 2 ^ 64"
    using Cons.prems l1 by simp_all
  from Cons.IH [OF 1(2) this] obtain w' new where
    2: "append_each append ops w1 = Inr (w', new)" "repr w' ((rs @ [r]) @ new)" "map wr_op new = ops"
      "map (\<lambda>r. unat (wr_seq r)) new = [Suc (unat (last_seq w1)) ..< Suc (unat (last_seq w1) + length ops)]"
      "unat (last_seq w') = unat (last_seq w1) + length ops"
    by blast
  show ?case
    using 1 2 l1 by (intro exI [of _ w'] exI [of _ "r # new"])
      (auto simp: upt_rec [of "Suc (unat (last_seq w))"])
qed

text \<open>The delta a follower pulls is exactly the batch appended since its position.\<close>

lemma delta_exact:
  assumes R: "repr w rs" and "list_all fits ops" "unat (last_seq w) + length ops < 2 ^ 64"
    and nmax: "last_seq w \<noteq> - 1" and app: "append_each append ops w = Inr (w', new)"
  shows "read_range (last_seq w + 1) (last_seq w') w' = Inr new"
proof -
  have R': "repr w' (rs @ new)" and
    seqs: "map (\<lambda>r. unat (wr_seq r)) new = [Suc (unat (last_seq w)) ..< Suc (unat (last_seq w) + length ops)]"
    using append_each_ok [OF assms(1-3)] app by auto
  have old: "\<not> in_range (last_seq w + 1) (last_seq w') r" if "r \<in> set rs" for r
    using le_less_trans [OF seq_bounded [OF R that] word_less_succ [OF nmax]]
    by (simp add: in_range_def not_le [symmetric])
  have new: "in_range (last_seq w + 1) (last_seq w') r" if "r \<in> set new" for r
  proof -
    have "unat (wr_seq r) \<in> set (map (\<lambda>r. unat (wr_seq r)) new)" using that by simp
    then have lt: "unat (last_seq w) < unat (wr_seq r)" unfolding seqs by auto
    then have "last_seq w + 1 \<le> wr_seq r"
      using unat_succ [OF nmax] by (simp add: word_le_nat_alt)
    moreover have "wr_seq r \<le> last_seq w'" using seq_bounded [OF R'] that by simp
    ultimately show ?thesis by (simp add: in_range_def)
  qed
  have "filter (in_range (last_seq w + 1) (last_seq w')) rs = []" using old by (simp add: filter_empty_conv)
  moreover have "filter (in_range (last_seq w + 1) (last_seq w')) new = new" using new by simp
  ultimately show ?thesis using range_ok [OF R'] by simp
qed

text \<open>Pruning at the last sequence number empties the log; below it, it keeps every later record.\<close>

lemma prune_all:
  assumes "repr w rs" shows "\<exists>w'. prune (last_seq w) w = Inr w' \<and> repr w' []"
proof -
  have "filter (\<lambda>r. last_seq w < wr_seq r) rs = []"
    using seq_bounded [OF assms] by (auto simp: filter_empty_conv not_less)
  then show ?thesis using prune_ok [OF assms, of "last_seq w"] by simp
qed

lemma prune_keeps_range:
  assumes "repr w rs" "keep < from" "prune keep w = Inr w'"
  shows "read_range from to_seq w' = read_range from to_seq w"
proof -
  have "repr w' (filter (\<lambda>r. keep < wr_seq r) rs)"
    using prune_ok [OF assms(1), of keep] assms(3) by auto
  moreover have "filter (in_range from to_seq) (filter (\<lambda>r. keep < wr_seq r) rs) = filter (in_range from to_seq) rs"
    using assms(2) by (auto simp: in_range_def intro!: filter_cong)
  ultimately show ?thesis using range_ok assms(1) by simp
qed

end

lemma log_repr_append:
  assumes "log_repr C w rs" "writable C op" "wal_last_seq w \<noteq> - 1"
  shows "\<exists>w' r. wal_append C op w = Inr (w', r) \<and> log_repr C w' (rs @ [r]) \<and> wr_op r = op \<and>
    wr_seq r = wal_last_seq w + 1 \<and> wal_last_seq w' = wal_last_seq w + 1"
proof -
  obtain fs where R: "wal_repr C w fs" and rs: "rs = map (record_of C) fs"
    using assms(1) by (auto simp: log_repr_def)
  obtain w' p where p: "enc_op C op = Some p" and
    app: "wal_append C op w = Inr (w', \<lparr>wr_seq = wal_last_seq w + 1, wr_epoch = wal_header_epoch w, wr_op = op\<rparr>)"
    and R': "wal_repr C w' (fs @ [(wal_last_seq w + 1, wal_header_epoch w, p)])"
    and l: "wal_last_seq w' = wal_last_seq w + 1"
    using wal_append_repr [OF R assms(2,3)] by blast
  have "dec_op C p = Some op" using R p by (simp add: wal_repr_def codec_laws_def)
  then have "log_repr C w' (rs @ [\<lparr>wr_seq = wal_last_seq w + 1, wr_epoch = wal_header_epoch w, wr_op = op\<rparr>])"
    using R' unfolding log_repr_def rs by (intro exI conjI) auto
  with app l show ?thesis by auto
qed

lemma filter_record_of:
  "filter (P \<circ> wr_seq) (map (record_of C) fs) = map (record_of C) (filter (P \<circ> fst) fs)"
  by (simp add: filter_map comp_def)

interpretation wal_log: op_log "log_repr C" wal_last_seq "wal_append C" "wal_read_range C" "wal_prune C" "writable C" for C
proof
  fix w rs
  assume "log_repr C w rs"
  then obtain fs where R: "wal_repr C w fs" and rs: "rs = map (record_of C) fs"
    by (auto simp: log_repr_def)
  show "sorted_wrt (<) (map wr_seq rs)"
    using R frames_ok_seqs by (auto simp: wal_repr_def rs comp_def)
  show "rs \<noteq> [] \<Longrightarrow> wal_last_seq w = wr_seq (last rs)"
    using R by (simp add: wal_repr_def rs last_map)
  show "wal_read_range C a b w = Inr (filter (in_range a b) rs)" for a b
    using wal_read_range_frames [OF R] by (simp add: rs filter_map comp_def in_range_def)
  show "\<exists>w'. wal_prune C keep w = Inr w' \<and> log_repr C w' (filter (\<lambda>r. keep < wr_seq r) rs)" for keep
    using wal_prune_repr [OF R, of keep] by (auto simp: rs log_repr_def filter_map comp_def)
qed (rule log_repr_append)

section \<open>Crash safety\<close>

text \<open>
  The file, the handle while a process has it open, the acknowledged records and the records any
  append attempted, both less what was pruned. An append may be cut off after any number of its
  bytes, or before its acknowledgement; a prune before or after its rename.
\<close>

record log_sys =
  ls_disk :: bytes
  ls_handle :: "wal option"
  ls_acked :: "wal_record list"
  ls_tried :: "wal_record list"

inductive log_step :: "codec \<Rightarrow> log_sys \<Rightarrow> log_sys \<Rightarrow> bool" for C where
  Open: "ls_handle s = None \<Longrightarrow> wal_open C (ls_disk s) ep opts = Inr w \<Longrightarrow>
    log_step C s (s\<lparr>ls_disk := wal_file w, ls_handle := Some w\<rparr>)"
| Append: "ls_handle s = Some w \<Longrightarrow> wal_last_seq w \<noteq> - 1 \<Longrightarrow> wal_append C op w = Inr (w', r) \<Longrightarrow>
    log_step C s (s\<lparr>ls_disk := wal_file w', ls_handle := Some w',
      ls_acked := ls_acked s @ [r], ls_tried := ls_tried s @ [r]\<rparr>)"
| Torn: "ls_handle s = Some w \<Longrightarrow> wal_last_seq w \<noteq> - 1 \<Longrightarrow> wal_append C op w = Inr (w', r) \<Longrightarrow>
    length (wal_file w) \<le> k \<Longrightarrow>
    log_step C s (s\<lparr>ls_disk := take k (wal_file w'), ls_handle := None, ls_tried := ls_tried s @ [r]\<rparr>)"
| Crash: "log_step C s (s\<lparr>ls_handle := None\<rparr>)"
| Prune: "ls_handle s = Some w \<Longrightarrow> wal_prune C keep w = Inr w' \<Longrightarrow> h = Some w' \<or> h = None \<Longrightarrow>
    log_step C s (s\<lparr>ls_disk := wal_file w', ls_handle := h,
      ls_acked := filter (\<lambda>r. keep < wr_seq r) (ls_acked s),
      ls_tried := filter (\<lambda>r. keep < wr_seq r) (ls_tried s)\<rparr>)"

inductive_cases log_stepE: "log_step C s s'"

definition log_init :: "codec \<Rightarrow> u64 \<Rightarrow> log_sys" where
  "log_init C he = \<lparr>ls_disk = build_header C he, ls_handle = None, ls_acked = [], ls_tried = []\<rparr>"

definition log_inv :: "codec \<Rightarrow> log_sys \<Rightarrow> bool" where
  "log_inv C s \<longleftrightarrow> codec_laws C \<and>
     (\<exists>he fs tail. ls_disk s = build_header C he @ frames_bytes C fs @ tail \<and>
        frames_ok C he None fs \<and> \<not> has_frame C he (end_prev None fs) tail \<and>
        subseq (ls_acked s) (map (record_of C) fs) \<and> subseq (map (record_of C) fs) (ls_tried s) \<and>
        (\<forall>w. ls_handle s = Some w \<longrightarrow> wal_repr C w fs \<and> wal_file w = ls_disk s))"

lemma log_invI:
  assumes "wal_repr C w fs" "ls_disk s = wal_file w"
    "subseq (ls_acked s) (map (record_of C) fs)" "subseq (map (record_of C) fs) (ls_tried s)"
    "\<And>v. ls_handle s = Some v \<Longrightarrow> v = w"
  shows "log_inv C s"
  unfolding log_inv_def using assms
  by (intro conjI exI [of _ "wal_header_epoch w"] exI [of _ fs] exI [of _ "[]"])
    (auto simp: wal_repr_def no_frame_Nil)

lemma wal_append_writable: "wal_append C op w = Inr (w', r) \<Longrightarrow> writable C op"
  by (auto simp: wal_append_def writable_def Let_def split: option.splits if_splits)

lemma log_inv_torn:
  assumes inv: "log_inv C s" and h: "ls_handle s = Some w" and nmax: "wal_last_seq w \<noteq> - 1"
    and app: "wal_append C op w = Inr (w', r)" and k: "length (wal_file w) \<le> k"
  shows "log_inv C (s\<lparr>ls_disk := take k (wal_file w'), ls_handle := None, ls_tried := ls_tried s @ [r]\<rparr>)"
proof -
  obtain fs where R: "wal_repr C w fs" and
    sub: "subseq (ls_acked s) (map (record_of C) fs)" "subseq (map (record_of C) fs) (ls_tried s)"
    using inv h by (auto simp: log_inv_def)
  let ?s = "wal_last_seq w + 1" and ?he = "wal_header_epoch w"
  from wal_append_repr [OF R wal_append_writable [OF app] nmax] obtain v p where
    p: "enc_op C op = Some p" and len: "RECORD_HEADER_LEN + length p < 2 ^ 32" and
    app': "wal_append C op w = Inr (v, \<lparr>wr_seq = ?s, wr_epoch = ?he, wr_op = op\<rparr>)" and
    wfv: "wal_file v = wal_file w @ record_bytes C ?s ?he p" and
    Rv: "wal_repr C v (fs @ [(?s, ?he, p)])"
    by blast
  have v: "v = w'" and r: "r = \<lparr>wr_seq = ?s, wr_epoch = ?he, wr_op = op\<rparr>" using app app' by simp_all
  note wf = wfv [unfolded v] and R' = Rv [unfolded v]
  have rec: "record_of C (?s, ?he, p) = r"
    using R p r by (simp add: wal_repr_def codec_laws_def)
  show ?thesis
  proof (cases "k < length (wal_file w')")
    case False
    then show ?thesis
      by (intro log_invI [OF R']) (use sub rec in \<open>simp_all add: subseq_rev_drop_many\<close>)
  next
    case True
    let ?t = "take (k - length (wal_file w)) (record_bytes C ?s ?he p)"
    have disk: "take k (wal_file w') = build_header C ?he @ frames_bytes C fs @ ?t"
      using R k by (simp add: wf wal_repr_def)
    have "\<not> has_frame C ?he (end_prev None fs) ?t"
      by (rule torn_has_no_frame [OF len]) (use True k in \<open>simp add: wf\<close>)
    then show ?thesis
      unfolding log_inv_def using R sub disk
      by (intro conjI exI [of _ ?he] exI [of _ fs] exI [of _ ?t]) (auto simp: wal_repr_def)
  qed
qed

lemma log_inv_step:
  assumes "log_inv C s" "log_step C s s'"
  shows "log_inv C s'"
  using assms(2)
proof cases
  case (Open ep opts w)
  obtain he fs tail where inv: "codec_laws C" "ls_disk s = build_header C he @ frames_bytes C fs @ tail"
      "frames_ok C he None fs" "\<not> has_frame C he (end_prev None fs) tail"
      "subseq (ls_acked s) (map (record_of C) fs)" "subseq (map (record_of C) fs) (ls_tried s)"
    using assms(1) by (auto simp: log_inv_def)
  have "wal_repr C w fs" using wal_open_file [OF inv(1-4), of ep opts] Open by auto
  then show ?thesis by (rule log_invI) (simp_all add: Open(1) inv(5,6))
next
  case (Append w op w' r)
  obtain fs where R: "wal_repr C w fs" and
    sub: "subseq (ls_acked s) (map (record_of C) fs)" "subseq (map (record_of C) fs) (ls_tried s)"
    using assms(1) Append by (auto simp: log_inv_def)
  have "log_repr C w (map (record_of C) fs)" using R by (auto simp: log_repr_def)
  from log_repr_append [OF this wal_append_writable [OF Append(4)] Append(3)] Append(4)
  obtain gs where R': "wal_repr C w' gs" and gs: "map (record_of C) gs = map (record_of C) fs @ [r]"
    by (auto simp: log_repr_def)
  show ?thesis by (rule log_invI [OF R']) (simp_all add: Append(1) gs sub)
next
  case (Torn w op w' r k)
  then show ?thesis using log_inv_torn [OF assms(1)] by simp
next
  case Crash
  then show ?thesis using assms(1) by (auto simp: log_inv_def)
next
  case (Prune w keep w' h)
  obtain fs where R: "wal_repr C w fs" and
    sub: "subseq (ls_acked s) (map (record_of C) fs)" "subseq (map (record_of C) fs) (ls_tried s)"
    using assms(1) Prune by (auto simp: log_inv_def)
  have R': "wal_repr C w' (filter (\<lambda>fr. keep < fst fr) fs)"
    using wal_prune_repr [OF R, of keep] Prune by auto
  have f: "map (record_of C) (filter (\<lambda>fr. keep < fst fr) fs) =
      filter (\<lambda>r. keep < wr_seq r) (map (record_of C) fs)"
    by (simp add: filter_map comp_def)
  show ?thesis using Prune sub
    by (intro log_invI [OF R']) (auto simp: f)
qed

lemma log_inv_init: "codec_laws C \<Longrightarrow> log_inv C (log_init C he)"
  unfolding log_inv_def log_init_def
  by (intro conjI exI [of _ he] exI [of _ "[]"] exI [of _ "[]"]) (simp_all add: no_frame_Nil)

lemma log_inv_reachable:
  assumes "codec_laws C" "(log_step C)\<^sup>*\<^sup>* (log_init C he) s"
  shows "log_inv C s"
  using assms(2) by (induction rule: rtranclp_induct) (auto intro: log_inv_init [OF assms(1)] log_inv_step)

section \<open>Properties\<close>

text \<open>A codec for the witnesses: two operations, and a byte sum for the checksum.\<close>

definition demo_codec :: codec where
  "demo_codec =
     \<lparr>enc_op = (\<lambda>op. if op = Delete ''a'' then Some [1] else if op = Delete ''bc'' then Some [2, 3] else None),
      dec_op = (\<lambda>b. if b = [1] then Some (Delete ''a'') else if b = [2, 3] then Some (Delete ''bc'') else None),
      crc32 = (\<lambda>b. of_nat (sum_list (map unat b)))\<rparr>"

lemma demo_codec_laws: "codec_laws demo_codec"
  by (simp add: codec_laws_def demo_codec_def)

definition demo_wal :: wal where
  "demo_wal = \<lparr>wal_file = build_header demo_codec 3 @ record_bytes demo_codec 1 3 [1],
     wal_header_epoch = 3, wal_last_seq = 1, wal_len = 1, wal_file_len = 43, wal_opts = wal_options_new True\<rparr>"

lemma demo_wal_repr: "wal_repr demo_codec demo_wal [(1, 3, [1])]"
  by (simp add: wal_repr_def demo_codec_laws demo_wal_def HEADER_LEN_def RECORD_HEADER_LEN_def not_after_def)
    (simp add: demo_codec_def)

lemma demo_log_repr:
  "log_repr demo_codec demo_wal [\<lparr>wr_seq = 1, wr_epoch = 3, wr_op = Delete ''a''\<rparr>]"
  unfolding log_repr_def by (intro exI [of _ "[(1, 3, [1])]"] conjI demo_wal_repr) (simp add: demo_codec_def)

text \<open>C2: A log survives crashes. After any sequence of opens, appends, appends torn after any number
  of their bytes, prunes and process crashes, the file opens; the recovered log contains every
  acknowledged and unpruned record, in order, and nothing that was not appended.\<close>

theorem wal_crash_safe:
  assumes "codec_laws C" "(log_step C)\<^sup>*\<^sup>* (log_init C he) s"
  shows "\<exists>w rs. wal_open C (ls_disk s) ep opts = Inr w \<and> log_repr C w rs \<and>
    subseq (ls_acked s) rs \<and> subseq rs (ls_tried s)"
proof -
  obtain he fs tail where disk: "ls_disk s = build_header C he @ frames_bytes C fs @ tail" and
    ok: "frames_ok C he None fs" "\<not> has_frame C he (end_prev None fs) tail" and
    sub: "subseq (ls_acked s) (map (record_of C) fs)" "subseq (map (record_of C) fs) (ls_tried s)"
    using log_inv_reachable [OF assms] unfolding log_inv_def by blast
  from wal_open_file [OF assms(1) disk ok] sub show ?thesis unfolding log_repr_def by blast
qed

lemma demo_torn_run:
  "\<exists>r. (log_step demo_codec)\<^sup>*\<^sup>* (log_init demo_codec 3)
     \<lparr>ls_disk = build_header demo_codec 3 @ take 5 (record_bytes demo_codec 1 3 [1]),
      ls_handle = None, ls_acked = [], ls_tried = [r]\<rparr>"
proof -
  obtain w where w: "wal_open demo_codec (build_header demo_codec 3) (Epoch 9) (wal_options_new True) = Inr w"
    "wal_repr demo_codec w []" "wal_header_epoch w = 3" "wal_last_seq w = 0"
    using wal_open_file [OF demo_codec_laws, of "build_header demo_codec 3" 3 "[]" "[]" "Epoch 9"
        "wal_options_new True"]
    by (auto simp: no_frame_Nil wal_options_new_def end_seq_def)
  have fw: "wal_file w = build_header demo_codec 3" using w by (simp add: wal_repr_def)
  obtain w' r where app: "wal_append demo_codec (Delete ''a'') w = Inr (w', r)"
    "wal_file w' = build_header demo_codec 3 @ record_bytes demo_codec 1 3 [1]"
    using w by (auto simp: wal_append_def demo_codec_def wal_repr_def RECORD_HEADER_LEN_def)
  have "log_step demo_codec (log_init demo_codec 3)
      (log_init demo_codec 3\<lparr>ls_disk := wal_file w, ls_handle := Some w\<rparr>)"
    using w(1) by (intro log_step.Open) (simp_all add: log_init_def)
  moreover have "log_step demo_codec (log_init demo_codec 3\<lparr>ls_disk := wal_file w, ls_handle := Some w\<rparr>)
     \<lparr>ls_disk = build_header demo_codec 3 @ take 5 (record_bytes demo_codec 1 3 [1]),
      ls_handle = None, ls_acked = [], ls_tried = [r]\<rparr>"
    using log_step.Torn [of "log_init demo_codec 3\<lparr>ls_disk := wal_file w, ls_handle := Some w\<rparr>" w demo_codec
        "Delete ''a''" w' r 23] app w(4)
    by (simp add: log_init_def fw HEADER_LEN_def)
  ultimately show ?thesis by (blast intro: rtranclp.rtrancl_into_rtrancl)
qed

text \<open>Witness: a log whose first append is torn after five bytes.\<close>

lemma wal_crash_safe_witness:
  "\<exists>w rs. wal_open demo_codec (build_header demo_codec 3 @ take 5 (record_bytes demo_codec 1 3 [1]))
     (Epoch 4) (wal_options_new True) = Inr w \<and> log_repr demo_codec w rs \<and> subseq [] rs"
proof -
  obtain r where "(log_step demo_codec)\<^sup>*\<^sup>* (log_init demo_codec 3)
     \<lparr>ls_disk = build_header demo_codec 3 @ take 5 (record_bytes demo_codec 1 3 [1]),
      ls_handle = None, ls_acked = [], ls_tried = [r]\<rparr>" using demo_torn_run by blast
  from wal_crash_safe [OF demo_codec_laws this, of "Epoch 4" "wal_options_new True"]
  show ?thesis by auto
qed

text \<open>C8: Delta transfer is exact. Appending a batch gives consecutive sequence numbers after the last
  one, and reading from the position before the batch to the new last sequence number returns
  exactly the batch, in order.\<close>

theorem wal_delta_exact:
  assumes "log_repr C w rs" "list_all (writable C) ops" "wal_last_seq w \<noteq> - 1"
    "unat (wal_last_seq w) + length ops < 2 ^ 64"
  shows "\<exists>w' new. append_each (wal_append C) ops w = Inr (w', new) \<and> log_repr C w' (rs @ new) \<and>
    map wr_op new = ops \<and>
    map (\<lambda>r. unat (wr_seq r)) new = [unat (wal_last_seq w) + 1 ..< unat (wal_last_seq w) + 1 + length ops] \<and>
    wal_read_range C (wal_last_seq w + 1) (wal_last_seq w') w' = Inr new"
  using wal_log.append_each_ok [OF assms(1,2,4)] wal_log.delta_exact [OF assms(1,2,4,3)]
  by (auto simp del: upt_Suc)

lemma wal_delta_exact_witness:
  "\<exists>w' new. append_each (wal_append demo_codec) [Delete ''bc'', Delete ''a''] demo_wal = Inr (w', new) \<and>
     map (\<lambda>r. unat (wr_seq r)) new = [2, 3] \<and>
     wal_read_range demo_codec 2 (wal_last_seq w') w' = Inr new"
  using wal_delta_exact [OF demo_log_repr, of "[Delete ''bc'', Delete ''a'']"]
  by (auto simp: demo_wal_def writable_def demo_codec_def RECORD_HEADER_LEN_def upt_rec)

text \<open>C26: Recovery of arbitrary bytes. Any file whose header verifies opens; what is kept is the
  longest prefix of valid records (well-framed, checksummed, decodable, with increasing sequence
  numbers and no epoch below the file's), and only the rest is cut off.\<close>

theorem wal_recovery_maximal:
  assumes "codec_laws C" "read_and_verify_header C f = Inr he"
  shows "\<exists>w fs tail. wal_open C f ep opts = Inr w \<and> wal_repr C w fs \<and> wal_header_epoch w = he \<and>
    f = wal_file w @ tail \<and> \<not> has_frame C he (end_prev None fs) tail"
  using wal_open_any [OF assms, of ep opts] by metis

lemma wal_recovery_maximal_witness:
  "\<exists>w fs tail. wal_open demo_codec (build_header demo_codec 3 @ [1, 2, 3]) (Epoch 4) (wal_options_new True) = Inr w \<and>
    wal_repr demo_codec w fs \<and> build_header demo_codec 3 @ [1, 2, 3] = wal_file w @ tail"
  using wal_recovery_maximal [OF demo_codec_laws read_header_build [of demo_codec 3 "[1, 2, 3]"],
      of "Epoch 4" "wal_options_new True"] by blast

text \<open>Pruning for a checkpoint. Pruning at the last sequence number leaves an empty log, and
  reopening it with the next sequence number as the start position resumes exactly there.\<close>

theorem wal_checkpoint_resume:
  assumes "log_repr C w rs" "wal_last_seq w \<noteq> - 1"
  shows "\<exists>w1 w2. wal_prune C (wal_last_seq w) w = Inr w1 \<and> log_repr C w1 [] \<and>
    wal_open C (wal_file w1) (Epoch (wal_epoch w1))
      \<lparr>wo_fsync = fsync, wo_start_seq = Some (wal_last_seq w + 1)\<rparr> = Inr w2 \<and>
    log_repr C w2 [] \<and> wal_last_seq w2 = wal_last_seq w \<and> wal_epoch w2 = wal_epoch w"
proof -
  obtain fs where R: "wal_repr C w fs" and rs: "rs = map (record_of C) fs"
    using assms(1) by (auto simp: log_repr_def)
  obtain w1 where w1: "wal_prune C (wal_last_seq w) w = Inr w1" "log_repr C w1 []"
    using wal_log.prune_all [OF assms(1)] by blast
  then have R1: "wal_repr C w1 []" by (auto simp: log_repr_def)
  have "wal_header_epoch w1 = wal_header_epoch w"
    using wal_prune_repr [OF R, of "wal_last_seq w"] w1(1) by auto
  moreover have "saturating_sub1 (wal_last_seq w + 1) = wal_last_seq w"
    using word_succ_neq_0 [OF assms(2)] by (simp add: saturating_sub1_def add.commute)
  ultimately show ?thesis
    using w1 wal_reopen [OF R1, of "Epoch (wal_epoch w1)"
        "\<lparr>wo_fsync = fsync, wo_start_seq = Some (wal_last_seq w + 1)\<rparr>"]
    by (auto simp: wal_epoch_def log_repr_def)
qed

lemma wal_checkpoint_resume_witness:
  "\<exists>w1 w2. wal_prune demo_codec 1 demo_wal = Inr w1 \<and>
    wal_open demo_codec (wal_file w1) (Epoch (wal_epoch w1)) \<lparr>wo_fsync = True, wo_start_seq = Some 2\<rparr> = Inr w2 \<and>
    wal_last_seq w2 = 1"
  using wal_checkpoint_resume [OF demo_log_repr, of True] by (auto simp: demo_wal_def)

text \<open>Header verification is exact. It accepts a file with epoch e precisely when the file starts
  with the 18 bytes written for e, so a torn, foreign, newer or corrupted header is refused.\<close>

theorem wal_header_exact:
  "read_and_verify_header C f = Inr e \<longleftrightarrow> (\<exists>rest. f = build_header C e @ rest)"
  using read_header_inv [of C f e] read_header_build [of C e] by blast

text \<open>C27: Fencing. Opening a file cuts off a record stamped with an epoch below the file's, together
  with everything after it, and keeps all records before it.\<close>

theorem wal_fences_stale_writer:
  assumes "codec_laws C" "frames_ok C he None fs" "e < he" "RECORD_HEADER_LEN + length p < 2 ^ 32"
  shows "\<exists>w. wal_open C (build_header C he @ frames_bytes C fs @ record_bytes C s e p @ rest) ep opts = Inr w \<and>
    log_repr C w (map (record_of C) fs) \<and> wal_file w = build_header C he @ frames_bytes C fs"
  using wal_open_file [OF assms(1) refl assms(2) fenced_has_no_frame [OF assms(3,4)], of s rest ep opts]
  by (auto simp: log_repr_def wal_repr_def)

lemma wal_fences_stale_writer_witness:
  "\<exists>w. wal_open demo_codec (build_header demo_codec 3 @ frames_bytes demo_codec [(1, 3, [1])] @
      record_bytes demo_codec 2 2 [2, 3] @ []) (Epoch 3) (wal_options_new False) = Inr w \<and>
    wal_file w = build_header demo_codec 3 @ record_bytes demo_codec 1 3 [1]"
  using wal_fences_stale_writer [OF demo_codec_laws, of 3 "[(1, 3, [1])]" 2 "[2, 3]" 2 "[]" "Epoch 3"
      "wal_options_new False"]
  by (auto simp: RECORD_HEADER_LEN_def not_after_def demo_codec_def)

end
