(* ===== verification/Segment.thy ===== *)
theory Segment
  imports Core_Types
begin

text \<open>
  The immutable vector segment files of \<^verbatim>\<open>crates/rekha-engine/src/segment.rs\<close>: header codec,
  the accumulating writer and the checked reader. A segment is the mapped bytes with the decoded
  header; \<^verbatim>\<open>crc32fast\<close> is the argument \<open>crc\<close>. Lengths are \<^verbatim>\<open>usize\<close> on a 64-bit target, so the
  products of header fields are taken modulo \<open>2 ^ 64\<close>, and indexing a slice out of range panics.
\<close>

definition SEG_MAGIC :: bytes where "SEG_MAGIC = [0x52, 0x4B, 0x53, 0x47]"
definition SEG_VERSION :: u32 where "SEG_VERSION = 1"
definition HEADER_SIZE :: nat where "HEADER_SIZE = 32"

record segment_header =
  sh_dimension :: u32
  sh_count :: u32
  sh_checksum :: u32

datatype segment_error =
    ShortHeader
  | SegBadMagic bytes
  | SegVersion u32
  | SegTruncated nat nat
  | SegChecksum u32 u32

text \<open>A 32-byte buffer of zeros with five fields copied in, so twelve reserved bytes remain.\<close>

definition header_encode :: "segment_header \<Rightarrow> bytes" where
  "header_encode h =
     (let buf = replicate HEADER_SIZE 0;
          buf = write_at buf 0 SEG_MAGIC;
          buf = write_at buf 4 (u32_le SEG_VERSION);
          buf = write_at buf 8 (u32_le (sh_dimension h));
          buf = write_at buf 12 (u32_le (sh_count h))
      in write_at buf 16 (u32_le (sh_checksum h)))"

definition header_decode :: "bytes \<Rightarrow> segment_error + segment_header" where
  "header_decode buf =
     (if slice 0 4 buf \<noteq> SEG_MAGIC then Inl (SegBadMagic (slice 0 4 buf))
      else if le_u32 (slice 4 8 buf) \<noteq> SEG_VERSION then Inl (SegVersion (le_u32 (slice 4 8 buf)))
      else Inr \<lparr>sh_dimension = le_u32 (slice 8 12 buf), sh_count = le_u32 (slice 12 16 buf),
                sh_checksum = le_u32 (slice 16 20 buf)\<rparr>)"

record segment =
  seg_mmap :: bytes
  seg_header :: segment_header

definition usize :: "nat \<Rightarrow> nat" where
  "usize n = n mod 2 ^ 64"

definition segment_open :: "(bytes \<Rightarrow> u32) \<Rightarrow> bytes \<Rightarrow> (segment_error + segment) run" where
  "segment_open crc file =
     (case read_exact file 0 HEADER_SIZE of
        None \<Rightarrow> Returns (Inl ShortHeader)
      | Some hdr_buf \<Rightarrow>
          (case header_decode hdr_buf of
             Inl e \<Rightarrow> Returns (Inl e)
           | Inr header \<Rightarrow>
               (let data_len = usize (unat (sh_count header) * unat (sh_dimension header) * 4);
                    data_end = usize (HEADER_SIZE + data_len)
                in if data_end > length file
                   then Returns (Inl (SegTruncated data_len (length file - HEADER_SIZE)))
                   else if HEADER_SIZE > data_end then Panics
                   else
                     (let actual_crc = crc (slice HEADER_SIZE data_end file) in
                      if actual_crc \<noteq> sh_checksum header
                      then Returns (Inl (SegChecksum (sh_checksum header) actual_crc))
                      else Returns (Inr \<lparr>seg_mmap = file, seg_header = header\<rparr>)))))"

definition segment_len :: "segment \<Rightarrow> nat" where
  "segment_len s = unat (sh_count (seg_header s))"

definition segment_is_empty :: "segment \<Rightarrow> bool" where
  "segment_is_empty s = (sh_count (seg_header s) = 0)"

definition segment_dimension :: "segment \<Rightarrow> nat" where
  "segment_dimension s = unat (sh_dimension (seg_header s))"

text \<open>\<^verbatim>\<open>bytemuck::cast_slice\<close> between floats and their little-endian bytes.\<close>

definition f32s_to_bytes :: "f32 list \<Rightarrow> bytes" where
  "f32s_to_bytes xs = concat (map u32_le xs)"

fun bytes_to_f32s :: "bytes \<Rightarrow> f32 list" where
  "bytes_to_f32s (a # b # c # d # bs) = le_u32 [a, b, c, d] # bytes_to_f32s bs"
| "bytes_to_f32s _ = []"

definition mmap_vector :: "segment \<Rightarrow> nat \<Rightarrow> embedding run" where
  "mmap_vector s i =
     (let dim = segment_dimension s;
          off = usize (HEADER_SIZE + i * dim * 4);
          stop = usize (off + dim * 4)
      in if off \<le> stop \<and> stop \<le> length (seg_mmap s)
         then Returns (bytes_to_f32s (slice off stop (seg_mmap s)))
         else Panics)"

definition get_vector :: "segment \<Rightarrow> nat \<Rightarrow> embedding option run" where
  "get_vector s index =
     (if index \<ge> segment_len s then Returns None
      else (case mmap_vector s index of Panics \<Rightarrow> Panics | Returns v \<Rightarrow> Returns (Some v)))"

definition iter_vectors :: "segment \<Rightarrow> embedding run list" where
  "iter_vectors s = map (mmap_vector s) [0 ..< segment_len s]"

section \<open>The writer\<close>

record segment_writer =
  sw_dimension :: u32
  sw_vectors :: "f32 list"
  sw_count :: u32

definition writer_new :: "nat \<Rightarrow> segment_writer" where
  "writer_new dimension = \<lparr>sw_dimension = of_nat dimension, sw_vectors = [], sw_count = 0\<rparr>"

definition writer_push :: "embedding \<Rightarrow> segment_writer \<Rightarrow> segment_writer run" where
  "writer_push embedding w =
     (if length embedding \<noteq> unat (sw_dimension w) then Panics
      else Returns (w\<lparr>sw_vectors := sw_vectors w @ embedding, sw_count := sw_count w + 1\<rparr>))"

fun writer_push_all :: "embedding list \<Rightarrow> segment_writer \<Rightarrow> segment_writer run" where
  "writer_push_all [] w = Returns w"
| "writer_push_all (e # es) w =
     (case writer_push e w of Panics \<Rightarrow> Panics | Returns w' \<Rightarrow> writer_push_all es w')"

definition writer_is_empty :: "segment_writer \<Rightarrow> bool" where
  "writer_is_empty w = (sw_count w = 0)"

text \<open>The bytes that \<^verbatim>\<open>write\<close> renames into place; its result is their number.\<close>

definition writer_write :: "(bytes \<Rightarrow> u32) \<Rightarrow> segment_writer \<Rightarrow> bytes" where
  "writer_write crc w =
     (let checksum = crc (f32s_to_bytes (sw_vectors w));
          header = \<lparr>sh_dimension = sw_dimension w, sh_count = sw_count w, sh_checksum = checksum\<rparr>
      in header_encode header @ f32s_to_bytes (sw_vectors w))"

section \<open>Lemmas\<close>

lemma header_encode_bytes:
  "header_encode h = SEG_MAGIC @ u32_le SEG_VERSION @ u32_le (sh_dimension h) @ u32_le (sh_count h) @
     u32_le (sh_checksum h) @ replicate 12 0"
  by (simp add: header_encode_def Let_def write_at_def HEADER_SIZE_def SEG_MAGIC_def numeral_eq_Suc)

lemma length_header_encode [simp]: "length (header_encode h) = HEADER_SIZE"
  by (simp add: header_encode_bytes SEG_MAGIC_def HEADER_SIZE_def)

lemma header_roundtrip: "header_decode (header_encode h) = Inr h"
  by (simp add: header_encode_bytes header_decode_def slice_def SEG_MAGIC_def numeral_eq_Suc)

lemma length_f32s_to_bytes [simp]: "length (f32s_to_bytes xs) = 4 * length xs"
  by (induction xs) (simp_all add: f32s_to_bytes_def)

lemma f32s_to_bytes_append: "f32s_to_bytes (xs @ ys) = f32s_to_bytes xs @ f32s_to_bytes ys"
  by (simp add: f32s_to_bytes_def)

lemma bytes_to_f32s_step:
  "length b = 4 \<Longrightarrow> bytes_to_f32s (b @ bs) = le_u32 b # bytes_to_f32s bs"
  by (auto simp: numeral_eq_Suc length_Suc_conv)

lemma f32s_roundtrip: "bytes_to_f32s (f32s_to_bytes xs) = xs"
  by (induction xs) (simp_all add: f32s_to_bytes_def bytes_to_f32s_step)

lemma usize_id: "n < 2 ^ 64 \<Longrightarrow> usize n = n"
  by (simp add: usize_def)

lemma push_all_result:
  "list_all (\<lambda>e. length e = unat (sw_dimension w)) es \<Longrightarrow>
   writer_push_all es w = Returns (w\<lparr>sw_vectors := sw_vectors w @ concat es, sw_count := sw_count w + of_nat (length es)\<rparr>)"
  by (induction es arbitrary: w) (simp_all add: writer_push_def algebra_simps)

lemma slice_concat:
  assumes "list_all (\<lambda>e. length e = d) vs" "i < length vs"
  shows "take d (drop (i * d) (concat vs)) = vs ! i"
  using assms
proof (induction vs arbitrary: i)
  case Nil
  then show ?case by simp
next
  case (Cons v vs)
  then show ?case by (cases i) simp_all
qed

lemma length_concat_const: "list_all (\<lambda>e. length e = d) vs \<Longrightarrow> length (concat vs) = length vs * d"
  by (induction vs) simp_all

lemma f32s_to_bytes_drop: "drop (4 * n) (f32s_to_bytes xs) = f32s_to_bytes (drop n xs)"
proof (induction xs arbitrary: n)
  case Nil
  then show ?case by (simp add: f32s_to_bytes_def)
next
  case (Cons x xs)
  then show ?case by (cases n) (simp_all add: f32s_to_bytes_def)
qed

lemma f32s_to_bytes_take: "take (4 * n) (f32s_to_bytes xs) = f32s_to_bytes (take n xs)"
proof (induction xs arbitrary: n)
  case Nil
  then show ?case by (simp add: f32s_to_bytes_def)
next
  case (Cons x xs)
  then show ?case by (cases n) (simp_all add: f32s_to_bytes_def)
qed

lemma segment_open_inv:
  assumes "segment_open crc f = Returns (Inr s)"
  shows "seg_mmap s = f \<and> HEADER_SIZE \<le> length f \<and>
    usize (HEADER_SIZE + usize (segment_len s * segment_dimension s * 4)) \<le> length f"
  using assms
  by (auto simp: segment_open_def read_exact_def Let_def segment_len_def segment_dimension_def
      split: if_splits sum.splits)

text \<open>A segment whose data lies in its file and fits the address space.\<close>

lemma mmap_vector_in_range:
  assumes "HEADER_SIZE + segment_len s * segment_dimension s * 4 \<le> length (seg_mmap s)"
    and "length (seg_mmap s) < 2 ^ 64" "i < segment_len s"
  shows "mmap_vector s i = Returns (bytes_to_f32s
    (take (segment_dimension s * 4) (drop (HEADER_SIZE + i * segment_dimension s * 4) (seg_mmap s))))"
proof -
  have "Suc i * segment_dimension s \<le> segment_len s * segment_dimension s"
    using assms(3) by (intro mult_right_mono) simp_all
  then have le: "HEADER_SIZE + i * segment_dimension s * 4 + segment_dimension s * 4 \<le> length (seg_mmap s)"
    using assms(1) by simp
  then have "usize (HEADER_SIZE + i * segment_dimension s * 4) = HEADER_SIZE + i * segment_dimension s * 4"
    "usize (HEADER_SIZE + i * segment_dimension s * 4 + segment_dimension s * 4) =
       HEADER_SIZE + i * segment_dimension s * 4 + segment_dimension s * 4"
    using assms(2) by (auto intro!: usize_id)
  then show ?thesis using le by (simp add: mmap_vector_def Let_def slice_def)
qed

section \<open>What is written is read back\<close>

lemma segment_written:
  assumes "list_all (\<lambda>v. length v = dim) vs" "dim < 2 ^ 32" "length vs < 2 ^ 32"
    and "HEADER_SIZE + length vs * dim * 4 < 2 ^ 64"
  shows "\<exists>w s. writer_push_all vs (writer_new dim) = Returns w \<and>
    segment_open crc (writer_write crc w) = Returns (Inr s) \<and>
    segment_len s = length vs \<and> segment_dimension s = dim \<and>
    (\<forall>i < length vs. get_vector s i = Returns (Some (vs ! i))) \<and>
    iter_vectors s = map Returns vs"
proof -
  have dim: "unat (of_nat dim :: u32) = dim" and n: "unat (of_nat (length vs) :: u32) = length vs"
    using assms(2,3) by (simp_all add: unat_of_nat)
  let ?w = "\<lparr>sw_dimension = of_nat dim, sw_vectors = concat vs, sw_count = of_nat (length vs)\<rparr>"
  let ?data = "f32s_to_bytes (concat vs)"
  let ?h = "\<lparr>sh_dimension = of_nat dim, sh_count = of_nat (length vs), sh_checksum = crc ?data\<rparr>"
  let ?f = "header_encode ?h @ ?data"
  let ?s = "\<lparr>seg_mmap = ?f, seg_header = ?h\<rparr>"
  have push: "writer_push_all vs (writer_new dim) = Returns ?w"
    using push_all_result [of "writer_new dim" vs] assms(1) dim by (simp add: writer_new_def)
  have written: "writer_write crc ?w = ?f" by (simp add: writer_write_def)
  have len: "length ?data = length vs * dim * 4"
    using length_concat_const [OF assms(1)] by simp
  have sizes: "usize (length vs * dim * 4) = length vs * dim * 4"
    "usize (HEADER_SIZE + length vs * dim * 4) = HEADER_SIZE + length vs * dim * 4"
    by (rule usize_id [OF le_less_trans [OF le_add2 assms(4)]], rule usize_id [OF assms(4)])
  have opn: "segment_open crc ?f = Returns (Inr ?s)"
    using len by (simp add: segment_open_def read_exact_def slice_def header_roundtrip Let_def dim n sizes)
  have sl: "segment_len ?s = length vs" "segment_dimension ?s = dim"
    by (simp_all add: segment_len_def segment_dimension_def dim n)
  have vec: "mmap_vector ?s i = Returns (vs ! i)" if "i < length vs" for i
  proof -
    have "mmap_vector ?s i = Returns (bytes_to_f32s (take (4 * dim) (drop (4 * (i * dim)) ?data)))"
      using mmap_vector_in_range [of ?s i] that len assms(4) by (simp add: sl mult.commute)
    also have "take (4 * dim) (drop (4 * (i * dim)) ?data) = f32s_to_bytes (vs ! i)"
      by (simp add: f32s_to_bytes_drop f32s_to_bytes_take slice_concat [OF assms(1) that])
    finally show ?thesis by (simp add: f32s_roundtrip)
  qed
  have "iter_vectors ?s = map Returns vs"
    unfolding iter_vectors_def sl by (rule nth_equalityI) (simp_all add: vec)
  then show ?thesis
    using push written opn sl vec by (intro exI [of _ ?w] exI [of _ ?s]) (simp add: get_vector_def)
qed

section \<open>Properties\<close>

text \<open>C23: Segments are lossless. Writing any batch of vectors of the writer's dimension and opening the
  file gives a segment that holds exactly the batch, by index and by iteration, bit for bit.\<close>

theorem segment_roundtrip:
  assumes "list_all (\<lambda>v. length v = dim) vs" "dim < 2 ^ 32" "length vs < 2 ^ 32"
    and "HEADER_SIZE + length vs * dim * 4 < 2 ^ 64"
  shows "\<exists>w s. writer_push_all vs (writer_new dim) = Returns w \<and>
    segment_open crc (writer_write crc w) = Returns (Inr s) \<and>
    segment_len s = length vs \<and> segment_dimension s = dim \<and>
    (\<forall>i < length vs. get_vector s i = Returns (Some (vs ! i))) \<and>
    iter_vectors s = map Returns vs"
  by (rule segment_written [OF assms])

lemma segment_roundtrip_witness:
  "\<exists>w s. writer_push_all [[1, 2], [3, 4]] (writer_new 2) = Returns w \<and>
     segment_open (\<lambda>b. of_nat (length b)) (writer_write (\<lambda>b. of_nat (length b)) w) = Returns (Inr s) \<and>
     get_vector s 1 = Returns (Some [3, 4])"
  using segment_roundtrip [of 2 "[[1, 2], [3, 4]]" "\<lambda>b. of_nat (length b)"]
  by (auto simp: HEADER_SIZE_def)

text \<open>C24: An opened segment is safe to read. When the sizes its header states fit the address space,
  every index below the count yields a vector of the header's dimension and no read panics.\<close>

theorem segment_reads_in_range:
  assumes "segment_open crc f = Returns (Inr s)" "length f < 2 ^ 64"
    and "HEADER_SIZE + segment_len s * segment_dimension s * 4 < 2 ^ 64"
  shows "get_vector s i = Returns None \<and> segment_len s \<le> i \<or>
    (\<exists>v. get_vector s i = Returns (Some v) \<and> length v = segment_dimension s)"
proof (cases "i < segment_len s")
  case False
  then show ?thesis by (simp add: get_vector_def)
next
  case True
  have flen: "length (bytes_to_f32s b) = length b div 4" for b
    by (induction b rule: bytes_to_f32s.induct) simp_all
  have m: "seg_mmap s = f" and le: "HEADER_SIZE + segment_len s * segment_dimension s * 4 \<le> length f"
    using segment_open_inv [OF assms(1)] assms(3) usize_id [OF assms(3)]
      usize_id [OF le_less_trans [OF le_add2 assms(3)]] by simp_all
  have "Suc i * segment_dimension s \<le> segment_len s * segment_dimension s"
    using True by (intro mult_right_mono) simp_all
  then have "segment_dimension s * 4 \<le> length f - (HEADER_SIZE + i * segment_dimension s * 4)"
    using le by simp
  then show ?thesis
    using mmap_vector_in_range [of s i] le m assms(2) True by (simp add: get_vector_def flen)
qed

lemma segment_reads_in_range_witness:
  "\<exists>s. segment_open (\<lambda>_. 0) (header_encode \<lparr>sh_dimension = 1, sh_count = 0, sh_checksum = 0\<rparr>) = Returns (Inr s) \<and>
     get_vector s 0 = Returns None"
proof -
  let ?h = "\<lparr>sh_dimension = 1, sh_count = 0, sh_checksum = 0\<rparr>"
  let ?s = "\<lparr>seg_mmap = header_encode ?h, seg_header = ?h\<rparr>"
  have o: "segment_open (\<lambda>_. 0) (header_encode ?h) = Returns (Inr ?s)"
    by (simp add: segment_open_def read_exact_def slice_def header_roundtrip usize_def HEADER_SIZE_def)
  from segment_reads_in_range [OF o, of 0] show ?thesis
    using o by (auto simp: segment_len_def segment_dimension_def HEADER_SIZE_def get_vector_def)
qed

text \<open>Header arithmetic can overflow. A 32-byte file whose header states 2^31 vectors of dimension
  2^31 passes every check in a release build, as the data length wraps to zero, and reading its
  first vector panics.\<close>

theorem segment_length_overflow:
  "\<exists>s. segment_open crc (header_encode \<lparr>sh_dimension = 2 ^ 31, sh_count = 2 ^ 31, sh_checksum = crc []\<rparr>) =
      Returns (Inr s) \<and> segment_len s = 2 ^ 31 \<and> get_vector s 0 = Panics"
proof -
  let ?h = "\<lparr>sh_dimension = 2 ^ 31, sh_count = 2 ^ 31, sh_checksum = crc []\<rparr>"
  have "segment_open crc (header_encode ?h) = Returns (Inr \<lparr>seg_mmap = header_encode ?h, seg_header = ?h\<rparr>)"
    by (simp add: segment_open_def read_exact_def slice_def header_roundtrip usize_def HEADER_SIZE_def Let_def)
  then show ?thesis
    by (simp add: segment_len_def get_vector_def mmap_vector_def segment_dimension_def usize_def HEADER_SIZE_def)
qed

end
