(* ===== verification/Float32.thy ===== *)
theory Float32
  imports Float_Bits
begin

text \<open>
  IEEE 754 binary32 values (Rust \<^verbatim>\<open>f32\<close>) as their 32-bit patterns: comparison, and addition,
  subtraction, multiplication, division and square root rounded to nearest, ties to even. A
  finite operand is an exact dyadic \<open>m * 2 ^ e\<close>; each operation computes its exact result as a
  dyadic (with a sticky flag for a non-zero remainder) and rounds it once. The payload of a NaN
  result is the canonical one.
\<close>

section \<open>Classification and comparison\<close>

definition f32_mag :: "f32 \<Rightarrow> nat" where
  "f32_mag w = unat w mod 2 ^ 31"

definition f32_neg :: "f32 \<Rightarrow> bool" where
  "f32_neg w \<longleftrightarrow> 2 ^ 31 \<le> unat w"

definition f32_inf_mag :: nat where
  "f32_inf_mag = 255 * 2 ^ 23"

definition f32_is_nan :: "f32 \<Rightarrow> bool" where
  "f32_is_nan w \<longleftrightarrow> f32_inf_mag < f32_mag w"

definition f32_is_inf :: "f32 \<Rightarrow> bool" where
  "f32_is_inf w \<longleftrightarrow> f32_mag w = f32_inf_mag"

definition f32_is_finite :: "f32 \<Rightarrow> bool" where
  "f32_is_finite w \<longleftrightarrow> f32_mag w < f32_inf_mag"

definition f32_key :: "f32 \<Rightarrow> int" where
  "f32_key w = (if f32_neg w then - int (f32_mag w) else int (f32_mag w))"

definition f32_lt :: "f32 \<Rightarrow> f32 \<Rightarrow> bool" where
  "f32_lt a b \<longleftrightarrow> \<not> f32_is_nan a \<and> \<not> f32_is_nan b \<and> f32_key a < f32_key b"

definition f32_le :: "f32 \<Rightarrow> f32 \<Rightarrow> bool" where
  "f32_le a b \<longleftrightarrow> \<not> f32_is_nan a \<and> \<not> f32_is_nan b \<and> f32_key a \<le> f32_key b"

definition f32_nan :: f32 where "f32_nan = 0x7FC00000"

definition f32_of_mag :: "bool \<Rightarrow> nat \<Rightarrow> f32" where
  "f32_of_mag s mag = of_nat (if s then 2 ^ 31 + mag else mag)"

definition f32_opp :: "f32 \<Rightarrow> f32" where
  "f32_opp w = f32_of_mag (\<not> f32_neg w) (f32_mag w)"

section \<open>Exact values and rounding\<close>

definition f32_parts :: "f32 \<Rightarrow> nat \<times> int" where
  "f32_parts w =
     (let e = f32_mag w div 2 ^ 23; frac = f32_mag w mod 2 ^ 23
      in if e = 0 then (frac, - 149) else (frac + 2 ^ 23, int e - 150))"

text \<open>Round \<open>n * 2 ^ e\<close>, plus a positive amount below one unit of \<open>n\<close> when \<open>sticky\<close>.\<close>

definition f32_round :: "bool \<Rightarrow> nat \<Rightarrow> int \<Rightarrow> bool \<Rightarrow> f32" where
  "f32_round s n e sticky =
     (if n = 0 then f32_of_mag s 0
      else
        (let q = max (- 149) (int (bitlen n) + e - 23);
             mant = (if q \<le> e then n * 2 ^ nat (e - q)
                     else (let sh = nat (q - e); t = n div 2 ^ sh; r = n mod 2 ^ sh; half = 2 ^ (sh - 1)
                           in if half < r \<or> (r = half \<and> (sticky \<or> odd t)) then Suc t else t))
         in f32_of_mag s (min f32_inf_mag (nat (q + 149) * 2 ^ 23 + mant))))"

section \<open>Arithmetic\<close>

definition f32_add :: "f32 \<Rightarrow> f32 \<Rightarrow> f32" where
  "f32_add a b =
     (if f32_is_nan a \<or> f32_is_nan b then f32_nan
      else if f32_is_inf a then (if f32_is_inf b \<and> f32_neg a \<noteq> f32_neg b then f32_nan else a)
      else if f32_is_inf b then b
      else
        (let (ma, ea) = f32_parts a; (mb, eb) = f32_parts b; e = min ea eb;
             x = (if f32_neg a then - 1 else 1) * int ma * 2 ^ nat (ea - e)
               + (if f32_neg b then - 1 else 1) * int mb * 2 ^ nat (eb - e)
         in if x = 0 then f32_of_mag (f32_neg a \<and> f32_neg b) 0
            else f32_round (x < 0) (nat \<bar>x\<bar>) e False))"

definition f32_sub :: "f32 \<Rightarrow> f32 \<Rightarrow> f32" where
  "f32_sub a b = f32_add a (f32_opp b)"

definition f32_mul :: "f32 \<Rightarrow> f32 \<Rightarrow> f32" where
  "f32_mul a b =
     (if f32_is_nan a \<or> f32_is_nan b then f32_nan
      else if f32_is_inf a \<or> f32_is_inf b then
        (if f32_mag a = 0 \<or> f32_mag b = 0 then f32_nan
         else f32_of_mag (f32_neg a \<noteq> f32_neg b) f32_inf_mag)
      else
        (let (ma, ea) = f32_parts a; (mb, eb) = f32_parts b
         in f32_round (f32_neg a \<noteq> f32_neg b) (ma * mb) (ea + eb) False))"

definition f32_div :: "f32 \<Rightarrow> f32 \<Rightarrow> f32" where
  "f32_div a b =
     (if f32_is_nan a \<or> f32_is_nan b then f32_nan
      else if f32_is_inf a then
        (if f32_is_inf b then f32_nan else f32_of_mag (f32_neg a \<noteq> f32_neg b) f32_inf_mag)
      else if f32_is_inf b then f32_of_mag (f32_neg a \<noteq> f32_neg b) 0
      else if f32_mag b = 0 then
        (if f32_mag a = 0 then f32_nan else f32_of_mag (f32_neg a \<noteq> f32_neg b) f32_inf_mag)
      else
        (let (ma, ea) = f32_parts a; (mb, eb) = f32_parts b; n = ma * 2 ^ 60
         in f32_round (f32_neg a \<noteq> f32_neg b) (n div mb) (ea - eb - 60) (n mod mb \<noteq> 0)))"

fun isqrt :: "nat \<Rightarrow> nat" where
  "isqrt n = (if n = 0 then 0 else (let r = 2 * isqrt (n div 4) in if (r + 1) * (r + 1) \<le> n then r + 1 else r))"

declare isqrt.simps [simp del]

definition f32_sqrt :: "f32 \<Rightarrow> f32" where
  "f32_sqrt a =
     (if f32_is_nan a then f32_nan
      else if f32_mag a = 0 then a
      else if f32_neg a then f32_nan
      else if f32_is_inf a then a
      else
        (let (m0, e0) = f32_parts a;
             m = (if even e0 then m0 else 2 * m0); e = (if even e0 then e0 else e0 - 1);
             n = m * 2 ^ 60; r = isqrt n
         in f32_round False r (e div 2 - 30) (r * r \<noteq> n)))"

definition f32_one :: f32 where "f32_one = 0x3F800000"
definition f32_zero :: f32 where "f32_zero = 0"

section \<open>Facts\<close>

lemma isqrt_bounds: "isqrt n * isqrt n \<le> n \<and> n < Suc (isqrt n) * Suc (isqrt n)"
proof (induction n rule: isqrt.induct)
  case (1 n)
  show ?case
  proof (cases "n = 0")
    case True
    then show ?thesis by (simp add: isqrt.simps)
  next
    case False
    define k where "k = isqrt (n div 4)"
    have k: "k * k \<le> n div 4" "n div 4 < Suc k * Suc k"
      using 1 [OF False] by (simp_all add: k_def)
    have lo: "2 * k * (2 * k) \<le> n"
      using k(1) by (simp add: algebra_simps)
    have hi: "n < (2 * k + 2) * (2 * k + 2)"
    proof -
      have "n div 4 + 1 \<le> Suc k * Suc k" using k(2) by simp
      then have "4 * (n div 4 + 1) \<le> 4 * (Suc k * Suc k)" by (rule mult_left_mono) simp
      then show ?thesis by (simp add: algebra_simps)
    qed
    have s: "isqrt n = (if (2 * k + 1) * (2 * k + 1) \<le> n then 2 * k + 1 else 2 * k)"
      using False by (subst isqrt.simps) (simp add: k_def Let_def)
    show ?thesis using lo hi by (auto simp: s)
  qed
qed

lemma f32_add_commute: "f32_is_finite a \<Longrightarrow> f32_is_finite b \<Longrightarrow> f32_add a b = f32_add b a"
  by (auto simp: f32_add_def Let_def f32_is_finite_def f32_is_nan_def f32_is_inf_def add.commute
      min.commute conj_commute split: prod.split)

lemma f32_mul_commute: "f32_mul a b = f32_mul b a"
  by (cases "f32_neg a"; cases "f32_neg b")
    (auto simp: f32_mul_def Let_def mult.commute add.commute split: prod.split)

lemma f32_lt_irrefl [simp]: "\<not> f32_lt a a"
  by (simp add: f32_lt_def)

lemma f32_lt_asym: "f32_lt a b \<Longrightarrow> \<not> f32_lt b a"
  by (simp add: f32_lt_def)

lemma f32_not_lt_trans:
  "\<not> f32_is_nan b \<Longrightarrow> \<not> f32_lt b a \<Longrightarrow> \<not> f32_lt c b \<Longrightarrow> \<not> f32_lt c a"
  by (auto simp: f32_lt_def)

end
