(* ===== verification/Distance_Kernels.thy ===== *)
theory Distance_Kernels
  imports Core_Types Float32
begin

text \<open>
  The distance kernels of \<^verbatim>\<open>crates/rekha-distance/src/lib.rs\<close>: 8-lane blocks accumulated with a
  fused multiply-add, a lane reduction, and a scalar tail. The kernels are written over a record of
  scalar operations, instantiated with binary32 (\<open>f32_arith\<close>) for the program and with an exact
  field for the equivalence with the mathematical sums. The lane operations of the crate
  \<^verbatim>\<open>wide\<close> are the parameter \<open>'a simd\<close>.
\<close>

record 'a arith =
  ar_zero :: 'a
  ar_one :: 'a
  NORM_EPSILON :: 'a
  ar_add :: "'a \<Rightarrow> 'a \<Rightarrow> 'a"
  ar_sub :: "'a \<Rightarrow> 'a \<Rightarrow> 'a"
  ar_mul :: "'a \<Rightarrow> 'a \<Rightarrow> 'a"
  ar_div :: "'a \<Rightarrow> 'a \<Rightarrow> 'a"
  ar_sqrt :: "'a \<Rightarrow> 'a"
  ar_le :: "'a \<Rightarrow> 'a \<Rightarrow> bool"

record 'a simd =
  simd_mul_add :: "'a \<Rightarrow> 'a \<Rightarrow> 'a \<Rightarrow> 'a"
  simd_reduce_add :: "'a list \<Rightarrow> 'a"

definition f32_arith :: "f32 arith" where
  "f32_arith =
     \<lparr>ar_zero = f32_zero, ar_one = f32_one, NORM_EPSILON = 0x0A4FB11F,
      ar_add = f32_add, ar_sub = f32_sub, ar_mul = f32_mul, ar_div = f32_div, ar_sqrt = f32_sqrt,
      ar_le = f32_le\<rparr>"

definition lanes :: "nat \<Rightarrow> 'a list \<Rightarrow> 'a list" where
  "lanes i a = slice (i * 8) (i * 8 + 8) a"

definition mul_add8 :: "'a simd \<Rightarrow> 'a list \<Rightarrow> 'a list \<Rightarrow> 'a list \<Rightarrow> 'a list" where
  "mul_add8 S x y acc = map (\<lambda>i. simd_mul_add S (x ! i) (y ! i) (acc ! i)) [0 ..< 8]"

definition l2_squared :: "'a arith \<Rightarrow> 'a simd \<Rightarrow> 'a list \<Rightarrow> 'a list \<Rightarrow> 'a run" where
  "l2_squared A S a b =
     (if length a \<noteq> length b then Panics
      else
        (let chunks = length a div 8;
             acc = fold (\<lambda>i acc. let d = map2 (ar_sub A) (lanes i a) (lanes i b) in mul_add8 S d d acc)
                     [0 ..< chunks] (replicate 8 (ar_zero A));
             sum = simd_reduce_add S acc
         in Returns (fold (\<lambda>i sum. let d = ar_sub A (a ! i) (b ! i) in ar_add A sum (ar_mul A d d))
              [chunks * 8 ..< length a] sum)))"

definition dot :: "'a arith \<Rightarrow> 'a simd \<Rightarrow> 'a list \<Rightarrow> 'a list \<Rightarrow> 'a run" where
  "dot A S a b =
     (if length a \<noteq> length b then Panics
      else
        (let chunks = length a div 8;
             acc = fold (\<lambda>i acc. mul_add8 S (lanes i a) (lanes i b) acc)
                     [0 ..< chunks] (replicate 8 (ar_zero A));
             sum = simd_reduce_add S acc
         in Returns (fold (\<lambda>i sum. ar_add A sum (ar_mul A (a ! i) (b ! i))) [chunks * 8 ..< length a] sum)))"

definition normalize :: "'a arith \<Rightarrow> 'a simd \<Rightarrow> 'a list \<Rightarrow> 'a list run" where
  "normalize A S v =
     run_bind (dot A S v v) (\<lambda>vv.
       (let norm = ar_sqrt A vv in
        if ar_le A norm (NORM_EPSILON A) then Returns v
        else
          (let scale = ar_div A (ar_one A) (ar_add A norm (NORM_EPSILON A))
           in Returns (map (\<lambda>x. ar_mul A x scale) v))))"

fun distance_of :: "'a arith \<Rightarrow> 'a simd \<Rightarrow> distance \<Rightarrow> 'a list \<Rightarrow> 'a list \<Rightarrow> 'a run" where
  "distance_of A S L2 a b = l2_squared A S a b"
| "distance_of A S Ip a b = run_bind (dot A S a b) (\<lambda>d. Returns (ar_sub A (ar_one A) d))"
| "distance_of A S Cosine a b =
     run_bind (normalize A S a) (\<lambda>a'.
     run_bind (normalize A S b) (\<lambda>b'.
     run_bind (dot A S a' b') (\<lambda>d. Returns (ar_sub A (ar_one A) d))))"

definition batch_norms :: "'a arith \<Rightarrow> 'a simd \<Rightarrow> 'a list list \<Rightarrow> 'a run list" where
  "batch_norms A S vectors =
     map (\<lambda>v. run_bind (dot A S v v) (\<lambda>d. Returns (ar_sqrt A d))) vectors"

section \<open>Shape: blocks and tail\<close>

text \<open>Both kernels accumulate a term per index: lane \<open>j\<close> of block \<open>i\<close> is index \<open>8 * i + j\<close>.\<close>

definition kernel :: "'a arith \<Rightarrow> 'a simd \<Rightarrow> nat \<Rightarrow> (nat \<Rightarrow> 'a \<times> 'a) \<Rightarrow> 'a" where
  "kernel A S n t =
     (let chunks = n div 8;
          acc = fold (\<lambda>i acc. map (\<lambda>j. simd_mul_add S (fst (t (8 * i + j))) (snd (t (8 * i + j))) (acc ! j)) [0 ..< 8])
                  [0 ..< chunks] (replicate 8 (ar_zero A))
      in fold (\<lambda>i sum. ar_add A sum (ar_mul A (fst (t i)) (snd (t i)))) [chunks * 8 ..< n]
           (simd_reduce_add S acc))"

lemma nth_lanes: "i < length a div 8 \<Longrightarrow> j < 8 \<Longrightarrow> lanes i a ! j = a ! (8 * i + j)"
proof -
  assume i: "i < length a div 8" and j: "j < 8"
  have "Suc i * 8 \<le> length a" using i by (meson Suc_leI div_le_mono le_div_geq less_eq_div_iff_mult_less_eq zero_less_numeral)
  then show ?thesis using j by (simp add: lanes_def slice_def mult.commute)
qed

lemma length_lanes: "i < length a div 8 \<Longrightarrow> length (lanes i a) = 8"
proof -
  assume i: "i < length a div 8"
  have "Suc i * 8 \<le> length a" using i by (meson Suc_leI div_le_mono le_div_geq less_eq_div_iff_mult_less_eq zero_less_numeral)
  then show ?thesis by (simp add: lanes_def slice_def)
qed

lemma fold_cong_set: "(\<And>x s. x \<in> set xs \<Longrightarrow> f x s = g x s) \<Longrightarrow> fold f xs s = fold g xs s"
  by (intro fold_cong) auto

lemma dot_kernel:
  "length a = length b \<Longrightarrow> dot A S a b = Returns (kernel A S (length a) (\<lambda>i. (a ! i, b ! i)))"
  unfolding dot_def kernel_def Let_def
  by (auto intro!: arg_cong [where f = "fold _ _"] arg_cong [where f = "simd_reduce_add S"] fold_cong_set
      simp: mul_add8_def nth_lanes)

lemma l2_kernel:
  "length a = length b \<Longrightarrow>
   l2_squared A S a b = Returns (kernel A S (length a) (\<lambda>i. (ar_sub A (a ! i) (b ! i), ar_sub A (a ! i) (b ! i))))"
  unfolding l2_squared_def kernel_def Let_def
  by (auto intro!: arg_cong [where f = "fold _ _"] arg_cong [where f = "simd_reduce_add S"] fold_cong_set
      simp: mul_add8_def nth_lanes length_lanes)

section \<open>Exact arithmetic\<close>

definition exact_arith :: "('a::field \<Rightarrow> 'a) \<Rightarrow> ('a \<Rightarrow> 'a \<Rightarrow> bool) \<Rightarrow> 'a \<Rightarrow> 'a arith" where
  "exact_arith sqrt_of le eps =
     \<lparr>ar_zero = 0, ar_one = 1, NORM_EPSILON = eps, ar_add = (+), ar_sub = (-), ar_mul = (*),
      ar_div = (/), ar_sqrt = sqrt_of, ar_le = le\<rparr>"

definition exact_simd :: "'a::field simd" where
  "exact_simd = \<lparr>simd_mul_add = (\<lambda>x y z. x * y + z), simd_reduce_add = sum_list\<rparr>"

lemma fold_lanes:
  fixes g :: "nat \<Rightarrow> 'a::comm_ring_1"
  shows "fold (\<lambda>i acc. map (\<lambda>j. g (8 * i + j) + acc ! j) [0 ..< 8]) [0 ..< k] (replicate 8 0) =
    map (\<lambda>j. \<Sum>i<k. g (8 * i + j)) [0 ..< 8]"
proof (induction k)
  case 0
  then show ?case by (simp add: map_replicate_const)
next
  case (Suc k)
  then show ?case by (simp add: add.commute)
qed

lemma fold_add_upt:
  fixes g :: "nat \<Rightarrow> 'a::comm_ring_1"
  shows "m \<le> n \<Longrightarrow> fold (\<lambda>i s. s + g i) [m ..< n] s0 = s0 + (\<Sum>i=m..<n. g i)"
  by (induction n rule: nat_induct_at_least) (simp_all add: algebra_simps)

lemma sum_blocks:
  fixes g :: "nat \<Rightarrow> 'a::comm_ring_1"
  shows "sum_list (map (\<lambda>j. \<Sum>i<k. g (8 * i + j)) [0 ..< 8]) = (\<Sum>i<8 * k. g i)"
proof -
  have block: "(\<Sum>j<8. g (8 * i + j)) = sum g {i * 8 ..< i * 8 + 8}" for i
  proof -
    have "sum g {0 + i * 8 ..< 8 + i * 8} = (\<Sum>j=0..<8. g (j + i * 8))" by (rule sum.shift_bounds_nat_ivl)
    then show ?thesis by (simp only: lessThan_atLeast0 add.commute mult.commute add_0_left)
  qed
  have "sum_list (map (\<lambda>j. \<Sum>i<k. g (8 * i + j)) [0 ..< 8]) = (\<Sum>j<8. \<Sum>i<k. g (8 * i + j))"
    by (simp add: interv_sum_list_conv_sum_set_nat atLeast0LessThan)
  also have "\<dots> = (\<Sum>i<k. \<Sum>j<8. g (8 * i + j))" by (rule sum.swap)
  also have "\<dots> = (\<Sum>i<k. sum g {i * 8 ..< i * 8 + 8})"
    using block by simp
  also have "\<dots> = (\<Sum>i<8 * k. g i)" using sum.nat_group [of g 8 k] by (simp add: mult.commute)
  finally show ?thesis .
qed

lemma kernel_exact:
  "kernel (exact_arith sq le eps) exact_simd n t = (\<Sum>i<n. fst (t i) * snd (t i))"
proof -
  let ?g = "\<lambda>i. fst (t i) * snd (t i)"
  have "kernel (exact_arith sq le eps) exact_simd n t = (\<Sum>i<8 * (n div 8). ?g i) + (\<Sum>i=8 * (n div 8)..<n. ?g i)"
    using fold_lanes [of ?g "n div 8"] sum_blocks [of ?g "n div 8"]
      fold_add_upt [of "8 * (n div 8)" n ?g "\<Sum>i<8 * (n div 8). ?g i"]
    by (simp add: kernel_def exact_arith_def exact_simd_def Let_def mult.commute)
  also have "\<dots> = (\<Sum>i<n. ?g i)"
    by (simp add: lessThan_atLeast0 sum.atLeastLessThan_concat)
  finally show ?thesis .
qed

section \<open>The kernels on binary32\<close>

lemma f32_mag_lt: "f32_mag w < 2 ^ 31"
  by (simp add: f32_mag_def)

lemma f32_of_mag_parts:
  assumes "m < 2 ^ 31" shows "f32_mag (f32_of_mag s m) = m" "f32_neg (f32_of_mag s m) = s"
  using assms by (auto simp: f32_mag_def f32_neg_def f32_of_mag_def unat_of_nat mod_if)

lemma f32_opp_parts: "f32_mag (f32_opp w) = f32_mag w" "f32_neg (f32_opp w) = (\<not> f32_neg w)"
  using f32_of_mag_parts [OF f32_mag_lt] by (simp_all add: f32_opp_def)

lemma f32_sub_self:
  assumes "f32_is_finite x" shows "f32_sub x x = f32_zero"
proof -
  have "f32_parts (f32_opp x) = f32_parts x" by (simp add: f32_parts_def f32_opp_parts)
  then show ?thesis
    using assms by (auto simp: f32_sub_def f32_add_def f32_is_finite_def f32_is_nan_def f32_is_inf_def
        f32_opp_parts f32_of_mag_def f32_zero_def Let_def split: prod.split)
qed

text \<open>What the lane operations satisfy, fused or not.\<close>

definition simd_laws :: "f32 simd \<Rightarrow> bool" where
  "simd_laws S \<longleftrightarrow>
     (\<forall>x y z. simd_mul_add S x y z = simd_mul_add S y x z) \<and>
     simd_mul_add S f32_zero f32_zero f32_zero = f32_zero \<and>
     simd_reduce_add S (replicate 8 f32_zero) = f32_zero"

lemma kernel_commute:
  "simd_laws S \<Longrightarrow> kernel f32_arith S n (\<lambda>i. (a i, b i)) = kernel f32_arith S n (\<lambda>i. (b i, a i))"
  unfolding kernel_def Let_def simd_laws_def f32_arith_def
  by (auto intro!: arg_cong [where f = "fold _ _"] arg_cong [where f = "simd_reduce_add S"] fold_cong_set
      simp: f32_mul_commute)

lemma kernel_zero:
  assumes "simd_laws S" "\<And>i. i < n \<Longrightarrow> t i = (f32_zero, f32_zero)"
  shows "kernel f32_arith S n t = f32_zero"
proof -
  have lane: "8 * i + j < n" if "i < n div 8" "j < 8" for i j
  proof -
    have "Suc i * 8 \<le> n div 8 * 8" using that(1) by (intro mult_right_mono) simp_all
    also have "\<dots> \<le> n" by simp
    finally show ?thesis using that(2) by simp
  qed
  have blocks: "fold (\<lambda>i acc. map (\<lambda>j. simd_mul_add S (fst (t (8 * i + j))) (snd (t (8 * i + j))) (acc ! j)) [0 ..< 8])
      [0 ..< k] (replicate 8 f32_zero) = replicate 8 f32_zero" if "k \<le> n div 8" for k
    using that
  proof (induction k)
    case (Suc k)
    then show ?case
      using assms lane [of k] by (auto simp: simd_laws_def map_replicate_const intro!: replicate_eqI)
  qed simp
  have add: "f32_add f32_zero (f32_mul f32_zero f32_zero) = f32_zero"
    by (simp add: f32_add_def f32_mul_def f32_zero_def f32_is_nan_def f32_is_inf_def f32_mag_def f32_inf_mag_def
        f32_neg_def f32_parts_def f32_round_def f32_of_mag_def)
  have tail: "fold (\<lambda>i sum. f32_add sum (f32_mul (fst (t i)) (snd (t i)))) is f32_zero = f32_zero"
    if "\<forall>i\<in>set is. i < n" for "is"
    using that assms(2) by (induction "is") (simp_all add: add)
  show ?thesis
    unfolding kernel_def Let_def using blocks [OF order_refl] tail [of "[n div 8 * 8..<n]"] assms(1)
    by (simp add: f32_arith_def simd_laws_def)
qed

lemma l2_self_zero:
  assumes "simd_laws S" "list_all f32_is_finite v"
  shows "l2_squared f32_arith S v v = Returns f32_zero"
proof -
  have "ar_sub f32_arith = f32_sub" by (simp add: f32_arith_def)
  then show ?thesis
    using assms(2) by (auto simp: l2_kernel list_all_length f32_sub_self intro!: kernel_zero [OF assms(1)])
qed

definition plain_simd :: "f32 simd" where
  "plain_simd = \<lparr>simd_mul_add = (\<lambda>x y z. f32_add (f32_mul x y) z), simd_reduce_add = (\<lambda>xs. fold f32_add xs f32_zero)\<rparr>"

lemma plain_simd_laws: "simd_laws plain_simd"
proof -
  have "f32_add f32_zero f32_zero = f32_zero" "f32_mul f32_zero f32_zero = f32_zero"
    by (simp_all add: f32_add_def f32_mul_def f32_zero_def f32_is_nan_def f32_is_inf_def f32_mag_def f32_inf_mag_def
        f32_neg_def f32_parts_def f32_round_def f32_of_mag_def)
  then show ?thesis by (simp add: simd_laws_def plain_simd_def f32_mul_commute numeral_eq_Suc)
qed

section \<open>Properties\<close>

text \<open>C32: The blocked kernels compute the plain sums. Over any field, with exact lane operations, the
  8-lane blocks and the scalar tail add up to the sum over all indices, for every length; vectors
  of different lengths panic.\<close>

theorem kernels_compute_sums:
  "l2_squared (exact_arith sq le eps) exact_simd a b =
     (if length a = length b then Returns (\<Sum>i<length a. (a ! i - b ! i) * (a ! i - b ! i)) else Panics) \<and>
   dot (exact_arith sq le eps) exact_simd a b =
     (if length a = length b then Returns (\<Sum>i<length a. a ! i * b ! i) else Panics)"
proof (cases "length a = length b")
  case True
  have sub: "ar_sub (exact_arith sq le eps) = (-)" by (simp add: exact_arith_def)
  show ?thesis using True by (simp add: l2_kernel dot_kernel kernel_exact sub)
next
  case False
  then show ?thesis by (simp add: l2_squared_def dot_def)
qed

text \<open>The binary32 kernels keep two laws of a distance bit for bit: the dot product, and with it the
  inner-product distance, does not depend on the order of its arguments, and the squared distance
  of a finite vector from itself is positive zero.\<close>

theorem f32_distance_laws:
  assumes "simd_laws S"
  shows "dot f32_arith S a b = dot f32_arith S b a \<and>
    distance_of f32_arith S Ip a b = distance_of f32_arith S Ip b a \<and>
    (list_all f32_is_finite v \<longrightarrow> distance_of f32_arith S L2 v v = Returns f32_zero)"
proof -
  have "dot f32_arith S a b = dot f32_arith S b a"
  proof (cases "length a = length b")
    case True
    then show ?thesis using kernel_commute [OF assms] by (simp add: dot_kernel)
  next
    case False
    then show ?thesis by (simp add: dot_def)
  qed
  then show ?thesis using l2_self_zero [OF assms] by simp
qed

lemma f32_distance_laws_witness:
  "dot f32_arith plain_simd [1, 2] [3, 4] = dot f32_arith plain_simd [3, 4] [1, 2] \<and>
   distance_of f32_arith plain_simd L2 [0x3F800000, 0x40000000] [0x3F800000, 0x40000000] = Returns f32_zero"
  using f32_distance_laws [OF plain_simd_laws, of "[1, 2]" "[3, 4]" "[0x3F800000, 0x40000000]"]
  by (simp add: f32_is_finite_def f32_mag_def f32_inf_mag_def)

end
