(* ===== verification/Vector_Index.thy ===== *)
theory Vector_Index
  imports Core_Types Float32
begin

text \<open>
  The vector index of \<^verbatim>\<open>crates/rekha-index\<close>: the label bookkeeping of \<^verbatim>\<open>UsearchIndex\<close> around
  the \<^verbatim>\<open>usearch\<close> graph, capacity growth, persistence of the graph and the label maps, and the
  contract of the trait \<^verbatim>\<open>Index\<close> as the locale \<open>ann_index\<close>. The graph library is the parameter
  \<open>'g ann_ops\<close>; \<open>ann_vectors\<close> is the content its documentation speaks of and is used in the laws
  only. \<^verbatim>\<open>bincode\<close> of the label maps is an argument of save and load.
\<close>

section \<open>The graph library\<close>

record 'g ann_ops =
  ann_new :: "distance \<Rightarrow> nat \<Rightarrow> nat \<Rightarrow> nat \<Rightarrow> nat \<Rightarrow> string + 'g"
  ann_size :: "'g \<Rightarrow> nat"
  ann_capacity :: "'g \<Rightarrow> nat"
  ann_reserve :: "nat \<Rightarrow> 'g \<Rightarrow> string + 'g"
  ann_add :: "u64 \<Rightarrow> embedding \<Rightarrow> 'g \<Rightarrow> string + 'g"
  ann_remove :: "u64 \<Rightarrow> 'g \<Rightarrow> 'g"
  ann_set_expansion :: "nat \<Rightarrow> 'g \<Rightarrow> 'g"
  ann_search :: "embedding \<Rightarrow> nat \<Rightarrow> 'g \<Rightarrow> string + (u64 \<times> f32) list"
  ann_save :: "'g \<Rightarrow> string + bytes"
  ann_restore :: "bytes \<Rightarrow> string + 'g"
  ann_vectors :: "'g \<Rightarrow> u64 \<rightharpoonup> embedding"

text \<open>
  Documented behaviour: the size counts the stored labels; adding below capacity a label that is
  not stored succeeds and stores it; reserving keeps the content; search returns at most \<open>k\<close>
  stored labels, each once, by ascending distance; a restored graph holds what was saved.
\<close>

definition ann_content_law :: "'g ann_ops \<Rightarrow> bool" where
  "ann_content_law A \<longleftrightarrow>
     (\<forall>sp d m c s g. ann_new A sp d m c s = Inr g \<longrightarrow> ann_vectors A g = Map.empty) \<and>
     (\<forall>g. finite (dom (ann_vectors A g)) \<and> ann_size A g = card (dom (ann_vectors A g))) \<and>
     (\<forall>l g. ann_vectors A (ann_remove A l g) = (ann_vectors A g)(l := None)) \<and>
     (\<forall>n g. ann_vectors A (ann_set_expansion A n g) = ann_vectors A g)"

definition ann_reserve_law :: "'g ann_ops \<Rightarrow> bool" where
  "ann_reserve_law A \<longleftrightarrow>
     (\<forall>n g g'. ann_reserve A n g = Inr g' \<longrightarrow> ann_vectors A g' = ann_vectors A g \<and> n \<le> ann_capacity A g')"

definition ann_add_law :: "'g ann_ops \<Rightarrow> bool" where
  "ann_add_law A \<longleftrightarrow>
     (\<forall>l v g. ann_vectors A g l = None \<longrightarrow>
        (\<forall>g'. ann_add A l v g = Inr g' \<longrightarrow> ann_vectors A g' = (ann_vectors A g)(l \<mapsto> v)) \<and>
        (ann_size A g < ann_capacity A g \<longrightarrow> (\<exists>g'. ann_add A l v g = Inr g')))"

definition ann_search_law :: "'g ann_ops \<Rightarrow> bool" where
  "ann_search_law A \<longleftrightarrow>
     (\<forall>q k g hits. ann_search A q k g = Inr hits \<longrightarrow>
        length hits \<le> k \<and> distinct (map fst hits) \<and> fst ` set hits \<subseteq> dom (ann_vectors A g) \<and>
        sorted_wrt (\<lambda>a b. \<not> f32_lt (snd b) (snd a)) hits)"

definition ann_save_law :: "'g ann_ops \<Rightarrow> bool" where
  "ann_save_law A \<longleftrightarrow>
     (\<forall>g b. ann_save A g = Inr b \<longrightarrow> (\<exists>g'. ann_restore A b = Inr g' \<and> ann_vectors A g' = ann_vectors A g))"

definition ann_laws :: "'g ann_ops \<Rightarrow> bool" where
  "ann_laws A \<longleftrightarrow> ann_content_law A \<and> ann_reserve_law A \<and> ann_add_law A \<and> ann_search_law A \<and> ann_save_law A"

lemma ann_laws_content:
  assumes "ann_laws A"
  shows "ann_new A sp d m c s = Inr g \<Longrightarrow> ann_vectors A g = Map.empty"
    "finite (dom (ann_vectors A g))" "ann_size A g = card (dom (ann_vectors A g))"
    "ann_vectors A (ann_remove A l g) = (ann_vectors A g)(l := None)"
    "ann_vectors A (ann_set_expansion A n g) = ann_vectors A g"
  using assms unfolding ann_laws_def ann_content_law_def by simp_all

lemma ann_laws_reserve:
  "ann_laws A \<Longrightarrow> ann_reserve A n g = Inr g' \<Longrightarrow> ann_vectors A g' = ann_vectors A g \<and> n \<le> ann_capacity A g'"
  unfolding ann_laws_def ann_reserve_law_def by blast

lemma ann_laws_add:
  assumes "ann_laws A" "ann_vectors A g l = None"
  shows "ann_add A l v g = Inr g' \<Longrightarrow> ann_vectors A g' = (ann_vectors A g)(l \<mapsto> v)"
    "ann_size A g < ann_capacity A g \<Longrightarrow> \<exists>g'. ann_add A l v g = Inr g'"
  using assms unfolding ann_laws_def ann_add_law_def by simp_all

lemma ann_laws_search:
  assumes "ann_laws A" "ann_search A q k g = Inr hits"
  shows "length hits \<le> k \<and> distinct (map fst hits) \<and> fst ` set hits \<subseteq> dom (ann_vectors A g) \<and>
    sorted_wrt (\<lambda>a b. \<not> f32_lt (snd b) (snd a)) hits"
  using assms unfolding ann_laws_def ann_search_law_def by blast

lemma ann_laws_save:
  "ann_laws A \<Longrightarrow> ann_save A g = Inr b \<Longrightarrow> \<exists>g'. ann_restore A b = Inr g' \<and> ann_vectors A g' = ann_vectors A g"
  unfolding ann_laws_def ann_save_law_def by blast

section \<open>The index and its operations\<close>

record index_hit =
  hit_id :: id
  hit_distance :: f32

datatype index_error =
    Usearch string
  | IndexDimensionMismatch nat nat
  | DuplicateId id
  | IndexNotFound id
  | IndexIo
  | SpaceMismatch string string
  | MetaDimensionMismatch nat nat
  | LabelCountMismatch nat nat
  | IndexEncode

record index_meta =
  im_labels :: "(id \<times> u64) list"
  im_ids :: "(u64 \<times> id) list"
  im_next_label :: u64
  im_space :: string
  im_dimension :: nat

record 'g usearch_index =
  ui_inner :: 'g
  ui_space :: distance
  ui_dimension :: nat
  ui_labels :: "(id \<times> u64) list"
  ui_ids :: "(u64 \<times> id) list"
  ui_next_label :: u64

definition with_hnsw :: "'g ann_ops \<Rightarrow> distance \<Rightarrow> nat \<Rightarrow> hnsw_config \<Rightarrow> index_error + 'g usearch_index" where
  "with_hnsw A space dimension hnsw =
     (case ann_new A space dimension (hc_m hnsw) (hc_ef_construction hnsw) (hc_ef_search hnsw) of
        Inl e \<Rightarrow> Inl (Usearch e)
      | Inr inner \<Rightarrow>
          Inr \<lparr>ui_inner = inner, ui_space = space, ui_dimension = dimension,
               ui_labels = [], ui_ids = [], ui_next_label = 0\<rparr>)"

definition index_new :: "'g ann_ops \<Rightarrow> distance \<Rightarrow> nat \<Rightarrow> index_error + 'g usearch_index" where
  "index_new A space dimension = with_hnsw A space dimension hnsw_default"

definition ensure_capacity :: "'g ann_ops \<Rightarrow> 'g \<Rightarrow> index_error + 'g" where
  "ensure_capacity A inner =
     (if ann_size A inner \<ge> ann_capacity A inner then
        (case ann_reserve A (max (ann_capacity A inner * 2) (ann_size A inner + 64)) inner of
           Inl e \<Rightarrow> Inl (Usearch e)
         | Inr inner' \<Rightarrow> Inr inner')
      else Inr inner)"

text \<open>Operations on \<^verbatim>\<open>&mut self\<close> return the state they leave also when they fail.\<close>

definition index_add ::
  "'g ann_ops \<Rightarrow> id \<Rightarrow> embedding \<Rightarrow> 'g usearch_index \<Rightarrow> 'g usearch_index \<times> (index_error + unit)" where
  "index_add A i embedding x =
     (if length embedding \<noteq> ui_dimension x
      then (x, Inl (IndexDimensionMismatch (ui_dimension x) (length embedding)))
      else if map_of (ui_labels x) i \<noteq> None then (x, Inl (DuplicateId i))
      else (case ensure_capacity A (ui_inner x) of
          Inl e \<Rightarrow> (x, Inl e)
        | Inr inner \<Rightarrow>
            (let label = ui_next_label x;
                 x1 = x\<lparr>ui_inner := inner, ui_next_label := ui_next_label x + 1,
                        ui_labels := AList.update i label (ui_labels x),
                        ui_ids := AList.update label i (ui_ids x)\<rparr>
             in case ann_add A label embedding inner of
                  Inl e \<Rightarrow>
                    (x1\<lparr>ui_labels := AList.delete i (ui_labels x1),
                        ui_ids := AList.delete label (ui_ids x1)\<rparr>, Inl (Usearch e))
                | Inr inner' \<Rightarrow> (x1\<lparr>ui_inner := inner'\<rparr>, Inr ()))))"

definition index_delete :: "'g ann_ops \<Rightarrow> id \<Rightarrow> 'g usearch_index \<Rightarrow> 'g usearch_index" where
  "index_delete A i x =
     (case map_of (ui_labels x) i of
        None \<Rightarrow> x
      | Some label \<Rightarrow>
          x\<lparr>ui_inner := ann_remove A label (ui_inner x),
            ui_labels := AList.delete i (ui_labels x),
            ui_ids := AList.delete label (ui_ids x)\<rparr>)"

definition index_search ::
  "'g ann_ops \<Rightarrow> embedding \<Rightarrow> nat \<Rightarrow> nat \<Rightarrow> 'g usearch_index \<Rightarrow> 'g usearch_index \<times> (index_error + index_hit list)" where
  "index_search A query k ef x =
     (if length query \<noteq> ui_dimension x
      then (x, Inl (IndexDimensionMismatch (ui_dimension x) (length query)))
      else
        (let inner = ann_set_expansion A ef (ui_inner x);
             x' = x\<lparr>ui_inner := inner\<rparr>
         in case ann_search A query k inner of
              Inl e \<Rightarrow> (x', Inl (Usearch e))
            | Inr ms \<Rightarrow>
                (x', Inr (List.map_filter
                   (\<lambda>(label, d). map_option (\<lambda>i. \<lparr>hit_id = i, hit_distance = d\<rparr>) (map_of (ui_ids x) label)) ms))))"

definition index_len :: "'g ann_ops \<Rightarrow> 'g usearch_index \<Rightarrow> nat" where
  "index_len A x = ann_size A (ui_inner x)"

definition index_is_empty :: "'g ann_ops \<Rightarrow> 'g usearch_index \<Rightarrow> bool" where
  "index_is_empty A x = (index_len A x = 0)"

definition index_contains :: "id \<Rightarrow> 'g usearch_index \<Rightarrow> bool" where
  "index_contains i x = (map_of (ui_labels x) i \<noteq> None)"

text \<open>
  The two files of a saved index. Each is written beside its place and renamed into it, so a file
  is either the old or the new one; the maps are written after the graph.
\<close>

datatype index_file = GraphFile | MetaFile

definition index_save ::
  "'g ann_ops \<Rightarrow> (index_meta \<Rightarrow> bytes option) \<Rightarrow> 'g usearch_index \<Rightarrow> (index_file \<rightharpoonup> bytes) \<Rightarrow>
     (index_file \<rightharpoonup> bytes) \<times> (index_error + unit)" where
  "index_save A enc_meta x fs =
     (case ann_save A (ui_inner x) of
        Inl e \<Rightarrow> (fs, Inl (Usearch e))
      | Inr graph \<Rightarrow>
          (let fs1 = fs(GraphFile \<mapsto> graph);
               meta = \<lparr>im_labels = ui_labels x, im_ids = ui_ids x, im_next_label = ui_next_label x,
                       im_space = distance_name (ui_space x), im_dimension = ui_dimension x\<rparr>
           in case enc_meta meta of
                None \<Rightarrow> (fs1, Inl IndexEncode)
              | Some b \<Rightarrow> (fs1(MetaFile \<mapsto> b), Inr ())))"

definition index_load ::
  "'g ann_ops \<Rightarrow> (bytes \<Rightarrow> index_meta option) \<Rightarrow> (index_file \<rightharpoonup> bytes) \<Rightarrow> distance \<Rightarrow> nat \<Rightarrow>
     index_error + 'g usearch_index" where
  "index_load A dec_meta fs space dimension =
     (case fs MetaFile of
        None \<Rightarrow> Inl IndexIo
      | Some b \<Rightarrow>
          (case dec_meta b of
             None \<Rightarrow> Inl IndexEncode
           | Some meta \<Rightarrow>
               if im_space meta \<noteq> distance_name space
               then Inl (SpaceMismatch (im_space meta) (distance_name space))
               else if im_dimension meta \<noteq> dimension
               then Inl (MetaDimensionMismatch (im_dimension meta) dimension)
               else (case fs GraphFile of
                   None \<Rightarrow> Inl (Usearch ''restore'')
                 | Some graph \<Rightarrow>
                     (case ann_restore A graph of
                        Inl e \<Rightarrow> Inl (Usearch e)
                      | Inr inner \<Rightarrow>
                          if ann_size A inner \<noteq> length (im_labels meta)
                          then Inl (LabelCountMismatch (length (im_labels meta)) (ann_size A inner))
                          else Inr \<lparr>ui_inner = inner, ui_space = space, ui_dimension = dimension,
                                    ui_labels = im_labels meta, ui_ids = im_ids meta,
                                    ui_next_label = im_next_label meta\<rparr>))))"

section \<open>The representation\<close>

text \<open>
  The label maps are inverse to each other, every label is below the next one, and the graph
  stores exactly the labelled vectors.
\<close>

definition index_repr :: "'g ann_ops \<Rightarrow> 'g usearch_index \<Rightarrow> (id \<rightharpoonup> embedding) \<Rightarrow> bool" where
  "index_repr A x V \<longleftrightarrow>
     ann_laws A \<and> hm_wf (ui_labels x) \<and> hm_wf (ui_ids x) \<and>
     (\<forall>i l. map_of (ui_labels x) i = Some l \<longleftrightarrow> map_of (ui_ids x) l = Some i) \<and>
     (\<forall>l. map_of (ui_ids x) l \<noteq> None \<longrightarrow> l < ui_next_label x) \<and>
     dom (ann_vectors A (ui_inner x)) = dom (map_of (ui_ids x)) \<and>
     (\<forall>i. V i = Option.bind (map_of (ui_labels x) i) (ann_vectors A (ui_inner x)))"

lemma index_reprD:
  assumes "index_repr A x V"
  shows "ann_laws A" "hm_wf (ui_labels x)" "hm_wf (ui_ids x)"
    "map_of (ui_labels x) i = Some l \<longleftrightarrow> map_of (ui_ids x) l = Some i"
    "map_of (ui_ids x) l = Some i \<Longrightarrow> l < ui_next_label x"
    "dom (ann_vectors A (ui_inner x)) = dom (map_of (ui_ids x))"
    "V i = Option.bind (map_of (ui_labels x) i) (ann_vectors A (ui_inner x))"
  using assms unfolding index_repr_def by blast+

lemma index_repr_contains:
  assumes R: "index_repr A x V" shows "index_contains i x \<longleftrightarrow> V i \<noteq> None"
proof (cases "map_of (ui_labels x) i")
  case None
  then show ?thesis using index_reprD(7) [OF R, of i] by (simp add: index_contains_def)
next
  case (Some l)
  then have "l \<in> dom (ann_vectors A (ui_inner x))"
    using index_reprD(4) [OF R, of i l] index_reprD(6) [OF R] by auto
  then show ?thesis using index_reprD(7) [OF R, of i] Some by (auto simp: index_contains_def)
qed

lemma index_repr_inner:
  assumes "index_repr A x V" "ann_vectors A inner = ann_vectors A (ui_inner x)"
  shows "index_repr A (x\<lparr>ui_inner := inner\<rparr>) V"
  using assms by (simp add: index_repr_def)

lemma ensure_capacity_ok:
  assumes "ann_laws A" "ensure_capacity A g = Inr g'"
  shows "ann_vectors A g' = ann_vectors A g \<and> ann_size A g' < ann_capacity A g'"
proof (cases "ann_size A g \<ge> ann_capacity A g")
  case True
  let ?n = "max (ann_capacity A g * 2) (ann_size A g + 64)"
  have r: "ann_reserve A ?n g = Inr g'"
    using assms(2) True by (auto simp: ensure_capacity_def split: sum.splits)
  have "ann_vectors A g' = ann_vectors A g" "?n \<le> ann_capacity A g'"
    using ann_laws_reserve [OF assms(1) r] by simp_all
  moreover have "ann_size A g < ?n" by simp
  ultimately show ?thesis using ann_laws_content(3) [OF assms(1)] by simp
next
  case False
  then show ?thesis using assms(2) by (simp add: ensure_capacity_def)
qed

section \<open>The operations on the representation\<close>

lemma with_hnsw_repr:
  assumes "ann_laws A" "with_hnsw A space dimension hnsw = Inr x"
  shows "index_repr A x Map.empty \<and> ui_dimension x = dimension \<and> ui_space x = space"
  using assms ann_laws_content(1) [OF assms(1)]
  by (auto simp: with_hnsw_def index_repr_def split: sum.splits)

lemma index_add_repr:
  assumes R: "index_repr A x V" and room: "ui_next_label x \<noteq> - 1"
  shows "case index_add A i e x of
      (x', Inr _) \<Rightarrow> V i = None \<and> length e = ui_dimension x \<and> index_repr A x' (V(i \<mapsto> e)) \<and> ui_dimension x' = ui_dimension x
    | (x', Inl err) \<Rightarrow> index_repr A x' V \<and> ui_dimension x' = ui_dimension x"
proof (cases "length e \<noteq> ui_dimension x \<or> map_of (ui_labels x) i \<noteq> None")
  case True
  then show ?thesis using R by (auto simp: index_add_def)
next
  case new: False
  note D = index_reprD [OF R]
  let ?l = "ui_next_label x"
  have fresh: "map_of (ui_ids x) ?l = None" using D(5) [of ?l] by (cases "map_of (ui_ids x) ?l") auto
  have Vi: "V i = None" using D(7) [of i] new by simp
  show ?thesis
  proof (cases "ensure_capacity A (ui_inner x)")
    case (Inl err)
    then show ?thesis using R new by (simp add: index_add_def)
  next
    case (Inr inner)
    have vec: "ann_vectors A inner = ann_vectors A (ui_inner x)" and cap: "ann_size A inner < ann_capacity A inner"
      using ensure_capacity_ok [OF D(1) Inr] by simp_all
    have free: "ann_vectors A inner ?l = None" using fresh D(6) by (auto simp: vec)
    obtain inner' where add: "ann_add A ?l e inner = Inr inner'"
      using ann_laws_add(2) [OF D(1) free cap] by blast
    have vec': "ann_vectors A inner' = (ann_vectors A (ui_inner x))(?l \<mapsto> e)"
      using ann_laws_add(1) [OF D(1) free add] vec by simp
    let ?x = "x\<lparr>ui_inner := inner', ui_next_label := ?l + 1,
      ui_labels := AList.update i ?l (ui_labels x), ui_ids := AList.update ?l i (ui_ids x)\<rparr>"
    have res: "index_add A i e x = (?x, Inr ())"
      using new Inr add by (simp add: index_add_def Let_def)
    have lab: "map_of (ui_labels x) j \<noteq> Some ?l" for j using D(4) [of j ?l] fresh by simp
    have idi: "map_of (ui_ids x) l \<noteq> Some i" for l using D(4) [of i l] new by simp
    have "index_repr A ?x (V(i \<mapsto> e))"
      unfolding index_repr_def
    proof (intro conjI allI)
      show "ann_laws A" "hm_wf (ui_labels ?x)" "hm_wf (ui_ids ?x)" using D(1-3) by simp_all
      show "map_of (ui_labels ?x) j = Some l \<longleftrightarrow> map_of (ui_ids ?x) l = Some j" for j l
        using D(4) [of j l] lab idi fresh new by auto
      show "map_of (ui_ids ?x) l \<noteq> None \<longrightarrow> l < ui_next_label ?x" for l
        using D(5) [of l] word_less_succ [OF room] by (auto dest: less_trans)
      show "dom (ann_vectors A (ui_inner ?x)) = dom (map_of (ui_ids ?x))"
        using D(6) by (auto simp: vec' split: if_splits)
      show "(V(i \<mapsto> e)) j = Option.bind (map_of (ui_labels ?x) j) (ann_vectors A (ui_inner ?x))" for j
        using D(7) [of j] lab [of j] by (cases "map_of (ui_labels x) j") (auto simp: vec')
    qed
    with res new Vi show ?thesis by simp
  qed
qed

lemma index_delete_repr:
  assumes R: "index_repr A x V"
  shows "index_repr A (index_delete A i x) (V(i := None)) \<and> ui_dimension (index_delete A i x) = ui_dimension x"
proof (cases "map_of (ui_labels x) i")
  case None
  then have "V i = None" using index_reprD(7) [OF R, of i] by simp
  then have "V(i := None) = V" by (simp add: fun_upd_idem)
  then show ?thesis using R None by (simp add: index_delete_def)
next
  case (Some l)
  note D = index_reprD [OF R]
  have il: "map_of (ui_ids x) l = Some i" using D(4) [of i l] Some by simp
  let ?x = "x\<lparr>ui_inner := ann_remove A l (ui_inner x), ui_labels := AList.delete i (ui_labels x),
    ui_ids := AList.delete l (ui_ids x)\<rparr>"
  have inj: "j = i" if "map_of (ui_labels x) j = Some l" for j
    using D(4) [of j l] that il by simp
  have injl: "m = l" if "map_of (ui_ids x) m = Some i" for m
    using D(4) [of i m] that Some by simp
  have "index_repr A ?x (V(i := None))"
    unfolding index_repr_def
  proof (intro conjI allI)
    show "ann_laws A" "hm_wf (ui_labels ?x)" "hm_wf (ui_ids ?x)" using D(1-3) by simp_all
    show "map_of (ui_labels ?x) j = Some m \<longleftrightarrow> map_of (ui_ids ?x) m = Some j" for j m
      using D(4) [of j m] inj injl by auto
    show "map_of (ui_ids ?x) m \<noteq> None \<longrightarrow> m < ui_next_label ?x" for m
      using D(5) [of m] by auto
    show "dom (ann_vectors A (ui_inner ?x)) = dom (map_of (ui_ids ?x))"
      using D(6) by (auto simp: ann_laws_content(4) [OF D(1)] split: if_splits)
    show "(V(i := None)) j = Option.bind (map_of (ui_labels ?x) j) (ann_vectors A (ui_inner ?x))" for j
      using D(7) [of j] inj [of j] by (cases "map_of (ui_labels x) j")
        (auto simp: ann_laws_content(4) [OF D(1)])
  qed
  then show ?thesis using Some by (simp add: index_delete_def)
qed

lemma map_filter_total:
  "(\<And>x. x \<in> set xs \<Longrightarrow> f x = Some (g x)) \<Longrightarrow> List.map_filter f xs = map g xs"
  by (induction xs) (simp_all add: List.map_filter_simps)

lemma index_search_repr:
  assumes R: "index_repr A x V" and s: "index_search A q k ef x = (x', Inr hits)"
  shows "index_repr A x' V \<and> length hits \<le> k \<and> distinct (map hit_id hits) \<and>
    (\<forall>h \<in> set hits. V (hit_id h) \<noteq> None) \<and>
    sorted_wrt (\<lambda>a b. \<not> f32_lt (hit_distance b) (hit_distance a)) hits"
proof -
  note D = index_reprD [OF R]
  let ?inner = "ann_set_expansion A ef (ui_inner x)"
  obtain ms where ms: "ann_search A q k ?inner = Inr ms" and x': "x' = x\<lparr>ui_inner := ?inner\<rparr>" and
    hits: "hits = List.map_filter
      (\<lambda>(label, d). map_option (\<lambda>i. \<lparr>hit_id = i, hit_distance = d\<rparr>) (map_of (ui_ids x) label)) ms"
    using s by (auto simp: index_search_def Let_def split: if_splits sum.splits)
  have laws: "length ms \<le> k" "distinct (map fst ms)" "fst ` set ms \<subseteq> dom (ann_vectors A ?inner)"
      "sorted_wrt (\<lambda>a b. \<not> f32_lt (snd b) (snd a)) ms"
    using ann_laws_search [OF D(1) ms] by simp_all
  have known: "map_of (ui_ids x) l \<noteq> None" if "(l, d) \<in> set ms" for l d
    using that laws(3) D(6) ann_laws_content(5) [OF D(1)] by force
  let ?h = "\<lambda>(l, d). \<lparr>hit_id = the (map_of (ui_ids x) l), hit_distance = d\<rparr>"
  have map: "hits = map ?h ms"
    unfolding hits using known by (intro map_filter_total) auto
  have inj: "inj_on (\<lambda>m. the (map_of (ui_ids x) (fst m))) (set ms)"
  proof (rule inj_onI)
    fix a b assume ab: "a \<in> set ms" "b \<in> set ms" "the (map_of (ui_ids x) (fst a)) = the (map_of (ui_ids x) (fst b))"
    obtain i where i: "map_of (ui_ids x) (fst a) = Some i" "map_of (ui_ids x) (fst b) = Some i"
      using known [of "fst a" "snd a"] known [of "fst b" "snd b"] ab by auto
    then have "fst a = fst b" using D(4) [of i "fst a"] D(4) [of i "fst b"] by simp
    then show "a = b" using laws(2) ab by (simp add: distinct_map inj_on_def)
  qed
  have ids: "map hit_id hits = map (\<lambda>m. the (map_of (ui_ids x) (fst m))) ms"
    by (simp add: map case_prod_beta)
  have "distinct ms" using laws(2) by (simp add: distinct_map)
  then have dist: "distinct (map hit_id hits)" using inj by (simp add: ids distinct_map)
  have live: "V (hit_id h) \<noteq> None" if h_in: "h \<in> set hits" for h
  proof -
    obtain l d where ld: "(l, d) \<in> set ms" and h: "h = ?h (l, d)"
      using h_in by (auto simp: map)
    obtain i where "map_of (ui_ids x) l = Some i" using known [OF ld] by auto
    with h have "h = ?h (l, d)" "map_of (ui_ids x) l = Some i" by simp_all
    then have "map_of (ui_labels x) (hit_id h) = Some l" using D(4) [of i l] by simp
    then show ?thesis using index_repr_contains [OF R, of "hit_id h"] by (simp add: index_contains_def)
  qed
  have "sorted_wrt (\<lambda>a b. \<not> f32_lt (hit_distance b) (hit_distance a)) hits"
    using laws(4) by (simp add: map sorted_wrt_map case_prod_beta)
  moreover have "index_repr A x' V"
    unfolding x' by (rule index_repr_inner [OF R ann_laws_content(5) [OF D(1)]])
  ultimately show ?thesis using dist live laws(1) by (simp add: map)
qed

lemma index_repr_len:
  assumes R: "index_repr A x V" shows "index_len A x = card (dom V)"
proof -
  note D = index_reprD [OF R]
  have lab: "map_of (ui_labels x) i \<noteq> None \<longleftrightarrow> V i \<noteq> None" for i
    using index_repr_contains [OF R, of i] by (simp add: index_contains_def)
  have fwd: "\<exists>l. map_of (ui_labels x) i = Some l \<and> map_of (ui_ids x) l = Some i \<and>
      l \<in> dom (ann_vectors A (ui_inner x))" if "i \<in> dom V" for i
    using that lab [of i] D(4) [of i] D(6) by auto
  have bwd: "\<exists>i. map_of (ui_ids x) l = Some i \<and> map_of (ui_labels x) i = Some l \<and> i \<in> dom V"
    if "l \<in> dom (ann_vectors A (ui_inner x))" for l
  proof -
    have "l \<in> dom (map_of (ui_ids x))" using that D(6) by simp
    then obtain i where i: "map_of (ui_ids x) l = Some i" by blast
    then have "map_of (ui_labels x) i = Some l" using D(4) [of i l] by simp
    with i lab [of i] show ?thesis by auto
  qed
  let ?f = "\<lambda>i. the (map_of (ui_labels x) i)" and ?g = "\<lambda>l. the (map_of (ui_ids x) l)"
  have f: "?g (?f i) = i \<and> ?f i \<in> dom (ann_vectors A (ui_inner x))" if "i \<in> dom V" for i
    using fwd [OF that] by auto
  have g: "?f (?g l) = l \<and> ?g l \<in> dom V" if "l \<in> dom (ann_vectors A (ui_inner x))" for l
    using bwd [OF that] by auto
  have "bij_betw ?f (dom V) (dom (ann_vectors A (ui_inner x)))"
  proof (rule bij_betw_byWitness [where f' = ?g])
    show "\<forall>i\<in>dom V. ?g (?f i) = i" using f by blast
    show "\<forall>l\<in>dom (ann_vectors A (ui_inner x)). ?f (?g l) = l" using g by blast
    show "?f ` dom V \<subseteq> dom (ann_vectors A (ui_inner x))" by (rule image_subsetI) (use f in blast)
    show "?g ` dom (ann_vectors A (ui_inner x)) \<subseteq> dom V" by (rule image_subsetI) (use g in blast)
  qed
  then show ?thesis
    using ann_laws_content(3) [OF D(1)] by (simp add: index_len_def bij_betw_same_card)
qed

section \<open>The contract of the trait\<close>

locale ann_index =
  fixes repr :: "'i \<Rightarrow> (id \<rightharpoonup> embedding) \<Rightarrow> bool"
    and dimension :: "'i \<Rightarrow> nat"
    and room :: "'i \<Rightarrow> bool"
    and add :: "id \<Rightarrow> embedding \<Rightarrow> 'i \<Rightarrow> 'i \<times> (index_error + unit)"
    and delete :: "id \<Rightarrow> 'i \<Rightarrow> 'i"
    and search :: "embedding \<Rightarrow> nat \<Rightarrow> nat \<Rightarrow> 'i \<Rightarrow> 'i \<times> (index_error + index_hit list)"
    and contains :: "id \<Rightarrow> 'i \<Rightarrow> bool"
    and count :: "'i \<Rightarrow> nat"
  assumes add_ok: "repr x V \<Longrightarrow> room x \<Longrightarrow> add i e x = (x', Inr u) \<Longrightarrow>
      V i = None \<and> length e = dimension x \<and> repr x' (V(i \<mapsto> e)) \<and> dimension x' = dimension x"
    and add_err: "repr x V \<Longrightarrow> room x \<Longrightarrow> add i e x = (x', Inl err) \<Longrightarrow> repr x' V \<and> dimension x' = dimension x"
    and delete_ok: "repr x V \<Longrightarrow> repr (delete i x) (V(i := None)) \<and> dimension (delete i x) = dimension x"
    and search_ok: "repr x V \<Longrightarrow> search q k ef x = (x', Inr hits) \<Longrightarrow>
      repr x' V \<and> length hits \<le> k \<and> distinct (map hit_id hits) \<and> (\<forall>h \<in> set hits. V (hit_id h) \<noteq> None) \<and>
      sorted_wrt (\<lambda>a b. \<not> f32_lt (hit_distance b) (hit_distance a)) hits"
    and contains_iff: "repr x V \<Longrightarrow> contains i x \<longleftrightarrow> V i \<noteq> None"
    and count_eq: "repr x V \<Longrightarrow> count x = card (dom V)"
begin

text \<open>The engine's replacement of a vector: delete, then add.\<close>

lemma replace_ok:
  assumes "repr x V" "room (delete i x)" "add i e (delete i x) = (x', Inr u)"
  shows "repr x' (V(i \<mapsto> e))"
  using add_ok [OF conjunct1 [OF delete_ok [OF assms(1)]] assms(2,3)] by simp

lemma deleted_not_found:
  assumes "repr x V" "search q k ef (delete i x) = (x', Inr hits)"
  shows "i \<notin> hit_id ` set hits"
  using search_ok [OF conjunct1 [OF delete_ok [OF assms(1)]] assms(2)] by auto

end

interpretation usearch: ann_index "index_repr A" ui_dimension "\<lambda>x. ui_next_label x \<noteq> - 1"
  "index_add A" "index_delete A" "index_search A" index_contains "index_len A" for A
proof
  fix x V i e x' u err q k ef hits
  assume R: "index_repr A x V"
  show "index_add A i e x = (x', Inr u) \<Longrightarrow> V i = None \<and> length e = ui_dimension x \<and>
      index_repr A x' (V(i \<mapsto> e)) \<and> ui_dimension x' = ui_dimension x" if "ui_next_label x \<noteq> - 1"
    using index_add_repr [OF R that, of i e] by simp
  show "index_add A i e x = (x', Inl err) \<Longrightarrow> index_repr A x' V \<and> ui_dimension x' = ui_dimension x"
    if "ui_next_label x \<noteq> - 1"
    using index_add_repr [OF R that, of i e] by simp
  show "index_repr A (index_delete A i x) (V(i := None)) \<and> ui_dimension (index_delete A i x) = ui_dimension x"
    by (rule index_delete_repr [OF R])
  show "index_search A q k ef x = (x', Inr hits) \<Longrightarrow> index_repr A x' V \<and> length hits \<le> k \<and>
      distinct (map hit_id hits) \<and> (\<forall>h \<in> set hits. V (hit_id h) \<noteq> None) \<and>
      sorted_wrt (\<lambda>a b. \<not> f32_lt (hit_distance b) (hit_distance a)) hits"
    by (rule index_search_repr [OF R])
  show "index_contains i x \<longleftrightarrow> V i \<noteq> None" by (rule index_repr_contains [OF R])
  show "index_len A x = card (dom V)" by (rule index_repr_len [OF R])
qed

section \<open>Persistence\<close>

definition meta_codec_laws :: "(index_meta \<Rightarrow> bytes option) \<Rightarrow> (bytes \<Rightarrow> index_meta option) \<Rightarrow> bool" where
  "meta_codec_laws enc_meta dec_meta \<longleftrightarrow> (\<forall>m b. enc_meta m = Some b \<longrightarrow> dec_meta b = Some m)"

lemma index_repr_labels_card:
  assumes R: "index_repr A x V" shows "length (ui_labels x) = card (dom V)"
proof -
  have "dom (map_of (ui_labels x)) = dom V"
    using index_repr_contains [OF R] by (auto simp: index_contains_def)
  then show ?thesis using hm_length_card [OF index_reprD(2) [OF R]] by simp
qed

lemma index_save_load:
  assumes R: "index_repr A x V" and C: "meta_codec_laws enc_meta dec_meta"
    and s: "index_save A enc_meta x fs = (fs', Inr u)"
  shows "\<exists>x'. index_load A dec_meta fs' (ui_space x) (ui_dimension x) = Inr x' \<and> index_repr A x' V \<and>
    ui_labels x' = ui_labels x \<and> ui_ids x' = ui_ids x \<and> ui_next_label x' = ui_next_label x"
proof -
  note A = index_reprD(1) [OF R]
  let ?meta = "\<lparr>im_labels = ui_labels x, im_ids = ui_ids x, im_next_label = ui_next_label x,
    im_space = distance_name (ui_space x), im_dimension = ui_dimension x\<rparr>"
  obtain graph b where g: "ann_save A (ui_inner x) = Inr graph" and b: "enc_meta ?meta = Some b" and
    fs': "fs' = fs(GraphFile \<mapsto> graph, MetaFile \<mapsto> b)"
    using s by (auto simp: index_save_def Let_def split: sum.splits option.splits)
  have dec: "dec_meta b = Some ?meta" using C b by (simp add: meta_codec_laws_def)
  obtain inner where i: "ann_restore A graph = Inr inner" "ann_vectors A inner = ann_vectors A (ui_inner x)"
    using ann_laws_save [OF A g] by blast
  have "ann_size A inner = length (ui_labels x)"
    using ann_laws_content(3) [OF A] i(2) index_repr_len [OF R] index_repr_labels_card [OF R]
    by (simp add: index_len_def)
  then show ?thesis
    using R i dec by (auto simp: index_load_def fs' index_repr_def)
qed

section \<open>Properties\<close>

text \<open>A small exact graph for the witnesses: capacity and stored vectors, all at distance zero; only
  graphs of at most one vector of one component can be saved.\<close>

definition list_ann :: "(nat \<times> (u64 \<times> embedding) list) ann_ops" where
  "list_ann =
     \<lparr>ann_new = (\<lambda>sp d m c s. Inr (0, [])),
      ann_size = (\<lambda>(c, m). length (remdups (map fst m))),
      ann_capacity = fst,
      ann_reserve = (\<lambda>n (c, m). Inr (n, m)),
      ann_add = (\<lambda>l v (c, m). if length (remdups (map fst m)) < c then Inr (c, (l, v) # m) else Inl ''full''),
      ann_remove = (\<lambda>l (c, m). (c, AList.delete l m)),
      ann_set_expansion = (\<lambda>n g. g),
      ann_search = (\<lambda>q k (c, m). Inr (take k (map (\<lambda>l. (l, f32_zero)) (remdups (map fst m))))),
      ann_save = (\<lambda>(c, m). case m of [] \<Rightarrow> Inr [] | [(l, [f])] \<Rightarrow> Inr (u64_le l @ u32_le f) | _ \<Rightarrow> Inl ''save''),
      ann_restore = (\<lambda>b. if b = [] then Inr (0, []) else Inr (1, [(le_u64 b, [le_u32 (drop 8 b)])])),
      ann_vectors = (\<lambda>(c, m). map_of m)\<rparr>"

lemma list_ann_laws: "ann_laws list_ann"
proof -
  have card: "card (dom (map_of m)) = length (remdups (map fst m))" for m :: "(u64 \<times> embedding) list"
    by (simp add: dom_map_of_conv_image_fst length_remdups_card_conv)
  have sorted: "sorted_wrt (\<lambda>a b. \<not> f32_lt (snd b) (snd a)) (take k (map (\<lambda>l. (l, f32_zero)) ls))" for k and ls :: "u64 list"
    by (simp add: take_map sorted_wrt_map)
  have search: "distinct (map fst (take k (map (\<lambda>l. (l, f32_zero)) (remdups (map fst m)))))"
    "fst ` set (take k (map (\<lambda>l. (l, f32_zero)) (remdups (map fst m)))) \<subseteq> dom (map_of m)"
    for k and m :: "(u64 \<times> embedding) list"
    by (auto simp: take_map comp_def dom_map_of_conv_image_fst dest!: in_set_takeD)
  have u64: "u64_le l \<noteq> []" for l using length_uN_le(3) [of l] by (metis list.size(3) zero_neq_numeral)
  have save: "\<exists>g'. ann_restore list_ann b = Inr g' \<and> ann_vectors list_ann g' = ann_vectors list_ann g"
    if "ann_save list_ann g = Inr b" for g b
    using that by (cases g) (auto simp: list_ann_def u64 split: list.splits)
  show ?thesis
    unfolding ann_laws_def
  proof (intro conjI)
    show "ann_content_law list_ann" by (simp add: ann_content_law_def list_ann_def card finite_dom_map_of
          delete_conv' split: prod.split)
    show "ann_reserve_law list_ann" by (simp add: ann_reserve_law_def list_ann_def)
    show "ann_add_law list_ann" by (simp add: ann_add_law_def list_ann_def split: prod.split)
    show "ann_search_law list_ann"
      using sorted search by (auto simp: ann_search_law_def list_ann_def)
    show "ann_save_law list_ann" using save by (simp add: ann_save_law_def)
  qed
qed

definition demo_index :: "(nat \<times> (u64 \<times> embedding) list) usearch_index" where
  "demo_index =
     \<lparr>ui_inner = (64, [(0, [7])]), ui_space = L2, ui_dimension = 1,
      ui_labels = [(''a'', 0)], ui_ids = [(0, ''a'')], ui_next_label = 1\<rparr>"

lemma demo_index_repr: "index_repr list_ann demo_index [''a'' \<mapsto> [7]]"
  by (auto simp: index_repr_def list_ann_laws demo_index_def hm_wf_def)
    (auto simp: list_ann_def split: if_splits)

text \<open>C19: The index refines a map from ids to vectors. A successful add requires a new id and a vector
  of the index's dimension and inserts it; a failed add leaves the content as it was, whatever
  failed; delete removes exactly its id and is a no-op for an unknown one; replacing by delete and
  add overwrites.\<close>

theorem index_refines_map:
  assumes "index_repr A x V" "ui_next_label x \<noteq> - 1"
  shows "(\<forall>x'. index_add A i e x = (x', Inr ()) \<longrightarrow>
       V i = None \<and> length e = ui_dimension x \<and> index_repr A x' (V(i \<mapsto> e))) \<and>
    (\<forall>x' err. index_add A i e x = (x', Inl err) \<longrightarrow> index_repr A x' V) \<and>
    index_repr A (index_delete A i x) (V(i := None)) \<and>
    (\<forall>x'. index_add A i e (index_delete A i x) = (x', Inr ()) \<longrightarrow> index_repr A x' (V(i \<mapsto> e)))"
proof -
  have "ui_next_label (index_delete A i x) \<noteq> - 1"
    using assms(2) by (simp add: index_delete_def split: option.split)
  then show ?thesis
    using usearch.add_ok [OF assms] usearch.add_err [OF assms] usearch.delete_ok [OF assms(1)]
      usearch.replace_ok [OF assms(1)] by blast
qed

lemma index_refines_map_witness:
  "\<exists>x'. index_add list_ann ''b'' [9] demo_index = (x', Inr ()) \<and>
     index_repr list_ann x' [''a'' \<mapsto> [7], ''b'' \<mapsto> [9]] \<and>
     index_repr list_ann (index_delete list_ann ''b'' demo_index) [''a'' \<mapsto> [7]]"
proof -
  obtain x' where x': "index_add list_ann ''b'' [9] demo_index = (x', Inr ())"
    by (simp add: index_add_def demo_index_def ensure_capacity_def list_ann_def)
  have "[''a'' \<mapsto> [7]](''b'' := None) = [''a'' \<mapsto> [7]]" by auto
  moreover have "ui_next_label demo_index \<noteq> - 1" by (simp add: demo_index_def)
  ultimately show ?thesis
    using index_refines_map [OF demo_index_repr, of "''b''" "[9]"] x' by auto
qed

text \<open>C20: Search answers are live. A search returns at most k hits, with pairwise different ids, every
  one of which is indexed at that moment, by ascending distance; a deleted id never comes back.\<close>

theorem index_search_live:
  assumes "index_repr A x V" "index_search A q k ef x = (x', Inr hits)"
  shows "length hits \<le> k \<and> distinct (map hit_id hits) \<and> (\<forall>h \<in> set hits. index_contains (hit_id h) x) \<and>
    sorted_wrt (\<lambda>a b. \<not> f32_lt (hit_distance b) (hit_distance a)) hits \<and>
    (\<forall>i x'' hits'. index_search A q k ef (index_delete A i x) = (x'', Inr hits') \<longrightarrow> i \<notin> hit_id ` set hits')"
  using usearch.search_ok [OF assms] usearch.contains_iff [OF assms(1)] usearch.deleted_not_found [OF assms(1)]
  by blast

lemma index_search_live_witness:
  "\<exists>x' hits. index_search list_ann [3] 5 100 demo_index = (x', Inr hits) \<and> map hit_id hits = [''a''] \<and>
     (\<forall>h \<in> set hits. index_contains (hit_id h) demo_index)"
proof -
  have "index_search list_ann [3] 5 100 demo_index =
      (demo_index, Inr [\<lparr>hit_id = ''a'', hit_distance = f32_zero\<rparr>])"
    by (simp add: index_search_def demo_index_def list_ann_def List.map_filter_simps)
  with index_search_live [OF demo_index_repr this] show ?thesis by auto
qed

text \<open>C21: An index survives a restart. Loading what save wrote, for the same space and dimension,
  succeeds and represents the same vectors with the same labels and the same next label, so labels
  are still never reused.\<close>

theorem index_survives_restart:
  assumes "index_repr A x V" "meta_codec_laws enc_meta dec_meta" "index_save A enc_meta x fs = (fs', Inr ())"
  shows "\<exists>x'. index_load A dec_meta fs' (ui_space x) (ui_dimension x) = Inr x' \<and> index_repr A x' V \<and>
    ui_labels x' = ui_labels x \<and> ui_ids x' = ui_ids x \<and> ui_next_label x' = ui_next_label x"
  by (rule index_save_load [OF assms])

text \<open>A codec for the label maps of the demonstration index and of one that replaced its id.\<close>

definition demo_meta :: "string \<Rightarrow> u64 \<Rightarrow> index_meta" where
  "demo_meta i l = \<lparr>im_labels = [(i, l)], im_ids = [(l, i)], im_next_label = l + 1,
     im_space = distance_name L2, im_dimension = 1\<rparr>"

definition demo_enc_meta :: "index_meta \<Rightarrow> bytes option" where
  "demo_enc_meta m = (if m = demo_meta ''a'' 0 then Some [0] else None)"

definition demo_dec_meta :: "bytes \<Rightarrow> index_meta option" where
  "demo_dec_meta b = (if b = [0] then Some (demo_meta ''a'' 0) else None)"

lemma demo_meta_codec_laws: "meta_codec_laws demo_enc_meta demo_dec_meta"
  by (simp add: meta_codec_laws_def demo_enc_meta_def demo_dec_meta_def)

lemma demo_index_save:
  "index_save list_ann demo_enc_meta demo_index fs =
     (fs(GraphFile \<mapsto> u64_le 0 @ u32_le 7, MetaFile \<mapsto> [0]), Inr ())"
  by (simp add: index_save_def list_ann_def demo_index_def demo_enc_meta_def demo_meta_def)

lemma index_survives_restart_witness:
  "\<exists>x'. index_load list_ann demo_dec_meta [GraphFile \<mapsto> u64_le 0 @ u32_le 7, MetaFile \<mapsto> [0]] L2 1 = Inr x' \<and>
     index_repr list_ann x' [''a'' \<mapsto> [7]]"
  using index_survives_restart [OF demo_index_repr demo_meta_codec_laws demo_index_save, of Map.empty]
  by (auto simp: demo_index_def)

text \<open>A torn save can go unnoticed. The graph file is renamed before the label maps; if the process
  dies in between after one id was replaced by another, the new graph meets the old maps, the label
  counts agree, the load succeeds, and the index it returns claims the deleted id although the
  graph holds the vector of another label.\<close>

theorem index_torn_save_accepted:
  "\<exists>y y' fs1 graph.
     index_add list_ann ''b'' [9] (index_delete list_ann ''a'' demo_index) = (y, Inr ()) \<and>
     index_save list_ann demo_enc_meta demo_index Map.empty = (fs1, Inr ()) \<and>
     ann_save list_ann (ui_inner y) = Inr graph \<and>
     index_load list_ann demo_dec_meta (fs1(GraphFile \<mapsto> graph)) L2 1 = Inr y' \<and>
     index_contains ''a'' y' \<and> \<not> index_contains ''b'' y' \<and> \<not> (\<exists>V. index_repr list_ann y' V)"
proof -
  let ?y = "\<lparr>ui_inner = (64, [(1, [9])]), ui_space = L2, ui_dimension = 1,
    ui_labels = [(''b'', 1)], ui_ids = [(1, ''b'')], ui_next_label = 2\<rparr>"
  let ?fs1 = "[GraphFile \<mapsto> u64_le 0 @ u32_le 7, MetaFile \<mapsto> [0 :: byte]]"
  let ?fs2 = "?fs1(GraphFile \<mapsto> u64_le 1 @ u32_le 9)"
  let ?y' = "\<lparr>ui_inner = (1 :: nat, [(1 :: u64, [9 :: f32])]), ui_space = L2, ui_dimension = 1,
    ui_labels = [(''a'', 0)], ui_ids = [(0, ''a'')], ui_next_label = 1\<rparr>"
  have y: "index_add list_ann ''b'' [9] (index_delete list_ann ''a'' demo_index) = (?y, Inr ())"
    by (simp add: index_add_def index_delete_def demo_index_def ensure_capacity_def list_ann_def)
  have s2: "ann_save list_ann (ui_inner ?y) = Inr (u64_le 1 @ u32_le 9)"
    by (simp add: list_ann_def)
  have "u64_le (1 :: u64) \<noteq> []" using length_uN_le(3) [of 1] by (metis list.size(3) zero_neq_numeral)
  then have l: "index_load list_ann demo_dec_meta ?fs2 L2 1 = Inr ?y'"
    by (simp add: index_load_def list_ann_def demo_dec_meta_def demo_meta_def)
  have "\<not> index_repr list_ann ?y' V" for V
  proof
    assume "index_repr list_ann ?y' V"
    from index_reprD(6) [OF this] show False by (auto simp: list_ann_def dom_def fun_eq_iff split: if_splits)
  qed
  then show ?thesis
    using y demo_index_save [of Map.empty] s2 l by (auto simp: index_contains_def)
qed

end
