(* ===== verification/Catalog.thy ===== *)
theory Catalog
  imports Core_Types
begin

text \<open>
  The catalog of \<^verbatim>\<open>crates/rekha-storage/src/catalog.rs\<close> and \<^verbatim>\<open>redb_catalog.rs\<close>: four
  key-value tables, each mutation one transaction that commits as a whole or leaves the tables as
  they were. The database is the parameter only as far as its tables are maps with iteration in
  key order; \<^verbatim>\<open>bincode\<close> and the text form of a uuid are the parameter \<open>cat_codec\<close>. The trait is
  the locale \<open>catalog_store\<close>, over the abstract state of a map from uuids to records.
\<close>

section \<open>Data\<close>

record collection_record =
  cr_config :: collection_config
  cr_max_seq_id :: u64
  cr_total_elements :: u64

datatype catalog_error =
    CatNotFound
  | AlreadyExists
  | InvalidArgument string
  | Serialization string

record cat_codec =
  enc_record :: "collection_record \<Rightarrow> bytes option"
  dec_record :: "bytes \<Rightarrow> collection_record option"
  enc_string :: "string \<Rightarrow> bytes option"
  dec_string :: "bytes \<Rightarrow> string option"
  uuid_to_string :: "uuid \<Rightarrow> string"
  uuid_parse :: "string \<Rightarrow> uuid option"

definition cat_codec_laws :: "cat_codec \<Rightarrow> bool" where
  "cat_codec_laws K \<longleftrightarrow>
     (\<forall>r b. enc_record K r = Some b \<longrightarrow> dec_record K b = Some r) \<and>
     (\<forall>s b. enc_string K s = Some b \<longrightarrow> dec_string K b = Some s) \<and>
     (\<forall>u. uuid_parse K (uuid_to_string K u) = Some u)"

record redb_catalog =
  ct_tenants :: "(string \<times> bytes) list"
  ct_databases :: "((string \<times> string) \<times> bytes) list"
  ct_collections :: "(string \<times> bytes) list"
  ct_by_name :: "((string \<times> string \<times> string) \<times> bytes) list"

definition ensure_tables :: redb_catalog where
  "ensure_tables = \<lparr>ct_tenants = [], ct_databases = [], ct_collections = [], ct_by_name = []\<rparr>"

section \<open>Operations\<close>

definition decode_as :: "('b \<Rightarrow> 'a option) \<Rightarrow> 'b \<Rightarrow> catalog_error + 'a" where
  "decode_as dec b = (case dec b of Some x \<Rightarrow> Inr x | None \<Rightarrow> Inl (Serialization ''decode''))"

definition encode_as :: "('a \<Rightarrow> bytes option) \<Rightarrow> 'a \<Rightarrow> catalog_error + bytes" where
  "encode_as enc x = (case enc x of Some b \<Rightarrow> Inr b | None \<Rightarrow> Inl (Serialization ''encode''))"

definition create_tenant :: "string \<Rightarrow> redb_catalog \<Rightarrow> catalog_error + redb_catalog" where
  "create_tenant name c =
     (if name = [] then Inl (InvalidArgument ''tenant name must not be empty'')
      else if map_of (ct_tenants c) name \<noteq> None then Inl AlreadyExists
      else Inr (c\<lparr>ct_tenants := AList.update name [] (ct_tenants c)\<rparr>))"

definition create_database :: "string \<Rightarrow> string \<Rightarrow> redb_catalog \<Rightarrow> catalog_error + redb_catalog" where
  "create_database tenant name c =
     (if name = [] then Inl (InvalidArgument ''database name must not be empty'')
      else if map_of (ct_tenants c) tenant = None then Inl CatNotFound
      else if map_of (ct_databases c) (tenant, name) \<noteq> None then Inl AlreadyExists
      else Inr (c\<lparr>ct_databases := AList.update (tenant, name) [] (ct_databases c)\<rparr>))"

definition name_key :: "collection_config \<Rightarrow> string \<times> string \<times> string" where
  "name_key cfg = (cc_tenant cfg, cc_database cfg, cc_name cfg)"

definition catalog_create ::
  "cat_codec \<Rightarrow> collection_config \<Rightarrow> redb_catalog \<Rightarrow> catalog_error + redb_catalog \<times> collection_record" where
  "catalog_create K cfg c =
     (if cc_name cfg = [] then Inl (InvalidArgument ''collection name must not be empty'')
      else
        (let r = \<lparr>cr_config = cfg, cr_max_seq_id = 0, cr_total_elements = 0\<rparr>;
             id_key = uuid_to_string K (cc_id cfg)
         in and_then (encode_as (enc_record K) r) (\<lambda>record_bytes.
            and_then (encode_as (enc_string K) id_key) (\<lambda>id_bytes.
              if map_of (ct_by_name c) (name_key cfg) \<noteq> None then Inl AlreadyExists
              else Inr (c\<lparr>ct_collections := AList.update id_key record_bytes (ct_collections c),
                          ct_by_name := AList.update (name_key cfg) id_bytes (ct_by_name c)\<rparr>, r)))))"

definition catalog_get_by_id ::
  "cat_codec \<Rightarrow> uuid \<Rightarrow> redb_catalog \<Rightarrow> catalog_error + collection_record option" where
  "catalog_get_by_id K u c =
     (case map_of (ct_collections c) (uuid_to_string K u) of
        Some b \<Rightarrow> and_then (decode_as (dec_record K) b) (\<lambda>r. Inr (Some r))
      | None \<Rightarrow> Inr None)"

definition catalog_get ::
  "cat_codec \<Rightarrow> string \<Rightarrow> string \<Rightarrow> string \<Rightarrow> redb_catalog \<Rightarrow> catalog_error + collection_record option" where
  "catalog_get K tenant database name c =
     (case map_of (ct_by_name c) (tenant, database, name) of
        None \<Rightarrow> Inr None
      | Some id_bytes \<Rightarrow>
          and_then (decode_as (dec_string K) id_bytes) (\<lambda>id_str.
          and_then (decode_as (uuid_parse K) id_str) (\<lambda>u. catalog_get_by_id K u c)))"

definition catalog_list_all :: "cat_codec \<Rightarrow> redb_catalog \<Rightarrow> catalog_error + collection_record list" where
  "catalog_list_all K c =
     collect_results (\<lambda>(k, v). decode_as (dec_record K) v) (by_key (ct_collections c))"

definition catalog_list ::
  "cat_codec \<Rightarrow> string \<Rightarrow> string \<Rightarrow> redb_catalog \<Rightarrow> catalog_error + collection_record list" where
  "catalog_list K tenant database c =
     and_then (collect_results (\<lambda>(k, v). decode_as (dec_record K) v) (by_key (ct_collections c)))
       (\<lambda>rs. Inr (filter (\<lambda>r. cc_tenant (cr_config r) = tenant \<and> cc_database (cr_config r) = database) rs))"

text \<open>The read-modify-write transaction the three update operations share.\<close>

definition modify_record ::
  "cat_codec \<Rightarrow> uuid \<Rightarrow> (collection_record \<Rightarrow> collection_record) \<Rightarrow> redb_catalog \<Rightarrow> catalog_error + redb_catalog" where
  "modify_record K u f c =
     (let id_key = uuid_to_string K u in
      case map_of (ct_collections c) id_key of
        None \<Rightarrow> Inl CatNotFound
      | Some b \<Rightarrow>
          and_then (decode_as (dec_record K) b) (\<lambda>r.
          and_then (encode_as (enc_record K) (f r)) (\<lambda>b'.
            Inr (c\<lparr>ct_collections := AList.update id_key b' (ct_collections c)\<rparr>))))"

definition update_collection_metadata :: "cat_codec \<Rightarrow> uuid \<Rightarrow> metadata \<Rightarrow> redb_catalog \<Rightarrow> catalog_error + redb_catalog" where
  "update_collection_metadata K u metadata =
     modify_record K u (\<lambda>r. r\<lparr>cr_config := (cr_config r)\<lparr>cc_metadata := Some metadata\<rparr>\<rparr>)"

definition advance_log_offset :: "cat_codec \<Rightarrow> uuid \<Rightarrow> u64 \<Rightarrow> redb_catalog \<Rightarrow> catalog_error + redb_catalog" where
  "advance_log_offset K u seq = modify_record K u (\<lambda>r. r\<lparr>cr_max_seq_id := max (cr_max_seq_id r) seq\<rparr>)"

definition update_collection_dimension :: "cat_codec \<Rightarrow> uuid \<Rightarrow> nat \<Rightarrow> redb_catalog \<Rightarrow> catalog_error + redb_catalog" where
  "update_collection_dimension K u dimension =
     modify_record K u (\<lambda>r. r\<lparr>cr_config := (cr_config r)\<lparr>cc_dimension := dimension\<rparr>\<rparr>)"

definition catalog_delete :: "cat_codec \<Rightarrow> uuid \<Rightarrow> redb_catalog \<Rightarrow> catalog_error + redb_catalog" where
  "catalog_delete K u c =
     (let id_key = uuid_to_string K u in
      case map_of (ct_collections c) id_key of
        None \<Rightarrow> Inl CatNotFound
      | Some b \<Rightarrow>
          and_then (decode_as (dec_record K) b) (\<lambda>r.
            Inr (c\<lparr>ct_collections := AList.delete id_key (ct_collections c),
                   ct_by_name := AList.delete (name_key (cr_config r)) (ct_by_name c)\<rparr>)))"

section \<open>Representation\<close>

text \<open>The tables represent a map of records in which names are unique within their scope.\<close>

definition catalog_repr :: "cat_codec \<Rightarrow> redb_catalog \<Rightarrow> (uuid \<rightharpoonup> collection_record) \<Rightarrow> bool" where
  "catalog_repr K c M \<longleftrightarrow>
     cat_codec_laws K \<and> hm_wf (ct_collections c) \<and>
     (\<forall>k b. map_of (ct_collections c) k = Some b \<longrightarrow>
        (\<exists>u r. k = uuid_to_string K u \<and> M u = Some r \<and> dec_record K b = Some r)) \<and>
     (\<forall>u r. M u = Some r \<longrightarrow> cc_id (cr_config r) = u \<and> map_of (ct_collections c) (uuid_to_string K u) \<noteq> None) \<and>
     (\<forall>nk b. map_of (ct_by_name c) nk = Some b \<longrightarrow>
        (\<exists>u r. M u = Some r \<and> name_key (cr_config r) = nk \<and> dec_string K b = Some (uuid_to_string K u))) \<and>
     (\<forall>u r. M u = Some r \<longrightarrow> map_of (ct_by_name c) (name_key (cr_config r)) \<noteq> None) \<and>
     (\<forall>u v r s. M u = Some r \<longrightarrow> M v = Some s \<longrightarrow> name_key (cr_config r) = name_key (cr_config s) \<longrightarrow> u = v)"

lemma catalog_reprD:
  assumes "catalog_repr K c M"
  shows "cat_codec_laws K" "hm_wf (ct_collections c)"
    "map_of (ct_collections c) k = Some b \<Longrightarrow> \<exists>u r. k = uuid_to_string K u \<and> M u = Some r \<and> dec_record K b = Some r"
    "M u = Some r \<Longrightarrow> cc_id (cr_config r) = u" "M u = Some r \<Longrightarrow> map_of (ct_collections c) (uuid_to_string K u) \<noteq> None"
    "map_of (ct_by_name c) nk = Some b \<Longrightarrow>
       \<exists>u r. M u = Some r \<and> name_key (cr_config r) = nk \<and> dec_string K b = Some (uuid_to_string K u)"
    "M u = Some r \<Longrightarrow> map_of (ct_by_name c) (name_key (cr_config r)) \<noteq> None"
    "M u = Some r \<Longrightarrow> M v = Some s \<Longrightarrow> name_key (cr_config r) = name_key (cr_config s) \<Longrightarrow> u = v"
  using assms unfolding catalog_repr_def by blast+

lemma uuid_string_inj: "cat_codec_laws K \<Longrightarrow> uuid_to_string K u = uuid_to_string K v \<longleftrightarrow> u = v"
  unfolding cat_codec_laws_def by (metis option.inject)

lemma collections_lookup:
  assumes R: "catalog_repr K c M"
  shows "(case map_of (ct_collections c) (uuid_to_string K u) of
      Some b \<Rightarrow> \<exists>r. M u = Some r \<and> dec_record K b = Some r | None \<Rightarrow> M u = None)"
proof (cases "map_of (ct_collections c) (uuid_to_string K u)")
  case None
  then show ?thesis using catalog_reprD(5) [OF R, of u] by (cases "M u") auto
next
  case (Some b)
  from catalog_reprD(3) [OF R Some] show ?thesis
    using Some uuid_string_inj [OF catalog_reprD(1) [OF R]] by auto
qed

lemma catalog_get_by_id_repr:
  assumes R: "catalog_repr K c M" shows "catalog_get_by_id K u c = Inr (M u)"
  using collections_lookup [OF R, of u]
  by (auto simp: catalog_get_by_id_def decode_as_def split: option.splits)

lemma catalog_get_repr:
  assumes R: "catalog_repr K c M"
  shows "(\<exists>u r. M u = Some r \<and> name_key (cr_config r) = (t, d, n) \<and> catalog_get K t d n c = Inr (Some r)) \<or>
    ((\<forall>u r. M u = Some r \<longrightarrow> name_key (cr_config r) \<noteq> (t, d, n)) \<and> catalog_get K t d n c = Inr None)"
proof (cases "map_of (ct_by_name c) (t, d, n)")
  case None
  then have "catalog_get K t d n c = Inr None" by (simp add: catalog_get_def)
  moreover have "name_key (cr_config r) \<noteq> (t, d, n)" if "M u = Some r" for u r
    using catalog_reprD(7) [OF R that] None by auto
  ultimately show ?thesis by blast
next
  case (Some b)
  obtain u r where u: "M u = Some r" "name_key (cr_config r) = (t, d, n)" "dec_string K b = Some (uuid_to_string K u)"
    using catalog_reprD(6) [OF R Some] by blast
  have "uuid_parse K (uuid_to_string K u) = Some u"
    using catalog_reprD(1) [OF R] by (simp add: cat_codec_laws_def)
  then have "catalog_get K t d n c = Inr (Some r)"
    using Some u catalog_get_by_id_repr [OF R, of u] by (simp add: catalog_get_def decode_as_def)
  with u show ?thesis by blast
qed

lemma catalog_list_all_repr:
  assumes R: "catalog_repr K c M"
  shows "\<exists>rs. catalog_list_all K c = Inr rs \<and> set rs = ran M"
proof -
  let ?g = "\<lambda>(k :: string, v). the (dec_record K v)"
  have ok: "(case e of (k, v) \<Rightarrow> decode_as (dec_record K) v) = Inr (?g e)" if e: "e \<in> set (by_key (ct_collections c))" for e
  proof -
    obtain k v where kv: "e = (k, v)" by (cases e)
    then have "map_of (ct_collections c) k = Some v" using e catalog_reprD(2) [OF R] by (simp add: hm_wf_in_set)
    from catalog_reprD(3) [OF R this] show ?thesis by (auto simp: kv decode_as_def)
  qed
  have "r \<in> ?g ` set (ct_collections c)" if ur: "M u = Some r" for u r
  proof -
    obtain b where "map_of (ct_collections c) (uuid_to_string K u) = Some b"
      using catalog_reprD(5) [OF R ur] by auto
    then have "(uuid_to_string K u, b) \<in> set (ct_collections c)" "dec_record K b = Some r"
      using collections_lookup [OF R, of u] ur by (auto dest: map_of_SomeD)
    then show ?thesis by force
  qed
  moreover have "?g e \<in> ran M" if e: "e \<in> set (ct_collections c)" for e
  proof -
    obtain k v where kv: "e = (k, v)" by (cases e)
    then have "map_of (ct_collections c) k = Some v" using e catalog_reprD(2) [OF R] by (simp add: hm_wf_in_set)
    from catalog_reprD(3) [OF R this] show ?thesis by (auto simp: kv ran_def)
  qed
  ultimately have "?g ` set (ct_collections c) = ran M" by (auto simp: ran_def)
  moreover have "catalog_list_all K c = Inr (map ?g (by_key (ct_collections c)))"
    unfolding catalog_list_all_def by (rule collect_results_Inr) (rule ok)
  ultimately show ?thesis by simp
qed

lemma catalog_create_repr:
  assumes R: "catalog_repr K c M" and fresh: "M (cc_id cfg) = None"
    and ok: "catalog_create K cfg c = Inr (c', r)"
  shows "r = \<lparr>cr_config = cfg, cr_max_seq_id = 0, cr_total_elements = 0\<rparr> \<and>
    (\<forall>u s. M u = Some s \<longrightarrow> name_key (cr_config s) \<noteq> name_key cfg) \<and> catalog_repr K c' (M(cc_id cfg \<mapsto> r))"
proof -
  let ?u = "cc_id cfg"
  note K = catalog_reprD(1) [OF R]
  obtain rb ib where r: "r = \<lparr>cr_config = cfg, cr_max_seq_id = 0, cr_total_elements = 0\<rparr>" and
    b: "enc_record K r = Some rb" "enc_string K (uuid_to_string K ?u) = Some ib" and
    free: "map_of (ct_by_name c) (name_key cfg) = None" and
    c': "c' = c\<lparr>ct_collections := AList.update (uuid_to_string K ?u) rb (ct_collections c),
               ct_by_name := AList.update (name_key cfg) ib (ct_by_name c)\<rparr>"
    using ok by (auto simp: catalog_create_def Let_def encode_as_def and_then_Inr_iff split: if_splits option.splits)
  have dec: "dec_record K rb = Some r" "dec_string K ib = Some (uuid_to_string K ?u)"
    using K b by (simp_all add: cat_codec_laws_def)
  have names: "name_key (cr_config s) \<noteq> name_key cfg" if "M u = Some s" for u s
    using catalog_reprD(7) [OF R that] free by auto
  have "catalog_repr K c' (M(?u \<mapsto> r))"
    unfolding catalog_repr_def
  proof (intro conjI allI impI)
    show "cat_codec_laws K" by (rule K)
    show "hm_wf (ct_collections c')" using catalog_reprD(2) [OF R] by (simp add: c')
    show "\<exists>u s. k = uuid_to_string K u \<and> (M(?u \<mapsto> r)) u = Some s \<and> dec_record K b = Some s"
      if kb: "map_of (ct_collections c') k = Some b" for k b
    proof (cases "k = uuid_to_string K ?u")
      case True
      then show ?thesis using kb dec by (auto simp: c')
    next
      case False
      then obtain u s where "k = uuid_to_string K u" "M u = Some s" "dec_record K b = Some s"
        using kb catalog_reprD(3) [OF R, of k b] by (auto simp: c')
      then show ?thesis using False by (intro exI [of _ u] exI [of _ s]) auto
    qed
    fix u s assume s: "(M(?u \<mapsto> r)) u = Some s"
    show "cc_id (cr_config s) = u" using s catalog_reprD(4) [OF R, of u s] by (auto simp: r split: if_splits)
    show "map_of (ct_collections c') (uuid_to_string K u) \<noteq> None"
      using s catalog_reprD(5) [OF R, of u s] by (auto simp: c' split: if_splits)
    show "map_of (ct_by_name c') (name_key (cr_config s)) \<noteq> None"
      using s catalog_reprD(7) [OF R, of u s] by (auto simp: c' r split: if_splits)
  next
    show "\<exists>u s. (M(?u \<mapsto> r)) u = Some s \<and> name_key (cr_config s) = nk \<and> dec_string K b = Some (uuid_to_string K u)"
      if kb: "map_of (ct_by_name c') nk = Some b" for nk b
    proof (cases "nk = name_key cfg")
      case True
      then show ?thesis using kb dec by (auto simp: c' r)
    next
      case False
      then obtain u s where "M u = Some s" "name_key (cr_config s) = nk" "dec_string K b = Some (uuid_to_string K u)"
        using kb catalog_reprD(6) [OF R, of nk b] by (auto simp: c')
      then show ?thesis using fresh by (intro exI [of _ u] exI [of _ s]) auto
    qed
    fix u v s t assume "(M(?u \<mapsto> r)) u = Some s" "(M(?u \<mapsto> r)) v = Some t" "name_key (cr_config s) = name_key (cr_config t)"
    then show "u = v"
      using names [of u s] names [of v t] catalog_reprD(8) [OF R, of u s v t] by (auto simp: r split: if_splits)
  qed
  with r names show ?thesis by blast
qed

lemma catalog_delete_repr:
  assumes R: "catalog_repr K c M"
  shows "case M u of
      None \<Rightarrow> catalog_delete K u c = Inl CatNotFound
    | Some r \<Rightarrow> \<exists>c'. catalog_delete K u c = Inr c' \<and> catalog_repr K c' (M(u := None))"
proof (cases "M u")
  case None
  then show ?thesis
    using collections_lookup [OF R, of u] by (auto simp: catalog_delete_def split: option.splits)
next
  case (Some r)
  note K = catalog_reprD(1) [OF R] and inj = uuid_string_inj [OF catalog_reprD(1) [OF R]]
  obtain b where b: "map_of (ct_collections c) (uuid_to_string K u) = Some b" "dec_record K b = Some r"
    using collections_lookup [OF R, of u] Some by (auto split: option.splits)
  let ?c = "c\<lparr>ct_collections := AList.delete (uuid_to_string K u) (ct_collections c),
    ct_by_name := AList.delete (name_key (cr_config r)) (ct_by_name c)\<rparr>"
  have del: "catalog_delete K u c = Inr ?c"
    using b by (simp add: catalog_delete_def decode_as_def)
  have other: "name_key (cr_config s) \<noteq> name_key (cr_config r)" if "M v = Some s" "v \<noteq> u" for v s
    using catalog_reprD(8) [OF R that(1) Some] that(2) by auto
  have "catalog_repr K ?c (M(u := None))"
    unfolding catalog_repr_def
  proof (intro conjI allI impI)
    show "cat_codec_laws K" by (rule K)
    show "hm_wf (ct_collections ?c)" using catalog_reprD(2) [OF R] by simp
    show "\<exists>v s. k = uuid_to_string K v \<and> (M(u := None)) v = Some s \<and> dec_record K b = Some s"
      if "map_of (ct_collections ?c) k = Some b" for k b
      using that catalog_reprD(3) [OF R, of k b] by (auto split: if_splits)
    show "\<exists>v s. (M(u := None)) v = Some s \<and> name_key (cr_config s) = nk \<and> dec_string K b = Some (uuid_to_string K v)"
      if nk: "map_of (ct_by_name ?c) nk = Some b" for nk b
    proof -
      obtain v s where "M v = Some s" "name_key (cr_config s) = nk" "dec_string K b = Some (uuid_to_string K v)"
        using nk catalog_reprD(6) [OF R, of nk b] by (auto split: if_splits)
      moreover have "v \<noteq> u" using calculation nk Some by (auto split: if_splits)
      ultimately show ?thesis by auto
    qed
    fix v s assume s: "(M(u := None)) v = Some s"
    then have v: "M v = Some s" "v \<noteq> u" by (auto split: if_splits)
    show "cc_id (cr_config s) = v" using catalog_reprD(4) [OF R v(1)] .
    show "map_of (ct_collections ?c) (uuid_to_string K v) \<noteq> None"
      using catalog_reprD(5) [OF R v(1)] v(2) inj by simp
    show "map_of (ct_by_name ?c) (name_key (cr_config s)) \<noteq> None"
      using catalog_reprD(7) [OF R v(1)] other [OF v] by simp
  next
    fix v w s t assume "(M(u := None)) v = Some s" "(M(u := None)) w = Some t" "name_key (cr_config s) = name_key (cr_config t)"
    then show "v = w" using catalog_reprD(8) [OF R, of v s w t] by (auto split: if_splits)
  qed
  with del Some show ?thesis by simp
qed

lemma modify_record_repr:
  assumes R: "catalog_repr K c M" and keep: "\<And>r. name_key (cr_config (f r)) = name_key (cr_config r) \<and> cc_id (cr_config (f r)) = cc_id (cr_config r)"
    and ok: "modify_record K u f c = Inr c'"
  shows "\<exists>r. M u = Some r \<and> catalog_repr K c' (M(u \<mapsto> f r))"
proof -
  note K = catalog_reprD(1) [OF R] and inj = uuid_string_inj [OF catalog_reprD(1) [OF R]]
  obtain b r b' where b: "map_of (ct_collections c) (uuid_to_string K u) = Some b" "dec_record K b = Some r" and
    b': "enc_record K (f r) = Some b'" and
    c': "c' = c\<lparr>ct_collections := AList.update (uuid_to_string K u) b' (ct_collections c)\<rparr>"
    using ok by (auto simp: modify_record_def Let_def decode_as_def encode_as_def and_then_Inr_iff split: option.splits)
  have r: "M u = Some r" using collections_lookup [OF R, of u] b by simp
  have dec: "dec_record K b' = Some (f r)" using K b' by (simp add: cat_codec_laws_def)
  have key: "name_key (cr_config s) = name_key (cr_config s')"
    if "(M(u \<mapsto> f r)) v = Some s" "M v = Some s'" for v s s'
    using that keep r by (auto split: if_splits)
  have dom: "\<exists>s'. M v = Some s'" if "(M(u \<mapsto> f r)) v = Some s" for v s
    using that r by (auto split: if_splits)
  have "catalog_repr K c' (M(u \<mapsto> f r))"
    unfolding catalog_repr_def
  proof (intro conjI allI impI)
    show "cat_codec_laws K" by (rule K)
    show "hm_wf (ct_collections c')" using catalog_reprD(2) [OF R] by (simp add: c')
    show "\<exists>v s. k = uuid_to_string K v \<and> (M(u \<mapsto> f r)) v = Some s \<and> dec_record K b = Some s"
      if "map_of (ct_collections c') k = Some b" for k b
      using that catalog_reprD(3) [OF R, of k b] dec by (auto simp: c' split: if_splits)
    show "\<exists>v s. (M(u \<mapsto> f r)) v = Some s \<and> name_key (cr_config s) = nk \<and> dec_string K b = Some (uuid_to_string K v)"
      if nk: "map_of (ct_by_name c') nk = Some b" for nk b
    proof -
      obtain v s where "M v = Some s" "name_key (cr_config s) = nk" "dec_string K b = Some (uuid_to_string K v)"
        using nk catalog_reprD(6) [OF R, of nk b] by (auto simp: c')
      then show ?thesis using keep [of s] r by (cases "v = u") auto
    qed
    fix v s assume s: "(M(u \<mapsto> f r)) v = Some s"
    obtain s' where s': "M v = Some s'" using dom [OF s] by blast
    show "cc_id (cr_config s) = v" using s s' keep catalog_reprD(4) [OF R s'] r by (auto split: if_splits)
    show "map_of (ct_collections c') (uuid_to_string K v) \<noteq> None"
      using catalog_reprD(5) [OF R s'] by (simp add: c')
    show "map_of (ct_by_name c') (name_key (cr_config s)) \<noteq> None"
      using catalog_reprD(7) [OF R s'] key [OF s s'] by (simp add: c')
  next
    fix v w s t assume a: "(M(u \<mapsto> f r)) v = Some s" "(M(u \<mapsto> f r)) w = Some t" "name_key (cr_config s) = name_key (cr_config t)"
    obtain s' t' where "M v = Some s'" "M w = Some t'" using dom a by blast
    then show "v = w" using catalog_reprD(8) [OF R, of v s' w t'] key [OF a(1)] key [OF a(2)] a(3) by simp
  qed
  with r show ?thesis by blast
qed

lemma modify_record_missing:
  assumes "catalog_repr K c M" "M u = None" shows "modify_record K u f c = Inl CatNotFound"
  using collections_lookup [OF assms(1), of u] assms(2) by (auto simp: modify_record_def split: option.splits)

section \<open>The contract of the trait\<close>

locale catalog_store =
  fixes repr :: "'c \<Rightarrow> (uuid \<rightharpoonup> collection_record) \<Rightarrow> bool"
    and create :: "collection_config \<Rightarrow> 'c \<Rightarrow> catalog_error + 'c \<times> collection_record"
    and get_by_id :: "uuid \<Rightarrow> 'c \<Rightarrow> catalog_error + collection_record option"
    and get :: "string \<Rightarrow> string \<Rightarrow> string \<Rightarrow> 'c \<Rightarrow> catalog_error + collection_record option"
    and list_all_records :: "'c \<Rightarrow> catalog_error + collection_record list"
    and delete :: "uuid \<Rightarrow> 'c \<Rightarrow> catalog_error + 'c"
    and advance :: "uuid \<Rightarrow> u64 \<Rightarrow> 'c \<Rightarrow> catalog_error + 'c"
  assumes create_ok: "repr c M \<Longrightarrow> M (cc_id cfg) = None \<Longrightarrow> create cfg c = Inr (c', r) \<Longrightarrow>
      r = \<lparr>cr_config = cfg, cr_max_seq_id = 0, cr_total_elements = 0\<rparr> \<and>
      (\<forall>u s. M u = Some s \<longrightarrow> name_key (cr_config s) \<noteq> name_key cfg) \<and> repr c' (M(cc_id cfg \<mapsto> r))"
    and get_by_id_eq: "repr c M \<Longrightarrow> get_by_id u c = Inr (M u)"
    and get_iff: "repr c M \<Longrightarrow> get t d n c = Inr x \<longleftrightarrow>
      (case x of Some r \<Rightarrow> \<exists>u. M u = Some r \<and> name_key (cr_config r) = (t, d, n)
               | None \<Rightarrow> \<forall>u r. M u = Some r \<longrightarrow> name_key (cr_config r) \<noteq> (t, d, n))"
    and list_ok: "repr c M \<Longrightarrow> \<exists>rs. list_all_records c = Inr rs \<and> set rs = ran M"
    and delete_missing: "repr c M \<Longrightarrow> M u = None \<Longrightarrow> delete u c = Inl CatNotFound"
    and delete_ok: "repr c M \<Longrightarrow> M u = Some r \<Longrightarrow> \<exists>c'. delete u c = Inr c' \<and> repr c' (M(u := None))"
    and advance_ok: "repr c M \<Longrightarrow> advance u seq c = Inr c' \<Longrightarrow>
      \<exists>r. M u = Some r \<and> repr c' (M(u \<mapsto> r\<lparr>cr_max_seq_id := max (cr_max_seq_id r) seq\<rparr>))"
begin

lemma created_is_found:
  assumes "repr c M" "M (cc_id cfg) = None" "create cfg c = Inr (c', r)"
  shows "get_by_id (cc_id cfg) c' = Inr (Some r)"
    "get (cc_tenant cfg) (cc_database cfg) (cc_name cfg) c' = Inr (Some r)"
    "u \<noteq> cc_id cfg \<Longrightarrow> get_by_id u c' = get_by_id u c"
proof -
  note ok = create_ok [OF assms]
  have R: "repr c' (M(cc_id cfg \<mapsto> r))" using ok by blast
  show "get_by_id (cc_id cfg) c' = Inr (Some r)" using get_by_id_eq [OF R] by simp
  show "get (cc_tenant cfg) (cc_database cfg) (cc_name cfg) c' = Inr (Some r)"
    using ok by (auto simp: get_iff [OF R] name_key_def)
  show "u \<noteq> cc_id cfg \<Longrightarrow> get_by_id u c' = get_by_id u c"
    using get_by_id_eq [OF R] get_by_id_eq [OF assms(1)] by simp
qed

text \<open>Two registrations of a watermark, in either order, leave the greater one.\<close>

lemma advance_twice:
  assumes "repr c M" "advance u a c = Inr c1" "advance u b c1 = Inr c2"
  shows "\<exists>r. M u = Some r \<and> repr c2 (M(u \<mapsto> r\<lparr>cr_max_seq_id := max (cr_max_seq_id r) (max a b)\<rparr>))"
proof -
  obtain r where r: "M u = Some r" and R: "repr c1 (M(u \<mapsto> r\<lparr>cr_max_seq_id := max (cr_max_seq_id r) a\<rparr>))"
    using advance_ok [OF assms(1,2)] by blast
  from advance_ok [OF R assms(3)] r show ?thesis by (auto simp: max.assoc)
qed

end

interpretation redb: catalog_store "catalog_repr K" "catalog_create K" "catalog_get_by_id K" "catalog_get K"
  "catalog_list_all K" "catalog_delete K" "advance_log_offset K" for K
proof
  fix c M cfg c' r u t d n x seq
  assume R: "catalog_repr K c M"
  show "M (cc_id cfg) = None \<Longrightarrow> catalog_create K cfg c = Inr (c', r) \<Longrightarrow>
      r = \<lparr>cr_config = cfg, cr_max_seq_id = 0, cr_total_elements = 0\<rparr> \<and>
      (\<forall>u s. M u = Some s \<longrightarrow> name_key (cr_config s) \<noteq> name_key cfg) \<and> catalog_repr K c' (M(cc_id cfg \<mapsto> r))"
    by (rule catalog_create_repr [OF R])
  show "catalog_get_by_id K u c = Inr (M u)" by (rule catalog_get_by_id_repr [OF R])
  show "catalog_get K t d n c = Inr x \<longleftrightarrow>
      (case x of Some r \<Rightarrow> \<exists>u. M u = Some r \<and> name_key (cr_config r) = (t, d, n)
               | None \<Rightarrow> \<forall>u r. M u = Some r \<longrightarrow> name_key (cr_config r) \<noteq> (t, d, n))"
    using catalog_get_repr [OF R, of t d n]
  proof (elim disjE exE conjE)
    fix v s assume s: "M v = Some s" "name_key (cr_config s) = (t, d, n)" "catalog_get K t d n c = Inr (Some s)"
    have uniq: "s' = s" if "M w = Some s'" "name_key (cr_config s') = (t, d, n)" for w s'
      using catalog_reprD(8) [OF R that(1) s(1)] that s by simp
    have "Some s = x \<longleftrightarrow> (\<exists>u. M u = Some r \<and> name_key (cr_config r) = (t, d, n))" if "x = Some r" for r
      using s uniq [of _ r] that by blast
    moreover have "\<not> (\<forall>u r. M u = Some r \<longrightarrow> name_key (cr_config r) \<noteq> (t, d, n))" using s by blast
    ultimately show ?thesis using s(3) by (cases x) simp_all
  next
    assume "\<forall>u r. M u = Some r \<longrightarrow> name_key (cr_config r) \<noteq> (t, d, n)" "catalog_get K t d n c = Inr None"
    then show ?thesis by (cases x) auto
  qed
  show "\<exists>rs. catalog_list_all K c = Inr rs \<and> set rs = ran M" by (rule catalog_list_all_repr [OF R])
  show "M u = None \<Longrightarrow> catalog_delete K u c = Inl CatNotFound"
    using catalog_delete_repr [OF R, of u] by simp
  show "M u = Some r \<Longrightarrow> \<exists>c'. catalog_delete K u c = Inr c' \<and> catalog_repr K c' (M(u := None))"
    using catalog_delete_repr [OF R, of u] by simp
  show "advance_log_offset K u seq c = Inr c' \<Longrightarrow>
      \<exists>r. M u = Some r \<and> catalog_repr K c' (M(u \<mapsto> r\<lparr>cr_max_seq_id := max (cr_max_seq_id r) seq\<rparr>))"
    unfolding advance_log_offset_def by (rule modify_record_repr [OF R]) (simp_all add: name_key_def)
qed

section \<open>Properties\<close>

text \<open>A codec for the witnesses that encodes three records.\<close>

definition demo_config :: collection_config where
  "demo_config = collection_config_new 7 0 ''docs'' 1 L2"

definition demo_record :: "u64 \<Rightarrow> collection_record" where
  "demo_record n = \<lparr>cr_config = demo_config, cr_max_seq_id = n, cr_total_elements = 0\<rparr>"

definition bytes_of_string :: "string \<Rightarrow> bytes" where
  "bytes_of_string s = map (\<lambda>c. of_nat (of_char c)) s"

definition string_of_bytes :: "bytes \<Rightarrow> string" where
  "string_of_bytes b = map (\<lambda>w. char_of (unat w)) b"

definition demo_cat_codec :: cat_codec where
  "demo_cat_codec =
     \<lparr>enc_record = (\<lambda>r. if r = demo_record 0 then Some [0] else if r = demo_record 5 then Some [5]
                         else if r = demo_record 9 then Some [9] else None),
      dec_record = (\<lambda>b. if b = [0] then Some (demo_record 0) else if b = [5] then Some (demo_record 5)
                         else if b = [9] then Some (demo_record 9) else None),
      enc_string = (\<lambda>s. Some (bytes_of_string s)), dec_string = (\<lambda>b. Some (string_of_bytes b)),
      uuid_to_string = (\<lambda>u. string_of_bytes (le_bytes 16 (unat u))),
      uuid_parse = (\<lambda>s. Some (of_nat (le_nat (bytes_of_string s))))\<rparr>"

lemma string_bytes_roundtrip [simp]:
  "string_of_bytes (bytes_of_string s) = s" "bytes_of_string (string_of_bytes b) = b"
proof -
  have "char_of (unat (of_nat (of_char c) :: byte)) = c" for c
    by (simp add: unat_of_nat)
  then show "string_of_bytes (bytes_of_string s) = s"
    by (simp add: string_of_bytes_def bytes_of_string_def comp_def)
  have "(of_nat (of_char (char_of (unat w) :: char)) :: byte) = w" for w
    using unat_byte_lt [of w] by simp
  then show "bytes_of_string (string_of_bytes b) = b"
    by (simp add: string_of_bytes_def bytes_of_string_def comp_def)
qed

lemma demo_cat_codec_laws: "cat_codec_laws demo_cat_codec"
proof -
  have "(of_nat (le_nat (le_bytes 16 (unat u))) :: uuid) = u" for u
    using unat_mod_id [of u] by (simp add: le_nat_le_bytes)
  moreover have "demo_record 0 \<noteq> demo_record 5" "demo_record 0 \<noteq> demo_record 9" "demo_record 5 \<noteq> demo_record 9"
    by (simp_all add: demo_record_def)
  ultimately show ?thesis
    by (simp add: cat_codec_laws_def demo_cat_codec_def)
qed

lemma ensure_tables_repr: "cat_codec_laws K \<Longrightarrow> catalog_repr K ensure_tables Map.empty"
  by (simp add: catalog_repr_def ensure_tables_def)

lemma demo_create: "\<exists>c. catalog_create demo_cat_codec demo_config ensure_tables = Inr (c, demo_record 0)"
  by (simp add: catalog_create_def Let_def encode_as_def demo_cat_codec_def ensure_tables_def demo_record_def
      demo_config_def collection_config_new_def)

text \<open>C22: The catalog is a consistent name index. A collection created under a fresh id is found by id and
  by name, no other collection's record changes, its name was free before and is refused from then
  on; deleting it removes both entries and frees the name.\<close>

theorem catalog_create_delete:
  assumes "catalog_repr K c M" "M (cc_id cfg) = None" "catalog_create K cfg c = Inr (c', r)"
  shows "catalog_get_by_id K (cc_id cfg) c' = Inr (Some r) \<and>
    catalog_get K (cc_tenant cfg) (cc_database cfg) (cc_name cfg) c' = Inr (Some r) \<and>
    (\<forall>u. u \<noteq> cc_id cfg \<longrightarrow> catalog_get_by_id K u c' = catalog_get_by_id K u c) \<and>
    catalog_get K (cc_tenant cfg) (cc_database cfg) (cc_name cfg) c = Inr None \<and>
    (\<exists>c''. catalog_delete K (cc_id cfg) c' = Inr c'' \<and> catalog_repr K c'' M \<and>
       catalog_get_by_id K (cc_id cfg) c'' = Inr None \<and>
       catalog_get K (cc_tenant cfg) (cc_database cfg) (cc_name cfg) c'' = Inr None)"
proof -
  note ok = redb.create_ok [OF assms]
  have R': "catalog_repr K c' (M(cc_id cfg \<mapsto> r))" using ok by blast
  have undo: "(M(cc_id cfg \<mapsto> r))(cc_id cfg := None) = M" using assms(2) by auto
  obtain c'' where del: "catalog_delete K (cc_id cfg) c' = Inr c''" "catalog_repr K c'' M"
    using redb.delete_ok [OF R', of "cc_id cfg" r] undo by auto
  have free: "catalog_get K (cc_tenant cfg) (cc_database cfg) (cc_name cfg) x = Inr None"
    if "catalog_repr K x M" for x
    using ok redb.get_iff [OF that] by (simp add: name_key_def)
  show ?thesis
    using redb.created_is_found [OF assms] free [OF assms(1)] free [OF del(2)] del
      redb.get_by_id_eq [OF del(2)] assms(2) by auto
qed

lemma catalog_create_delete_witness:
  "\<exists>c. catalog_create demo_cat_codec demo_config ensure_tables = Inr (c, demo_record 0) \<and>
     catalog_get demo_cat_codec ''default_tenant'' ''default_database'' ''docs'' c = Inr (Some (demo_record 0))"
proof -
  obtain c where c: "catalog_create demo_cat_codec demo_config ensure_tables = Inr (c, demo_record 0)"
    using demo_create by blast
  from catalog_create_delete [OF ensure_tables_repr [OF demo_cat_codec_laws] _ c] show ?thesis
    using c by (simp add: demo_config_def collection_config_new_def)
qed

text \<open>The compaction watermark only moves forward. After registering two offsets in any order the
  stored one is the maximum of both and the old one, whatever else the record holds is unchanged,
  and so are all other records.\<close>

theorem catalog_watermark_monotone:
  assumes "catalog_repr K c M" "advance_log_offset K u a c = Inr c1" "advance_log_offset K u b c1 = Inr c2"
  shows "\<exists>r. catalog_get_by_id K u c = Inr (Some r) \<and>
    catalog_get_by_id K u c2 = Inr (Some (r\<lparr>cr_max_seq_id := max (cr_max_seq_id r) (max a b)\<rparr>)) \<and>
    (\<forall>v. v \<noteq> u \<longrightarrow> catalog_get_by_id K v c2 = catalog_get_by_id K v c)"
proof -
  obtain r where r: "M u = Some r" and
    R: "catalog_repr K c2 (M(u \<mapsto> r\<lparr>cr_max_seq_id := max (cr_max_seq_id r) (max a b)\<rparr>))"
    using redb.advance_twice [OF assms] by blast
  show ?thesis using r redb.get_by_id_eq [OF assms(1)] redb.get_by_id_eq [OF R] by auto
qed

lemma demo_catalog:
  assumes "catalog_create demo_cat_codec demo_config ensure_tables = Inr (c, demo_record 0)"
  shows "catalog_repr demo_cat_codec c [7 \<mapsto> demo_record 0]"
proof -
  have "catalog_repr demo_cat_codec c [cc_id demo_config \<mapsto> demo_record 0]"
    using redb.create_ok [OF ensure_tables_repr [OF demo_cat_codec_laws] _ assms] by blast
  then show ?thesis by (simp add: demo_config_def collection_config_new_def)
qed

lemma demo_advance:
  assumes R: "catalog_repr demo_cat_codec c [7 \<mapsto> demo_record m]" and mn: "max m n \<in> {5, 9}"
  shows "\<exists>c'. advance_log_offset demo_cat_codec 7 n c = Inr c' \<and> catalog_repr demo_cat_codec c' [7 \<mapsto> demo_record (max m n)]"
proof -
  obtain b where "map_of (ct_collections c) (uuid_to_string demo_cat_codec 7) = Some b"
    "dec_record demo_cat_codec b = Some (demo_record m)"
    using collections_lookup [OF R, of 7] by (auto split: option.splits)
  moreover have "enc_record demo_cat_codec (demo_record m\<lparr>cr_max_seq_id := max m n\<rparr>) \<noteq> None"
    using mn by (auto simp: demo_cat_codec_def demo_record_def)
  ultimately obtain c' where "advance_log_offset demo_cat_codec 7 n c = Inr c'"
    by (auto simp: advance_log_offset_def modify_record_def decode_as_def encode_as_def demo_record_def
        split: option.split)
  with redb.advance_ok [OF R this] show ?thesis by (auto simp: demo_record_def)
qed

lemma demo_catalog_advanced: "\<exists>c. catalog_repr demo_cat_codec c [7 \<mapsto> demo_record 9]"
proof -
  obtain c where "catalog_create demo_cat_codec demo_config ensure_tables = Inr (c, demo_record 0)"
    using demo_create by blast
  from demo_advance [OF demo_catalog [OF this], of 9] show ?thesis by auto
qed

lemma catalog_watermark_monotone_witness:
  "\<exists>c c1 c2. catalog_create demo_cat_codec demo_config ensure_tables = Inr (c, demo_record 0) \<and>
     advance_log_offset demo_cat_codec 7 9 c = Inr c1 \<and> advance_log_offset demo_cat_codec 7 5 c1 = Inr c2 \<and>
     catalog_get_by_id demo_cat_codec 7 c2 = Inr (Some (demo_record 9))"
proof -
  obtain c where c: "catalog_create demo_cat_codec demo_config ensure_tables = Inr (c, demo_record 0)"
    using demo_create by blast
  note R = demo_catalog [OF c]
  obtain c1 where c1: "advance_log_offset demo_cat_codec 7 9 c = Inr c1" "catalog_repr demo_cat_codec c1 [7 \<mapsto> demo_record 9]"
    using demo_advance [OF R, of 9] by auto
  obtain c2 where c2: "advance_log_offset demo_cat_codec 7 5 c1 = Inr c2"
    using demo_advance [OF c1(2), of 5] by auto
  from catalog_watermark_monotone [OF R c1(1) c2] show ?thesis
    using c c1 c2 redb.get_by_id_eq [OF R, of 7] by (auto simp: demo_record_def)
qed

end
