(* ===== verification/Local_Storage.thy ===== *)
theory Local_Storage
  imports Core_Types
begin

text \<open>
  The object store of \<^verbatim>\<open>crates/rekha-storage/src/storage.rs\<close> and \<^verbatim>\<open>local_storage.rs\<close>: key
  sanitization, atomic put through a temporary file, get, list, delete and exists over a
  directory tree. The tree below the root is the record \<open>store_fs\<close>: files and directories by
  their path segments. The trait is the locale \<open>object_store\<close>.
\<close>

datatype storage_error = StorageIo | InvalidKey string | ObjectNotFound string

definition TMP_SUFFIX :: string where "TMP_SUFFIX = ''.tmp-''"

type_synonym path = "string list"

record store_fs =
  sf_files :: "(path \<times> bytes) list"
  sf_dirs :: "path list"

section \<open>Keys\<close>

definition safe_segment :: "string \<Rightarrow> bool" where
  "safe_segment s \<longleftrightarrow>
     s \<noteq> [] \<and> s \<noteq> ''.'' \<and> s \<noteq> ''..'' \<and> CHR 0x5C \<notin> set s \<and> CHR 0x00 \<notin> set s"

definition sanitize_key :: "string \<Rightarrow> storage_error + path" where
  "sanitize_key key =
     (if key = [] \<or> starts_with ''/'' key then Inl (InvalidKey key)
      else (let parts = split_on CHR ''/'' key in
            if list_all safe_segment parts then Inr parts else Inl (InvalidKey key)))"

definition key_of_path :: "path \<Rightarrow> string" where
  "key_of_path p = join_with ''/'' p"

section \<open>The tree\<close>

definition strict_prefixes :: "path \<Rightarrow> path list" where
  "strict_prefixes p = map (\<lambda>n. take n p) [0 ..< length p]"

text \<open>A path below a regular file cannot be resolved (\<^verbatim>\<open>ENOTDIR\<close>).\<close>

definition blocked :: "store_fs \<Rightarrow> path \<Rightarrow> bool" where
  "blocked fs p = list_ex (\<lambda>q. map_of (sf_files fs) q \<noteq> None) (strict_prefixes p)"

definition is_dir :: "store_fs \<Rightarrow> path \<Rightarrow> bool" where
  "is_dir fs p = (p \<in> set (sf_dirs fs))"

definition is_file :: "store_fs \<Rightarrow> path \<Rightarrow> bool" where
  "is_file fs p = (map_of (sf_files fs) p \<noteq> None)"

definition create_dir_all :: "path \<Rightarrow> store_fs \<Rightarrow> store_fs option" where
  "create_dir_all p fs =
     (if blocked fs p \<or> is_file fs p then None
      else Some (fs\<lparr>sf_dirs := sf_dirs fs @ filter (\<lambda>d. d \<notin> set (sf_dirs fs)) (strict_prefixes p @ [p])\<rparr>))"

section \<open>Operations\<close>

text \<open>The temporary name, from the process id and the counter's value.\<close>

definition tmp_path :: "nat \<Rightarrow> nat \<Rightarrow> path \<Rightarrow> path" where
  "tmp_path pid nonce p =
     butlast p @ [last p @ TMP_SUFFIX @ nat_to_string pid @ ''-'' @ nat_to_string nonce]"

definition storage_put ::
  "nat \<Rightarrow> nat \<Rightarrow> string \<Rightarrow> bytes \<Rightarrow> store_fs \<Rightarrow> store_fs \<times> (storage_error + unit)" where
  "storage_put pid nonce key b fs =
     (case sanitize_key key of
        Inl e \<Rightarrow> (fs, Inl e)
      | Inr full \<Rightarrow>
          (case create_dir_all (butlast full) fs of
             None \<Rightarrow> (fs, Inl StorageIo)
           | Some fs1 \<Rightarrow>
               (let tmp = tmp_path pid nonce full in
                if is_dir fs1 tmp then (fs1, Inl StorageIo)
                else
                  (let fs2 = fs1\<lparr>sf_files := AList.update tmp b (sf_files fs1)\<rparr> in
                   if is_dir fs2 full then (fs2, Inl StorageIo)
                   else (fs2\<lparr>sf_files := AList.update full b (AList.delete tmp (sf_files fs2))\<rparr>, Inr ())))))"

definition storage_get :: "string \<Rightarrow> store_fs \<Rightarrow> storage_error + bytes option" where
  "storage_get key fs =
     and_then (sanitize_key key) (\<lambda>full.
       if blocked fs full \<or> is_dir fs full then Inl StorageIo else Inr (map_of (sf_files fs) full))"

definition walk :: "store_fs \<Rightarrow> path \<Rightarrow> string list" where
  "walk fs dir =
     map (\<lambda>(p, b). key_of_path p)
       (filter (\<lambda>(p, b). length dir < length p \<and> take (length dir) p = dir \<and> \<not> contains_str TMP_SUFFIX (last p))
          (sf_files fs))"

definition storage_list :: "string \<Rightarrow> store_fs \<Rightarrow> storage_error + string list" where
  "storage_list prefix fs =
     (let trimmed = trim_end_char CHR ''/'' prefix in
      and_then (if trimmed = [] then Inr [] else sanitize_key trimmed) (\<lambda>dir.
        if is_file fs dir then Inr [trimmed]
        else if blocked fs dir then Inl StorageIo
        else Inr (sort_by (\<lambda>a b. str_less b a) (walk fs dir))))"

definition storage_delete :: "string \<Rightarrow> store_fs \<Rightarrow> store_fs \<times> (storage_error + unit)" where
  "storage_delete key fs =
     (case sanitize_key key of
        Inl e \<Rightarrow> (fs, Inl e)
      | Inr full \<Rightarrow>
          if blocked fs full \<or> is_dir fs full then (fs, Inl StorageIo)
          else if map_of (sf_files fs) full = None then (fs, Inl (ObjectNotFound key))
          else (fs\<lparr>sf_files := AList.delete full (sf_files fs)\<rparr>, Inr ()))"

definition storage_exists :: "string \<Rightarrow> store_fs \<Rightarrow> storage_error + bool" where
  "storage_exists key fs = and_then (sanitize_key key) (\<lambda>full. Inr (is_file fs full))"

section \<open>Sanitization\<close>

lemma safe_no_slash: "sanitize_key key = Inr ps \<Longrightarrow> p \<in> set ps \<Longrightarrow> safe_segment p \<and> CHR ''/'' \<notin> set p"
  by (auto simp: sanitize_key_def Let_def list_all_iff split_on_parts split: if_splits)

lemma starts_with_split: "split_on c s = p # ps \<Longrightarrow> starts_with [c] s \<Longrightarrow> p = []"
  by (cases s) auto

lemma sanitize_key_iff:
  "sanitize_key key = Inr ps \<longleftrightarrow>
     ps \<noteq> [] \<and> list_all (\<lambda>p. safe_segment p \<and> CHR ''/'' \<notin> set p) ps \<and> key = key_of_path ps"
proof
  assume ok: "sanitize_key key = Inr ps"
  then have "ps = split_on CHR ''/'' key" by (auto simp: sanitize_key_def Let_def split: if_splits)
  then show "ps \<noteq> [] \<and> list_all (\<lambda>p. safe_segment p \<and> CHR ''/'' \<notin> set p) ps \<and> key = key_of_path ps"
    using safe_no_slash [OF ok] by (simp add: list_all_iff key_of_path_def join_split)
next
  assume r: "ps \<noteq> [] \<and> list_all (\<lambda>p. safe_segment p \<and> CHR ''/'' \<notin> set p) ps \<and> key = key_of_path ps"
  then have s: "split_on CHR ''/'' key = ps" by (auto simp: key_of_path_def list_all_iff intro!: split_join)
  have "key \<noteq> []"
  proof
    assume "key = []"
    then have "ps = [[]]" using s by simp
    then show False using r by (simp add: safe_segment_def)
  qed
  moreover have "\<not> starts_with ''/'' key"
    using s r starts_with_split [of "CHR ''/''" key] by (cases ps) (auto simp: safe_segment_def)
  ultimately show "sanitize_key key = Inr ps"
    using s r by (auto simp: sanitize_key_def Let_def list_all_iff)
qed

lemma sanitize_key_inj: "sanitize_key k = Inr p \<Longrightarrow> sanitize_key k' = Inr p \<Longrightarrow> k = k'"
  by (simp add: sanitize_key_iff)

section \<open>The representation\<close>

definition tree_wf :: "store_fs \<Rightarrow> bool" where
  "tree_wf fs \<longleftrightarrow>
     hm_wf (sf_files fs) \<and>
     (\<forall>p. is_file fs p \<longrightarrow> \<not> is_dir fs p \<and> p \<noteq> []) \<and>
     (\<forall>p n. is_file fs p \<or> is_dir fs p \<longrightarrow> n < length p \<longrightarrow> is_dir fs (take n p))"

definition storage_repr :: "store_fs \<Rightarrow> (string \<rightharpoonup> bytes) \<Rightarrow> bool" where
  "storage_repr fs M \<longleftrightarrow> tree_wf fs \<and>
     (\<forall>key. M key = (case sanitize_key key of Inr p \<Rightarrow> map_of (sf_files fs) p | Inl _ \<Rightarrow> None))"

definition tmp_free :: "nat \<Rightarrow> nat \<Rightarrow> string \<Rightarrow> store_fs \<Rightarrow> bool" where
  "tmp_free pid nonce key fs \<longleftrightarrow> (\<forall>p. sanitize_key key = Inr p \<longrightarrow> \<not> is_file fs (tmp_path pid nonce p))"

lemma set_strict_prefixes: "q \<in> set (strict_prefixes p) \<longleftrightarrow> (\<exists>n < length p. q = take n p)"
  by (auto simp: strict_prefixes_def)

lemma blocked_iff: "blocked fs p \<longleftrightarrow> (\<exists>n < length p. is_file fs (take n p))"
  unfolding blocked_def list_ex_iff Bex_def set_strict_prefixes is_file_def by blast

lemma tree_wf_not_blocked:
  assumes "tree_wf fs" "is_file fs p \<or> is_dir fs p" shows "\<not> blocked fs p"
  using assms unfolding tree_wf_def blocked_iff by blast

lemma tree_wf_prefix:
  "tree_wf fs \<Longrightarrow> is_file fs p \<or> is_dir fs p \<Longrightarrow> n < length p \<Longrightarrow> is_dir fs (take n p)"
  unfolding tree_wf_def by blast

lemma is_dir_create:
  assumes "create_dir_all d fs = Some fs1"
  shows "is_dir fs1 p \<longleftrightarrow> is_dir fs p \<or> p = d \<or> p \<in> set (strict_prefixes d)" "sf_files fs1 = sf_files fs"
    "\<not> blocked fs d" "\<not> is_file fs d"
  using assms by (auto simp: create_dir_all_def is_dir_def split: if_splits)

lemma create_dir_all_wf:
  assumes wf: "tree_wf fs" and c: "create_dir_all d fs = Some fs1"
  shows "tree_wf fs1"
proof -
  note dir = is_dir_create [OF c]
  have f: "is_file fs1 p = is_file fs p" for p by (simp add: is_file_def dir(2))
  have pre: "\<not> is_file fs p" if "p = d \<or> p \<in> set (strict_prefixes d)" for p
    using that dir(3,4) by (auto simp: blocked_iff set_strict_prefixes)
  show ?thesis
    unfolding tree_wf_def
  proof (intro conjI allI impI)
    show "hm_wf (sf_files fs1)" using wf by (simp add: tree_wf_def dir(2))
    show "p \<noteq> []" if "is_file fs1 p" for p using wf that by (auto simp: tree_wf_def f)
    show "\<not> is_dir fs1 p" if "is_file fs1 p" for p
      using wf that pre [of p] by (auto simp: tree_wf_def f dir(1))
    show "is_dir fs1 (take n p)" if fd: "is_file fs1 p \<or> is_dir fs1 p" and n: "n < length p" for p n
    proof (cases "is_file fs p \<or> is_dir fs p")
      case True
      then show ?thesis using tree_wf_prefix [OF wf True n] by (simp add: dir(1))
    next
      case False
      then have "p = d \<or> p \<in> set (strict_prefixes d)" using fd by (simp add: f dir(1))
      then obtain m where m: "p = take m d" unfolding set_strict_prefixes by (metis take_all order_refl)
      have "take n p = take n d" "n < length d" using n by (auto simp: m min_def split: if_splits)
      then show ?thesis by (auto simp: dir(1) set_strict_prefixes)
    qed
  qed
qed

text \<open>Writing a file whose directory exists and that is not itself a directory.\<close>

lemma write_file_wf:
  assumes wf: "tree_wf fs" and p: "p \<noteq> []" "is_dir fs (butlast p)" "\<not> is_dir fs p"
  shows "tree_wf (fs\<lparr>sf_files := AList.update p b (sf_files fs)\<rparr>)"
proof -
  let ?fs = "fs\<lparr>sf_files := AList.update p b (sf_files fs)\<rparr>"
  have f: "is_file ?fs q \<longleftrightarrow> q = p \<or> is_file fs q" and d: "is_dir ?fs q = is_dir fs q" for q
    by (auto simp: is_file_def is_dir_def)
  have pre: "is_dir fs (take n p)" if "n < length p" for n
  proof (cases "n = length p - 1")
    case True
    then show ?thesis using p(2) by (simp add: butlast_conv_take)
  next
    case False
    then have "n < length (butlast p)" "take n (butlast p) = take n p" using that by (auto simp: butlast_conv_take)
    then show ?thesis using tree_wf_prefix [OF wf, of "butlast p" n] p(2) by simp
  qed
  show ?thesis using wf p pre unfolding tree_wf_def f d by auto
qed

lemma delete_file_wf: "tree_wf fs \<Longrightarrow> tree_wf (fs\<lparr>sf_files := AList.delete p (sf_files fs)\<rparr>)"
  by (auto simp: tree_wf_def is_file_def is_dir_def)

lemma tmp_path_facts:
  assumes "p \<noteq> []"
  shows "tmp_path pid nonce p \<noteq> []" "butlast (tmp_path pid nonce p) = butlast p" "tmp_path pid nonce p \<noteq> p"
proof -
  show "tmp_path pid nonce p \<noteq> []" "butlast (tmp_path pid nonce p) = butlast p" by (simp_all add: tmp_path_def)
  have "last (tmp_path pid nonce p) \<noteq> last p" by (simp add: tmp_path_def TMP_SUFFIX_def)
  then show "tmp_path pid nonce p \<noteq> p" by auto
qed

lemma sanitize_key_nonempty: "sanitize_key key = Inr p \<Longrightarrow> p \<noteq> []"
  by (simp add: sanitize_key_iff)

lemma storage_put_repr:
  assumes R: "storage_repr fs M" and free: "tmp_free pid nonce key fs"
    and ok: "storage_put pid nonce key b fs = (fs', Inr u)"
  shows "storage_repr fs' (M(key \<mapsto> b))"
proof -
  obtain full fs1 where k: "sanitize_key key = Inr full" and c: "create_dir_all (butlast full) fs = Some fs1"
    using ok by (auto simp: storage_put_def split: sum.splits option.splits)
  let ?tmp = "tmp_path pid nonce full"
  let ?fs2 = "fs1\<lparr>sf_files := AList.update ?tmp b (sf_files fs1)\<rparr>"
  have nd: "\<not> is_dir fs1 ?tmp" "\<not> is_dir ?fs2 full"
    and fs': "fs' = ?fs2\<lparr>sf_files := AList.update full b (AList.delete ?tmp (sf_files ?fs2))\<rparr>"
    using ok k c by (auto simp: storage_put_def Let_def split: if_splits)
  note ne = sanitize_key_nonempty [OF k] and t = tmp_path_facts [OF sanitize_key_nonempty [OF k], of pid nonce]
  have wf1: "tree_wf fs1" using R create_dir_all_wf [OF _ c] by (simp add: storage_repr_def)
  have dir: "is_dir fs1 (butlast full)" using is_dir_create(1) [OF c] by blast
  have wf2: "tree_wf ?fs2" using write_file_wf [OF wf1 t(1)] dir nd(1) t(2) by simp
  let ?fs3 = "?fs2\<lparr>sf_files := AList.delete ?tmp (sf_files ?fs2)\<rparr>"
  have wf3: "tree_wf ?fs3" by (rule delete_file_wf [OF wf2])
  have "tree_wf fs'"
    using write_file_wf [OF wf3 ne, of b] dir nd(2) by (simp add: fs' is_dir_def)
  moreover have "(M(key \<mapsto> b)) k' = (case sanitize_key k' of Inr p \<Rightarrow> map_of (sf_files fs') p | Inl _ \<Rightarrow> None)" for k'
  proof (cases "k' = key")
    case True
    then show ?thesis using k by (simp add: fs')
  next
    case False
    have "map_of (sf_files fs') p = map_of (sf_files fs) p" if "sanitize_key k' = Inr p" for p
    proof -
      have "p \<noteq> full" using that k False sanitize_key_inj by blast
      moreover have "map_of (sf_files fs) ?tmp = None" using free k by (simp add: tmp_free_def is_file_def)
      ultimately show ?thesis using is_dir_create(2) [OF c] by (simp add: fs')
    qed
    then show ?thesis using R False by (simp add: storage_repr_def split: sum.split)
  qed
  ultimately show ?thesis by (simp add: storage_repr_def)
qed

lemma storage_put_err:
  assumes R: "storage_repr fs M" and free: "tmp_free pid nonce key fs"
    and err: "storage_put pid nonce key b fs = (fs', Inl e)" and inv: "sanitize_key key = Inl e'"
  shows "fs' = fs \<and> e = InvalidKey key"
  using err inv by (auto simp: storage_put_def sanitize_key_def Let_def split: if_splits)

lemma storage_get_repr:
  assumes R: "storage_repr fs M"
  shows "storage_get key fs = Inr x \<Longrightarrow> x = M key" "M key = Some b \<Longrightarrow> storage_get key fs = Inr (Some b)"
proof -
  show "storage_get key fs = Inr x \<Longrightarrow> x = M key"
    using R by (auto simp: storage_get_def storage_repr_def and_then_Inr_iff split: if_splits)
  assume "M key = Some b"
  then obtain p where p: "sanitize_key key = Inr p" "map_of (sf_files fs) p = Some b"
    using R by (auto simp: storage_repr_def split: sum.splits)
  have "is_file fs p" using p by (simp add: is_file_def)
  moreover have "\<not> is_dir fs p" using R calculation by (auto simp: storage_repr_def tree_wf_def)
  ultimately show "storage_get key fs = Inr (Some b)"
    using p R tree_wf_not_blocked [of fs p] by (simp add: storage_get_def storage_repr_def)
qed

lemma storage_delete_repr:
  assumes R: "storage_repr fs M"
  shows "storage_delete key fs = (fs', Inr u) \<Longrightarrow> M key \<noteq> None \<and> storage_repr fs' (M(key := None))"
    "storage_delete key fs = (fs', Inl e) \<Longrightarrow> fs' = fs \<and> M key = None"
proof -
  assume ok: "storage_delete key fs = (fs', Inr u)"
  then obtain p where p: "sanitize_key key = Inr p" "map_of (sf_files fs) p \<noteq> None"
    and fs': "fs' = fs\<lparr>sf_files := AList.delete p (sf_files fs)\<rparr>"
    by (auto simp: storage_delete_def split: sum.splits if_splits)
  have eq: "(M(key := None)) k = (case sanitize_key k of Inr q \<Rightarrow> map_of (sf_files fs') q | Inl _ \<Rightarrow> None)" for k
  proof (cases "sanitize_key k")
    case (Inl e)
    then show ?thesis using R by (simp add: storage_repr_def)
  next
    case (Inr q)
    have "q = p \<longleftrightarrow> k = key" using Inr p(1) sanitize_key_inj [of k p key] by auto
    then show ?thesis using R Inr by (auto simp: fs' storage_repr_def)
  qed
  have "tree_wf fs'" using R delete_file_wf [of fs p] by (simp add: storage_repr_def fs')
  moreover have "M key \<noteq> None" using R p by (simp add: storage_repr_def)
  ultimately show "M key \<noteq> None \<and> storage_repr fs' (M(key := None))"
    unfolding storage_repr_def using eq by blast
next
  assume err: "storage_delete key fs = (fs', Inl e)"
  show "fs' = fs \<and> M key = None"
  proof (cases "sanitize_key key")
    case (Inl e')
    then show ?thesis using err R by (auto simp: storage_delete_def storage_repr_def)
  next
    case (Inr p)
    have "map_of (sf_files fs) p = None"
    proof (rule ccontr)
      assume "map_of (sf_files fs) p \<noteq> None"
      then have "is_file fs p" by (simp add: is_file_def)
      then have "\<not> is_dir fs p" "\<not> blocked fs p"
        using R tree_wf_not_blocked [of fs p] by (auto simp: storage_repr_def tree_wf_def)
      then show False using err Inr \<open>is_file fs p\<close> by (auto simp: storage_delete_def is_file_def)
    qed
    then show ?thesis using err Inr R by (auto simp: storage_delete_def storage_repr_def split: if_splits)
  qed
qed

section \<open>The contract of the trait\<close>

locale object_store =
  fixes repr :: "'s \<Rightarrow> (string \<rightharpoonup> bytes) \<Rightarrow> bool"
    and writable_at :: "string \<Rightarrow> 's \<Rightarrow> bool"
    and put :: "string \<Rightarrow> bytes \<Rightarrow> 's \<Rightarrow> 's \<times> (storage_error + unit)"
    and get :: "string \<Rightarrow> 's \<Rightarrow> storage_error + bytes option"
    and delete :: "string \<Rightarrow> 's \<Rightarrow> 's \<times> (storage_error + unit)"
  assumes put_ok: "repr s M \<Longrightarrow> writable_at key s \<Longrightarrow> put key b s = (s', Inr u) \<Longrightarrow> repr s' (M(key \<mapsto> b))"
    and get_sound: "repr s M \<Longrightarrow> get key s = Inr x \<Longrightarrow> x = M key"
    and get_complete: "repr s M \<Longrightarrow> M key = Some b \<Longrightarrow> get key s = Inr (Some b)"
    and delete_ok: "repr s M \<Longrightarrow> delete key s = (s', Inr u) \<Longrightarrow> M key \<noteq> None \<and> repr s' (M(key := None))"
    and delete_err: "repr s M \<Longrightarrow> delete key s = (s', Inl e) \<Longrightarrow> s' = s \<and> M key = None"
begin

lemma get_after_put:
  assumes "repr s M" "writable_at key s" "put key b s = (s', Inr u)"
  shows "get key s' = Inr (Some b)" "k \<noteq> key \<Longrightarrow> M k = Some c \<Longrightarrow> get k s' = Inr (Some c)"
  using get_complete [OF put_ok [OF assms]] by simp_all

lemma get_after_delete:
  assumes "repr s M" "delete key s = (s', Inr u)" "get key s' = Inr x"
  shows "x = None"
  using get_sound [OF conjunct2 [OF delete_ok [OF assms(1,2)]] assms(3)] by simp

lemma delete_stored:
  assumes "repr s M" "M key = Some b"
  shows "\<exists>s'. delete key s = (s', Inr ()) \<and> repr s' (M(key := None))"
proof (cases "delete key s")
  case (Pair s' r)
  then show ?thesis using delete_ok [OF assms(1), of key s'] delete_err [OF assms(1), of key s'] assms(2)
    by (cases r) auto
qed

end

interpretation local_store: object_store storage_repr "tmp_free pid nonce" "storage_put pid nonce" storage_get storage_delete
  for pid nonce
  by unfold_locales (rule storage_put_repr storage_get_repr storage_delete_repr; assumption)+

section \<open>Properties\<close>

text \<open>C28: Keys cannot escape the root. A key is accepted exactly when it is the slash-joined form of a
  non-empty list of segments that are non-empty, are neither dot nor dot-dot, and contain no slash,
  backslash or NUL; it then names the path of these segments below the root, so two keys never
  share a path.\<close>

theorem storage_keys_confined:
  "(sanitize_key key = Inr ps \<longleftrightarrow>
     ps \<noteq> [] \<and> list_all (\<lambda>p. safe_segment p \<and> CHR ''/'' \<notin> set p) ps \<and> key = key_of_path ps) \<and>
   (\<not> (\<exists>ps. sanitize_key key = Inr ps) \<longrightarrow> sanitize_key key = Inl (InvalidKey key))"
  using sanitize_key_iff [of key ps] by (auto simp: sanitize_key_def Let_def)

lemma storage_keys_confined_witness:
  "sanitize_key ''col/seg-0.bin'' = Inr [''col'', ''seg-0.bin''] \<and>
   sanitize_key ''a/../b'' = Inl (InvalidKey ''a/../b'')"
  using storage_keys_confined [of "''col/seg-0.bin''" "[''col'', ''seg-0.bin'']"]
    storage_keys_confined [of "''a/../b''"]
  by (simp add: sanitize_key_def safe_segment_def key_of_path_def)

text \<open>C29: The store refines a map. A successful put makes exactly the written object readable at its key
  and leaves every other stored object readable as it was; get never returns anything else; delete
  of a stored object succeeds and removes exactly it; a failing delete changes nothing and means
  that nothing was stored at the key.\<close>

theorem storage_refines_map:
  assumes "storage_repr fs M" "tmp_free pid nonce key fs"
  shows "(\<forall>fs'. storage_put pid nonce key b fs = (fs', Inr ()) \<longrightarrow>
       storage_repr fs' (M(key \<mapsto> b)) \<and> storage_get key fs' = Inr (Some b) \<and>
       (\<forall>k c. k \<noteq> key \<longrightarrow> M k = Some c \<longrightarrow> storage_get k fs' = Inr (Some c))) \<and>
    (\<forall>k x. storage_get k fs = Inr x \<longrightarrow> x = M k) \<and>
    (\<forall>k c. M k = Some c \<longrightarrow> (\<exists>fs'. storage_delete k fs = (fs', Inr ()) \<and> storage_repr fs' (M(k := None)))) \<and>
    (\<forall>k fs' e. storage_delete k fs = (fs', Inl e) \<longrightarrow> fs' = fs \<and> M k = None)"
  using local_store.put_ok [OF assms] local_store.get_after_put [OF assms]
    local_store.get_sound [OF assms(1)] local_store.delete_stored [OF assms(1)] local_store.delete_err [OF assms(1)]
  by blast

definition demo_fs :: store_fs where
  "demo_fs = \<lparr>sf_files = [([''a'', ''b''], [1])], sf_dirs = [[], [''a'']]\<rparr>"

lemma demo_fs_repr: "storage_repr demo_fs [''a/b'' \<mapsto> [1]]"
proof -
  have "tree_wf demo_fs"
  proof -
    have f: "is_file demo_fs p \<longleftrightarrow> p = [''a'', ''b'']" and d: "is_dir demo_fs p \<longleftrightarrow> p = [] \<or> p = [''a'']" for p
      by (simp_all add: demo_fs_def is_file_def is_dir_def)
    show ?thesis unfolding tree_wf_def f d by (auto simp: demo_fs_def hm_wf_def less_Suc_eq numeral_2_eq_2)
  qed
  moreover have "sanitize_key k = Inr [''a'', ''b''] \<longleftrightarrow> k = ''a/b''" for k
    by (simp add: sanitize_key_iff key_of_path_def safe_segment_def)
  moreover have "[''a/b'' \<mapsto> [1]] k = (case sanitize_key k of Inr p \<Rightarrow> map_of (sf_files demo_fs) p | Inl _ \<Rightarrow> None)" for k
    using calculation(2) [of k] by (cases "sanitize_key k") (auto simp: demo_fs_def)
  ultimately show ?thesis unfolding storage_repr_def by blast
qed

lemma storage_refines_map_witness:
  "\<exists>fs'. storage_put 1 2 ''a/c'' [9] demo_fs = (fs', Inr ()) \<and>
     storage_get ''a/c'' fs' = Inr (Some [9]) \<and> storage_get ''a/b'' fs' = Inr (Some [1])"
proof -
  have k: "sanitize_key ''a/c'' = Inr [''a'', ''c'']"
    by (simp add: sanitize_key_iff key_of_path_def safe_segment_def)
  have free: "tmp_free 1 2 ''a/c'' demo_fs"
    by (simp add: tmp_free_def k tmp_path_def is_file_def demo_fs_def TMP_SUFFIX_def)
  obtain fs' where put: "storage_put 1 2 ''a/c'' [9] demo_fs = (fs', Inr ())"
    by (simp add: storage_put_def k create_dir_all_def blocked_def strict_prefixes_def is_file_def is_dir_def
        demo_fs_def tmp_path_def TMP_SUFFIX_def)
  from storage_refines_map [OF demo_fs_repr free] put show ?thesis by auto
qed

text \<open>Objects whose name contains the temporary marker are invisible to list. The key is accepted,
  put and get work on it, yet listing the whole namespace omits it.\<close>

theorem storage_list_hides_tmp_named:
  "\<exists>fs'. storage_put 1 2 ''x.tmp-y'' [9] \<lparr>sf_files = [], sf_dirs = []\<rparr> = (fs', Inr ()) \<and>
     storage_get ''x.tmp-y'' fs' = Inr (Some [9]) \<and> storage_list [] fs' = Inr []"
proof -
  have k: "sanitize_key ''x.tmp-y'' = Inr [''x.tmp-y'']"
    by (simp add: sanitize_key_iff key_of_path_def safe_segment_def)
  show ?thesis
    by (simp add: storage_put_def storage_get_def storage_list_def walk_def trim_end_char_def k create_dir_all_def
        blocked_def strict_prefixes_def is_file_def is_dir_def tmp_path_def TMP_SUFFIX_def)
qed

end
