(* ===== verification/Collection.thy ===== *)
theory Collection
  imports Postings_Semantics Wal_Log Segment Vector_Index Distance_Kernels Catalog Local_Storage
begin

text \<open>
  One collection, \<^verbatim>\<open>crates/rekha-engine/src/collection.rs\<close>: the live records, the brute-force
  buffer, the offsets and the postings over them, the committed vector index, the log they are
  derived from, the checkpoint files, and the queries. An operation on \<^verbatim>\<open>&mut self\<close> returns the
  collection it leaves together with its result, also when it fails half way. Third-party code is
  the record \<open>engine_env\<close>: the codecs, the bitmaps, the graph library and the vector lanes.
\<close>

section \<open>Data\<close>

record live_record =
  lr_id :: id
  lr_embedding :: "embedding option"
  lr_metadata :: "metadata option"
  lr_document :: "document option"
  lr_seq :: u64

record scored_point =
  sp_id :: id
  sp_distance :: f32
  sp_metadata :: "metadata option"
  sp_document :: "document option"

record query_options =
  qo_ef :: nat
  qo_where_filter :: "where_filter option"
  qo_oversampling :: nat

definition query_options_default :: query_options where
  "query_options_default = \<lparr>qo_ef = 0, qo_where_filter = None, qo_oversampling = 4\<rparr>"

definition with_where :: "where_filter \<Rightarrow> query_options" where
  "with_where f = query_options_default\<lparr>qo_where_filter := Some f\<rparr>"

record optimize_stats =
  os_records :: nat
  os_indexed :: nat
  os_wal_bytes_before :: nat
  os_wal_bytes_after :: nat

datatype validation =
    CountMismatch string nat nat
  | SliceMismatch string nat nat string
  | DimensionMismatch string nat nat
  | IdExists id
  | DuplicateInBatch id
  | IdNotFound id

datatype engine_error =
    ECatalog catalog_error
  | EWal wal_error
  | EIndex index_error
  | EIo
  | EStorage storage_error
  | ESerialization
  | CollectionNotFound uuid
  | Validation validation

record checkpoint_meta =
  cm_flushed_seq :: u64
  cm_next_seq :: u64
  cm_record_count :: nat

record ('b, 'g) engine_env =
  env_codec :: codec
  env_bitmap :: "'b bitmap_ops"
  env_float :: of_ops
  env_ann :: "'g ann_ops"
  env_simd :: "f32 simd"
  env_catalog :: cat_codec
  env_enc_meta :: "index_meta \<Rightarrow> bytes option"
  env_dec_meta :: "bytes \<Rightarrow> index_meta option"
  env_enc_records :: "(id \<times> live_record) list \<Rightarrow> bytes option"
  env_dec_records :: "bytes \<Rightarrow> (id \<times> live_record) list option"
  env_enc_ckpt :: "checkpoint_meta \<Rightarrow> bytes option"
  env_dec_ckpt :: "bytes \<Rightarrow> checkpoint_meta option"
  env_enc_segidx :: "(id \<times> nat) list \<Rightarrow> bytes option"
  env_dec_segidx :: "bytes \<Rightarrow> (id \<times> nat) list option"

record ('b, 'g) collection =
  co_config :: collection_config
  co_wal :: wal
  co_records :: "(id \<times> live_record) list"
  co_buffer :: "live_record list"
  co_index :: "'g usearch_index"
  co_flushed_seq :: u64
  co_offsets :: "(id \<times> u32) list"
  co_id_by_offset :: "(u32 \<times> id) list"
  co_next_offset :: u32
  co_postings :: "'b postings"
  co_last_checkpoint_seq :: u64
  co_fsync :: bool
  co_segments :: "segment list"
  co_segment_index :: "(id \<times> nat) list"

text \<open>The files of a checkpoint directory.\<close>

datatype ckpt_file = RecordsBin | IndexBin | IndexMeta | CheckpointJson | SegBin nat | SegmentIndexBin

type_synonym ckpt_dir = "(ckpt_file \<times> bytes) list"

text \<open>\<^verbatim>\<open>iter().filter_map(..).collect()\<close> with a closure that may panic.\<close>

fun run_filter_map :: "('a \<Rightarrow> 'b option run) \<Rightarrow> 'a list \<Rightarrow> 'b list run" where
  "run_filter_map f [] = Returns []"
| "run_filter_map f (x # xs) =
     run_bind (f x) (\<lambda>y. run_bind (run_filter_map f xs) (\<lambda>ys.
       Returns (case y of Some z \<Rightarrow> z # ys | None \<Rightarrow> ys)))"

section \<open>Applying operations\<close>

definition offset_for :: "id \<Rightarrow> ('b, 'g) collection \<Rightarrow> ('b, 'g) collection \<times> u32" where
  "offset_for i c =
     (case map_of (co_offsets c) i of
        Some off \<Rightarrow> (c, off)
      | None \<Rightarrow>
          (let off = co_next_offset c
           in (c\<lparr>co_next_offset := co_next_offset c + 1,
                 co_offsets := AList.update i off (co_offsets c),
                 co_id_by_offset := AList.update off i (co_id_by_offset c)\<rparr>, off)))"

definition retain_other :: "id \<Rightarrow> live_record list \<Rightarrow> live_record list" where
  "retain_other i buf = filter (\<lambda>r. lr_id r \<noteq> i) buf"

definition apply_put ::
  "('b, 'g) engine_env \<Rightarrow> id \<Rightarrow> embedding \<Rightarrow> metadata option \<Rightarrow> document option \<Rightarrow> u64 \<Rightarrow>
     ('b, 'g) collection \<Rightarrow> ('b, 'g) collection" where
  "apply_put E i embedding metadata document seq c =
     (let (c1, off) = offset_for i c;
          p1 = (case map_of (co_records c1) i of
                  Some old \<Rightarrow> postings_remove (env_bitmap E) (env_float E) off (lr_metadata old) (co_postings c1)
                | None \<Rightarrow> co_postings c1);
          p2 = postings_insert (env_bitmap E) (env_float E) off metadata p1;
          r = \<lparr>lr_id = i, lr_embedding = Some embedding, lr_metadata = metadata, lr_document = document, lr_seq = seq\<rparr>
      in c1\<lparr>co_postings := p2,
            co_records := AList.update i r (co_records c1),
            co_buffer := retain_other i (co_buffer c1) @ [r]\<rparr>)"

definition apply_update ::
  "('b, 'g) engine_env \<Rightarrow> id \<Rightarrow> metadata option \<Rightarrow> document option \<Rightarrow> u64 \<Rightarrow>
     ('b, 'g) collection \<Rightarrow> ('b, 'g) collection" where
  "apply_update E i metadata document seq c =
     (let old = (case map_of (co_records c) i of
                   Some r \<Rightarrow> r
                 | None \<Rightarrow> \<lparr>lr_id = i, lr_embedding = None, lr_metadata = None, lr_document = None, lr_seq = seq\<rparr>);
          changed = (\<not> opt_metadata_eq (lr_metadata old) metadata);
          r = old\<lparr>lr_metadata := metadata, lr_document := document, lr_seq := seq\<rparr>;
          c1 = c\<lparr>co_records := AList.update i r (co_records c)\<rparr>
      in if changed then
           (let (c2, off) = offset_for i c1;
                p1 = postings_remove (env_bitmap E) (env_float E) off (lr_metadata old) (co_postings c2)
            in c2\<lparr>co_postings := postings_insert (env_bitmap E) (env_float E) off metadata p1\<rparr>)
         else c1)"

definition apply_delete ::
  "('b, 'g) engine_env \<Rightarrow> id \<Rightarrow> ('b, 'g) collection \<Rightarrow> ('b, 'g) collection" where
  "apply_delete E i c =
     (let c1 = (case map_of (co_offsets c) i of
                  Some off \<Rightarrow>
                    (let p1 = (case map_of (co_records c) i of
                                 Some r \<Rightarrow> postings_remove (env_bitmap E) (env_float E) off (lr_metadata r) (co_postings c)
                               | None \<Rightarrow> co_postings c)
                     in c\<lparr>co_postings := postings_remove_all (env_bitmap E) off p1,
                          co_id_by_offset := AList.delete off (co_id_by_offset c),
                          co_offsets := AList.delete i (co_offsets c)\<rparr>)
                | None \<Rightarrow> c)
      in c1\<lparr>co_records := AList.delete i (co_records c1),
            co_buffer := retain_other i (co_buffer c1),
            co_index := index_delete (env_ann E) i (co_index c1)\<rparr>)"

text \<open>\<^verbatim>\<open>apply_operation\<close> returns a result only because the trait's delete does, and that never fails.\<close>

fun apply_operation ::
  "('b, 'g) engine_env \<Rightarrow> operation \<Rightarrow> u64 \<Rightarrow> ('b, 'g) collection \<Rightarrow> ('b, 'g) collection" where
  "apply_operation E (Add i e m d) seq c = apply_put E i e m d seq c"
| "apply_operation E (Upsert i e m d) seq c = apply_put E i e m d seq c"
| "apply_operation E (Update i m d) seq c = apply_update E i m d seq c"
| "apply_operation E (Delete i) seq c = apply_delete E i c"

definition apply_records ::
  "('b, 'g) engine_env \<Rightarrow> wal_record list \<Rightarrow> ('b, 'g) collection \<Rightarrow> ('b, 'g) collection" where
  "apply_records E rs c = fold (\<lambda>r. apply_operation E (wr_op r) (wr_seq r)) rs c"

text \<open>Appending a batch keeps the prefix that was written when an append fails.\<close>

fun append_ops :: "codec \<Rightarrow> operation list \<Rightarrow> wal \<Rightarrow> wal \<times> (wal_error + wal_record list)" where
  "append_ops C [] w = (w, Inr [])"
| "append_ops C (op # ops) w =
     (case wal_append C op w of
        Inl e \<Rightarrow> (w, Inl e)
      | Inr (w1, r) \<Rightarrow>
          (case append_ops C ops w1 of
             (w2, Inl e) \<Rightarrow> (w2, Inl e)
           | (w2, Inr rs) \<Rightarrow> (w2, Inr (r # rs))))"

definition write_ops ::
  "('b, 'g) engine_env \<Rightarrow> operation list \<Rightarrow> ('b, 'g) collection \<Rightarrow> ('b, 'g) collection \<times> (engine_error + unit)" where
  "write_ops E ops c =
     (case append_ops (env_codec E) ops (co_wal c) of
        (w, Inl e) \<Rightarrow> (c\<lparr>co_wal := w\<rparr>, Inl (EWal e))
      | (w, Inr rs) \<Rightarrow> (apply_records E rs (c\<lparr>co_wal := w\<rparr>), Inr ()))"

section \<open>The buffer and the index\<close>

fun flush_loop ::
  "'g ann_ops \<Rightarrow> live_record list \<Rightarrow> u64 \<Rightarrow> 'g usearch_index \<Rightarrow> 'g usearch_index \<times> (engine_error + u64)" where
  "flush_loop A [] max_seq x = (x, Inr max_seq)"
| "flush_loop A (r # batch) max_seq x =
     (case lr_embedding r of
        None \<Rightarrow> flush_loop A batch max_seq x
      | Some embedding \<Rightarrow>
          (let x1 = (if index_contains (lr_id r) x then index_delete A (lr_id r) x else x)
           in case index_add A (lr_id r) embedding x1 of
                (x2, Inl e) \<Rightarrow> (x2, Inl (EIndex e))
              | (x2, Inr _) \<Rightarrow> flush_loop A batch (max max_seq (lr_seq r)) x2))"

definition flush_buffer ::
  "('b, 'g) engine_env \<Rightarrow> ('b, 'g) collection \<Rightarrow> ('b, 'g) collection \<times> (engine_error + unit)" where
  "flush_buffer E c =
     (let batch = co_buffer c; c1 = c\<lparr>co_buffer := []\<rparr>
      in case flush_loop (env_ann E) batch 0 (co_index c1) of
           (x, Inl e) \<Rightarrow> (c1\<lparr>co_index := x\<rparr>, Inl e)
         | (x, Inr max_seq) \<Rightarrow>
             (c1\<lparr>co_index := x, co_flushed_seq := max (co_flushed_seq c1) max_seq\<rparr>, Inr ()))"

definition flush_if_needed ::
  "('b, 'g) engine_env \<Rightarrow> ('b, 'g) collection \<Rightarrow> ('b, 'g) collection \<times> (engine_error + unit)" where
  "flush_if_needed E c =
     (if length (co_buffer c) \<ge> hc_batch_size (cc_hnsw (co_config c)) then flush_buffer E c else (c, Inr ()))"

section \<open>Validation\<close>

definition check_slice_lengths ::
  "string \<Rightarrow> id list \<Rightarrow> 'a option list option \<Rightarrow> string \<Rightarrow> engine_error + unit" where
  "check_slice_lengths op ids opt what =
     (case opt of
        Some slc \<Rightarrow> if length slc \<noteq> length ids
                      then Inl (Validation (SliceMismatch op (length ids) (length slc) what)) else Inr ()
      | None \<Rightarrow> Inr ())"

fun check_dimensions_loop :: "string \<Rightarrow> embedding list \<Rightarrow> nat \<Rightarrow> engine_error + unit" where
  "check_dimensions_loop op [] dimension = Inr ()"
| "check_dimensions_loop op (e # es) dimension =
     (if length e \<noteq> dimension then Inl (Validation (DimensionMismatch op (length e) dimension))
      else check_dimensions_loop op es dimension)"

definition check_dimensions :: "string \<Rightarrow> embedding list \<Rightarrow> nat \<Rightarrow> engine_error + unit" where
  "check_dimensions op embeddings dimension =
     (if dimension = 0 then Inr () else check_dimensions_loop op embeddings dimension)"

fun check_fresh_ids :: "(id \<times> live_record) list \<Rightarrow> id list \<Rightarrow> id list \<Rightarrow> engine_error + unit" where
  "check_fresh_ids records seen [] = Inr ()"
| "check_fresh_ids records seen (i # ids) =
     (if map_of records i \<noteq> None then Inl (Validation (IdExists i))
      else if i \<in> set seen then Inl (Validation (DuplicateInBatch i))
      else check_fresh_ids records (i # seen) ids)"

definition validate_add ::
  "id list \<Rightarrow> embedding list \<Rightarrow> metadata option list option \<Rightarrow> document option list option \<Rightarrow>
     ('b, 'g) collection \<Rightarrow> engine_error + unit" where
  "validate_add ids embeddings metadatas documents c =
     (if length ids \<noteq> length embeddings
      then Inl (Validation (CountMismatch ''add'' (length ids) (length embeddings)))
      else
        and_then (check_slice_lengths ''add'' ids metadatas ''metadatas'') (\<lambda>_.
        and_then (check_slice_lengths ''add'' ids documents ''documents'') (\<lambda>_.
        and_then (check_dimensions ''add'' embeddings (cc_dimension (co_config c))) (\<lambda>_.
          check_fresh_ids (co_records c) [] ids))))"

definition validate_upsert ::
  "id list \<Rightarrow> embedding list \<Rightarrow> metadata option list option \<Rightarrow> document option list option \<Rightarrow>
     ('b, 'g) collection \<Rightarrow> engine_error + unit" where
  "validate_upsert ids embeddings metadatas documents c =
     (if length ids \<noteq> length embeddings
      then Inl (Validation (CountMismatch ''upsert'' (length ids) (length embeddings)))
      else
        and_then (check_slice_lengths ''upsert'' ids metadatas ''metadatas'') (\<lambda>_.
        and_then (check_slice_lengths ''upsert'' ids documents ''documents'') (\<lambda>_.
          check_dimensions ''upsert'' embeddings (cc_dimension (co_config c)))))"

fun check_known_ids :: "(id \<times> live_record) list \<Rightarrow> id list \<Rightarrow> engine_error + unit" where
  "check_known_ids records [] = Inr ()"
| "check_known_ids records (i # ids) =
     (if map_of records i = None then Inl (Validation (IdNotFound i)) else check_known_ids records ids)"

definition validate_update ::
  "id list \<Rightarrow> metadata option list option \<Rightarrow> document option list option \<Rightarrow>
     ('b, 'g) collection \<Rightarrow> engine_error + unit" where
  "validate_update ids metadatas documents c =
     and_then (check_slice_lengths ''update'' ids metadatas ''metadatas'') (\<lambda>_.
     and_then (check_slice_lengths ''update'' ids documents ''documents'') (\<lambda>_.
       check_known_ids (co_records c) ids))"

section \<open>Queries\<close>

definition load_vector_from :: "segment list \<Rightarrow> (id \<times> nat) list \<Rightarrow> id \<Rightarrow> embedding option run" where
  "load_vector_from segments segment_index i =
     (case map_of segment_index i of
        None \<Rightarrow> Returns None
      | Some off \<Rightarrow> (case segments of [] \<Rightarrow> Returns None | s # _ \<Rightarrow> get_vector s off))"

definition load_vector :: "('b, 'g) collection \<Rightarrow> id \<Rightarrow> embedding option run" where
  "load_vector c i = load_vector_from (co_segments c) (co_segment_index c) i"

text \<open>The vector of a record: from the segment if it has one there, else the record's own.\<close>

definition vector_of :: "('b, 'g) collection \<Rightarrow> id \<Rightarrow> live_record \<Rightarrow> embedding option run" where
  "vector_of c i r =
     run_bind (load_vector c i) (\<lambda>v. Returns (case v of Some e \<Rightarrow> Some e | None \<Rightarrow> lr_embedding r))"

definition brute_force ::
  "('b, 'g) engine_env \<Rightarrow> embedding \<Rightarrow> distance \<Rightarrow> ('b, 'g) collection \<Rightarrow> scored_point list run" where
  "brute_force E query space c =
     run_filter_map
       (\<lambda>(i, r). run_bind (vector_of c i r) (\<lambda>v.
          case v of
            None \<Rightarrow> Returns None
          | Some e \<Rightarrow>
              run_bind (distance_of f32_arith (env_simd E) space query e) (\<lambda>d.
                Returns (Some \<lparr>sp_id = i, sp_distance = d, sp_metadata = lr_metadata r, sp_document = lr_document r\<rparr>))))
       (co_records c)"

definition build_scored :: "(id \<times> f32) list \<Rightarrow> ('b, 'g) collection \<Rightarrow> scored_point list" where
  "build_scored dist c =
     map (\<lambda>(i, d).
        (let r = map_of (co_records c) i
         in \<lparr>sp_id = i, sp_distance = d, sp_metadata = Option.bind r lr_metadata,
             sp_document = Option.bind r lr_document\<rparr>)) dist"

definition or_insert :: "id \<Rightarrow> f32 \<Rightarrow> (id \<times> f32) list \<Rightarrow> (id \<times> f32) list" where
  "or_insert i d dist = (if map_of dist i = None then AList.update i d dist else dist)"

text \<open>The buffer scan: every buffered record that passes the filter overrides the distance map.\<close>

fun scan_buffer ::
  "('b, 'g) engine_env \<Rightarrow> (live_record \<Rightarrow> bool) \<Rightarrow> embedding \<Rightarrow> distance \<Rightarrow> live_record list \<Rightarrow>
     (id \<times> f32) list \<Rightarrow> (id \<times> f32) list run" where
  "scan_buffer E ok query space [] dist = Returns dist"
| "scan_buffer E ok query space (r # rs) dist =
     (if \<not> ok r then scan_buffer E ok query space rs dist
      else (case lr_embedding r of
          None \<Rightarrow> scan_buffer E ok query space rs dist
        | Some e \<Rightarrow>
            run_bind (distance_of f32_arith (env_simd E) space query e) (\<lambda>d.
              scan_buffer E ok query space rs (AList.update (lr_id r) d dist))))"

definition hybrid_search ::
  "('b, 'g) engine_env \<Rightarrow> embedding \<Rightarrow> nat \<Rightarrow> nat \<Rightarrow> distance \<Rightarrow> ('b, 'g) collection \<Rightarrow>
     ('b, 'g) collection \<times> (engine_error + scored_point list) run" where
  "hybrid_search E query k ef space c =
     (case index_search (env_ann E) query k ef (co_index c) of
        (x, Inl e) \<Rightarrow> (c\<lparr>co_index := x\<rparr>, Returns (Inl (EIndex e)))
      | (x, Inr hits) \<Rightarrow>
          (c\<lparr>co_index := x\<rparr>,
           run_bind (scan_buffer E (\<lambda>r. True) query space (co_buffer c)
                       (fold (\<lambda>h. or_insert (hit_id h) (hit_distance h)) hits []))
             (\<lambda>dist. Returns (Inr (build_scored dist c)))))"

definition filter_matches_opt :: "where_filter \<Rightarrow> metadata option \<Rightarrow> bool" where
  "filter_matches_opt f m = (case m of Some md \<Rightarrow> matches f md | None \<Rightarrow> matches f [])"

text \<open>The exact path over the candidate offsets, in ascending order.\<close>

fun scan_offsets ::
  "('b, 'g) engine_env \<Rightarrow> embedding \<Rightarrow> distance \<Rightarrow> ('b, 'g) collection \<Rightarrow> u32 list \<Rightarrow>
     (id \<times> f32) list \<Rightarrow> (id \<times> f32) list run" where
  "scan_offsets E query space c [] dist = Returns dist"
| "scan_offsets E query space c (off # offs) dist =
     (case Option.bind (map_of (co_id_by_offset c) off) (map_of (co_records c)) of
        None \<Rightarrow> scan_offsets E query space c offs dist
      | Some r \<Rightarrow>
          (case lr_embedding r of
             None \<Rightarrow> scan_offsets E query space c offs dist
           | Some e \<Rightarrow>
               if map_of dist (lr_id r) = None then
                 run_bind (distance_of f32_arith (env_simd E) space query e) (\<lambda>d.
                   scan_offsets E query space c offs (AList.update (lr_id r) d dist))
               else scan_offsets E query space c offs dist))"

text \<open>\<^verbatim>\<open>saturating_mul\<close> on a 64-bit \<^verbatim>\<open>usize\<close>.\<close>

definition saturating_mul :: "nat \<Rightarrow> nat \<Rightarrow> nat" where
  "saturating_mul a b = min (a * b) (2 ^ 64 - 1)"

definition filtered_query ::
  "('b, 'g) engine_env \<Rightarrow> embedding \<Rightarrow> nat \<Rightarrow> nat \<Rightarrow> distance \<Rightarrow> where_filter \<Rightarrow> nat \<Rightarrow> ('b, 'g) collection \<Rightarrow>
     ('b, 'g) collection \<times> (engine_error + scored_point list) run" where
  "filtered_query E query k ef space f oversampling c =
     (case scan_buffer E (\<lambda>r. filter_matches_opt f (lr_metadata r)) query space (co_buffer c) [] of
        Panics \<Rightarrow> (c, Panics)
      | Returns dist \<Rightarrow>
          (let candidates = evaluate (env_bitmap E) (env_float E) (co_postings c) f in
           if bm_len (env_bitmap E) candidates \<le> hc_max_scan (cc_hnsw (co_config c)) then
             (c, run_bind (scan_offsets E query space c (bm_iter (env_bitmap E) candidates) dist)
                   (\<lambda>dist. Returns (Inr (build_scored dist c))))
           else
             (let fetch = saturating_mul k (max oversampling 1) in
              case index_search (env_ann E) query fetch ef (co_index c) of
                (x, Inl e) \<Rightarrow> (c\<lparr>co_index := x\<rparr>, Returns (Inl (EIndex e)))
              | (x, Inr hits) \<Rightarrow>
                  (c\<lparr>co_index := x\<rparr>,
                   Returns (Inr (build_scored
                     (fold (\<lambda>h dist.
                        case map_of (co_offsets c) (hit_id h) of
                          Some off \<Rightarrow> if bm_contains (env_bitmap E) candidates off
                                       then or_insert (hit_id h) (hit_distance h) dist else dist
                        | None \<Rightarrow> dist) hits dist) c))))))"

text \<open>\<^verbatim>\<open>partial_cmp(..).unwrap_or(Equal)\<close> is \<^verbatim>\<open>Greater\<close> exactly when the second is smaller.\<close>

definition sort_scored :: "scored_point list \<Rightarrow> scored_point list" where
  "sort_scored ps = sort_by (\<lambda>a b. f32_lt (sp_distance b) (sp_distance a)) ps"

definition collection_query ::
  "('b, 'g) engine_env \<Rightarrow> embedding \<Rightarrow> nat \<Rightarrow> query_options \<Rightarrow> ('b, 'g) collection \<Rightarrow>
     ('b, 'g) collection \<times> (engine_error + scored_point list) run" where
  "collection_query E query k0 options c =
     (if cc_dimension (co_config c) \<noteq> 0 \<and> length query \<noteq> cc_dimension (co_config c)
      then (c, Returns (Inl (Validation (DimensionMismatch ''query'' (length query) (cc_dimension (co_config c))))))
      else
        (let k = max k0 1;
             ef = (if qo_ef options = 0 then hc_ef_search (cc_hnsw (co_config c)) else qo_ef options);
             space = cc_space (co_config c);
             (c', out) =
               (case qo_where_filter options of
                  None \<Rightarrow>
                    if index_len (env_ann E) (co_index c) + length (co_buffer c) \<le> hc_max_scan (cc_hnsw (co_config c))
                    then (c, run_bind (brute_force E query space c) (\<lambda>ps. Returns (Inr ps)))
                    else hybrid_search E query k ef space c
                | Some f \<Rightarrow> filtered_query E query k ef space f (qo_oversampling options) c)
         in (c', run_bind out (\<lambda>r. Returns (and_then r (\<lambda>ps. Inr (take k (sort_scored ps))))))))"

end
