(* ===== verification/Collection_Checkpoint.thy ===== *)
theory Collection_Checkpoint
  imports Collection
begin

text \<open>
  Checkpoints of a collection, \<^verbatim>\<open>crates/rekha-engine/src/collection.rs\<close>: writing one as the
  sequence of its durable steps, loading one, the replay of the log above it, opening a collection,
  and the rebuild of the vector index. A crash is a prefix of the steps. Each file of the checkpoint
  directory is written beside its place and renamed, so a step replaces it whole.
\<close>

section \<open>Steps on the collection, its directory and the catalog\<close>

record ('b, 'g) coll_world =
  cw_coll :: "('b, 'g) collection"
  cw_dir :: ckpt_dir
  cw_cat :: redb_catalog

type_synonym ('w, 'a) action = "'w \<Rightarrow> 'w \<times> (engine_error + 'a) run"

definition act_return :: "'a \<Rightarrow> ('w, 'a) action" where
  "act_return x w = (w, Returns (Inr x))"

definition act_fail :: "engine_error \<Rightarrow> ('w, 'a) action" where
  "act_fail e w = (w, Returns (Inl e))"

definition act_bind :: "('w, 'a) action \<Rightarrow> ('a \<Rightarrow> ('w, 'b) action) \<Rightarrow> ('w, 'b) action" where
  "act_bind m k w =
     (case m w of
        (w', Panics) \<Rightarrow> (w', Panics)
      | (w', Returns (Inl e)) \<Rightarrow> (w', Returns (Inl e))
      | (w', Returns (Inr x)) \<Rightarrow> k x w')"

fun act_seq :: "('w, unit) action list \<Rightarrow> ('w, unit) action" where
  "act_seq [] = act_return ()"
| "act_seq (m # ms) = act_bind m (\<lambda>_. act_seq ms)"

text \<open>An operation of the collection alone, as an action.\<close>

definition on_coll ::
  "(('b, 'g) collection \<Rightarrow> ('b, 'g) collection \<times> (engine_error + 'a) run) \<Rightarrow> (('b, 'g) coll_world, 'a) action" where
  "on_coll f w = (case f (cw_coll w) of (c, r) \<Rightarrow> (w\<lparr>cw_coll := c\<rparr>, r))"

section \<open>Writing a checkpoint\<close>

definition ckpt_save_records :: "('b, 'g) engine_env \<Rightarrow> (('b, 'g) coll_world, unit) action" where
  "ckpt_save_records E w =
     (case env_enc_records E (co_records (cw_coll w)) of
        None \<Rightarrow> act_fail ESerialization w
      | Some b \<Rightarrow> act_return () (w\<lparr>cw_dir := AList.update RecordsBin b (cw_dir w)\<rparr>))"

text \<open>The index files of the directory as \<open>index_save\<close> and \<open>index_load\<close> see them.\<close>

definition index_files :: "ckpt_dir \<Rightarrow> index_file \<rightharpoonup> bytes" where
  "index_files dir f = (case f of GraphFile \<Rightarrow> map_of dir IndexBin | MetaFile \<Rightarrow> map_of dir IndexMeta)"

definition put_index_files :: "(index_file \<rightharpoonup> bytes) \<Rightarrow> ckpt_dir \<Rightarrow> ckpt_dir" where
  "put_index_files fs dir =
     (let dir1 = (case fs GraphFile of Some b \<Rightarrow> AList.update IndexBin b dir | None \<Rightarrow> dir)
      in case fs MetaFile of Some b \<Rightarrow> AList.update IndexMeta b dir1 | None \<Rightarrow> dir1)"

definition ckpt_save_index :: "('b, 'g) engine_env \<Rightarrow> (('b, 'g) coll_world, unit) action" where
  "ckpt_save_index E w =
     (if \<not> index_is_empty (env_ann E) (co_index (cw_coll w)) then
        (case index_save (env_ann E) (env_enc_meta E) (co_index (cw_coll w)) (index_files (cw_dir w)) of
           (fs, r) \<Rightarrow>
             (w\<lparr>cw_dir := put_index_files fs (cw_dir w)\<rparr>,
              Returns (case r of Inl e \<Rightarrow> Inl (EIndex e) | Inr _ \<Rightarrow> Inr ())))
      else
        act_return () (w\<lparr>cw_dir := AList.delete IndexMeta (AList.delete IndexBin (cw_dir w))\<rparr>))"

definition ckpt_save_marker :: "('b, 'g) engine_env \<Rightarrow> checkpoint_meta \<Rightarrow> (('b, 'g) coll_world, unit) action" where
  "ckpt_save_marker E meta w =
     (case env_enc_ckpt E meta of
        None \<Rightarrow> act_fail ESerialization w
      | Some b \<Rightarrow> act_return () (w\<lparr>cw_dir := AList.update CheckpointJson b (cw_dir w)\<rparr>))"

text \<open>The records with embeddings, by ascending id.\<close>

definition segment_entries :: "(id \<times> live_record) list \<Rightarrow> (id \<times> embedding) list" where
  "segment_entries records =
     sort_by (\<lambda>a b. str_less (fst b) (fst a))
       (List.map_filter (\<lambda>(i, r). map_option (Pair i) (lr_embedding r)) records)"

definition is_seg :: "ckpt_file \<Rightarrow> bool" where
  "is_seg f = (case f of SegBin _ \<Rightarrow> True | _ \<Rightarrow> False)"

definition remove_segments :: "ckpt_dir \<Rightarrow> ckpt_dir" where
  "remove_segments dir = filter (\<lambda>(f, _). \<not> is_seg f) dir"

definition ckpt_save_segments :: "('b, 'g) engine_env \<Rightarrow> (('b, 'g) coll_world, unit) action" where
  "ckpt_save_segments E w =
     (let c = cw_coll w;
          entries = segment_entries (co_records c)
      in if entries \<noteq> [] then
           (case writer_push_all (map snd entries) (writer_new (cc_dimension (co_config c))) of
              Panics \<Rightarrow> (w, Panics)
            | Returns wr \<Rightarrow>
                (let idx = zip (map fst entries) [0 ..< length entries];
                     seg_bytes = writer_write (crc32 (env_codec E)) wr;
                     w1 = w\<lparr>cw_dir := AList.update (SegBin 0) seg_bytes (cw_dir w)\<rparr>
                 in case env_enc_segidx E idx of
                      None \<Rightarrow> act_fail ESerialization w1
                    | Some idx_bytes \<Rightarrow>
                        (let w2 = w1\<lparr>cw_dir := AList.update SegmentIndexBin idx_bytes (cw_dir w1)\<rparr>
                         in case segment_open (crc32 (env_codec E)) seg_bytes of
                              Panics \<Rightarrow> (w2, Panics)
                            | Returns (Inr seg) \<Rightarrow>
                                act_return () (w2\<lparr>cw_coll := c\<lparr>co_segments := [seg], co_segment_index := idx\<rparr>\<rparr>)
                            | Returns (Inl _) \<Rightarrow> act_return () w2)))
         else
           act_return () (w\<lparr>cw_dir := AList.delete SegmentIndexBin (remove_segments (cw_dir w)),
                            cw_coll := c\<lparr>co_segments := [], co_segment_index := []\<rparr>\<rparr>))"

definition strip_record :: "u64 \<Rightarrow> live_record \<Rightarrow> live_record" where
  "strip_record flushed r = (if lr_seq r \<le> flushed then r\<lparr>lr_embedding := None\<rparr> else r)"

definition strip_records :: "u64 \<Rightarrow> (id \<times> live_record) list \<Rightarrow> (id \<times> live_record) list" where
  "strip_records flushed records = map (\<lambda>(i, r). (i, strip_record flushed r)) records"

definition ckpt_strip :: "u64 \<Rightarrow> (('b, 'g) coll_world, unit) action" where
  "ckpt_strip flushed w =
     act_return () (w\<lparr>cw_coll := (cw_coll w)\<lparr>co_records := strip_records flushed (co_records (cw_coll w))\<rparr>\<rparr>)"

definition ckpt_advance :: "('b, 'g) engine_env \<Rightarrow> u64 \<Rightarrow> (('b, 'g) coll_world, unit) action" where
  "ckpt_advance E flushed w =
     (case advance_log_offset (env_catalog E) (cc_id (co_config (cw_coll w))) flushed (cw_cat w) of
        Inl e \<Rightarrow> act_fail (ECatalog e) w
      | Inr cat \<Rightarrow> act_return () (w\<lparr>cw_cat := cat\<rparr>))"

definition ckpt_prune :: "('b, 'g) engine_env \<Rightarrow> u64 \<Rightarrow> (('b, 'g) coll_world, unit) action" where
  "ckpt_prune E flushed w =
     (case wal_prune (env_codec E) flushed (co_wal (cw_coll w)) of
        Inl e \<Rightarrow> act_fail (EWal e) w
      | Inr wal' \<Rightarrow> act_return () (w\<lparr>cw_coll := (cw_coll w)\<lparr>co_wal := wal'\<rparr>\<rparr>))"

definition ckpt_reopen :: "('b, 'g) engine_env \<Rightarrow> u64 \<Rightarrow> u64 \<Rightarrow> (('b, 'g) coll_world, unit) action" where
  "ckpt_reopen E flushed next_seq w =
     (let c = cw_coll w in
      case wal_open (env_codec E) (wal_file (co_wal c)) (Epoch (wal_epoch (co_wal c)))
             \<lparr>wo_fsync = co_fsync c, wo_start_seq = Some next_seq\<rparr> of
        Inl e \<Rightarrow> act_fail (EWal e) w
      | Inr wal' \<Rightarrow> act_return () (w\<lparr>cw_coll := c\<lparr>co_wal := wal', co_last_checkpoint_seq := flushed\<rparr>\<rparr>))"

definition checkpoint_meta_of :: "('b, 'g) collection \<Rightarrow> checkpoint_meta" where
  "checkpoint_meta_of c =
     \<lparr>cm_flushed_seq = co_flushed_seq c, cm_next_seq = wal_last_seq (co_wal c) + 1,
      cm_record_count = length (co_records c)\<rparr>"

text \<open>The steps in the order of the code; the marker is the third, the segments come after it.\<close>

definition checkpoint_steps ::
  "('b, 'g) engine_env \<Rightarrow> checkpoint_meta \<Rightarrow> (('b, 'g) coll_world, unit) action list" where
  "checkpoint_steps E meta =
     [ckpt_save_records E,
      ckpt_save_index E,
      ckpt_save_marker E meta,
      ckpt_save_segments E,
      ckpt_strip (cm_flushed_seq meta),
      ckpt_advance E (cm_flushed_seq meta),
      ckpt_prune E (cm_flushed_seq meta),
      ckpt_reopen E (cm_flushed_seq meta) (cm_next_seq meta)]"

definition checkpoint :: "('b, 'g) engine_env \<Rightarrow> (('b, 'g) coll_world, unit) action" where
  "checkpoint E w =
     (if co_records (cw_coll w) = [] then act_return () w
      else act_seq (checkpoint_steps E (checkpoint_meta_of (cw_coll w))) w)"

section \<open>Rebuilding the index\<close>

fun add_all :: "'g ann_ops \<Rightarrow> (id \<times> embedding) list \<Rightarrow> 'g usearch_index \<Rightarrow> 'g usearch_index \<times> (engine_error + unit)" where
  "add_all A [] x = (x, Inr ())"
| "add_all A ((i, e) # es) x =
     (case index_add A i e x of
        (x1, Inl err) \<Rightarrow> (x1, Inl (EIndex err))
      | (x1, Inr _) \<Rightarrow> add_all A es x1)"

definition rebuild_index ::
  "('b, 'g) engine_env \<Rightarrow> ('b, 'g) collection \<Rightarrow> ('b, 'g) collection \<times> (engine_error + unit) run" where
  "rebuild_index E c =
     (case with_hnsw (env_ann E) (cc_space (co_config c)) (cc_dimension (co_config c)) (cc_hnsw (co_config c)) of
        Inl e \<Rightarrow> (c, Returns (Inl (EIndex e)))
      | Inr index \<Rightarrow>
          (let c1 = c\<lparr>co_index := index\<rparr> in
           case run_filter_map (\<lambda>(i, r). run_bind (vector_of c1 i r) (\<lambda>v. Returns (map_option (Pair i) v)))
                  (co_records c1) of
             Panics \<Rightarrow> (c1, Panics)
           | Returns to_add \<Rightarrow>
               (case add_all (env_ann E) (sort_by (\<lambda>a b. str_less (fst b) (fst a)) to_add) index of
                  (x, r) \<Rightarrow> (c1\<lparr>co_index := x\<rparr>, Returns r))))"

definition optimize :: "('b, 'g) engine_env \<Rightarrow> (('b, 'g) coll_world, optimize_stats) action" where
  "optimize E w0 =
     act_bind (on_coll (\<lambda>c. case flush_buffer E c of (c', r) \<Rightarrow> (c', Returns r))) (\<lambda>_ w1.
       (let indexed = index_len (env_ann E) (co_index (cw_coll w1));
            wal_bytes_before = wal_size_bytes (co_wal (cw_coll w1))
        in act_bind (on_coll (rebuild_index E)) (\<lambda>_.
           act_bind (checkpoint E) (\<lambda>_ w2.
             act_return
               \<lparr>os_records = length (co_records (cw_coll w0)), os_indexed = indexed,
                os_wal_bytes_before = wal_bytes_before,
                os_wal_bytes_after = wal_size_bytes (co_wal (cw_coll w2))\<rparr> w2)) w1)) w0"

text \<open>\<^verbatim>\<open>saturating_sub\<close> on sequence numbers.\<close>

definition auto_checkpoint :: "('b, 'g) engine_env \<Rightarrow> (('b, 'g) coll_world, unit) action" where
  "auto_checkpoint E w =
     (let c = cw_coll w in
      if co_records c = [] then act_return () w
      else if unat (wal_last_seq (co_wal c)) - unat (co_last_checkpoint_seq c)
                \<ge> hc_sync_threshold (cc_hnsw (co_config c))
      then checkpoint E w
      else act_return () w)"

section \<open>Opening\<close>

definition collection_new ::
  "('b, 'g) engine_env \<Rightarrow> collection_config \<Rightarrow> bytes \<Rightarrow> epoch \<Rightarrow> bool \<Rightarrow> engine_error + ('b, 'g) collection" where
  "collection_new E config wal_bytes epoch fsync =
     (case wal_open (env_codec E) wal_bytes epoch \<lparr>wo_fsync = fsync, wo_start_seq = None\<rparr> of
        Inl e \<Rightarrow> Inl (EWal e)
      | Inr w \<Rightarrow>
          (case with_hnsw (env_ann E) (cc_space config) (cc_dimension config) (cc_hnsw config) of
             Inl e \<Rightarrow> Inl (EIndex e)
           | Inr index \<Rightarrow>
               Inr \<lparr>co_config = config, co_wal = w, co_records = [], co_buffer = [], co_index = index,
                    co_flushed_seq = 0, co_offsets = [], co_id_by_offset = [], co_next_offset = 0,
                    co_postings = postings_new (env_bitmap E), co_last_checkpoint_seq = 0, co_fsync = fsync,
                    co_segments = [], co_segment_index = []\<rparr>))"

text \<open>Offsets and postings of a restored records map, in its iteration order.\<close>

definition index_record ::
  "('b, 'g) engine_env \<Rightarrow> id \<times> live_record \<Rightarrow> ('b, 'g) collection \<Rightarrow> ('b, 'g) collection" where
  "index_record E x c =
     (let off = co_next_offset c
      in c\<lparr>co_offsets := AList.update (fst x) off (co_offsets c),
           co_id_by_offset := AList.update off (fst x) (co_id_by_offset c),
           co_postings := postings_insert (env_bitmap E) (env_float E) off (lr_metadata (snd x)) (co_postings c),
           co_next_offset := co_next_offset c + 1\<rparr>)"

text \<open>The segment files are read from number 0 up to the first that is missing.\<close>

definition segment_files :: "ckpt_dir \<Rightarrow> bytes list" where
  "segment_files dir =
     map the (takeWhile (\<lambda>x. x \<noteq> None) (map (\<lambda>i. map_of dir (SegBin i)) [0 ..< length dir]))"

definition load_segments :: "(bytes \<Rightarrow> u32) \<Rightarrow> ckpt_dir \<Rightarrow> segment list run" where
  "load_segments crc dir =
     run_filter_map
       (\<lambda>b. run_bind (segment_open crc b) (\<lambda>r. Returns (case r of Inr s \<Rightarrow> Some s | Inl _ \<Rightarrow> None)))
       (segment_files dir)"

text \<open>
  \<open>load_checkpoint\<close> changes the collection also when it gives up (the last step, reopening the log,
  can fail after everything else has been restored). \<^verbatim>\<open>?\<close> and early returns are the branches.
\<close>

definition load_checkpoint ::
  "('b, 'g) engine_env \<Rightarrow> epoch \<Rightarrow> bool \<Rightarrow> ckpt_dir \<Rightarrow> ('b, 'g) collection \<Rightarrow> (('b, 'g) collection \<times> bool) run" where
  "load_checkpoint E epoch fsync dir c =
     (case Option.bind (map_of dir CheckpointJson) (env_dec_ckpt E) of
        None \<Rightarrow> Returns (c, False)
      | Some meta \<Rightarrow>
     (case Option.bind (map_of dir RecordsBin) (env_dec_records E) of
        None \<Rightarrow> Returns (c, False)
      | Some records \<Rightarrow>
        if length records \<noteq> cm_record_count meta then Returns (c, False)
        else
          (let c1 = c\<lparr>co_records := records, co_offsets := [], co_id_by_offset := [],
                      co_postings := postings_new (env_bitmap E), co_next_offset := 0\<rparr>;
               c2 = (fold (index_record E) records c1)
                      \<lparr>co_flushed_seq := cm_flushed_seq meta, co_last_checkpoint_seq := cm_flushed_seq meta\<rparr>;
               c3 = (case index_load (env_ann E) (env_dec_meta E) (index_files dir)
                            (cc_space (co_config c2)) (cc_dimension (co_config c2)) of
                       Inr index \<Rightarrow> c2\<lparr>co_index := index\<rparr>
                     | Inl _ \<Rightarrow> c2)
           in run_bind (load_segments (crc32 (env_codec E)) dir) (\<lambda>segs.
                let c4 = c3\<lparr>co_segments := segs\<rparr>;
                    c5 = (case Option.bind (map_of dir SegmentIndexBin) (env_dec_segidx E) of
                            Some idx \<Rightarrow> c4\<lparr>co_segment_index := idx\<rparr>
                          | None \<Rightarrow> c4);
                    c6 = (if co_segments c5 \<noteq> []
                          then c5\<lparr>co_records := strip_records (co_flushed_seq c5) (co_records c5)\<rparr>
                          else c5)
                in Returns
                  (case wal_open (env_codec E) (wal_file (co_wal c6)) epoch
                          \<lparr>wo_fsync = fsync, wo_start_seq = Some (cm_next_seq meta)\<rparr> of
                     Inl _ \<Rightarrow> (c6, False)
                   | Inr wal' \<Rightarrow> (c6\<lparr>co_wal := wal'\<rparr>, True))))))"

definition replay_after ::
  "('b, 'g) engine_env \<Rightarrow> u64 \<Rightarrow> ('b, 'g) collection \<Rightarrow> engine_error + ('b, 'g) collection" where
  "replay_after E flushed c =
     (let last_seq = wal_last_seq (co_wal c) in
      if last_seq > flushed then
        (case wal_read_range (env_codec E) (flushed + 1) last_seq (co_wal c) of
           Inl e \<Rightarrow> Inl (EWal e)
         | Inr rs \<Rightarrow> Inr (apply_records E rs c))
      else Inr c)"

text \<open>What a failed open leaves of the in-memory collection is dropped, so only its error is kept.\<close>

definition collection_open ::
  "('b, 'g) engine_env \<Rightarrow> collection_config \<Rightarrow> bytes \<Rightarrow> ckpt_dir \<Rightarrow> epoch \<Rightarrow> bool \<Rightarrow>
     (engine_error + ('b, 'g) collection) run" where
  "collection_open E config wal_bytes dir epoch fsync =
     (case collection_new E config wal_bytes epoch fsync of
        Inl e \<Rightarrow> Returns (Inl e)
      | Inr c \<Rightarrow>
          run_bind (load_checkpoint E epoch fsync dir c) (\<lambda>(c1, restored).
            Returns (and_then (replay_after E (if restored then co_flushed_seq c1 else 0) c1) (\<lambda>c2.
              case flush_if_needed E c2 of
                (c3, Inl e) \<Rightarrow> Inl e
              | (c3, Inr _) \<Rightarrow> Inr c3))))"

end
