(* ===== verification/Collection_Semantics.thy ===== *)
theory Collection_Semantics
  imports Collection_Checkpoint
begin

text \<open>
  What a collection means: the map from ids to live records. \<open>coll_inv\<close> says that the offsets, the
  postings, the buffer and the vector index are the derived state of that map, and every operation
  of the log keeps it and acts on the map as its specification \<open>op_effect\<close>. Replaying a tail of the
  log that is already contained in the records changes nothing, which is what makes a checkpoint
  taken in front of the tail safe.
\<close>

section \<open>Specification\<close>

type_synonym live_map = "id \<rightharpoonup> live_record"

fun op_effect :: "operation \<Rightarrow> u64 \<Rightarrow> live_record option \<Rightarrow> live_record option" where
  "op_effect (Add i e m d) seq old =
     Some \<lparr>lr_id = i, lr_embedding = Some e, lr_metadata = m, lr_document = d, lr_seq = seq\<rparr>"
| "op_effect (Upsert i e m d) seq old =
     Some \<lparr>lr_id = i, lr_embedding = Some e, lr_metadata = m, lr_document = d, lr_seq = seq\<rparr>"
| "op_effect (Update i m d) seq old =
     Some \<lparr>lr_id = i, lr_embedding = Option.bind old lr_embedding, lr_metadata = m, lr_document = d, lr_seq = seq\<rparr>"
| "op_effect (Delete i) seq old = None"

definition spec_apply :: "operation \<Rightarrow> u64 \<Rightarrow> live_map \<Rightarrow> live_map" where
  "spec_apply op seq M = M(op_id op := op_effect op seq (M (op_id op)))"

definition spec_replay :: "wal_record list \<Rightarrow> live_map \<Rightarrow> live_map" where
  "spec_replay rs M = fold (\<lambda>r. spec_apply (wr_op r) (wr_seq r)) rs M"

lemma spec_replay_simps [simp]:
  "spec_replay [] M = M"
  "spec_replay (r # rs) M = spec_replay rs (spec_apply (wr_op r) (wr_seq r) M)"
  "spec_replay (rs @ rs') M = spec_replay rs' (spec_replay rs M)"
  by (simp_all add: spec_replay_def)

text \<open>Replay acts on each id alone, as the composition of the effects of its own records.\<close>

definition id_effects :: "id \<Rightarrow> wal_record list \<Rightarrow> live_record option \<Rightarrow> live_record option" where
  "id_effects i rs = fold (\<lambda>r. op_effect (wr_op r) (wr_seq r)) (filter (\<lambda>r. op_id (wr_op r) = i) rs)"

lemma spec_replay_at: "spec_replay rs M i = id_effects i rs (M i)"
  by (induction rs arbitrary: M) (simp_all add: id_effects_def spec_apply_def)

text \<open>An effect depends on the old record through its embedding only, and keeps or resets it.\<close>

lemma op_effect_cases:
  obtains y where "\<And>old. op_effect op seq old = y"
  | m d where "\<And>old. op_effect op seq old = Some \<lparr>lr_id = op_id op, lr_embedding = Option.bind old lr_embedding,
      lr_metadata = m, lr_document = d, lr_seq = seq\<rparr>"
  by (cases op) auto

lemma effects_shape:
  fixes rs :: "wal_record list"
  assumes "\<forall>r\<in>set rs. op_id (wr_op r) = i"
  shows "(\<exists>y. \<forall>x. fold (\<lambda>r. op_effect (wr_op r) (wr_seq r)) rs x = y) \<or>
    (\<forall>x. fold (\<lambda>r. op_effect (wr_op r) (wr_seq r)) rs x = x) \<or>
    (\<exists>m d s. \<forall>x. fold (\<lambda>r. op_effect (wr_op r) (wr_seq r)) rs x =
       Some \<lparr>lr_id = i, lr_embedding = Option.bind x lr_embedding, lr_metadata = m, lr_document = d, lr_seq = s\<rparr>)"
  using assms
proof (induction rs rule: rev_induct)
  case Nil
  then show ?case by simp
next
  case (snoc r rs)
  let ?f = "\<lambda>x. fold (\<lambda>r. op_effect (wr_op r) (wr_seq r)) rs x"
  have IH: "(\<exists>y. \<forall>x. ?f x = y) \<or> (\<forall>x. ?f x = x) \<or> (\<exists>m d s. \<forall>x. ?f x =
       Some \<lparr>lr_id = i, lr_embedding = Option.bind x lr_embedding, lr_metadata = m, lr_document = d, lr_seq = s\<rparr>)"
    using snoc by simp
  have i: "op_id (wr_op r) = i" using snoc.prems by simp
  show ?case
  proof (cases rule: op_effect_cases [of "wr_op r" "wr_seq r"])
    case (1 y)
    then show ?thesis by simp
  next
    case (2 m d)
    from IH show ?thesis
    proof (elim disjE exE)
      fix y assume "\<forall>x. ?f x = y"
      then show ?thesis by (simp add: 2)
    next
      assume "\<forall>x. ?f x = x"
      then show ?thesis using 2 i by simp
    next
      fix m' d' s'
      assume "\<forall>x. ?f x = Some \<lparr>lr_id = i, lr_embedding = Option.bind x lr_embedding, lr_metadata = m',
        lr_document = d', lr_seq = s'\<rparr>"
      then show ?thesis using 2 i by simp
    qed
  qed
qed

lemma id_effects_idem: "id_effects i rs (id_effects i rs x) = id_effects i rs x"
proof -
  have "\<forall>r\<in>set (filter (\<lambda>r. op_id (wr_op r) = i) rs). op_id (wr_op r) = i" by simp
  from effects_shape [OF this] show ?thesis
    unfolding id_effects_def by (elim disjE exE) simp_all
qed

lemma spec_replay_idem: "spec_replay rs (spec_replay rs M) = spec_replay rs M"
  by (rule ext) (simp add: spec_replay_at id_effects_idem)

text \<open>Once a tail is contained in the map, appending to both keeps it so.\<close>

lemma spec_replay_fixed_append:
  assumes "spec_replay rs M = M"
  shows "spec_replay (rs @ new) (spec_replay new M) = spec_replay new M"
  using spec_replay_idem [of "rs @ new" M] assms by simp

lemma spec_replay_fixed_suffix:
  assumes "spec_replay (rs @ new) M = M"
  shows "spec_replay new M = M"
  using spec_replay_idem [of new "spec_replay rs M"] assms by simp

section \<open>The invariant\<close>

text \<open>Offsets and ids are inverse to each other, below the next offset.\<close>

definition offsets_inv :: "('b, 'g) collection \<Rightarrow> bool" where
  "offsets_inv c \<longleftrightarrow>
     hm_wf (co_offsets c) \<and> hm_wf (co_id_by_offset c) \<and>
     (\<forall>i off. map_of (co_offsets c) i = Some off \<longleftrightarrow> map_of (co_id_by_offset c) off = Some i) \<and>
     (\<forall>i off. map_of (co_offsets c) i = Some off \<longrightarrow> off < co_next_offset c)"

lemma offsets_inv_cong:
  "offsets_inv c \<Longrightarrow> co_offsets c' = co_offsets c \<Longrightarrow> co_id_by_offset c' = co_id_by_offset c \<Longrightarrow>
   co_next_offset c' = co_next_offset c \<Longrightarrow> offsets_inv c'"
  by (simp add: offsets_inv_def)

lemma offsets_iff:
  "offsets_inv c \<Longrightarrow> map_of (co_id_by_offset c) off = Some i \<longleftrightarrow> map_of (co_offsets c) i = Some off"
  unfolding offsets_inv_def by blast

text \<open>The metadata by offset that the postings have to represent.\<close>

definition doc_map :: "('b, 'g) collection \<Rightarrow> u32 \<rightharpoonup> metadata" where
  "doc_map c off =
     map_option (\<lambda>r. md_or_empty (lr_metadata r)) (Option.bind (map_of (co_id_by_offset c) off) (map_of (co_records c)))"

definition records_inv :: "('b, 'g) collection \<Rightarrow> bool" where
  "records_inv c \<longleftrightarrow>
     hm_wf (co_records c) \<and>
     (\<forall>i r. map_of (co_records c) i = Some r \<longrightarrow> lr_id r = i \<and> hm_wf (md_or_empty (lr_metadata r))) \<and>
     (\<forall>i. map_of (co_offsets c) i \<noteq> None \<longrightarrow> map_of (co_records c) i \<noteq> None) \<and>
     (\<forall>i r. map_of (co_records c) i = Some r \<longrightarrow> map_of (co_offsets c) i = None \<longrightarrow> lr_metadata r = None)"

definition buffer_inv :: "('b, 'g) collection \<Rightarrow> bool" where
  "buffer_inv c \<longleftrightarrow>
     distinct (map lr_id (co_buffer c)) \<and>
     (\<forall>b \<in> set (co_buffer c). map_of (co_records c) (lr_id b) \<noteq> None \<and> lr_embedding b \<noteq> None)"

definition index_inv :: "('b, 'g) engine_env \<Rightarrow> ('b, 'g) collection \<Rightarrow> bool" where
  "index_inv E c \<longleftrightarrow>
     (\<exists>V. index_repr (env_ann E) (co_index c) V \<and> dom V \<subseteq> dom (map_of (co_records c)))"

definition coll_inv :: "('b, 'g) engine_env \<Rightarrow> ('b, 'g) collection \<Rightarrow> bool" where
  "coll_inv E c \<longleftrightarrow>
     offsets_inv c \<and> records_inv c \<and> postings_repr (env_bitmap E) (env_float E) (co_postings c) (doc_map c) \<and>
     buffer_inv c \<and> index_inv E c"

fun op_wf :: "operation \<Rightarrow> bool" where
  "op_wf (Add i e m d) = hm_wf (md_or_empty m)"
| "op_wf (Upsert i e m d) = hm_wf (md_or_empty m)"
| "op_wf (Update i m d) = hm_wf (md_or_empty m)"
| "op_wf (Delete i) = True"

section \<open>Offsets\<close>

lemma offset_for_fields:
  assumes "offset_for i c = (c1, off)"
  shows "co_records c1 = co_records c" "co_postings c1 = co_postings c" "co_buffer c1 = co_buffer c"
    "co_index c1 = co_index c" "co_wal c1 = co_wal c" "co_flushed_seq c1 = co_flushed_seq c"
    "co_config c1 = co_config c" "co_segments c1 = co_segments c" "co_segment_index c1 = co_segment_index c"
    "co_fsync c1 = co_fsync c" "co_last_checkpoint_seq c1 = co_last_checkpoint_seq c"
  using assms by (auto simp: offset_for_def Let_def split: option.splits)

lemma offset_for_inv:
  assumes "offsets_inv c" "co_next_offset c \<noteq> - 1" "offset_for i c = (c1, off)"
  shows "offsets_inv c1 \<and> map_of (co_offsets c1) = (map_of (co_offsets c))(i \<mapsto> off) \<and>
    map_of (co_id_by_offset c1) = (map_of (co_id_by_offset c))(off \<mapsto> i) \<and>
    (map_of (co_offsets c) i = None \<longrightarrow> map_of (co_id_by_offset c) off = None) \<and>
    (map_of (co_offsets c) i = None \<or> map_of (co_offsets c) i = Some off) \<and>
    unat (co_next_offset c1) \<le> unat (co_next_offset c) + 1"
proof (cases "map_of (co_offsets c) i")
  case None
  let ?n = "co_next_offset c"
  have lt: "off' < ?n" if "map_of (co_id_by_offset c) off' = Some j" for off' j
    using assms(1) that unfolding offsets_inv_def by blast
  have free: "map_of (co_id_by_offset c) ?n = None"
    using lt [of ?n] by (cases "map_of (co_id_by_offset c) ?n") auto
  have c1: "off = ?n" "co_offsets c1 = AList.update i ?n (co_offsets c)"
    "co_id_by_offset c1 = AList.update ?n i (co_id_by_offset c)" "co_next_offset c1 = ?n + 1"
    using assms(3) None by (auto simp: offset_for_def Let_def)
  have succ: "?n < ?n + 1" by (rule word_less_succ [OF assms(2)])
  have iff: "map_of (co_offsets c) j = Some off' \<longleftrightarrow> map_of (co_id_by_offset c) off' = Some j" for j off'
    using assms(1) unfolding offsets_inv_def by blast
  have new: "map_of (co_id_by_offset c) off' \<noteq> Some i" for off' using iff [of i off'] None by simp
  have "offsets_inv c1"
    unfolding offsets_inv_def c1
    using assms(1) new free succ
    by (auto simp: offsets_inv_def iff split: if_splits dest: lt intro: less_trans)
  then show ?thesis using None free unat_succ [OF assms(2)] by (auto simp: c1 fun_eq_iff)
next
  case (Some off')
  then have "c1 = c" "off' = off" using assms(3) by (auto simp: offset_for_def)
  moreover have "map_of (co_id_by_offset c) off' = Some i"
    using assms(1) Some unfolding offsets_inv_def by blast
  ultimately show ?thesis using assms(1) Some by (auto simp: fun_eq_iff)
qed

text \<open>The metadata map after writing one record at its offset, and after dropping one.\<close>

lemma doc_map_write:
  assumes O: "offsets_inv c" and ids: "map_of (co_id_by_offset c') = (map_of (co_id_by_offset c))(off \<mapsto> i)"
    and recs: "map_of (co_records c') = (map_of (co_records c))(i \<mapsto> r)"
    and old: "map_of (co_offsets c) i = None \<or> map_of (co_offsets c) i = Some off"
  shows "doc_map c' = (doc_map c)(off \<mapsto> md_or_empty (lr_metadata r))"
proof (rule ext)
  fix x
  have "map_of (co_id_by_offset c) x \<noteq> Some i" if "x \<noteq> off"
    using old that offsets_iff [OF O] by auto
  then show "doc_map c' x = ((doc_map c)(off \<mapsto> md_or_empty (lr_metadata r))) x"
    by (cases "map_of (co_id_by_offset c) x") (auto simp: doc_map_def ids recs)
qed

lemma doc_map_at:
  assumes "offsets_inv c" "records_inv c"
  shows "map_of (co_offsets c) i = Some off \<Longrightarrow> map_of (co_records c) i = Some r \<Longrightarrow>
      doc_map c off = Some (md_or_empty (lr_metadata r))"
    "map_of (co_id_by_offset c) off = None \<Longrightarrow> doc_map c off = None"
  using assms unfolding offsets_inv_def by (auto simp: doc_map_def)

section \<open>Equal metadata are indexed alike\<close>

lemma mv_eq_keys:
  assumes "of_laws F" "mv_eq v w"
  shows "vk_eq F (from_value v) (from_value w)"
    "as_f64 v = Some a \<Longrightarrow> \<exists>b. as_f64 w = Some b \<and> of_eq F a b"
    "as_f64 w = Some b \<Longrightarrow> \<exists>a. as_f64 v = Some a \<and> of_eq F b a"
proof -
  have refl: "of_eq F x x" and sym: "of_eq F x y \<Longrightarrow> of_eq F y x" for x y
    using of_eq_equiv [OF assms(1)] unfolding equiv_rel_def by blast+
  have float: "f64_eq x y \<Longrightarrow> of_eq F x y" for x y
    using assms(1) by (simp add: of_laws_def)
  show "vk_eq F (from_value v) (from_value w)"
    using assms(2) by (cases v; cases w) (simp_all add: refl float)
  show "as_f64 v = Some a \<Longrightarrow> \<exists>b. as_f64 w = Some b \<and> of_eq F a b"
    using assms(2) by (cases v; cases w) (auto simp: refl float)
  show "as_f64 w = Some b \<Longrightarrow> \<exists>a. as_f64 v = Some a \<and> of_eq F b a"
    using assms(2) by (cases v; cases w) (auto simp: refl intro: sym float)
qed

lemma metadata_eq_lookup:
  assumes "metadata_eq m n" "hm_wf m" "hm_wf n"
  shows "(k, v) \<in> set m \<Longrightarrow> \<exists>w. (k, w) \<in> set n \<and> mv_eq v w"
    "(k, w) \<in> set n \<Longrightarrow> \<exists>v. (k, v) \<in> set m \<and> mv_eq v w"
proof -
  have fwd: "\<exists>w. map_of n k = Some w \<and> mv_eq v w" if "(k, v) \<in> set m" for k v
    using assms(1) that by (force simp: metadata_eq_def list_all_iff split: option.splits)
  then show "(k, v) \<in> set m \<Longrightarrow> \<exists>w. (k, w) \<in> set n \<and> mv_eq v w"
    by (meson map_of_SomeD)
  have "fst ` set m \<subseteq> fst ` set n"
  proof
    fix k assume "k \<in> fst ` set m"
    then obtain v where "(k, v) \<in> set m" by auto
    from fwd [OF this] obtain w where "map_of n k = Some w" by blast
    then have "(k, w) \<in> set n" by (rule map_of_SomeD)
    then show "k \<in> fst ` set n" by force
  qed
  moreover have "card (fst ` set m) = card (fst ` set n)"
    using assms by (simp add: metadata_eq_def hm_wf_def distinct_card flip: set_map)
  ultimately have keys: "fst ` set m = fst ` set n" by (simp add: card_subset_eq)
  assume kw: "(k, w) \<in> set n"
  then obtain v where v: "(k, v) \<in> set m" using keys by force
  from fwd [OF v] kw hm_wf_in_set [OF assms(3)] show "\<exists>v. (k, v) \<in> set m \<and> mv_eq v w"
    using v by auto
qed

lemma equiv_relD3:
  assumes "equiv_rel eq" "eq a b" shows "eq a c \<longleftrightarrow> eq b c" "eq c a \<longleftrightarrow> eq c b"
  using assms unfolding equiv_rel_def by blast+

lemma metadata_eq_entries:
  assumes F: "of_laws F" and eq: "metadata_eq m n" "hm_wf m" "hm_wf n"
  shows "entry_eq F m key k \<longleftrightarrow> entry_eq F n key k" "entry_num F m key x \<longleftrightarrow> entry_num F n key x"
proof -
  note L = metadata_eq_lookup [OF eq] and K = mv_eq_keys [OF F]
  note V = equiv_relD3 [OF vk_eq_equiv [OF F]] and N = equiv_relD3 [OF of_eq_equiv [OF F]]
  show "entry_eq F m key k \<longleftrightarrow> entry_eq F n key k"
    unfolding entry_eq_def by (meson L K(1) V(1))
  show "entry_num F m key x \<longleftrightarrow> entry_num F n key x"
    unfolding entry_num_def by (meson L K(2,3) N(1))
qed

lemma postings_repr_equal:
  assumes R: "postings_repr B F p M" and at: "M off = Some m" and eq: "metadata_eq m n" "hm_wf m" "hm_wf n"
  shows "postings_repr B F p (M(off \<mapsto> n))"
proof -
  have F: "of_laws F" using postings_repr_laws [OF R] by simp
  show ?thesis
    using R at metadata_eq_entries [OF F eq] unfolding postings_repr_def by auto
qed

section \<open>Every operation keeps the invariant\<close>

lemma coll_invD:
  assumes "coll_inv E c"
  shows "offsets_inv c" "records_inv c"
    "postings_repr (env_bitmap E) (env_float E) (co_postings c) (doc_map c)" "buffer_inv c" "index_inv E c"
  using assms by (simp_all add: coll_inv_def)

lemma records_invD:
  assumes "records_inv c"
  shows "hm_wf (co_records c)"
    "map_of (co_records c) i = Some r \<Longrightarrow> lr_id r = i"
    "map_of (co_records c) i = Some r \<Longrightarrow> hm_wf (md_or_empty (lr_metadata r))"
    "map_of (co_offsets c) i = Some off \<Longrightarrow> map_of (co_records c) i \<noteq> None"
    "map_of (co_records c) i = Some r \<Longrightarrow> map_of (co_offsets c) i = None \<Longrightarrow> lr_metadata r = None"
  using assms unfolding records_inv_def by auto

text \<open>The metadata the postings hold at the offset of an id is that of its record.\<close>

lemma old_metadata:
  assumes O: "offsets_inv c" and R: "records_inv c" and "offset_for i c = (c1, off)" "co_next_offset c \<noteq> - 1"
  shows "map_of (co_records c) i = Some old \<Longrightarrow> doc_map c off = None \<or> doc_map c off = Some (md_or_empty (lr_metadata old))"
    "map_of (co_records c) i = None \<Longrightarrow> doc_map c off = None"
proof -
  note I = offset_for_inv [OF O assms(4,3)]
  show "map_of (co_records c) i = Some old \<Longrightarrow> doc_map c off = None \<or> doc_map c off = Some (md_or_empty (lr_metadata old))"
    using I doc_map_at [OF O R] by (cases "map_of (co_offsets c) i") auto
  show "map_of (co_records c) i = None \<Longrightarrow> doc_map c off = None"
    using I doc_map_at(2) [OF O R] records_invD(4) [OF R] by (cases "map_of (co_offsets c) i") auto
qed

lemma records_inv_write:
  assumes "records_inv c" "map_of (co_offsets c') = (map_of (co_offsets c))(i \<mapsto> off)"
    "co_records c' = AList.update i r (co_records c)" "lr_id r = i" "hm_wf (md_or_empty (lr_metadata r))"
  shows "records_inv c'"
  using assms unfolding records_inv_def by auto

lemma index_inv_mono:
  assumes "index_inv E c" "co_index c' = co_index c" "dom (map_of (co_records c)) \<subseteq> dom (map_of (co_records c'))"
  shows "index_inv E c'"
  using assms unfolding index_inv_def by (metis subset_trans)

lemma buffer_inv_mono:
  assumes "buffer_inv c" "co_buffer c' = co_buffer c" "dom (map_of (co_records c)) \<subseteq> dom (map_of (co_records c'))"
  shows "buffer_inv c'"
  using assms unfolding buffer_inv_def by (metis domIff subsetD)

lemma buffer_inv_put:
  assumes "buffer_inv c" "co_buffer c' = retain_other i (co_buffer c) @ [r]" "lr_id r = i" "lr_embedding r \<noteq> None"
    "map_of (co_records c') = (map_of (co_records c))(i \<mapsto> r)"
  shows "buffer_inv c'"
  using assms unfolding buffer_inv_def
  by (auto simp: retain_other_def distinct_map_filter)

lemma update_dom: "map_of (co_records c') = (map_of (co_records c))(i \<mapsto> r) \<Longrightarrow>
    dom (map_of (co_records c)) \<subseteq> dom (map_of (co_records c'))"
  by auto

lemma apply_put_inv:
  assumes I: "coll_inv E c" and next_ok: "co_next_offset c \<noteq> - 1" and wf: "hm_wf (md_or_empty m)"
  shows "coll_inv E (apply_put E i e m d seq c) \<and>
    map_of (co_records (apply_put E i e m d seq c)) = (map_of (co_records c))
      (i \<mapsto> \<lparr>lr_id = i, lr_embedding = Some e, lr_metadata = m, lr_document = d, lr_seq = seq\<rparr>) \<and>
    unat (co_next_offset (apply_put E i e m d seq c)) \<le> unat (co_next_offset c) + 1"
proof -
  note D = coll_invD [OF I]
  obtain c1 off where off: "offset_for i c = (c1, off)" by (cases "offset_for i c")
  note O = offset_for_inv [OF D(1) next_ok off] and Fl = offset_for_fields [OF off]
  note old = old_metadata [OF D(1,2) off next_ok]
  let ?B = "env_bitmap E" and ?F = "env_float E"
  let ?r = "\<lparr>lr_id = i, lr_embedding = Some e, lr_metadata = m, lr_document = d, lr_seq = seq\<rparr>"
  let ?p1 = "case map_of (co_records c) i of Some r \<Rightarrow> postings_remove ?B ?F off (lr_metadata r) (co_postings c)
    | None \<Rightarrow> co_postings c"
  let ?c' = "c1\<lparr>co_postings := postings_insert ?B ?F off m ?p1, co_records := AList.update i ?r (co_records c),
    co_buffer := retain_other i (co_buffer c) @ [?r]\<rparr>"
  have c': "apply_put E i e m d seq c = ?c'" by (simp add: apply_put_def Let_def off Fl cong: option.case_cong)
  have rm: "postings_repr ?B ?F ?p1 ((doc_map c)(off := None))"
  proof (cases "map_of (co_records c) i")
    case None
    then show ?thesis using D(3) old(2) by (simp add: fun_upd_idem)
  next
    case (Some r)
    then show ?thesis using postings.remove_repr [OF D(3) old(1) [OF Some]] by simp
  qed
  have recs: "map_of (co_records ?c') = (map_of (co_records c))(i \<mapsto> ?r)"
    by (simp add: update_conv')
  have ids: "map_of (co_id_by_offset ?c') = (map_of (co_id_by_offset c))(off \<mapsto> i)"
    and here: "map_of (co_offsets c) i = None \<or> map_of (co_offsets c) i = Some off" using O by simp_all
  have P: "postings_repr ?B ?F (co_postings ?c') (doc_map ?c')"
    using postings.insert_repr [OF rm, of off m] doc_map_write [OF D(1) ids recs here] by simp
  have "offsets_inv ?c'" by (rule offsets_inv_cong [OF conjunct1 [OF O]]) simp_all
  moreover have "records_inv ?c'"
    by (rule records_inv_write [OF D(2), where i = i and off = off and r = ?r]) (use O wf in \<open>simp_all\<close>)
  moreover have "buffer_inv ?c'" by (rule buffer_inv_put [OF D(4) _ _ _ recs]) simp_all
  moreover have "index_inv E ?c'" by (rule index_inv_mono [OF D(5) _ update_dom [OF recs]]) (simp add: Fl)
  ultimately show ?thesis using P O recs by (simp add: c' coll_inv_def)
qed

lemma doc_map_equal_write:
  assumes O: "offsets_inv c" and "map_of (co_offsets c) i = Some off" "co_id_by_offset c' = co_id_by_offset c"
    and recs: "map_of (co_records c') = (map_of (co_records c))(i \<mapsto> r)"
  shows "doc_map c' = (doc_map c)(off \<mapsto> md_or_empty (lr_metadata r))"
proof -
  have "map_of (co_id_by_offset c) off = Some i" using O assms(2) unfolding offsets_inv_def by blast
  then show ?thesis by (intro doc_map_write [OF O _ recs]) (use assms(2,3) in \<open>auto simp: fun_eq_iff\<close>)
qed

text \<open>An update that leaves equal metadata does not touch the postings, and need not.\<close>

lemma postings_unchanged:
  assumes I: "coll_inv E c" and old: "old = map_of (co_records c) i"
    and eq: "opt_metadata_eq (Option.bind old lr_metadata) m" and wf: "hm_wf (md_or_empty m)"
    and c': "co_offsets c' = co_offsets c" "co_id_by_offset c' = co_id_by_offset c"
      "map_of (co_records c') = (map_of (co_records c))(i \<mapsto> r)" "lr_metadata r = m"
  shows "postings_repr (env_bitmap E) (env_float E) (co_postings c) (doc_map c')"
proof (cases "map_of (co_offsets c) i")
  case None
  have "map_of (co_id_by_offset c) x \<noteq> Some i" for x
    using offsets_iff [OF coll_invD(1) [OF I]] None by simp
  then have "doc_map c' = doc_map c"
    by (rule_tac ext, case_tac "map_of (co_id_by_offset c) x") (auto simp: doc_map_def c')
  then show ?thesis using coll_invD(3) [OF I] by simp
next
  case (Some off)
  note D = coll_invD [OF I]
  obtain r0 where r0: "old = Some r0" using records_invD(4) [OF D(2) Some] old by auto
  have at: "doc_map c off = Some (md_or_empty (lr_metadata r0))"
    using doc_map_at(1) [OF D(1,2) Some] r0 old by simp
  have "postings_repr (env_bitmap E) (env_float E) (co_postings c) ((doc_map c)(off \<mapsto> md_or_empty m))"
  proof (cases "lr_metadata r0")
    case None
    then have "m = None" using eq r0 by (cases m) simp_all
    then show ?thesis using D(3) at None by (simp add: fun_upd_idem)
  next
    case (Some a)
    then obtain b where b: "m = Some b" "metadata_eq a b" using eq r0 by (cases m) simp_all
    have "hm_wf a" using records_invD(3) [OF D(2), of i r0] r0 old Some by simp
    then show ?thesis using postings_repr_equal [OF D(3) at, of b] Some b wf by simp
  qed
  then show ?thesis using doc_map_equal_write [OF D(1) Some c'(2,3)] c'(4) by simp
qed

lemma apply_update_inv:
  assumes I: "coll_inv E c" and next_ok: "co_next_offset c \<noteq> - 1" and wf: "hm_wf (md_or_empty m)"
  shows "coll_inv E (apply_update E i m d seq c) \<and>
    map_of (co_records (apply_update E i m d seq c)) = (map_of (co_records c))
      (i \<mapsto> \<lparr>lr_id = i, lr_embedding = Option.bind (map_of (co_records c) i) lr_embedding,
             lr_metadata = m, lr_document = d, lr_seq = seq\<rparr>) \<and>
    unat (co_next_offset (apply_update E i m d seq c)) \<le> unat (co_next_offset c) + 1"
proof -
  note D = coll_invD [OF I]
  let ?B = "env_bitmap E" and ?F = "env_float E"
  let ?old = "case map_of (co_records c) i of Some r \<Rightarrow> r
    | None \<Rightarrow> \<lparr>lr_id = i, lr_embedding = None, lr_metadata = None, lr_document = None, lr_seq = seq\<rparr>"
  let ?r = "\<lparr>lr_id = i, lr_embedding = Option.bind (map_of (co_records c) i) lr_embedding,
             lr_metadata = m, lr_document = d, lr_seq = seq\<rparr>"
  let ?c1 = "c\<lparr>co_records := AList.update i ?r (co_records c)\<rparr>"
  have r: "?old\<lparr>lr_metadata := m, lr_document := d, lr_seq := seq\<rparr> = ?r"
    using records_invD(2) [OF D(2), of i] by (auto split: option.split)
  have om: "lr_metadata ?old = Option.bind (map_of (co_records c) i) lr_metadata"
    by (simp split: option.split)
  show ?thesis
  proof (cases "opt_metadata_eq (lr_metadata ?old) m")
    case True
    have c': "apply_update E i m d seq c = ?c1"
      using True unfolding apply_update_def Let_def r by simp
    have recs: "map_of (co_records ?c1) = (map_of (co_records c))(i \<mapsto> ?r)" by (simp add: update_conv')
    have "postings_repr ?B ?F (co_postings c) (doc_map ?c1)"
      by (rule postings_unchanged [OF I refl _ wf _ _ recs]) (use True om in simp_all)
    moreover have "offsets_inv ?c1" by (rule offsets_inv_cong [OF D(1)]) simp_all
    moreover have "records_inv ?c1"
    proof -
      have "m = None" if "map_of (co_offsets c) i = None"
      proof -
        have "lr_metadata ?old = None"
          using records_invD(5) [OF D(2) _ that] by (simp split: option.split)
        then show ?thesis using True by (cases m) simp_all
      qed
      then show ?thesis using D(2) wf unfolding records_inv_def by auto
    qed
    moreover have "buffer_inv ?c1" by (rule buffer_inv_mono [OF D(4) _ update_dom [OF recs]]) simp
    moreover have "index_inv E ?c1" by (rule index_inv_mono [OF D(5) _ update_dom [OF recs]]) simp
    ultimately show ?thesis using recs by (simp add: c' coll_inv_def)
  next
    case False
    obtain c2 off where off: "offset_for i c = (c2, off)" by (cases "offset_for i c")
    have off1: "offset_for i ?c1 = (c2\<lparr>co_records := AList.update i ?r (co_records c)\<rparr>, off)"
      using off by (auto simp: offset_for_def Let_def split: option.splits)
    note O = offset_for_inv [OF D(1) next_ok off] and Fl = offset_for_fields [OF off]
    note old = old_metadata [OF D(1,2) off next_ok]
    let ?p1 = "postings_remove ?B ?F off (lr_metadata ?old) (co_postings c)"
    let ?c' = "c2\<lparr>co_records := AList.update i ?r (co_records c), co_postings := postings_insert ?B ?F off m ?p1\<rparr>"
    have c': "apply_update E i m d seq c = ?c'"
      using False unfolding apply_update_def Let_def r by (simp add: off1 Fl)
    have "doc_map c off = None \<or> doc_map c off = Some (md_or_empty (lr_metadata ?old))"
      using old by (cases "map_of (co_records c) i") auto
    from postings.replace_repr [OF D(3) this, of m]
    have rep: "postings_repr ?B ?F (co_postings ?c') ((doc_map c)(off \<mapsto> md_or_empty (lr_metadata ?r)))" by simp
    have recs: "map_of (co_records ?c') = (map_of (co_records c))(i \<mapsto> ?r)" by (simp add: update_conv')
    have ids: "map_of (co_id_by_offset ?c') = (map_of (co_id_by_offset c))(off \<mapsto> i)"
      and here: "map_of (co_offsets c) i = None \<or> map_of (co_offsets c) i = Some off" using O by simp_all
    have P: "postings_repr ?B ?F (co_postings ?c') (doc_map ?c')"
      unfolding doc_map_write [OF D(1) ids recs here] by (rule rep)
    have "offsets_inv ?c'" by (rule offsets_inv_cong [OF conjunct1 [OF O]]) simp_all
    moreover have "records_inv ?c'"
      by (rule records_inv_write [OF D(2), where i = i and off = off and r = ?r]) (use O wf in \<open>simp_all\<close>)
    moreover have "buffer_inv ?c'" by (rule buffer_inv_mono [OF D(4) _ update_dom [OF recs]]) (simp add: Fl)
    moreover have "index_inv E ?c'" by (rule index_inv_mono [OF D(5) _ update_dom [OF recs]]) (simp add: Fl)
    ultimately show ?thesis using P O recs by (simp add: c' coll_inv_def)
  qed
qed

lemma apply_delete_inv:
  assumes I: "coll_inv E c"
  shows "coll_inv E (apply_delete E i c) \<and>
    map_of (co_records (apply_delete E i c)) = (map_of (co_records c))(i := None) \<and>
    co_next_offset (apply_delete E i c) = co_next_offset c"
proof -
  note D = coll_invD [OF I]
  let ?B = "env_bitmap E" and ?F = "env_float E" and ?c' = "apply_delete E i c"
  have recs: "map_of (co_records ?c') = (map_of (co_records c))(i := None)"
    by (auto simp: apply_delete_def Let_def fun_eq_iff split: option.split)
  have offs: "map_of (co_offsets ?c') = (map_of (co_offsets c))(i := None)"
    by (auto simp: apply_delete_def Let_def fun_eq_iff split: option.split)
  have nxt: "co_next_offset ?c' = co_next_offset c"
    by (simp add: apply_delete_def Let_def split: option.split)
  have ids: "map_of (co_id_by_offset ?c') x = (if map_of (co_offsets c) i = Some x then None else map_of (co_id_by_offset c) x)" for x
    by (auto simp: apply_delete_def Let_def split: option.split)
  have wf: "hm_wf (co_offsets ?c')" "hm_wf (co_id_by_offset ?c')" "hm_wf (co_records ?c')"
    using D(1,2) by (simp_all add: apply_delete_def Let_def offsets_inv_def records_inv_def split: option.split)
  have uniq: "j = i" if "map_of (co_offsets c) i = Some off" "map_of (co_offsets c) j = Some off" for j off
    using that offsets_iff [OF D(1)] by (metis option.inject)
  have O: "offsets_inv ?c'"
    using wf(1,2) D(1) offsets_iff [OF D(1)] unfolding offsets_inv_def
    by (auto simp: offs ids nxt dest: uniq)
  have R: "records_inv ?c'"
    using D(2) wf(3) unfolding records_inv_def by (auto simp: recs offs)
  have buf: "co_buffer ?c' = retain_other i (co_buffer c)"
    by (simp add: apply_delete_def Let_def split: option.split)
  have "buffer_inv ?c'"
    using D(4) unfolding buffer_inv_def by (auto simp: buf retain_other_def recs distinct_map_filter)
  moreover have "index_inv E ?c'"
  proof -
    obtain V where V: "index_repr (env_ann E) (co_index c) V" "dom V \<subseteq> dom (map_of (co_records c))"
      using D(5) unfolding index_inv_def by blast
    have ix: "co_index ?c' = index_delete (env_ann E) i (co_index c)"
      by (simp add: apply_delete_def Let_def split: option.split)
    show ?thesis
      unfolding index_inv_def ix recs using usearch.delete_ok [OF V(1), of i] V(2)
      by (intro exI [of _ "V(i := None)"]) auto
  qed
  moreover have "postings_repr ?B ?F (co_postings ?c') (doc_map ?c')"
  proof (cases "map_of (co_offsets c) i")
    case None
    have "map_of (co_id_by_offset c) x \<noteq> Some i" for x using offsets_iff [OF D(1)] None by simp
    then have "doc_map ?c' x = doc_map c x" for x
      by (cases "map_of (co_id_by_offset c) x") (auto simp: doc_map_def ids recs None)
    then have "doc_map ?c' = doc_map c" by (rule ext)
    moreover have "co_postings ?c' = co_postings c" by (simp add: apply_delete_def Let_def None)
    ultimately show ?thesis using D(3) by simp
  next
    case (Some off)
    obtain r where r: "map_of (co_records c) i = Some r" using records_invD(4) [OF D(2) Some] by auto
    have "map_of (co_id_by_offset c) x = Some i \<Longrightarrow> x = off" for x
      using offsets_iff [OF D(1)] Some by simp
    then have "doc_map ?c' x = ((doc_map c)(off := None)) x" for x
      by (cases "map_of (co_id_by_offset c) x") (auto simp: doc_map_def ids recs Some)
    then have dm: "doc_map ?c' = (doc_map c)(off := None)" by (rule ext)
    have "co_postings ?c' = postings_remove_all ?B off (postings_remove ?B ?F off (lr_metadata r) (co_postings c))"
      by (simp add: apply_delete_def Let_def Some r)
    then show ?thesis
      using postings.delete_repr [OF D(3) disjI2 [OF doc_map_at(1) [OF D(1,2) Some r]]] dm by simp
  qed
  ultimately show ?thesis using O R recs nxt by (simp add: coll_inv_def)
qed

lemma apply_operation_inv:
  assumes "coll_inv E c" "co_next_offset c \<noteq> - 1" "op_wf op"
  shows "coll_inv E (apply_operation E op seq c) \<and>
    map_of (co_records (apply_operation E op seq c)) = spec_apply op seq (map_of (co_records c)) \<and>
    unat (co_next_offset (apply_operation E op seq c)) \<le> unat (co_next_offset c) + 1"
  using assms apply_put_inv [OF assms(1,2)] apply_update_inv [OF assms(1,2)] apply_delete_inv [OF assms(1)]
  by (cases op) (simp_all add: spec_apply_def)

text \<open>A whole batch, as long as the offsets do not run out.\<close>

lemma apply_records_inv:
  "coll_inv E c \<Longrightarrow> unat (co_next_offset c) + length rs < 2 ^ 32 \<Longrightarrow> list_all (\<lambda>r. op_wf (wr_op r)) rs \<Longrightarrow>
   coll_inv E (apply_records E rs c) \<and>
   map_of (co_records (apply_records E rs c)) = spec_replay rs (map_of (co_records c)) \<and>
   unat (co_next_offset (apply_records E rs c)) \<le> unat (co_next_offset c) + length rs"
proof (induction rs arbitrary: c)
  case Nil
  then show ?case by (simp add: apply_records_def)
next
  case (Cons r rs)
  have nxt: "co_next_offset c \<noteq> - 1"
    using Cons.prems(2) by (auto simp: unat_max32)
  let ?c1 = "apply_operation E (wr_op r) (wr_seq r) c"
  have 1: "coll_inv E ?c1" "map_of (co_records ?c1) = spec_apply (wr_op r) (wr_seq r) (map_of (co_records c))"
    "unat (co_next_offset ?c1) \<le> unat (co_next_offset c) + 1"
    using apply_operation_inv [OF Cons.prems(1) nxt, of "wr_op r" "wr_seq r"] Cons.prems(3) by simp_all
  have "unat (co_next_offset ?c1) + length rs < 2 ^ 32" using 1(3) Cons.prems(2) by simp
  from Cons.IH [OF 1(1) this] Cons.prems(3) 1 show ?case by (simp add: apply_records_def)
qed

end
