(* ===== verification/Collection_Index.thy ===== *)
theory Collection_Index
  imports Collection_Semantics
begin

text \<open>
  The vectors of a collection: flushing the buffer into the index, and the current vector of an id,
  which is the buffered one if there is one and the indexed one otherwise. Flushing moves vectors
  without changing any of them, and \<open>vector_inv\<close> says that they are those of the records.
\<close>

section \<open>Adding succeeds\<close>

text \<open>Reserving fails only when memory runs out; where a flush has to succeed this is assumed away.\<close>

definition ann_reserves :: "'g ann_ops \<Rightarrow> bool" where
  "ann_reserves A \<longleftrightarrow> (\<forall>n g. \<exists>g'. ann_reserve A n g = Inr g')"

lemma ensure_capacity_total: "ann_reserves A \<Longrightarrow> \<exists>g'. ensure_capacity A g = Inr g'"
  unfolding ensure_capacity_def ann_reserves_def by (metis (no_types, lifting) old.sum.simps(6))

lemma index_next_label:
  "index_add A i e x = (x', Inr u) \<Longrightarrow> ui_next_label x' = ui_next_label x + 1"
  "ui_next_label (index_delete A i x) = ui_next_label x"
  by (auto simp: index_add_def index_delete_def Let_def split: if_splits sum.splits option.splits)

lemma index_add_total:
  assumes R: "index_repr A x V" and "ann_reserves A" and new: "V i = None" "length e = ui_dimension x"
  shows "\<exists>x'. index_add A i e x = (x', Inr ())"
proof -
  note D = index_reprD [OF R]
  let ?l = "ui_next_label x"
  obtain inner where inner: "ensure_capacity A (ui_inner x) = Inr inner"
    using ensure_capacity_total [OF assms(2)] by blast
  have "map_of (ui_ids x) ?l = None" using D(5) [of ?l] by (cases "map_of (ui_ids x) ?l") auto
  then have free: "ann_vectors A inner ?l = None"
    using D(6) ensure_capacity_ok [OF D(1) inner] by (metis domIff)
  obtain inner' where "ann_add A ?l e inner = Inr inner'"
    using ann_laws_add(2) [OF D(1) free] ensure_capacity_ok [OF D(1) inner] by blast
  moreover have "map_of (ui_labels x) i = None"
    using index_repr_contains [OF R, of i] new(1) by (simp add: index_contains_def)
  ultimately show ?thesis using new(2) inner by (simp add: index_add_def Let_def)
qed

section \<open>Flushing\<close>

definition store_vector :: "live_record \<Rightarrow> (id \<rightharpoonup> embedding) \<Rightarrow> (id \<rightharpoonup> embedding)" where
  "store_vector b V = (case lr_embedding b of None \<Rightarrow> V | Some e \<Rightarrow> V(lr_id b \<mapsto> e))"

definition max_seq_of :: "live_record \<Rightarrow> u64 \<Rightarrow> u64" where
  "max_seq_of b m = (if lr_embedding b = None then m else max m (lr_seq b))"

lemma store_vector_simps:
  "lr_embedding b = None \<Longrightarrow> store_vector b V = V" "lr_embedding b = Some e \<Longrightarrow> store_vector b V = V(lr_id b \<mapsto> e)"
  by (simp_all add: store_vector_def)

lemma max_seq_of_simps:
  "lr_embedding b = None \<Longrightarrow> max_seq_of b m = m" "lr_embedding b = Some e \<Longrightarrow> max_seq_of b m = max m (lr_seq b)"
  by (simp_all add: max_seq_of_def)

lemma replace_total:
  assumes R: "index_repr A x V" and "ann_reserves A" "ui_next_label x \<noteq> - 1" "length e = ui_dimension x"
  shows "\<exists>x'. index_add A i e (if index_contains i x then index_delete A i x else x) = (x', Inr ()) \<and>
    index_repr A x' (V(i \<mapsto> e)) \<and> ui_dimension x' = ui_dimension x \<and> ui_next_label x' = ui_next_label x + 1"
proof -
  let ?x = "if index_contains i x then index_delete A i x else x"
  have del: "index_repr A ?x (V(i := None))" "ui_dimension ?x = ui_dimension x" "ui_next_label ?x = ui_next_label x"
    using R usearch.delete_ok [OF R, of i] usearch.contains_iff [OF R, of i] index_next_label(2) [of A i x]
    by (auto simp: fun_upd_idem)
  obtain x' where x': "index_add A i e ?x = (x', Inr ())"
    using index_add_total [OF del(1) assms(2), of i e] assms(4) del(2) by auto
  show ?thesis
    using usearch.add_ok [OF del(1) _ x'] index_next_label(1) [OF x'] del(2,3) assms(3) x' by auto
qed

lemma flush_loop_total:
  assumes "ann_reserves A"
  shows "index_repr A x V \<Longrightarrow> unat (ui_next_label x) + length batch < 2 ^ 64 \<Longrightarrow>
    \<forall>b\<in>set batch. \<forall>e. lr_embedding b = Some e \<longrightarrow> length e = ui_dimension x \<Longrightarrow>
    \<exists>x'. flush_loop A batch m x = (x', Inr (fold max_seq_of batch m)) \<and>
      index_repr A x' (fold store_vector batch V) \<and> ui_dimension x' = ui_dimension x \<and>
      unat (ui_next_label x') \<le> unat (ui_next_label x) + length batch"
proof (induction batch arbitrary: m x V)
  case Nil
  then show ?case by simp
next
  case (Cons b batch)
  show ?case
  proof (cases "lr_embedding b")
    case None
    have room: "unat (ui_next_label x) + length batch < 2 ^ 64"
      and dims: "\<forall>b\<in>set batch. \<forall>e. lr_embedding b = Some e \<longrightarrow> length e = ui_dimension x"
      using Cons.prems(2,3) by simp_all
    from Cons.IH [OF Cons.prems(1) this, of m] obtain x' where
      "flush_loop A batch m x = (x', Inr (fold max_seq_of batch m))" "index_repr A x' (fold store_vector batch V)"
      "ui_dimension x' = ui_dimension x" "unat (ui_next_label x') \<le> unat (ui_next_label x) + length batch"
      by blast
    then show ?thesis using None by (intro exI [of _ x']) (simp add: store_vector_simps max_seq_of_simps)
  next
    case (Some e)
    have room: "ui_next_label x \<noteq> - 1" using Cons.prems(2) by (auto simp: unat_max64)
    let ?x = "if index_contains (lr_id b) x then index_delete A (lr_id b) x else x"
    from replace_total [OF Cons.prems(1) assms room, of e "lr_id b"] Some Cons.prems(3)
    obtain x1 where x1: "index_add A (lr_id b) e ?x = (x1, Inr ())"
        "index_repr A x1 (V(lr_id b \<mapsto> e))" "ui_dimension x1 = ui_dimension x" "ui_next_label x1 = ui_next_label x + 1"
      by auto
    have step: "flush_loop A (b # batch) m x = flush_loop A batch (max m (lr_seq b)) x1"
      using Some x1(1) by (simp add: Let_def)
    have "unat (ui_next_label x1) + length batch < 2 ^ 64" "unat (ui_next_label x1) = Suc (unat (ui_next_label x))"
      using unat_succ [OF room] x1(4) Cons.prems(2) by simp_all
    then have room1: "unat (ui_next_label x1) + length batch < 2 ^ 64" "unat (ui_next_label x1) = Suc (unat (ui_next_label x))"
      by simp_all
    have dims: "\<forall>b\<in>set batch. \<forall>e. lr_embedding b = Some e \<longrightarrow> length e = ui_dimension x1"
      using Cons.prems(3) x1(3) by simp
    obtain x' where
      "flush_loop A batch (max m (lr_seq b)) x1 = (x', Inr (fold max_seq_of batch (max m (lr_seq b))))"
      "index_repr A x' (fold store_vector batch (V(lr_id b \<mapsto> e)))" "ui_dimension x' = ui_dimension x1"
      "unat (ui_next_label x') \<le> Suc (unat (ui_next_label x)) + length batch"
      using Cons.IH [OF x1(2) room1(1) dims, of "max m (lr_seq b)"] room1(2) by metis
    then show ?thesis using x1(3) unfolding step
      by (intro exI [of _ x']) (simp add: store_vector_simps(2) [OF Some] max_seq_of_simps(2) [OF Some])
  qed
qed

text \<open>A flush that fails leaves some of the buffer in the index and drops the rest of it.\<close>

lemma flush_loop_dom:
  "index_repr A x V \<Longrightarrow> unat (ui_next_label x) + length batch < 2 ^ 64 \<Longrightarrow> flush_loop A batch m x = (x', res) \<Longrightarrow>
   \<exists>V'. index_repr A x' V' \<and> dom V' \<subseteq> dom V \<union> lr_id ` set batch"
proof (induction batch arbitrary: m x V)
  case Nil
  then show ?case by auto
next
  case (Cons b batch)
  show ?case
  proof (cases "lr_embedding b")
    case None
    then have "flush_loop A batch m x = (x', res)" "unat (ui_next_label x) + length batch < 2 ^ 64"
      using Cons.prems(2,3) by simp_all
    from Cons.IH [OF Cons.prems(1) this(2,1)] obtain V' where
      "index_repr A x' V'" "dom V' \<subseteq> dom V \<union> lr_id ` set batch" by blast
    then show ?thesis by (intro exI [of _ V']) auto
  next
    case (Some e)
    have room: "ui_next_label x \<noteq> - 1" using Cons.prems(2) by (auto simp: unat_max64)
    let ?x = "if index_contains (lr_id b) x then index_delete A (lr_id b) x else x"
    obtain W where W: "index_repr A ?x W" "dom W \<subseteq> dom V"
      using Cons.prems(1) usearch.delete_ok [OF Cons.prems(1), of "lr_id b"]
      by (cases "index_contains (lr_id b) x") (auto intro: that)
    have room': "ui_next_label ?x \<noteq> - 1" using room index_next_label(2) [of A "lr_id b" x] by simp
    obtain x1 r where x1: "index_add A (lr_id b) e ?x = (x1, r)" by (cases "index_add A (lr_id b) e ?x")
    show ?thesis
    proof (cases r)
      case (Inl err)
      then have "x' = x1" using Cons.prems(3) Some x1 by (simp add: Let_def)
      then show ?thesis using usearch.add_err [OF W(1) room'] x1 Inl W(2) by (intro exI [of _ W]) auto
    next
      case (Inr u)
      then have fl: "flush_loop A batch (max m (lr_seq b)) x1 = (x', res)"
        using Cons.prems(3) Some x1 by (simp add: Let_def)
      have rep: "index_repr A x1 (W(lr_id b \<mapsto> e))" using usearch.add_ok [OF W(1) room'] x1 Inr by simp
      have "unat (ui_next_label x1) + length batch < 2 ^ 64"
        using unat_succ [OF room] index_next_label(1) [of A "lr_id b" e ?x x1] index_next_label(2) [of A "lr_id b" x]
          x1 Inr Cons.prems(2) by simp
      from Cons.IH [OF rep this fl] obtain V' where
        "index_repr A x' V'" "dom V' \<subseteq> dom (W(lr_id b \<mapsto> e)) \<union> lr_id ` set batch" by blast
      then show ?thesis using W(2) by (intro exI [of _ V']) auto
    qed
  qed
qed

text \<open>A record found in the buffer by its id, and the current vector of an id.\<close>

definition buffered :: "('b, 'g) collection \<Rightarrow> id \<Rightarrow> live_record option" where
  "buffered c i = List.find (\<lambda>b. lr_id b = i) (co_buffer c)"

definition current_vector :: "('b, 'g) collection \<Rightarrow> (id \<rightharpoonup> embedding) \<Rightarrow> (id \<rightharpoonup> embedding)" where
  "current_vector c V i = (case Option.bind (buffered c i) lr_embedding of Some e \<Rightarrow> Some e | None \<Rightarrow> V i)"

lemma find_distinct:
  "distinct (map f xs) \<Longrightarrow> x \<in> set xs \<Longrightarrow> List.find (\<lambda>y. f y = f x) xs = Some x"
  by (induction xs) auto

lemma fold_store_vector:
  "distinct (map lr_id batch) \<Longrightarrow> \<forall>b\<in>set batch. lr_embedding b \<noteq> None \<Longrightarrow>
   fold store_vector batch V i =
     (case Option.bind (List.find (\<lambda>b. lr_id b = i) batch) lr_embedding of Some e \<Rightarrow> Some e | None \<Rightarrow> V i)"
proof (induction batch arbitrary: V)
  case Nil
  then show ?case by simp
next
  case (Cons b batch)
  obtain e where e: "lr_embedding b = Some e" using Cons.prems(2) by auto
  have "List.find (\<lambda>b. lr_id b = i) batch = None" if "lr_id b = i"
    using Cons.prems(1) that unfolding find_None_iff by (metis distinct.simps(2) image_eqI list.simps(9) set_map)
  moreover have "fold store_vector batch (V(lr_id b \<mapsto> e)) i =
      (case Option.bind (List.find (\<lambda>b. lr_id b = i) batch) lr_embedding of Some e \<Rightarrow> Some e
       | None \<Rightarrow> (V(lr_id b \<mapsto> e)) i)"
    using Cons.IH Cons.prems by simp
  ultimately show ?case
    by (cases "lr_id b = i") (simp_all add: store_vector_simps(2) [OF e] e split: option.split)
qed

text \<open>Every record that carries its embedding has it as its current vector.\<close>

definition vector_inv :: "('b, 'g) engine_env \<Rightarrow> ('b, 'g) collection \<Rightarrow> bool" where
  "vector_inv E c \<longleftrightarrow>
     (\<exists>V. index_repr (env_ann E) (co_index c) V \<and>
        (\<forall>i r e. map_of (co_records c) i = Some r \<longrightarrow> lr_embedding r = Some e \<longrightarrow> current_vector c V i = Some e))"

definition dims_ok :: "('b, 'g) collection \<Rightarrow> bool" where
  "dims_ok c \<longleftrightarrow> (\<forall>b\<in>set (co_buffer c). \<forall>e. lr_embedding b = Some e \<longrightarrow> length e = ui_dimension (co_index c))"

lemma flush_buffer_ok:
  assumes I: "coll_inv E c" and V: "index_repr (env_ann E) (co_index c) V" and "ann_reserves (env_ann E)" "dims_ok c"
    and room: "unat (ui_next_label (co_index c)) + length (co_buffer c) < 2 ^ 64"
  obtains x where "flush_buffer E c =
      (c\<lparr>co_buffer := [], co_index := x, co_flushed_seq := max (co_flushed_seq c) (fold max_seq_of (co_buffer c) 0)\<rparr>, Inr ())"
    "index_repr (env_ann E) x (current_vector c V)"
proof -
  obtain x where x: "flush_loop (env_ann E) (co_buffer c) 0 (co_index c) = (x, Inr (fold max_seq_of (co_buffer c) 0))"
      "index_repr (env_ann E) x (fold store_vector (co_buffer c) V)"
    using flush_loop_total [OF assms(3) V room, of 0] assms(4) by (auto simp: dims_ok_def)
  have "fold store_vector (co_buffer c) V i = current_vector c V i" for i
    using fold_store_vector [of "co_buffer c" V i] coll_invD(4) [OF I]
    by (auto simp: buffer_inv_def current_vector_def buffered_def)
  then have "fold store_vector (co_buffer c) V = current_vector c V" by (rule ext)
  with x show thesis by (intro that [of x]) (simp_all add: flush_buffer_def Let_def)
qed

lemma coll_inv_flushed:
  assumes I: "coll_inv E c" and "index_repr (env_ann E) x V" "dom V \<subseteq> dom (map_of (co_records c))"
  shows "coll_inv E (c\<lparr>co_buffer := [], co_index := x, co_flushed_seq := s\<rparr>)"
proof -
  note D = coll_invD [OF I]
  let ?c = "c\<lparr>co_buffer := [], co_index := x, co_flushed_seq := s\<rparr>"
  have "doc_map ?c = doc_map c" by (rule ext) (simp add: doc_map_def)
  moreover have "offsets_inv ?c" by (rule offsets_inv_cong [OF D(1)]) simp_all
  moreover have "records_inv ?c" using D(2) by (simp add: records_inv_def)
  moreover have "index_inv E ?c" using assms(2,3) by (auto simp: index_inv_def)
  ultimately show ?thesis using D(3) by (simp add: coll_inv_def buffer_inv_def)
qed

lemma current_vector_dom:
  assumes "coll_inv E c" "dom V \<subseteq> dom (map_of (co_records c))"
  shows "dom (current_vector c V) \<subseteq> dom (map_of (co_records c))"
proof
  fix i assume i: "i \<in> dom (current_vector c V)"
  show "i \<in> dom (map_of (co_records c))"
  proof (cases "buffered c i")
    case None
    then have "i \<in> dom V" using i by (auto simp: current_vector_def)
    then show ?thesis using assms(2) by blast
  next
    case (Some b)
    then obtain n where "n < length (co_buffer c)" "lr_id (co_buffer c ! n) = i" "b = co_buffer c ! n"
      unfolding buffered_def find_Some_iff by blast
    then have "b \<in> set (co_buffer c)" "lr_id b = i" by simp_all
    then show ?thesis using coll_invD(4) [OF assms(1)] unfolding buffer_inv_def by auto
  qed
qed

text \<open>A flush keeps the invariant whether it succeeds or not, and never touches the records.\<close>

lemma flush_buffer_records:
  "co_records (fst (flush_buffer E c)) = co_records c" "co_wal (fst (flush_buffer E c)) = co_wal c"
  "co_segments (fst (flush_buffer E c)) = co_segments c"
  "co_segment_index (fst (flush_buffer E c)) = co_segment_index c"
  by (auto simp: flush_buffer_def Let_def split: prod.split sum.split)

lemma flush_buffer_inv:
  assumes I: "coll_inv E c" and room: "unat (ui_next_label (co_index c)) + length (co_buffer c) < 2 ^ 64"
  shows "coll_inv E (fst (flush_buffer E c))"
proof -
  obtain V where V: "index_repr (env_ann E) (co_index c) V" "dom V \<subseteq> dom (map_of (co_records c))"
    using coll_invD(5) [OF I] unfolding index_inv_def by blast
  obtain x r where x: "flush_loop (env_ann E) (co_buffer c) 0 (co_index c) = (x, r)"
    by (cases "flush_loop (env_ann E) (co_buffer c) 0 (co_index c)")
  obtain V' where V': "index_repr (env_ann E) x V'" "dom V' \<subseteq> dom V \<union> lr_id ` set (co_buffer c)"
    using flush_loop_dom [OF V(1) room x] by blast
  have "lr_id ` set (co_buffer c) \<subseteq> dom (map_of (co_records c))"
    using coll_invD(4) [OF I] by (intro image_subsetI) (simp add: buffer_inv_def domIff)
  then have dom: "dom V' \<subseteq> dom (map_of (co_records c))" using V(2) V'(2)
    by (meson Un_least subset_trans)
  note inv = coll_inv_flushed [OF I V'(1) dom]
  show ?thesis
  proof (cases r)
    case (Inl e)
    then have "fst (flush_buffer E c) = c\<lparr>co_buffer := [], co_index := x, co_flushed_seq := co_flushed_seq c\<rparr>"
      by (simp add: flush_buffer_def Let_def x)
    then show ?thesis using inv [of "co_flushed_seq c"] by simp
  next
    case (Inr m)
    then have "fst (flush_buffer E c) = c\<lparr>co_buffer := [], co_index := x, co_flushed_seq := max (co_flushed_seq c) m\<rparr>"
      by (simp add: flush_buffer_def Let_def x)
    then show ?thesis using inv [of "max (co_flushed_seq c) m"] by simp
  qed
qed

section \<open>Operations and vectors\<close>

lemma find_put:
  "lr_id r = i \<Longrightarrow> List.find (\<lambda>b. lr_id b = j) (retain_other i buf @ [r]) =
     (if j = i then Some r else List.find (\<lambda>b. lr_id b = j) buf)"
  by (induction buf) (auto simp: retain_other_def)

lemma find_retain:
  "List.find (\<lambda>b. lr_id b = j) (retain_other i buf) = (if j = i then None else List.find (\<lambda>b. lr_id b = j) buf)"
  by (induction buf) (auto simp: retain_other_def)

lemma apply_put_fields:
  "co_index (apply_put E i e m d seq c) = co_index c"
  "co_buffer (apply_put E i e m d seq c) = retain_other i (co_buffer c) @
     [\<lparr>lr_id = i, lr_embedding = Some e, lr_metadata = m, lr_document = d, lr_seq = seq\<rparr>]"
  by (auto simp: apply_put_def Let_def offset_for_def split: option.split prod.split)

lemma apply_update_fields:
  "co_index (apply_update E i m d seq c) = co_index c" "co_buffer (apply_update E i m d seq c) = co_buffer c"
  by (auto simp: apply_update_def Let_def offset_for_def split: option.split)

lemma apply_delete_fields:
  "co_index (apply_delete E i c) = index_delete (env_ann E) i (co_index c)"
  "co_buffer (apply_delete E i c) = retain_other i (co_buffer c)"
  by (simp_all add: apply_delete_def Let_def split: option.split)

lemma apply_operation_fields:
  "co_wal (apply_operation E op seq c) = co_wal c" "co_flushed_seq (apply_operation E op seq c) = co_flushed_seq c"
  "co_config (apply_operation E op seq c) = co_config c" "co_segments (apply_operation E op seq c) = co_segments c"
  "co_segment_index (apply_operation E op seq c) = co_segment_index c" "co_fsync (apply_operation E op seq c) = co_fsync c"
  "co_last_checkpoint_seq (apply_operation E op seq c) = co_last_checkpoint_seq c"
  "ui_next_label (co_index (apply_operation E op seq c)) = ui_next_label (co_index c)"
  by (cases op; auto simp: apply_put_def apply_update_def apply_delete_def offset_for_def Let_def index_next_label
      split: option.split)+

lemma apply_records_fields:
  "co_wal (apply_records E rs c) = co_wal c" "co_flushed_seq (apply_records E rs c) = co_flushed_seq c"
  "co_config (apply_records E rs c) = co_config c" "co_segments (apply_records E rs c) = co_segments c"
  "co_segment_index (apply_records E rs c) = co_segment_index c" "co_fsync (apply_records E rs c) = co_fsync c"
  "co_last_checkpoint_seq (apply_records E rs c) = co_last_checkpoint_seq c"
  "ui_next_label (co_index (apply_records E rs c)) = ui_next_label (co_index c)"
  by (induction rs arbitrary: c; simp add: apply_records_def apply_operation_fields)+

lemma current_vector_update:
  assumes "co_buffer c' = co_buffer c" shows "current_vector c' V = current_vector c V"
  by (rule ext) (simp add: current_vector_def buffered_def assms)

lemma apply_operation_vectors:
  assumes I: "coll_inv E c" and nxt: "co_next_offset c \<noteq> - 1" and wf: "op_wf op" and "vector_inv E c"
  shows "vector_inv E (apply_operation E op seq c)"
proof -
  obtain V where V: "index_repr (env_ann E) (co_index c) V" and
    cur: "\<And>i r e. map_of (co_records c) i = Some r \<Longrightarrow> lr_embedding r = Some e \<Longrightarrow> current_vector c V i = Some e"
    using assms(4) unfolding vector_inv_def by blast
  let ?c = "apply_operation E op seq c"
  have recs: "map_of (co_records ?c) = spec_apply op seq (map_of (co_records c))"
    using apply_operation_inv [OF I nxt wf] by blast
  have put: "vector_inv E (apply_put E i e m d seq c)"
    if "map_of (co_records (apply_put E i e m d seq c)) = (map_of (co_records c))
      (i \<mapsto> \<lparr>lr_id = i, lr_embedding = Some e, lr_metadata = m, lr_document = d, lr_seq = seq\<rparr>)" for i e m d
    unfolding vector_inv_def
    using V cur that by (intro exI [of _ V])
      (auto simp: apply_put_fields current_vector_def buffered_def find_put split: if_splits)
  show ?thesis
  proof (cases op)
    case (Add i e m d)
    then show ?thesis using put [of i e m d] recs by (simp add: spec_apply_def)
  next
    case (Upsert i e m d)
    then show ?thesis using put [of i e m d] recs by (simp add: spec_apply_def)
  next
    case (Update i m d)
    have "current_vector ?c V = current_vector c V"
      by (rule current_vector_update) (simp add: Update apply_update_fields)
    moreover have "current_vector c V j = Some x"
      if "map_of (co_records ?c) j = Some r" "lr_embedding r = Some x" for j r x
      using that cur [of j] recs by (cases "map_of (co_records c) i") (auto simp: Update spec_apply_def split: if_splits)
    ultimately show ?thesis
      using V unfolding vector_inv_def by (intro exI [of _ V]) (simp add: Update apply_update_fields)
  next
    case (Delete i)
    have "index_repr (env_ann E) (co_index ?c) (V(i := None))"
      using usearch.delete_ok [OF V] by (simp add: Delete apply_delete_fields)
    moreover have "current_vector ?c (V(i := None)) j = Some x"
      if "map_of (co_records ?c) j = Some r" "lr_embedding r = Some x" for j r x
    proof -
      have j: "j \<noteq> i" "map_of (co_records c) j = Some r"
        using that(1) recs by (auto simp: Delete spec_apply_def split: if_splits)
      then have "current_vector ?c (V(i := None)) j = current_vector c V j"
        by (simp add: Delete current_vector_def buffered_def apply_delete_fields find_retain split: option.split)
      then show ?thesis using cur [OF j(2) that(2)] by simp
    qed
    ultimately show ?thesis unfolding vector_inv_def by blast
  qed
qed

lemma apply_records_vectors:
  "coll_inv E c \<Longrightarrow> vector_inv E c \<Longrightarrow> unat (co_next_offset c) + length rs < 2 ^ 32 \<Longrightarrow>
   list_all (\<lambda>r. op_wf (wr_op r)) rs \<Longrightarrow> vector_inv E (apply_records E rs c)"
proof (induction rs arbitrary: c)
  case Nil
  then show ?case by (simp add: apply_records_def)
next
  case (Cons r rs)
  have nxt: "co_next_offset c \<noteq> - 1" using Cons.prems(3) by (auto simp: unat_max32)
  have wf: "op_wf (wr_op r)" using Cons.prems(4) by simp
  note 1 = apply_operation_inv [OF Cons.prems(1) nxt wf, of "wr_seq r"]
  have "unat (co_next_offset (apply_operation E (wr_op r) (wr_seq r) c)) + length rs < 2 ^ 32"
    using 1 Cons.prems(3) by simp
  from Cons.IH [OF conjunct1 [OF 1] apply_operation_vectors [OF Cons.prems(1) nxt wf Cons.prems(2)] this] Cons.prems(4)
  show ?case by (simp add: apply_records_def)
qed

section \<open>Properties\<close>

text \<open>The environment of the witnesses, with tables for the codecs.\<close>

definition demo_put :: operation where
  "demo_put = Add ''a'' [7] (Some [(''k'', IntV 1)]) None"

definition demo_update :: operation where
  "demo_update = Update ''a'' (Some [(''k'', IntV 2)]) None"

definition demo_ops_codec :: codec where
  "demo_ops_codec =
     \<lparr>enc_op = (\<lambda>op. if op = demo_put then Some [1] else if op = demo_update then Some [2] else None),
      dec_op = (\<lambda>b. if b = [1] then Some demo_put else if b = [2] then Some demo_update else None),
      crc32 = (\<lambda>b. of_nat (sum_list (map unat b)))\<rparr>"

definition demo_row :: live_record where
  "demo_row = \<lparr>lr_id = ''a'', lr_embedding = Some [7], lr_metadata = Some [(''k'', IntV 1)], lr_document = None, lr_seq = 1\<rparr>"

definition demo_env :: "(u32 set, nat \<times> (u64 \<times> embedding) list) engine_env" where
  "demo_env =
     \<lparr>env_codec = demo_ops_codec, env_bitmap = set_bitmap, env_float = ordered_f64, env_ann = list_ann,
      env_simd = plain_simd, env_catalog = demo_cat_codec,
      env_enc_meta = demo_enc_meta, env_dec_meta = demo_dec_meta,
      env_enc_records = (\<lambda>rs. if rs = [(''a'', demo_row)] then Some [1]
                           else if rs = [(''a'', demo_row\<lparr>lr_embedding := None\<rparr>)] then Some [2] else None),
      env_dec_records = (\<lambda>b. if b = [1] then Some [(''a'', demo_row)]
                           else if b = [2] then Some [(''a'', demo_row\<lparr>lr_embedding := None\<rparr>)] else None),
      env_enc_ckpt = (\<lambda>m. if m = \<lparr>cm_flushed_seq = 1, cm_next_seq = 2, cm_record_count = 1\<rparr> then Some [1]
                        else if m = \<lparr>cm_flushed_seq = 0, cm_next_seq = 2, cm_record_count = 1\<rparr> then Some [0] else None),
      env_dec_ckpt = (\<lambda>b. if b = [1] then Some \<lparr>cm_flushed_seq = 1, cm_next_seq = 2, cm_record_count = 1\<rparr>
                        else if b = [0] then Some \<lparr>cm_flushed_seq = 0, cm_next_seq = 2, cm_record_count = 1\<rparr> else None),
      env_enc_segidx = (\<lambda>x. if x = [(''a'', 0)] then Some [1] else None),
      env_dec_segidx = (\<lambda>b. if b = [1] then Some [(''a'', 0)] else None)\<rparr>"

lemma demo_env_simps [simp]:
  "env_codec demo_env = demo_ops_codec" "env_bitmap demo_env = set_bitmap" "env_float demo_env = ordered_f64"
  "env_ann demo_env = list_ann" "env_simd demo_env = plain_simd" "env_catalog demo_env = demo_cat_codec"
  "env_enc_meta demo_env = demo_enc_meta" "env_dec_meta demo_env = demo_dec_meta"
  by (simp_all add: demo_env_def)

lemma list_ann_reserves: "ann_reserves list_ann"
  by (simp add: ann_reserves_def list_ann_def)

definition demo_coll_config :: collection_config where
  "demo_coll_config = collection_config_new 7 0 ''docs'' 1 L2"

definition demo_coll :: "(u32 set, nat \<times> (u64 \<times> embedding) list) collection" where
  "demo_coll =
     \<lparr>co_config = demo_coll_config,
      co_wal = \<lparr>wal_file = build_header demo_ops_codec 3, wal_header_epoch = 3, wal_last_seq = 0, wal_len = 0,
                wal_file_len = HEADER_LEN, wal_opts = wal_options_new True\<rparr>,
      co_records = [], co_buffer = [],
      co_index = \<lparr>ui_inner = (0, []), ui_space = L2, ui_dimension = 1, ui_labels = [], ui_ids = [], ui_next_label = 0\<rparr>,
      co_flushed_seq = 0, co_offsets = [], co_id_by_offset = [], co_next_offset = 0,
      co_postings = postings_new set_bitmap, co_last_checkpoint_seq = 0, co_fsync = True,
      co_segments = [], co_segment_index = []\<rparr>"

lemma empty_coll_inv:
  assumes "bitmap_laws (env_bitmap E)" "of_laws (env_float E)" "index_repr (env_ann E) (co_index c) Map.empty"
    and "co_records c = []" "co_buffer c = []" "co_offsets c = []" "co_id_by_offset c = []"
    and "co_postings c = postings_new (env_bitmap E)"
  shows "coll_inv E c" "vector_inv E c"
proof -
  have "doc_map c = Map.empty" by (rule ext) (simp add: doc_map_def assms)
  then show "coll_inv E c"
    using assms postings_new_repr [OF assms(1,2)]
    unfolding coll_inv_def offsets_inv_def records_inv_def buffer_inv_def index_inv_def by force
  show "vector_inv E c" using assms(3,4) unfolding vector_inv_def by auto
qed

lemma demo_coll_inv: "coll_inv demo_env demo_coll" "vector_inv demo_env demo_coll"
proof -
  have "index_repr list_ann (co_index demo_coll) Map.empty"
    by (auto simp: index_repr_def list_ann_laws demo_coll_def) (simp add: list_ann_def)
  then show "coll_inv demo_env demo_coll" "vector_inv demo_env demo_coll"
    using empty_coll_inv [of demo_env demo_coll] set_bitmap_laws ordered_f64_laws
    by (simp_all add: demo_coll_def)
qed

text \<open>C6: The in-memory collection refines the map of live records. Applying any sequence of logged
  operations acts on the records exactly as the operations' specification, and keeps all derived
  state consistent with them: the offsets and their reverse map, the metadata postings, the buffer,
  the vector index, and the current vector of every record that carries one.\<close>

theorem collection_refines_map:
  assumes "coll_inv E c" "vector_inv E c" "list_all (\<lambda>r. op_wf (wr_op r)) rs"
    and "unat (co_next_offset c) + length rs < 2 ^ 32"
  shows "coll_inv E (apply_records E rs c) \<and> vector_inv E (apply_records E rs c) \<and>
    map_of (co_records (apply_records E rs c)) = spec_replay rs (map_of (co_records c))"
  using apply_records_inv [OF assms(1,4,3)] apply_records_vectors [OF assms(1,2,4,3)] by blast

lemma collection_refines_map_witness:
  "coll_inv demo_env (apply_records demo_env [\<lparr>wr_seq = 1, wr_epoch = 3, wr_op = demo_put\<rparr>] demo_coll) \<and>
   map_of (co_records (apply_records demo_env [\<lparr>wr_seq = 1, wr_epoch = 3, wr_op = demo_put\<rparr>] demo_coll)) =
     [''a'' \<mapsto> demo_row]"
proof -
  have "list_all (\<lambda>r. op_wf (wr_op r)) [\<lparr>wr_seq = 1, wr_epoch = 3, wr_op = demo_put\<rparr>]"
    by (simp add: demo_put_def hm_wf_def)
  moreover have "unat (co_next_offset demo_coll) + length [\<lparr>wr_seq = 1, wr_epoch = 3, wr_op = demo_put\<rparr>] < 2 ^ 32"
    by (simp add: demo_coll_def)
  moreover have "map_of (co_records demo_coll) = Map.empty" by (simp add: demo_coll_def)
  ultimately show ?thesis
    using collection_refines_map [OF demo_coll_inv, of "[\<lparr>wr_seq = 1, wr_epoch = 3, wr_op = demo_put\<rparr>]"]
    by (simp add: spec_apply_def demo_put_def demo_row_def)
qed

text \<open>A flush materializes the buffer. When reserving memory succeeds and the buffered vectors
  have the index's dimension, flushing succeeds, empties the buffer, changes no record, and leaves
  an index that holds, for every record with an embedding, exactly that embedding.\<close>

theorem flush_materializes:
  assumes "coll_inv E c" "vector_inv E c" "ann_reserves (env_ann E)" "dims_ok c"
    and "unat (ui_next_label (co_index c)) + length (co_buffer c) < 2 ^ 64"
  shows "\<exists>c' V. flush_buffer E c = (c', Inr ()) \<and> coll_inv E c' \<and> vector_inv E c' \<and> co_buffer c' = [] \<and>
    co_records c' = co_records c \<and> index_repr (env_ann E) (co_index c') V \<and>
    (\<forall>i r e. map_of (co_records c) i = Some r \<longrightarrow> lr_embedding r = Some e \<longrightarrow> V i = Some e) \<and>
    dom V \<subseteq> dom (map_of (co_records c))"
proof -
  obtain V where V: "index_repr (env_ann E) (co_index c) V"
    "\<forall>i r e. map_of (co_records c) i = Some r \<longrightarrow> lr_embedding r = Some e \<longrightarrow> current_vector c V i = Some e"
    using assms(2) unfolding vector_inv_def by blast
  obtain x where x: "flush_buffer E c =
      (c\<lparr>co_buffer := [], co_index := x, co_flushed_seq := max (co_flushed_seq c) (fold max_seq_of (co_buffer c) 0)\<rparr>, Inr ())"
    "index_repr (env_ann E) x (current_vector c V)"
    using flush_buffer_ok [OF assms(1) V(1) assms(3,4,5)] by blast
  obtain W where W: "index_repr (env_ann E) (co_index c) W" "dom W \<subseteq> dom (map_of (co_records c))"
    using coll_invD(5) [OF assms(1)] unfolding index_inv_def by blast
  have "W i = V i" for i using index_reprD(7) [OF W(1), of i] index_reprD(7) [OF V(1), of i] by simp
  then have dom: "dom V \<subseteq> dom (map_of (co_records c))" using W(2) by (metis ext)
  let ?c = "fst (flush_buffer E c)"
  have buf: "co_buffer ?c = []" "co_index ?c = x" "co_records ?c = co_records c" by (simp_all add: x(1))
  have "current_vector ?c U = U" for U by (rule ext) (simp add: current_vector_def buffered_def buf)
  then have "vector_inv E ?c" using x(2) V(2) unfolding vector_inv_def buf by auto
  moreover have "flush_buffer E c = (?c, Inr ())" by (simp add: x(1))
  ultimately show ?thesis
    using flush_buffer_inv [OF assms(1,5)] buf x(2) V(2) current_vector_dom [OF assms(1) dom] by blast
qed

lemma demo_put_coll:
  "apply_records demo_env [\<lparr>wr_seq = 1, wr_epoch = 3, wr_op = demo_put\<rparr>] demo_coll =
     demo_coll\<lparr>co_records := [(''a'', demo_row)], co_buffer := [demo_row], co_offsets := [(''a'', 0)],
       co_id_by_offset := [(0, ''a'')], co_next_offset := 1,
       co_postings := postings_insert set_bitmap ordered_f64 0 (Some [(''k'', IntV 1)]) (postings_new set_bitmap)\<rparr>"
  by (simp add: apply_records_def demo_put_def apply_put_def offset_for_def demo_coll_def demo_row_def retain_other_def Let_def)

lemma flush_materializes_witness:
  "\<exists>c' V. flush_buffer demo_env (apply_records demo_env [\<lparr>wr_seq = 1, wr_epoch = 3, wr_op = demo_put\<rparr>] demo_coll) = (c', Inr ()) \<and>
     co_buffer c' = [] \<and> index_repr list_ann (co_index c') V \<and> V ''a'' = Some [7]"
proof -
  let ?rs = "[\<lparr>wr_seq = 1, wr_epoch = 3, wr_op = demo_put\<rparr>]"
  let ?c = "apply_records demo_env ?rs demo_coll"
  have wf: "list_all (\<lambda>r. op_wf (wr_op r)) ?rs" by (simp add: demo_put_def hm_wf_def)
  have n: "unat (co_next_offset demo_coll) + length ?rs < 2 ^ 32" by (simp add: demo_coll_def)
  have I: "coll_inv demo_env ?c" "vector_inv demo_env ?c"
    using apply_records_inv [OF demo_coll_inv(1) n wf] apply_records_vectors [OF demo_coll_inv n wf] by simp_all
  have "dims_ok ?c" "unat (ui_next_label (co_index ?c)) + length (co_buffer ?c) < 2 ^ 64"
    unfolding demo_put_coll by (simp_all add: demo_coll_def dims_ok_def demo_row_def)
  from flush_materializes [OF I _ this] obtain c' V where
    "flush_buffer demo_env ?c = (c', Inr ())" "co_buffer c' = []" "index_repr list_ann (co_index c') V"
    "\<forall>i r e. map_of (co_records ?c) i = Some r \<longrightarrow> lr_embedding r = Some e \<longrightarrow> V i = Some e"
    by (auto simp: list_ann_reserves)
  moreover have "map_of (co_records ?c) ''a'' = Some demo_row" "lr_embedding demo_row = Some [7]"
    by (simp_all add: demo_put_coll demo_row_def)
  ultimately show ?thesis by blast
qed

end
