(* ===== verification/Collection_Query.thy ===== *)
theory Collection_Query
  imports Collection_Index
begin

text \<open>
  What a query returns: the exact scan gives the true nearest neighbours, a filtered query only
  eligible records. The two places where the code falls short are stated as theorems too: filters on
  buffered records see the metadata of the last write with a vector, and the segments shadow newer
  vectors and are not read by the filtered scan.
\<close>

section \<open>Sorting scored points\<close>

definition finite_score :: "scored_point \<Rightarrow> bool" where
  "finite_score p \<longleftrightarrow> \<not> f32_is_nan (sp_distance p)"

lemma sort_scored_sorted:
  assumes "list_all finite_score ps"
  shows "sorted_wrt (\<lambda>a b. \<not> f32_lt (sp_distance b) (sp_distance a)) (sort_scored ps)"
  unfolding sort_scored_def
  by (rule sorted_sort_by_on [where P = finite_score, OF _ _ assms])
    (auto simp: finite_score_def dest: f32_lt_asym f32_not_lt_trans)

lemma sort_scored_set [simp]: "set (sort_scored ps) = set ps" "length (sort_scored ps) = length ps"
  "distinct (map sp_id (sort_scored ps)) = distinct (map sp_id ps)"
  by (simp_all add: sort_scored_def)

text \<open>The first \<open>k\<close> of a sorted list are its nearest points.\<close>

lemma take_sorted:
  assumes "sorted_wrt (\<lambda>a b. \<not> f32_lt (sp_distance b) (sp_distance a)) ps" "p \<in> set (take k ps)" "x \<in> set ps" "x \<notin> set (take k ps)"
  shows "\<not> f32_lt (sp_distance x) (sp_distance p)"
proof -
  have "sorted_wrt (\<lambda>a b. \<not> f32_lt (sp_distance b) (sp_distance a)) (take k ps @ drop k ps)" using assms(1) by simp
  moreover have "x \<in> set (drop k ps)" using assms(3,4) by (metis Un_iff append_take_drop_id set_append)
  ultimately show ?thesis using assms(2) unfolding sorted_wrt_append by blast
qed

section \<open>The exact scan\<close>

lemma run_filter_map_Returns:
  "(\<And>x. x \<in> set xs \<Longrightarrow> f x = Returns (g x)) \<Longrightarrow> run_filter_map f xs = Returns (List.map_filter g xs)"
  by (induction xs) (auto simp: List.map_filter_simps split: option.split)

definition scored :: "(id \<Rightarrow> embedding option) \<Rightarrow> (id \<Rightarrow> f32) \<Rightarrow> id \<times> live_record \<Rightarrow> scored_point option" where
  "scored vec dist x =
     map_option (\<lambda>_. \<lparr>sp_id = fst x, sp_distance = dist (fst x), sp_metadata = lr_metadata (snd x),
       sp_document = lr_document (snd x)\<rparr>) (vec (fst x))"

lemma brute_force_scored:
  assumes "hm_wf (co_records c)"
    and "\<And>i r. map_of (co_records c) i = Some r \<Longrightarrow> vector_of c i r = Returns (vec i)"
    and "\<And>i r e. map_of (co_records c) i = Some r \<Longrightarrow> vec i = Some e \<Longrightarrow>
      distance_of f32_arith (env_simd E) space q e = Returns (dist i)"
  shows "brute_force E q space c = Returns (List.map_filter (scored vec dist) (co_records c))"
  unfolding brute_force_def
proof (rule run_filter_map_Returns, clarify)
  fix i r assume "(i, r) \<in> set (co_records c)"
  then have "map_of (co_records c) i = Some r" using hm_wf_in_set [OF assms(1)] by simp
  from assms(2) [OF this] assms(3) [OF this]
  show "run_bind (vector_of c i r) (\<lambda>v. case v of None \<Rightarrow> Returns None
      | Some e \<Rightarrow> run_bind (distance_of f32_arith (env_simd E) space q e) (\<lambda>d.
          Returns (Some \<lparr>sp_id = i, sp_distance = d, sp_metadata = lr_metadata r, sp_document = lr_document r\<rparr>))) =
      Returns (scored vec dist (i, r))"
    by (cases "vec i") (simp_all add: scored_def)
qed

lemma in_map_filter: "y \<in> set (List.map_filter f xs) \<longleftrightarrow> (\<exists>x\<in>set xs. f x = Some y)"
  by (induction xs) (auto simp: List.map_filter_simps split: option.split)

lemma scored_ids:
  "hm_wf m \<Longrightarrow> distinct (map sp_id (List.map_filter (scored vec dist) m))"
proof (induction m)
  case Nil
  then show ?case by (simp add: List.map_filter_simps)
next
  case (Cons x m)
  have "sp_id p \<noteq> fst x" if "p \<in> set (List.map_filter (scored vec dist) m)" for p
  proof -
    have "sp_id p \<in> fst ` set m" using that unfolding in_map_filter by (force simp: scored_def)
    moreover have "fst x \<notin> fst ` set m" using Cons.prems by (simp add: hm_wf_def)
    ultimately show ?thesis by metis
  qed
  note others = this
  have IH: "distinct (map sp_id (List.map_filter (scored vec dist) m))" using Cons by (simp add: hm_wf_def)
  show ?case
  proof (cases "scored vec dist x")
    case None
    then show ?thesis using IH by (simp add: List.map_filter_simps)
  next
    case (Some p)
    then have "sp_id p = fst x" by (auto simp: scored_def)
    then have "sp_id p \<notin> sp_id ` set (List.map_filter (scored vec dist) m)" using others by force
    then show ?thesis using IH Some by (simp add: List.map_filter_simps)
  qed
qed

lemma scored_length:
  "hm_wf m \<Longrightarrow> length (List.map_filter (scored vec dist) m) = card {i \<in> dom (map_of m). vec i \<noteq> None}"
proof -
  assume wf: "hm_wf m"
  let ?ps = "List.map_filter (scored vec dist) m"
  have "sp_id ` set ?ps = {i \<in> dom (map_of m). vec i \<noteq> None}"
  proof (intro equalityI subsetI)
    fix i assume "i \<in> sp_id ` set ?ps"
    then show "i \<in> {i \<in> dom (map_of m). vec i \<noteq> None}"
      using hm_wf_in_set [OF wf] by (auto simp: in_map_filter scored_def)
  next
    fix i assume "i \<in> {i \<in> dom (map_of m). vec i \<noteq> None}"
    then obtain r e where r: "(i, r) \<in> set m" "vec i = Some e" using hm_wf_in_set [OF wf] by auto
    let ?p = "\<lparr>sp_id = i, sp_distance = dist i, sp_metadata = lr_metadata r, sp_document = lr_document r\<rparr>"
    have "?p \<in> set ?ps" unfolding in_map_filter by (rule bexI [OF _ r(1)]) (simp add: scored_def r(2))
    then show "i \<in> sp_id ` set ?ps" by (metis image_eqI scored_point.select_convs(1))
  qed
  then show ?thesis using distinct_card [OF scored_ids [OF wf, of vec dist]] by simp
qed

section \<open>Eligibility\<close>

lemma filter_matches_or_empty: "filter_matches_opt f m = matches f (md_or_empty m)"
  by (cases m) (simp_all add: filter_matches_opt_def)

definition eligible :: "where_filter \<Rightarrow> ('b, 'g) collection \<Rightarrow> id \<Rightarrow> bool" where
  "eligible f c i \<longleftrightarrow> (\<exists>r. map_of (co_records c) i = Some r \<and> filter_matches_opt f (lr_metadata r))"

lemma buffer_invD:
  assumes "buffer_inv c" "b \<in> set (co_buffer c)"
  shows "\<exists>r. map_of (co_records c) (lr_id b) = Some r" "\<exists>e. lr_embedding b = Some e"
  using assms by (simp_all add: buffer_inv_def)

lemma scan_buffer_keys:
  assumes "\<And>b. b \<in> set bs \<Longrightarrow> ok b \<Longrightarrow> P (lr_id b)" "\<And>i. map_of d i \<noteq> None \<Longrightarrow> P i"
    and "scan_buffer E ok q space bs d = Returns d'" "map_of d' i \<noteq> None"
  shows "P i"
  using assms
proof (induction bs arbitrary: d)
  case Nil
  then show ?case by simp
next
  case (Cons b bs)
  show ?case
  proof (cases "ok b \<and> lr_embedding b \<noteq> None")
    case True
    then obtain e x where e: "lr_embedding b = Some e" "distance_of f32_arith (env_simd E) space q e = Returns x"
      using Cons.prems(3) by (cases "distance_of f32_arith (env_simd E) space q (the (lr_embedding b))") auto
    have "P j" if "map_of (AList.update (lr_id b) x d) j \<noteq> None" for j
      using that Cons.prems(1) [of b] Cons.prems(2) [of j] True by (auto split: if_splits)
    moreover have "scan_buffer E ok q space bs (AList.update (lr_id b) x d) = Returns d'"
      using Cons.prems(3) True e by simp
    ultimately show ?thesis
      using Cons.IH [where d = "AList.update (lr_id b) x d"] Cons.prems(1,4) by (meson list.set_intros(2))
  next
    case False
    then have "scan_buffer E ok q space bs d = Returns d'" using Cons.prems(3) by (auto split: if_splits)
    then show ?thesis using Cons.IH [where d = d] Cons.prems(1,2,4) by (meson list.set_intros(2))
  qed
qed

lemma scan_offsets_keys:
  assumes "\<And>off j r. off \<in> set offs \<Longrightarrow> map_of (co_id_by_offset c) off = Some j \<Longrightarrow>
      map_of (co_records c) j = Some r \<Longrightarrow> P (lr_id r)"
    and "\<And>i. map_of d i \<noteq> None \<Longrightarrow> P i"
    and "scan_offsets E q space c offs d = Returns d'" "map_of d' i \<noteq> None"
  shows "P i"
  using assms
proof (induction offs arbitrary: d)
  case Nil
  then show ?case by simp
next
  case (Cons off offs)
  let ?r = "Option.bind (map_of (co_id_by_offset c) off) (map_of (co_records c))"
  show ?case
  proof (cases "\<exists>r e. ?r = Some r \<and> lr_embedding r = Some e \<and> map_of d (lr_id r) = None")
    case False
    then have "scan_offsets E q space c offs d = Returns d'"
      using Cons.prems(3) by (auto split: option.splits if_splits)
    then show ?thesis using Cons.IH [where d = d] Cons.prems(1,2,4) by (meson list.set_intros(2))
  next
    case True
    then obtain r e where re: "?r = Some r" "lr_embedding r = Some e" "map_of d (lr_id r) = None" by auto
    then obtain x where x: "distance_of f32_arith (env_simd E) space q e = Returns x"
      using Cons.prems(3) by (cases "distance_of f32_arith (env_simd E) space q e") auto
    obtain j where j: "map_of (co_id_by_offset c) off = Some j" "map_of (co_records c) j = Some r"
      using re(1) by (auto simp: bind_eq_Some_conv)
    have "P (lr_id r)" using Cons.prems(1) [OF _ j] by simp
    then have "P i" if "map_of (AList.update (lr_id r) x d) i \<noteq> None" for i
      using that Cons.prems(2) [of i] by (auto split: if_splits)
    moreover have "scan_offsets E q space c offs (AList.update (lr_id r) x d) = Returns d'"
      using Cons.prems(3) re x by simp
    ultimately show ?thesis
      using Cons.IH [where d = "AList.update (lr_id r) x d"] Cons.prems(1,4) by (meson list.set_intros(2))
  qed
qed

lemma or_insert_keys: "map_of (or_insert i x d) j \<noteq> None \<longleftrightarrow> j = i \<or> map_of d j \<noteq> None"
  by (auto simp: or_insert_def)

lemma hits_keys:
  fixes hits :: "index_hit list"
  assumes "\<And>(h :: index_hit) off. map_of offsets (hit_id h) = Some off \<Longrightarrow> ok off \<Longrightarrow> P (hit_id h)" "\<And>i. map_of d i \<noteq> None \<Longrightarrow> P i"
    and "map_of (fold (\<lambda>h d. case map_of offsets (hit_id h) of
        Some off \<Rightarrow> if ok off then or_insert (hit_id h) (hit_distance h) d else d | None \<Rightarrow> d) hits d) i \<noteq> None"
  shows "P i"
  using assms(2,3)
proof (induction hits arbitrary: d)
  case Nil
  then show ?case by simp
next
  case (Cons h hits)
  let ?d = "case map_of offsets (hit_id h) of
      Some off \<Rightarrow> if ok off then or_insert (hit_id h) (hit_distance h) d else d | None \<Rightarrow> d"
  have "P j" if "map_of ?d j \<noteq> None" for j
  proof (cases "j = hit_id h")
    case True
    then show ?thesis using that Cons.prems(1) [of j] assms(1) [of h] by (auto split: option.splits if_splits)
  next
    case False
    then have "map_of d j \<noteq> None" using that or_insert_keys by (auto split: option.splits if_splits)
    then show ?thesis by (rule Cons.prems(1))
  qed
  moreover have "map_of (fold (\<lambda>h d. case map_of offsets (hit_id h) of
        Some off \<Rightarrow> if ok off then or_insert (hit_id h) (hit_distance h) d else d | None \<Rightarrow> d) hits ?d) i \<noteq> None"
    using Cons.prems(2) by simp
  ultimately show ?case using Cons.IH by blast
qed

lemma build_scored_points:
  assumes "p \<in> set (build_scored dist c)"
  shows "map_of dist (sp_id p) \<noteq> None" "sp_metadata p = Option.bind (map_of (co_records c) (sp_id p)) lr_metadata"
  using assms by (auto simp: build_scored_def Let_def map_of_eq_None_iff rev_image_eqI)

text \<open>The candidate offsets belong to eligible records.\<close>

lemma candidates_eligible:
  assumes I: "coll_inv E c" and ex: "\<forall>i r. map_of (co_records c) i = Some r \<longrightarrow> metadata_exact (md_or_empty (lr_metadata r))"
    and cond: "condition_exact (wf_condition f)"
  shows "bm_contains (env_bitmap E) (evaluate (env_bitmap E) (env_float E) (co_postings c) f) off \<longleftrightarrow>
    (\<exists>i. map_of (co_id_by_offset c) off = Some i \<and> eligible f c i)"
proof -
  note D = coll_invD [OF I]
  have doc_ex: "metadata_exact md" if "doc_map c x = Some md" for x md
    using that ex by (auto simp: doc_map_def bind_eq_Some_conv)
  have "bm_contains (env_bitmap E) (evaluate (env_bitmap E) (env_float E) (co_postings c) f) off \<longleftrightarrow>
      (\<exists>md. doc_map c off = Some md \<and> match_condition (wf_condition f) md)"
    unfolding evaluate_def by (rule postings.selects_iff [OF D(3) doc_ex cond])
  also have "\<dots> \<longleftrightarrow> (\<exists>i. map_of (co_id_by_offset c) off = Some i \<and> eligible f c i)"
    by (auto simp: doc_map_def bind_eq_Some_conv eligible_def filter_matches_or_empty matches_def)
  finally show ?thesis .
qed

lemma filtered_query_eligible:
  assumes I: "coll_inv E c" and ex: "\<forall>i r. map_of (co_records c) i = Some r \<longrightarrow> metadata_exact (md_or_empty (lr_metadata r))"
    and cond: "condition_exact (wf_condition f)"
    and fresh: "\<And>b r. b \<in> set (co_buffer c) \<Longrightarrow> map_of (co_records c) (lr_id b) = Some r \<Longrightarrow> lr_metadata b = lr_metadata r"
    and run: "filtered_query E q k ef space f ov c = (c', Returns (Inr ps))" and p: "p \<in> set ps"
  shows "eligible f c (sp_id p) \<and> sp_metadata p = Option.bind (map_of (co_records c) (sp_id p)) lr_metadata"
proof -
  note D = coll_invD [OF I]
  let ?B = "env_bitmap E"
  let ?cand = "evaluate ?B (env_float E) (co_postings c) f"
  obtain d0 where d0: "scan_buffer E (\<lambda>r. filter_matches_opt f (lr_metadata r)) q space (co_buffer c) [] = Returns d0"
    using run by (cases "scan_buffer E (\<lambda>r. filter_matches_opt f (lr_metadata r)) q space (co_buffer c) []")
      (auto simp: filtered_query_def)
  have buf: "eligible f c (lr_id b)" if "b \<in> set (co_buffer c)" "filter_matches_opt f (lr_metadata b)" for b
  proof -
    from buffer_invD(1) [OF D(4) that(1)] show ?thesis
      using fresh [OF that(1)] that(2) by (auto simp: eligible_def)
  qed
  have base: "eligible f c i" if "map_of d0 i \<noteq> None" for i
    by (rule scan_buffer_keys [where P = "eligible f c", OF _ _ d0 that]) (simp_all add: buf)
  obtain d where ps: "ps = build_scored d c"
    and keys: "\<And>i. map_of d i \<noteq> None \<Longrightarrow> eligible f c i"
  proof (cases "bm_len ?B ?cand \<le> hc_max_scan (cc_hnsw (co_config c))")
    case True
    then obtain d where d: "scan_offsets E q space c (bm_iter ?B ?cand) d0 = Returns d" "ps = build_scored d c"
      using run d0 by (cases "scan_offsets E q space c (bm_iter ?B ?cand) d0") (auto simp: filtered_query_def Let_def)
    have elig: "eligible f c (lr_id r)" if "off \<in> set (bm_iter ?B ?cand)" "map_of (co_id_by_offset c) off = Some j"
        "map_of (co_records c) j = Some r" for off j r
    proof -
      have B: "bitmap_laws ?B" using postings_repr_laws [OF D(3)] by simp
      have "bm_contains ?B ?cand off" using that(1) by (simp add: bitmap_simps(8) [OF B])
      then have "eligible f c j" using candidates_eligible [OF I ex cond] that(2) by auto
      then show ?thesis using records_invD(2) [OF D(2) that(3)] by simp
    qed
    have "eligible f c i" if "map_of d i \<noteq> None" for i
      by (rule scan_offsets_keys [where P = "eligible f c", OF elig base d(1) that])
    then show thesis using that [of d] d(2) by blast
  next
    case False
    obtain x res where s: "index_search (env_ann E) q (saturating_mul k (max ov 1)) ef (co_index c) = (x, res)"
      by (cases "index_search (env_ann E) q (saturating_mul k (max ov 1)) ef (co_index c)")
    with run d0 False obtain hits where "res = Inr hits" by (cases res) (simp_all add: filtered_query_def Let_def)
    with run d0 False s have ps: "ps = build_scored (fold (\<lambda>h dist. case map_of (co_offsets c) (hit_id h) of
          Some off \<Rightarrow> if bm_contains ?B ?cand off then or_insert (hit_id h) (hit_distance h) dist else dist
        | None \<Rightarrow> dist) hits d0) c"
      by (simp add: filtered_query_def Let_def)
    have elig: "eligible f c (hit_id h)" if "map_of (co_offsets c) (hit_id h) = Some off" "bm_contains ?B ?cand off" for h :: index_hit and off
      using candidates_eligible [OF I ex cond, where off = off] that
        offsets_iff [OF D(1), of off "hit_id h"] by auto
    show thesis by (rule that [OF ps], rule hits_keys [where P = "eligible f c", OF elig base])
  qed
  have "map_of d (sp_id p) \<noteq> None \<and> sp_metadata p = Option.bind (map_of (co_records c) (sp_id p)) lr_metadata"
    using build_scored_points p unfolding ps by blast
  then show ?thesis using keys by blast
qed

section \<open>Keys are never lost\<close>

lemma scan_buffer_has:
  assumes "scan_buffer E ok q space bs d = Returns d'"
  shows "map_of d i \<noteq> None \<Longrightarrow> map_of d' i \<noteq> None"
    "b \<in> set bs \<Longrightarrow> ok b \<Longrightarrow> lr_embedding b \<noteq> None \<Longrightarrow> map_of d' (lr_id b) \<noteq> None"
proof -
  have mono: "scan_buffer E ok q space bs d = Returns d' \<Longrightarrow> map_of d i \<noteq> None \<Longrightarrow> map_of d' i \<noteq> None" for bs d i
  proof (induction bs arbitrary: d)
    case (Cons b bs)
    then show ?case
      by (cases "distance_of f32_arith (env_simd E) space q (the (lr_embedding b))")
        (force split: if_splits option.splits)+
  qed simp
  show "map_of d i \<noteq> None \<Longrightarrow> map_of d' i \<noteq> None" by (rule mono [OF assms])
  show "b \<in> set bs \<Longrightarrow> ok b \<Longrightarrow> lr_embedding b \<noteq> None \<Longrightarrow> map_of d' (lr_id b) \<noteq> None"
    using assms
  proof (induction bs arbitrary: d)
    case (Cons x bs)
    show ?case
    proof (cases "b = x")
      case True
      then obtain e where e: "lr_embedding x = Some e" using Cons.prems(3) by auto
      obtain y where "distance_of f32_arith (env_simd E) space q e = Returns y"
        using Cons.prems(2,4) True e by (cases "distance_of f32_arith (env_simd E) space q e") auto
      then have "scan_buffer E ok q space bs (AList.update (lr_id b) y d) = Returns d'"
        using Cons.prems(2,4) True e by simp
      then show ?thesis by (rule mono) simp
    next
      case False
      then have "b \<in> set bs" using Cons.prems(1) by simp
      from Cons.IH [OF this Cons.prems(2,3)] Cons.prems(4) show ?thesis
        by (cases "distance_of f32_arith (env_simd E) space q (the (lr_embedding x))")
          (auto split: if_splits option.splits)
    qed
  qed simp
qed

lemma scan_offsets_mono:
  "scan_offsets E q space c offs d = Returns d' \<Longrightarrow> map_of d i \<noteq> None \<Longrightarrow> map_of d' i \<noteq> None"
proof (induction offs arbitrary: d)
  case (Cons off offs)
  show ?case
  proof (cases "\<exists>r e. Option.bind (map_of (co_id_by_offset c) off) (map_of (co_records c)) = Some r \<and>
      lr_embedding r = Some e \<and> map_of d (lr_id r) = None")
    case True
    then obtain r e where "Option.bind (map_of (co_id_by_offset c) off) (map_of (co_records c)) = Some r"
        "lr_embedding r = Some e" "map_of d (lr_id r) = None" by blast
    moreover from this obtain x where "distance_of f32_arith (env_simd E) space q e = Returns x"
      using Cons.prems(1) by (cases "distance_of f32_arith (env_simd E) space q e") auto
    ultimately have "scan_offsets E q space c offs (AList.update (lr_id r) x d) = Returns d'"
      using Cons.prems(1) by simp
    then show ?thesis by (rule Cons.IH) (use Cons.prems(2) in simp)
  next
    case False
    then have "scan_offsets E q space c offs d = Returns d'"
      using Cons.prems(1) by (auto split: option.splits if_splits)
    then show ?thesis by (rule Cons.IH) (rule Cons.prems(2))
  qed
qed simp

lemma hits_mono:
  "map_of d i \<noteq> None \<Longrightarrow> map_of (fold (\<lambda>h d. case map_of offsets (hit_id h) of
      Some off \<Rightarrow> if ok off then or_insert (hit_id h) (hit_distance h) d else d | None \<Rightarrow> d) (hits :: index_hit list) d) i \<noteq> None"
  by (induction hits arbitrary: d) (force simp: or_insert_def split: option.splits if_splits)+

lemma filtered_query_exact:
  assumes "scan_buffer E (\<lambda>r. filter_matches_opt f (lr_metadata r)) q space (co_buffer c) [] = Returns d0"
    and "bm_len (env_bitmap E) (evaluate (env_bitmap E) (env_float E) (co_postings c) f) \<le> hc_max_scan (cc_hnsw (co_config c))"
    and "scan_offsets E q space c (bm_iter (env_bitmap E) (evaluate (env_bitmap E) (env_float E) (co_postings c) f)) d0 = Returns d"
  shows "filtered_query E q k ef space f ov c = (c, Returns (Inr (build_scored d c)))"
  using assms by (simp add: filtered_query_def Let_def)

lemma filtered_query_keeps_buffer:
  assumes b: "b \<in> set (co_buffer c)" "lr_embedding b \<noteq> None" "filter_matches_opt f (lr_metadata b)"
    and run: "filtered_query E q k ef space f ov c = (c', Returns (Inr ps))"
  shows "\<exists>p\<in>set ps. sp_id p = lr_id b \<and> sp_metadata p = Option.bind (map_of (co_records c) (lr_id b)) lr_metadata"
proof -
  let ?B = "env_bitmap E"
  let ?cand = "evaluate ?B (env_float E) (co_postings c) f"
  obtain d0 where d0: "scan_buffer E (\<lambda>r. filter_matches_opt f (lr_metadata r)) q space (co_buffer c) [] = Returns d0"
    using run by (cases "scan_buffer E (\<lambda>r. filter_matches_opt f (lr_metadata r)) q space (co_buffer c) []")
      (auto simp: filtered_query_def)
  have base: "map_of d0 (lr_id b) \<noteq> None" by (rule scan_buffer_has(2) [OF d0 b(1) b(3,2)])
  obtain d where ps: "ps = build_scored d c" and d: "map_of d (lr_id b) \<noteq> None"
  proof (cases "bm_len ?B ?cand \<le> hc_max_scan (cc_hnsw (co_config c))")
    case True
    then obtain d where "scan_offsets E q space c (bm_iter ?B ?cand) d0 = Returns d" "ps = build_scored d c"
      using run d0 by (cases "scan_offsets E q space c (bm_iter ?B ?cand) d0") (auto simp: filtered_query_def Let_def)
    then show thesis using that [of d] scan_offsets_mono base by blast
  next
    case False
    obtain x res where s: "index_search (env_ann E) q (saturating_mul k (max ov 1)) ef (co_index c) = (x, res)"
      by (cases "index_search (env_ann E) q (saturating_mul k (max ov 1)) ef (co_index c)")
    with run d0 False obtain hits where "res = Inr hits" by (cases res) (simp_all add: filtered_query_def Let_def)
    with run d0 False s have "ps = build_scored (fold (\<lambda>h dist. case map_of (co_offsets c) (hit_id h) of
          Some off \<Rightarrow> if bm_contains ?B ?cand off then or_insert (hit_id h) (hit_distance h) dist else dist
        | None \<Rightarrow> dist) hits d0) c"
      by (simp add: filtered_query_def Let_def)
    then show thesis by (rule that) (rule hits_mono [OF base])
  qed
  obtain y where "(lr_id b, y) \<in> set d" using d by (cases "map_of d (lr_id b)") (auto dest: map_of_SomeD)
  then show ?thesis unfolding ps build_scored_def Let_def by force
qed

section \<open>Properties\<close>

text \<open>C11: Small collections are searched exactly. Without a filter and within the scan limit, when every
  stored vector has a distance from the query that is a number, the query returns the k nearest
  records and nothing else: as many as there are, at most k, each id once, by ascending distance,
  with the live metadata and document, and no record left out is nearer than one returned.\<close>

theorem query_exact_scan:
  fixes E :: "('b, 'g) engine_env"
  assumes "hm_wf (co_records c)" "qo_where_filter opts = None"
    and "cc_dimension (co_config c) = 0 \<or> length q = cc_dimension (co_config c)"
    and "index_len (env_ann E) (co_index c) + length (co_buffer c) \<le> hc_max_scan (cc_hnsw (co_config c))"
    and "\<And>i r. map_of (co_records c) i = Some r \<Longrightarrow> vector_of c i r = Returns (vec i)"
    and "\<And>i r e. map_of (co_records c) i = Some r \<Longrightarrow> vec i = Some e \<Longrightarrow>
      distance_of f32_arith (env_simd E) (cc_space (co_config c)) q e = Returns (dist i) \<and> \<not> f32_is_nan (dist i)"
  shows "\<exists>ps. collection_query E q k opts c = (c, Returns (Inr ps)) \<and>
    length ps = min (max k 1) (card {i \<in> dom (map_of (co_records c)). vec i \<noteq> None}) \<and>
    distinct (map sp_id ps) \<and> sorted_wrt (\<lambda>a b. \<not> f32_lt (sp_distance b) (sp_distance a)) ps \<and>
    (\<forall>p\<in>set ps. \<exists>r. map_of (co_records c) (sp_id p) = Some r \<and> vec (sp_id p) \<noteq> None \<and>
       p = \<lparr>sp_id = sp_id p, sp_distance = dist (sp_id p), sp_metadata = lr_metadata r, sp_document = lr_document r\<rparr>) \<and>
    (\<forall>i r. map_of (co_records c) i = Some r \<longrightarrow> vec i \<noteq> None \<longrightarrow> i \<notin> sp_id ` set ps \<longrightarrow>
       (\<forall>p\<in>set ps. \<not> f32_lt (dist i) (sp_distance p)))"
proof -
  let ?all = "List.map_filter (scored vec dist) (co_records c)"
  let ?ps = "take (max k 1) (sort_scored ?all)"
  have bf: "brute_force E q (cc_space (co_config c)) c = Returns ?all"
    by (rule brute_force_scored [OF assms(1)]) (use assms(5,6) in blast)+
  have run: "collection_query E q k opts c = (c, Returns (Inr ?ps))"
    using assms(2,3,4) by (auto simp: collection_query_def Let_def bf)
  have point: "\<exists>r. map_of (co_records c) (sp_id p) = Some r \<and> vec (sp_id p) \<noteq> None \<and>
      p = \<lparr>sp_id = sp_id p, sp_distance = dist (sp_id p), sp_metadata = lr_metadata r, sp_document = lr_document r\<rparr>"
    if "p \<in> set ?all" for p
    using that hm_wf_in_set [OF assms(1)] by (auto simp: in_map_filter scored_def)
  have "finite_score p" if "p \<in> set ?all" for p
  proof -
    from point [OF that] obtain r where r: "map_of (co_records c) (sp_id p) = Some r" "vec (sp_id p) \<noteq> None"
        "sp_distance p = dist (sp_id p)"
      by (metis scored_point.select_convs(2))
    then obtain e where "vec (sp_id p) = Some e" by blast
    with assms(6) [OF r(1)] r(3) show ?thesis by (simp add: finite_score_def)
  qed
  then have sorted: "sorted_wrt (\<lambda>a b. \<not> f32_lt (sp_distance b) (sp_distance a)) (sort_scored ?all)"
    by (intro sort_scored_sorted) (simp add: list_all_iff)
  have sub: "p \<in> set ?all" if "p \<in> set ?ps" for p using in_set_takeD [OF that] by simp
  have rest: "\<not> f32_lt (dist i) (sp_distance p)"
    if i: "map_of (co_records c) i = Some r" "vec i \<noteq> None" "i \<notin> sp_id ` set ?ps" and p: "p \<in> set ?ps" for i r p
  proof -
    let ?x = "\<lparr>sp_id = i, sp_distance = dist i, sp_metadata = lr_metadata r, sp_document = lr_document r\<rparr>"
    have "(i, r) \<in> set (co_records c)" "scored vec dist (i, r) = Some ?x"
      using i(1,2) hm_wf_in_set [OF assms(1)] by (auto simp: scored_def)
    then have "?x \<in> set (sort_scored ?all)" by (auto simp: in_map_filter)
    moreover have "?x \<notin> set ?ps" using i(3) by (metis image_eqI scored_point.select_convs(1))
    ultimately show ?thesis using take_sorted [OF sorted p] by fastforce
  qed
  have "distinct (map sp_id ?ps)"
    using distinct_take [of "map sp_id (sort_scored ?all)" "max k 1"] scored_ids [OF assms(1)] by (simp add: take_map)
  moreover have "length ?ps = min (max k 1) (card {i \<in> dom (map_of (co_records c)). vec i \<noteq> None})"
    using scored_length [OF assms(1), of vec dist] by simp
  moreover have "sorted_wrt (\<lambda>a b. \<not> f32_lt (sp_distance b) (sp_distance a)) ?ps"
    by (rule sorted_wrt_take [OF sorted])
  ultimately show ?thesis using run point sub rest by (intro exI [of _ ?ps]) blast
qed

lemma demo_put_coll_fields:
  "co_records (apply_records demo_env [\<lparr>wr_seq = 1, wr_epoch = 3, wr_op = demo_put\<rparr>] demo_coll) = [(''a'', demo_row)]"
  "co_buffer (apply_records demo_env [\<lparr>wr_seq = 1, wr_epoch = 3, wr_op = demo_put\<rparr>] demo_coll) = [demo_row]"
  "co_config (apply_records demo_env [\<lparr>wr_seq = 1, wr_epoch = 3, wr_op = demo_put\<rparr>] demo_coll) = demo_coll_config"
  "co_segment_index (apply_records demo_env [\<lparr>wr_seq = 1, wr_epoch = 3, wr_op = demo_put\<rparr>] demo_coll) = []"
  "index_len list_ann (co_index (apply_records demo_env [\<lparr>wr_seq = 1, wr_epoch = 3, wr_op = demo_put\<rparr>] demo_coll)) = 0"
  unfolding demo_put_coll by (simp_all add: demo_coll_def index_len_def list_ann_def)

lemma demo_config_fields:
  "cc_dimension demo_coll_config = 1" "cc_space demo_coll_config = L2" "cc_hnsw demo_coll_config = hnsw_default"
  "cc_id demo_coll_config = 7"
  by (simp_all add: demo_coll_config_def collection_config_new_def)

lemma zero_not_nan: "\<not> f32_is_nan f32_zero"
  by (simp add: f32_is_nan_def f32_zero_def f32_mag_def f32_inf_mag_def)

lemma demo_distance: "distance_of f32_arith plain_simd L2 [7] [7] = Returns f32_zero"
  using l2_self_zero [OF plain_simd_laws, of "[7]"] by (simp add: f32_is_finite_def f32_mag_def f32_inf_mag_def)

lemma query_exact_scan_witness:
  "\<exists>ps. collection_query demo_env [7] 5 query_options_default
       (apply_records demo_env [\<lparr>wr_seq = 1, wr_epoch = 3, wr_op = demo_put\<rparr>] demo_coll) =
     (apply_records demo_env [\<lparr>wr_seq = 1, wr_epoch = 3, wr_op = demo_put\<rparr>] demo_coll, Returns (Inr ps)) \<and>
     length ps = 1"
proof -
  let ?c = "apply_records demo_env [\<lparr>wr_seq = 1, wr_epoch = 3, wr_op = demo_put\<rparr>] demo_coll"
  let ?vec = "\<lambda>i :: id. Some [7 :: f32]" and ?dist = "\<lambda>i :: id. f32_zero"
  have card: "card {i \<in> dom (map_of (co_records ?c)). ?vec i \<noteq> None} = 1"
    by (simp add: demo_put_coll_fields)
  have wf: "hm_wf (co_records ?c)" by (simp add: demo_put_coll_fields hm_wf_def)
  have opts: "qo_where_filter query_options_default = None" by (simp add: query_options_default_def)
  have dim: "cc_dimension (co_config ?c) = 0 \<or> length [7 :: f32] = cc_dimension (co_config ?c)"
    and small: "index_len (env_ann demo_env) (co_index ?c) + length (co_buffer ?c) \<le> hc_max_scan (cc_hnsw (co_config ?c))"
    by (simp_all add: demo_put_coll_fields demo_config_fields hnsw_default_def)
  have vec: "vector_of ?c i r = Returns (?vec i)" if "map_of (co_records ?c) i = Some r" for i r
    using that by (auto simp: demo_put_coll_fields vector_of_def load_vector_def load_vector_from_def demo_row_def
        split: if_splits)
  have dist: "distance_of f32_arith (env_simd demo_env) (cc_space (co_config ?c)) [7] e = Returns (?dist i) \<and> \<not> f32_is_nan (?dist i)"
    if "?vec i = Some e" for i e
    using that demo_distance zero_not_nan by (auto simp: demo_put_coll_fields demo_config_fields)
  from query_exact_scan [OF wf opts dim small vec dist, of 5] show ?thesis unfolding card by auto
qed


lemma demo_candidates:
  "evaluate set_bitmap ordered_f64
     (co_postings (apply_records demo_env [\<lparr>wr_seq = 1, wr_epoch = 3, wr_op = demo_put\<rparr>] demo_coll))
     \<lparr>wf_condition = Comparison ''k'' (Eq (IntV 1))\<rparr> = {0}"
proof -
  have "index_get set_bitmap (vk_eq ordered_f64)
      (index_insert set_bitmap (vk_eq ordered_f64) ''k'' (from_value (IntV 1)) 0 []) ''k'' (from_value (IntV 1)) = {0}"
    using equiv_relD(1) [OF of_eq_equiv [OF ordered_f64_laws]]
    by (simp add: index_get_def index_insert_def set_bitmap_def)
  then show ?thesis unfolding demo_put_coll
    by (simp add: evaluate_def eq_bitmap_def postings_insert_def insert_entry_def postings_new_def)
qed


text \<open>A filter on a buffered record sees old metadata. An update changes the record but not its
  buffered copy, so a filtered query still returns it, with its new metadata, whenever the metadata
  it was written with matches, whether the new metadata matches or not.\<close>

theorem filter_sees_stale_metadata:
  assumes "filter_matches_opt f m"
    and "filtered_query E q k ef space f ov (apply_update E i m' d' seq' (apply_put E i e m d seq c)) = (c', Returns (Inr ps))"
  shows "\<exists>p\<in>set ps. sp_id p = i \<and> sp_metadata p = m'"
proof -
  let ?c1 = "apply_put E i e m d seq c"
  let ?b = "\<lparr>lr_id = i, lr_embedding = Some e, lr_metadata = m, lr_document = d, lr_seq = seq\<rparr>"
  let ?c = "apply_update E i m' d' seq' ?c1"
  have "?b \<in> set (co_buffer ?c)" by (simp add: apply_update_fields apply_put_fields)
  moreover have "Option.bind (map_of (co_records ?c) i) lr_metadata = m'"
    by (auto simp: apply_update_def Let_def offset_for_def split: option.split)
  ultimately show ?thesis using filtered_query_keeps_buffer [OF _ _ _ assms(2), of ?b] assms(1) by simp
qed

text \<open>The witness: written with k = 1, updated to k = 2, and found by the filter k = 1.\<close>

lemma filter_sees_stale_metadata_witness:
  "\<exists>ps p c'. filtered_query demo_env [7] 5 10 L2 \<lparr>wf_condition = Comparison ''k'' (Eq (IntV 1))\<rparr> 4
      (apply_update demo_env ''a'' (Some [(''k'', IntV 2)]) None 2
        (apply_put demo_env ''a'' [7] (Some [(''k'', IntV 1)]) None 1 demo_coll)) = (c', Returns (Inr ps)) \<and>
     p \<in> set ps \<and> sp_id p = ''a'' \<and> sp_metadata p = Some [(''k'', IntV 2)] \<and>
     \<not> filter_matches_opt \<lparr>wf_condition = Comparison ''k'' (Eq (IntV 1))\<rparr> (Some [(''k'', IntV 2)])"
proof -
  let ?f = "\<lparr>wf_condition = Comparison ''k'' (Eq (IntV 1))\<rparr>"
  let ?c1 = "apply_put demo_env ''a'' [7] (Some [(''k'', IntV 1)]) None 1 demo_coll"
  let ?c = "apply_update demo_env ''a'' (Some [(''k'', IntV 2)]) None 2 ?c1"
  have f: "filter_matches_opt ?f (Some [(''k'', IntV 1)])" "\<not> filter_matches_opt ?f (Some [(''k'', IntV 2)])"
    by (simp_all add: filter_matches_opt_def matches_def)
  have wf: "op_wf demo_put" "op_wf demo_update" by (simp_all add: demo_put_def demo_update_def hm_wf_def)
  have n0: "co_next_offset demo_coll \<noteq> - 1" by (simp add: demo_coll_def)
  have I1: "coll_inv demo_env ?c1" "co_next_offset ?c1 \<noteq> - 1"
    using apply_operation_inv [OF demo_coll_inv(1) n0 wf(1), of 1]
    by (auto simp: demo_put_def demo_coll_def apply_put_def offset_for_def Let_def)
  have I: "coll_inv demo_env ?c"
    using apply_operation_inv [OF I1 wf(2), of 2] by (simp add: demo_update_def)
  have recs: "map_of (co_records ?c) i = (if i = ''a'' then Some \<lparr>lr_id = ''a'', lr_embedding = Some [7],
      lr_metadata = Some [(''k'', IntV 2)], lr_document = None, lr_seq = 2\<rparr> else None)" for i
    by (auto simp: apply_update_def apply_put_def offset_for_def Let_def demo_coll_def)
  have ex: "\<forall>i r. map_of (co_records ?c) i = Some r \<longrightarrow> metadata_exact (md_or_empty (lr_metadata r))"
    by (auto simp: recs metadata_exact_def hm_wf_def i64_exact_def)
  have "condition_exact (wf_condition ?f)" by (simp add: i64_exact_def)
  from candidates_eligible [OF I ex this]
  have none: "\<not> bm_contains set_bitmap (evaluate set_bitmap ordered_f64 (co_postings ?c) ?f) off" for off
    using f(2) by (auto simp: eligible_def recs)
  then have empty: "evaluate set_bitmap ordered_f64 (co_postings ?c) ?f = {}" by (auto simp: set_bitmap_def)
  have buf: "co_buffer ?c = [\<lparr>lr_id = ''a'', lr_embedding = Some [7], lr_metadata = Some [(''k'', IntV 1)],
      lr_document = None, lr_seq = 1\<rparr>]"
    by (simp add: apply_update_fields apply_put_fields demo_coll_def retain_other_def)
  have d: "scan_buffer demo_env (\<lambda>r. filter_matches_opt ?f (lr_metadata r)) [7] L2 (co_buffer ?c) [] = Returns [(''a'', f32_zero)]"
    unfolding buf by (simp only: scan_buffer.simps demo_env_simps live_record.select_convs f(1) not_True_eq_False
        if_False option.case demo_distance run_bind.simps AList.update.simps)
  have "bm_len set_bitmap {} = 0" "bm_iter set_bitmap {} = []" by (simp_all add: set_bitmap_def)
  then obtain ps where ps: "filtered_query demo_env [7] 5 10 L2 ?f 4 ?c = (?c, Returns (Inr ps))"
    using filtered_query_exact [OF d, of "[(''a'', f32_zero)]"] empty by simp
  from filter_sees_stale_metadata [OF f(1) ps] f(2) ps show ?thesis by blast
qed

text \<open>A segment shadows newer vectors. When an id has a vector in the loaded segment, writing a new
  vector for it leaves reads on the old one: the record carries the new vector, and the vector the
  exact scan and the index rebuild use is still that of the segment.\<close>

theorem segment_shadows_new_vector:
  assumes "load_vector c i = Returns (Some v)"
  shows "\<exists>r. map_of (co_records (apply_operation E (Upsert i e m d) seq c)) i = Some r \<and> lr_embedding r = Some e \<and>
    vector_of (apply_operation E (Upsert i e m d) seq c) i r = Returns (Some v)"
proof -
  have "load_vector (apply_operation E (Upsert i e m d) seq c) i = Returns (Some v)"
    using assms apply_operation_fields(4,5) [of E "Upsert i e m d" seq c] by (simp add: load_vector_def)
  then show ?thesis by (simp add: vector_of_def) (simp add: apply_put_def Let_def split: prod.split)
qed

lemma segment_shadows_new_vector_witness:
  "\<exists>s r. get_vector s 0 = Returns (Some [5]) \<and>
     map_of (co_records (apply_operation demo_env (Upsert ''a'' [7] None None) 9
       (demo_coll\<lparr>co_segments := [s], co_segment_index := [(''a'', 0)]\<rparr>))) ''a'' = Some r \<and> lr_embedding r = Some [7] \<and>
     vector_of (apply_operation demo_env (Upsert ''a'' [7] None None) 9
       (demo_coll\<lparr>co_segments := [s], co_segment_index := [(''a'', 0)]\<rparr>)) ''a'' r = Returns (Some [5])"
proof -
  obtain s where s: "get_vector s 0 = Returns (Some [5])"
    using segment_written [of 1 "[[5]]" "\<lambda>b. 0"] by (auto simp: HEADER_SIZE_def)
  then have "load_vector (demo_coll\<lparr>co_segments := [s], co_segment_index := [(''a'', 0)]\<rparr>) ''a'' = Returns (Some [5])"
    by (simp add: load_vector_def load_vector_from_def)
  from segment_shadows_new_vector [OF this] s show ?thesis by blast
qed

text \<open>The exact path of a filtered query does not read segments. Once the records have given up
  their vectors to a segment, as a checkpoint makes them do, a filtered query within the scan limit
  finds nothing, whatever matches the filter.\<close>

theorem filtered_scan_skips_segments:
  assumes "\<And>i r. map_of (co_records c) i = Some r \<Longrightarrow> lr_embedding r = None" "co_buffer c = []"
    and "qo_where_filter opts = Some f" "cc_dimension (co_config c) = 0 \<or> length q = cc_dimension (co_config c)"
    and "bm_len (env_bitmap E) (evaluate (env_bitmap E) (env_float E) (co_postings c) f) \<le> hc_max_scan (cc_hnsw (co_config c))"
  shows "collection_query E q k opts c = (c, Returns (Inr []))"
proof -
  have "scan_offsets E q space c offs d = Returns d" for space offs d
  proof (induction offs arbitrary: d)
    case (Cons off offs)
    then show ?case using assms(1) by (force simp: bind_eq_Some_conv split: option.split)
  qed simp
  then show ?thesis
    using assms(2-5) by (auto simp: collection_query_def filtered_query_def Let_def build_scored_def sort_scored_def)
qed

lemma filtered_scan_skips_segments_witness:
  "filter_matches_opt \<lparr>wf_condition = Comparison ''k'' (Eq (IntV 1))\<rparr> (lr_metadata demo_row) \<and>
   collection_query demo_env [7] 5 (with_where \<lparr>wf_condition = Comparison ''k'' (Eq (IntV 1))\<rparr>)
     ((apply_records demo_env [\<lparr>wr_seq = 1, wr_epoch = 3, wr_op = demo_put\<rparr>] demo_coll)
        \<lparr>co_records := [(''a'', demo_row\<lparr>lr_embedding := None\<rparr>)], co_buffer := []\<rparr>) =
     ((apply_records demo_env [\<lparr>wr_seq = 1, wr_epoch = 3, wr_op = demo_put\<rparr>] demo_coll)
        \<lparr>co_records := [(''a'', demo_row\<lparr>lr_embedding := None\<rparr>)], co_buffer := []\<rparr>, Returns (Inr []))"
proof -
  let ?f = "\<lparr>wf_condition = Comparison ''k'' (Eq (IntV 1))\<rparr>"
  let ?c = "(apply_records demo_env [\<lparr>wr_seq = 1, wr_epoch = 3, wr_op = demo_put\<rparr>] demo_coll)
        \<lparr>co_records := [(''a'', demo_row\<lparr>lr_embedding := None\<rparr>)], co_buffer := []\<rparr>"
  have "evaluate set_bitmap ordered_f64 (co_postings ?c) ?f = {0}" using demo_candidates by simp
  then have small: "bm_len (env_bitmap demo_env) (evaluate (env_bitmap demo_env) (env_float demo_env) (co_postings ?c) ?f) \<le>
      hc_max_scan (cc_hnsw (co_config ?c))"
    by (simp add: set_bitmap_def demo_put_coll_fields demo_config_fields hnsw_default_def)
  have none: "lr_embedding r = None" if "map_of (co_records ?c) i = Some r" for i r
    using that by (auto split: if_splits)
  have "co_buffer ?c = []" "qo_where_filter (with_where ?f) = Some ?f"
    "cc_dimension (co_config ?c) = 0 \<or> length [7 :: f32] = cc_dimension (co_config ?c)"
    by (simp_all add: with_where_def demo_put_coll_fields demo_config_fields)
  from filtered_scan_skips_segments [OF none this small] show ?thesis
    by (simp add: filter_matches_opt_def matches_def demo_row_def)
qed

end
