(* ===== verification/Collection_Recovery.thy ===== *)
theory Collection_Recovery
  imports Collection_Query
begin

text \<open>
  Durability of writes. A batch is appended to the log before it is applied, so replaying the log of
  a collection gives its records, and so does opening it again. \<open>replay_opens\<close> is the part of
  opening that both the plain recovery and the recovery from a checkpoint share: replay a tail of
  the log on a restored collection and flush.
\<close>

section \<open>Appending a batch\<close>

lemma append_ops_each:
  "append_each (wal_append C) ops w = Inr (w', rs) \<Longrightarrow> append_ops C ops w = (w', Inr rs)"
  by (induction ops arbitrary: w w' rs) (auto simp: and_then_Inr_iff)

lemma write_ops_ok:
  assumes I: "coll_inv E c" and L: "log_repr (env_codec E) (co_wal c) rs"
    and ops: "list_all (writable (env_codec E)) ops" "list_all op_wf ops"
    and room: "unat (wal_last_seq (co_wal c)) + length ops < 2 ^ 64" "unat (co_next_offset c) + length ops < 2 ^ 32"
  obtains c' new where "write_ops E ops c = (c', Inr ())" "map wr_op new = ops"
    "log_repr (env_codec E) (co_wal c') (rs @ new)" "coll_inv E c'"
    "map_of (co_records c') = spec_replay new (map_of (co_records c))"
    "unat (wal_last_seq (co_wal c')) = unat (wal_last_seq (co_wal c)) + length ops" "co_config c' = co_config c"
    "\<forall>r\<in>set new. 0 < wr_seq r"
proof -
  obtain w new where w: "append_each (wal_append (env_codec E)) ops (co_wal c) = Inr (w, new)"
    "log_repr (env_codec E) w (rs @ new)" "map wr_op new = ops"
    "unat (wal_last_seq w) = unat (wal_last_seq (co_wal c)) + length ops"
    and seqs: "map (\<lambda>r. unat (wr_seq r)) new = [Suc (unat (wal_last_seq (co_wal c))) ..< Suc (unat (wal_last_seq (co_wal c)) + length ops)]"
    using wal_log.append_each_ok [OF L ops(1) room(1)] by blast
  have pos: "0 < wr_seq r" if "r \<in> set new" for r
  proof -
    have "unat (wr_seq r) \<in> set (map (\<lambda>r. unat (wr_seq r)) new)" using that by simp
    then show ?thesis unfolding seqs by (auto simp: word_less_nat_alt)
  qed
  let ?c1 = "c\<lparr>co_wal := w\<rparr>"
  have I1: "coll_inv E ?c1"
  proof -
    have "doc_map ?c1 = doc_map c" by (rule ext) (simp add: doc_map_def)
    then show ?thesis
      using I by (simp add: coll_inv_def offsets_inv_def records_inv_def buffer_inv_def index_inv_def)
  qed
  have len: "length new = length ops" using w(3) by (metis length_map)
  have wf: "list_all (\<lambda>r. op_wf (wr_op r)) new" using ops(2) w(3) by (auto simp: list_all_iff)
  have n: "unat (co_next_offset ?c1) + length new < 2 ^ 32" using room(2) len by simp
  note A = apply_records_inv [OF I1 n wf]
  show thesis
    by (rule that [of "apply_records E new ?c1" new])
      (use A w pos in \<open>simp_all add: write_ops_def append_ops_each [OF w(1)] apply_records_fields\<close>)
qed

section \<open>Replaying on a restored collection\<close>

fun op_dim :: "nat \<Rightarrow> operation \<Rightarrow> bool" where
  "op_dim d (Add i e m x) = (length e = d)"
| "op_dim d (Upsert i e m x) = (length e = d)"
| "op_dim d _ = True"

definition ops_ok :: "nat \<Rightarrow> wal_record list \<Rightarrow> bool" where
  "ops_ok d rs \<longleftrightarrow> list_all (\<lambda>r. op_wf (wr_op r) \<and> op_dim d (wr_op r)) rs"

lemma index_delete_dimension [simp]: "ui_dimension (index_delete A i x) = ui_dimension x"
  by (simp add: index_delete_def split: option.split)

lemma apply_operation_dims:
  assumes "dims_ok c" "op_dim (ui_dimension (co_index c)) op"
  shows "dims_ok (apply_operation E op seq c) \<and>
    ui_dimension (co_index (apply_operation E op seq c)) = ui_dimension (co_index c) \<and>
    length (co_buffer (apply_operation E op seq c)) \<le> Suc (length (co_buffer c))"
proof -
  have sub: "b \<in> set (co_buffer c)" if "b \<in> set (retain_other i (co_buffer c))" for b i
    using that by (simp add: retain_other_def)
  have len: "length (retain_other i bs) \<le> length bs" for i bs by (simp add: retain_other_def)
  have put: "dims_ok (apply_put E i e m d seq c) \<and> length (co_buffer (apply_put E i e m d seq c)) \<le> Suc (length (co_buffer c))"
    if "length e = ui_dimension (co_index c)" for i e m d
    using assms(1) that sub len by (auto simp: dims_ok_def apply_put_fields)
  show ?thesis
  proof (cases op)
    case (Add i e m d)
    then show ?thesis using put [of e i m d] assms(2) by (simp add: apply_put_fields)
  next
    case (Upsert i e m d)
    then show ?thesis using put [of e i m d] assms(2) by (simp add: apply_put_fields)
  next
    case (Update i m d)
    then show ?thesis using assms(1) by (simp add: dims_ok_def apply_update_fields)
  next
    case (Delete i)
    then show ?thesis using assms(1) sub [of _ i] len [of i "co_buffer c"] by (auto simp: dims_ok_def apply_delete_fields)
  qed
qed

lemma apply_records_dims:
  "dims_ok c \<Longrightarrow> ops_ok (ui_dimension (co_index c)) rs \<Longrightarrow>
   dims_ok (apply_records E rs c) \<and>
   ui_dimension (co_index (apply_records E rs c)) = ui_dimension (co_index c) \<and>
   length (co_buffer (apply_records E rs c)) \<le> length (co_buffer c) + length rs"
proof (induction rs arbitrary: c)
  case Nil
  then show ?case by (simp add: apply_records_def)
next
  case (Cons r rs)
  let ?c1 = "apply_operation E (wr_op r) (wr_seq r) c"
  have 1: "dims_ok ?c1" "ui_dimension (co_index ?c1) = ui_dimension (co_index c)"
    "length (co_buffer ?c1) \<le> Suc (length (co_buffer c))"
    using apply_operation_dims [OF Cons.prems(1), of "wr_op r" E "wr_seq r"] Cons.prems(2) by (simp_all add: ops_ok_def)
  have "ops_ok (ui_dimension (co_index ?c1)) rs" using Cons.prems(2) 1(2) by (simp add: ops_ok_def)
  from Cons.IH [OF 1(1) this] 1 show ?case by (simp add: apply_records_def)
qed

lemma flush_if_needed_ok:
  assumes I: "coll_inv E c" and "ann_reserves (env_ann E)" "dims_ok c"
    and "unat (ui_next_label (co_index c)) + length (co_buffer c) < 2 ^ 64"
  shows "\<exists>c'. flush_if_needed E c = (c', Inr ()) \<and> coll_inv E c' \<and> co_records c' = co_records c \<and>
    co_wal c' = co_wal c \<and> co_segments c' = co_segments c \<and> co_segment_index c' = co_segment_index c"
proof (cases "hc_batch_size (cc_hnsw (co_config c)) \<le> length (co_buffer c)")
  case True
  obtain V where V: "index_repr (env_ann E) (co_index c) V"
    using coll_invD(5) [OF I] unfolding index_inv_def by blast
  obtain x where "flush_buffer E c =
      (c\<lparr>co_buffer := [], co_index := x, co_flushed_seq := max (co_flushed_seq c) (fold max_seq_of (co_buffer c) 0)\<rparr>, Inr ())"
    using flush_buffer_ok [OF I V assms(2,3,4)] by blast
  then show ?thesis
    using flush_buffer_inv [OF I assms(4)] flush_buffer_records [of E c] True by (simp add: flush_if_needed_def)
next
  case False
  then show ?thesis using I by (simp add: flush_if_needed_def)
qed

text \<open>
  Opening after the state has been restored: replay what the log holds above a sequence number and
  flush. The result has the records that replay specifies, whatever the flush did.
\<close>

lemma replay_opens:
  assumes I: "coll_inv E c" and L: "log_repr (env_codec E) (co_wal c) rs"
    and full: "filter (in_range (fl + 1) (wal_last_seq (co_wal c))) rs = tail" "wal_last_seq (co_wal c) \<le> fl \<Longrightarrow> tail = []"
    and "ops_ok (ui_dimension (co_index c)) tail" "dims_ok c" "ann_reserves (env_ann E)"
    and room: "unat (co_next_offset c) + length tail < 2 ^ 32"
      "unat (ui_next_label (co_index c)) + length (co_buffer c) + length tail < 2 ^ 64"
  obtains c2 c3 where "replay_after E fl c = Inr c2" "flush_if_needed E c2 = (c3, Inr ())" "coll_inv E c3"
    "map_of (co_records c3) = spec_replay tail (map_of (co_records c))"
    "co_wal c3 = co_wal c" "co_segments c3 = co_segments c" "co_segment_index c3 = co_segment_index c"
proof -
  have rp: "replay_after E fl c = Inr (apply_records E tail c)"
  proof (cases "wal_last_seq (co_wal c) > fl")
    case True
    then show ?thesis
      using wal_log.range_ok [OF L] full(1) by (simp add: replay_after_def)
  next
    case False
    then show ?thesis using full(2) by (simp add: replay_after_def apply_records_def)
  qed
  have wf: "list_all (\<lambda>r. op_wf (wr_op r)) tail" using assms(5) by (simp add: ops_ok_def list_all_iff)
  note A = apply_records_inv [OF I room(1) wf] and D = apply_records_dims [OF assms(6,5), of E]
  let ?c2 = "apply_records E tail c"
  have "unat (ui_next_label (co_index ?c2)) + length (co_buffer ?c2) < 2 ^ 64"
    using D room(2) by (simp add: apply_records_fields)
  then obtain c3 where "flush_if_needed E ?c2 = (c3, Inr ())" "coll_inv E c3" "co_records c3 = co_records ?c2"
      "co_wal c3 = co_wal ?c2" "co_segments c3 = co_segments ?c2" "co_segment_index c3 = co_segment_index ?c2"
    using flush_if_needed_ok [of E ?c2] A D assms(7) by blast
  with A rp show thesis by (intro that [of ?c2 c3]) (simp_all add: apply_records_fields)
qed

section \<open>Opening without a checkpoint\<close>

lemma collection_new_ok:
  assumes B: "bitmap_laws (env_bitmap E)" "of_laws (env_float E)" "ann_laws (env_ann E)"
    and L: "wal_repr (env_codec E) w fs"
    and x: "with_hnsw (env_ann E) (cc_space config) (cc_dimension config) (cc_hnsw config) = Inr x"
  obtains c where "collection_new E config (wal_file w) ep fsync = Inr c" "coll_inv E c" "co_records c = []"
    "co_buffer c = []" "wal_repr (env_codec E) (co_wal c) fs" "wal_last_seq (co_wal c) = end_seq 0 fs"
    "co_index c = x" "ui_dimension x = cc_dimension config" "ui_next_label x = 0" "co_next_offset c = 0"
    "co_segments c = []" "co_segment_index c = []" "co_config c = config" "co_flushed_seq c = 0"
    "index_repr (env_ann E) x Map.empty"
    "wal_file (co_wal c) = wal_file w" "wal_header_epoch (co_wal c) = wal_header_epoch w"
proof -
  obtain w' where w': "wal_open (env_codec E) (wal_file w) ep \<lparr>wo_fsync = fsync, wo_start_seq = None\<rparr> = Inr w'"
    "wal_repr (env_codec E) w' fs" "wal_last_seq w' = end_seq 0 fs" "wal_header_epoch w' = wal_header_epoch w"
    using wal_reopen [OF L, of ep "\<lparr>wo_fsync = fsync, wo_start_seq = None\<rparr>"] by auto
  have bytes: "wal_file w' = wal_file w"
    using L w'(2,4) by (simp add: wal_repr_def)
  have rx: "index_repr (env_ann E) x Map.empty" "ui_dimension x = cc_dimension config"
    using with_hnsw_repr [OF B(3) x] by simp_all
  have lx: "ui_next_label x = 0" using x by (auto simp: with_hnsw_def split: sum.splits)
  let ?c = "\<lparr>co_config = config, co_wal = w', co_records = [], co_buffer = [], co_index = x,
      co_flushed_seq = 0, co_offsets = [], co_id_by_offset = [], co_next_offset = 0,
      co_postings = postings_new (env_bitmap E), co_last_checkpoint_seq = 0, co_fsync = fsync,
      co_segments = [], co_segment_index = []\<rparr>"
  have "coll_inv E ?c" by (rule empty_coll_inv [OF B(1,2)]) (simp_all add: rx)
  then show thesis using w' x rx lx bytes by (intro that [of ?c]) (simp_all add: collection_new_def)
qed

lemma log_repr_frames:
  assumes "log_repr C w rs"
  obtains fs where "wal_repr C w fs" "rs = map (record_of C) fs"
  using assms unfolding log_repr_def by blast

text \<open>The range read on open covers the whole log.\<close>

lemma full_range:
  assumes "log_repr C w rs"
  shows "filter (in_range (fl + 1) (wal_last_seq w)) rs = (if fl = - 1 then filter (in_range 0 (wal_last_seq w)) rs else filter (\<lambda>r. fl < wr_seq r) rs)"
proof (cases "fl = - 1")
  case False
  have "in_range (fl + 1) (wal_last_seq w) r \<longleftrightarrow> fl < wr_seq r" if "r \<in> set rs" for r
    using wal_log.seq_bounded [OF assms that] unat_succ [OF False]
    by (simp add: in_range_def word_le_nat_alt word_less_nat_alt Suc_le_eq)
  then show ?thesis using False by (simp cong: filter_cong)
qed simp

lemma full_log:
  assumes "log_repr C w rs" "\<forall>r\<in>set rs. 0 < wr_seq r"
  shows "filter (in_range (0 + 1) (wal_last_seq w)) rs = rs" "wal_last_seq w \<le> 0 \<Longrightarrow> rs = []"
proof -
  have "filter (in_range (0 + 1) (wal_last_seq w)) rs = filter (\<lambda>r. 0 < wr_seq r) rs"
    using full_range [OF assms(1), of 0] by simp
  then show "filter (in_range (0 + 1) (wal_last_seq w)) rs = rs" using assms(2) by simp
  show "rs = []" if "wal_last_seq w \<le> 0"
    using wal_log.repr_last [OF assms(1)] that assms(2) by (cases rs rule: rev_cases) auto
qed

lemma dims_ok_empty: "co_buffer c = [] \<Longrightarrow> dims_ok c"
  by (simp add: dims_ok_def)

lemma log_wal_reopen:
  assumes "log_repr C w rs"
  obtains fs where "wal_repr C w fs" "rs = map (record_of C) fs"
    "\<And>w'. wal_repr C w' fs \<Longrightarrow> log_repr C w' rs"
  using assms unfolding log_repr_def by blast

lemma open_replays_log:
  assumes B: "bitmap_laws (env_bitmap E)" "of_laws (env_float E)" "ann_laws (env_ann E)" "ann_reserves (env_ann E)"
    and L: "log_repr (env_codec E) w rs" "\<forall>r\<in>set rs. 0 < wr_seq r" "ops_ok (cc_dimension config) rs" "length rs < 2 ^ 32"
    and x: "with_hnsw (env_ann E) (cc_space config) (cc_dimension config) (cc_hnsw config) = Inr x"
  shows "\<exists>c. collection_open E config (wal_file w) [] ep fsync = Returns (Inr c) \<and> coll_inv E c \<and>
    map_of (co_records c) = spec_replay rs Map.empty \<and> co_segment_index c = []"
proof -
  obtain fs where fs: "wal_repr (env_codec E) w fs" "\<And>w'. wal_repr (env_codec E) w' fs \<Longrightarrow> log_repr (env_codec E) w' rs"
    using log_wal_reopen [OF L(1)] by blast
  obtain c where c: "collection_new E config (wal_file w) ep fsync = Inr c" "coll_inv E c" "co_records c = []"
    "co_buffer c = []" "wal_repr (env_codec E) (co_wal c) fs" "co_index c = x" "ui_dimension x = cc_dimension config"
    "ui_next_label x = 0" "co_next_offset c = 0" "co_segment_index c = []"
    using collection_new_ok [OF B(1-3) fs(1) x] by metis
  note L' = fs(2) [OF c(5)]
  have dims: "ops_ok (ui_dimension (co_index c)) rs" using L(3) c(6,7) by simp
  have room: "unat (co_next_offset c) + length rs < 2 ^ 32"
    "unat (ui_next_label (co_index c)) + length (co_buffer c) + length rs < 2 ^ 64"
    using L(4) c(4,6,8,9) by simp_all
  obtain c2 c3 where c3: "replay_after E 0 c = Inr c2" "flush_if_needed E c2 = (c3, Inr ())" "coll_inv E c3"
    "map_of (co_records c3) = spec_replay rs (map_of (co_records c))" "co_segment_index c3 = co_segment_index c"
    using replay_opens [OF c(2) L' full_log [OF L' L(2)] dims dims_ok_empty [OF c(4)] B(4) room] by blast
  have "load_checkpoint E ep fsync [] c = Returns (c, False)" by (simp add: load_checkpoint_def)
  then show ?thesis using c(1,3,10) c3 by (intro exI [of _ c3]) (simp add: collection_open_def)
qed

section \<open>Properties\<close>

text \<open>C10: Acknowledged writes survive a restart. A batch of encodable operations on a collection whose
  log replays to its records is written, acts on the records as specified, and opening the
  collection again from the log file alone succeeds and finds exactly the records the write left,
  with all derived state rebuilt.\<close>

theorem write_survives_restart:
  assumes "coll_inv E c" "log_repr (env_codec E) (co_wal c) rs" "\<forall>r\<in>set rs. 0 < wr_seq r"
    and "spec_replay rs Map.empty = map_of (co_records c)" "ann_reserves (env_ann E)"
    and "with_hnsw (env_ann E) (cc_space (co_config c)) (cc_dimension (co_config c)) (cc_hnsw (co_config c)) = Inr x"
    and "ops_ok (cc_dimension (co_config c)) rs" "list_all (op_dim (cc_dimension (co_config c))) ops"
    and "list_all (writable (env_codec E)) ops" "list_all op_wf ops"
    and "unat (wal_last_seq (co_wal c)) + length ops < 2 ^ 64" "unat (co_next_offset c) + length ops < 2 ^ 32"
    and "length rs + length ops < 2 ^ 32"
  shows "\<exists>c' c'' new. write_ops E ops c = (c', Inr ()) \<and> map wr_op new = ops \<and>
    map_of (co_records c') = spec_replay new (map_of (co_records c)) \<and> coll_inv E c' \<and>
    collection_open E (co_config c) (wal_file (co_wal c')) [] ep fsync = Returns (Inr c'') \<and>
    coll_inv E c'' \<and> map_of (co_records c'') = map_of (co_records c')"
proof -
  obtain c' new where w: "write_ops E ops c = (c', Inr ())" "map wr_op new = ops"
    "log_repr (env_codec E) (co_wal c') (rs @ new)" "coll_inv E c'"
    "map_of (co_records c') = spec_replay new (map_of (co_records c))" "\<forall>r\<in>set new. 0 < wr_seq r"
    using write_ops_ok [OF assms(1,2,9,10,11,12)] by metis
  have B: "bitmap_laws (env_bitmap E)" "of_laws (env_float E)"
    using postings_repr_laws [OF coll_invD(3) [OF assms(1)]] by simp_all
  have A: "ann_laws (env_ann E)" using coll_invD(5) [OF assms(1)] index_reprD(1) unfolding index_inv_def by blast
  have pos: "\<forall>r\<in>set (rs @ new). 0 < wr_seq r" using assms(3) w(6) by auto
  have ok: "ops_ok (cc_dimension (co_config c)) (rs @ new)"
    using assms(7,8,10) w(2) by (auto simp: ops_ok_def list_all_iff)
  have len: "length (rs @ new) < 2 ^ 32" using assms(13) w(2) by (metis length_append length_map)
  from open_replays_log [OF B A assms(5) w(3) pos ok len assms(6), of ep fsync] w assms(4) show ?thesis
    by auto
qed

lemma demo_ops_codec_laws: "codec_laws demo_ops_codec"
  by (auto simp: codec_laws_def demo_ops_codec_def demo_put_def demo_update_def split: if_splits)

lemma demo_coll_log: "log_repr demo_ops_codec (co_wal demo_coll) []"
  unfolding log_repr_def
  by (intro exI [of _ "[]"]) (simp add: wal_repr_def demo_coll_def demo_ops_codec_laws)

lemma write_survives_restart_witness:
  "\<exists>c' c''. write_ops demo_env [demo_put, demo_update] demo_coll = (c', Inr ()) \<and>
     collection_open demo_env demo_coll_config (wal_file (co_wal c')) [] (Epoch 3) True = Returns (Inr c'') \<and>
     map_of (co_records c'') = map_of (co_records c') \<and>
     Option.bind (map_of (co_records c'') ''a'') lr_metadata = Some [(''k'', IntV 2)]"
proof -
  have cfg: "co_config demo_coll = demo_coll_config" "co_records demo_coll = []" "co_next_offset demo_coll = 0"
    "wal_last_seq (co_wal demo_coll) = 0" by (simp_all add: demo_coll_def)
  obtain x where x: "with_hnsw (env_ann demo_env) (cc_space (co_config demo_coll)) (cc_dimension (co_config demo_coll))
      (cc_hnsw (co_config demo_coll)) = Inr x"
    by (simp add: with_hnsw_def list_ann_def)
  have ops: "list_all (op_dim (cc_dimension (co_config demo_coll))) [demo_put, demo_update]"
    "list_all (writable (env_codec demo_env)) [demo_put, demo_update]" "list_all op_wf [demo_put, demo_update]"
    by (simp_all add: cfg demo_config_fields demo_put_def demo_update_def writable_def demo_ops_codec_def
        RECORD_HEADER_LEN_def hm_wf_def)
  have log: "log_repr (env_codec demo_env) (co_wal demo_coll) []" using demo_coll_log by simp
  have pos: "\<forall>r\<in>set []. 0 < wr_seq r" and ok: "ops_ok (cc_dimension (co_config demo_coll)) []"
    and init: "spec_replay [] Map.empty = map_of (co_records demo_coll)" and res: "ann_reserves (env_ann demo_env)"
    by (simp_all add: cfg ops_ok_def list_ann_reserves)
  have room: "unat (wal_last_seq (co_wal demo_coll)) + length [demo_put, demo_update] < 2 ^ 64"
    "unat (co_next_offset demo_coll) + length [demo_put, demo_update] < 2 ^ 32"
    "length ([] :: wal_record list) + length [demo_put, demo_update] < 2 ^ 32" by (simp_all add: cfg)
  obtain c' c'' new where w: "write_ops demo_env [demo_put, demo_update] demo_coll = (c', Inr ())"
    "map wr_op new = [demo_put, demo_update]" "map_of (co_records c') = spec_replay new (map_of (co_records demo_coll))"
    "collection_open demo_env (co_config demo_coll) (wal_file (co_wal c')) [] (Epoch 3) True = Returns (Inr c'')"
    "map_of (co_records c'') = map_of (co_records c')"
    using write_survives_restart [OF demo_coll_inv(1) log pos init res x ok ops room, of "Epoch 3" True]
    by (elim exE conjE) (rule that)
  obtain r1 r2 where "new = [r1, r2]" "wr_op r1 = demo_put" "wr_op r2 = demo_update"
    using w(2) by (auto simp: Cons_eq_map_conv)
  then have "Option.bind (map_of (co_records c'') ''a'') lr_metadata = Some [(''k'', IntV 2)]"
    using w(3,5) by (simp add: spec_apply_def demo_put_def demo_update_def)
  with w cfg show ?thesis by metis
qed

end
