(* ===== verification/Checkpoint_Semantics.thy ===== *)
theory Checkpoint_Semantics
  imports Collection_Recovery
begin

text \<open>
  What a checkpoint preserves. The first checkpoint of a collection moves every vector into the
  segment and every record into the snapshot; reading a record and its vector gives the same before
  and after it, in memory and after opening from the files it wrote. A second checkpoint no longer
  has the vectors the first one moved, and drops them.
\<close>

section \<open>Running the steps\<close>

lemma act_bind_ok:
  assumes "act_bind m k w = (w', Returns (Inr y))"
  obtains w1 x where "m w = (w1, Returns (Inr x))" "k x w1 = (w', Returns (Inr y))"
proof -
  obtain w1 r where m: "m w = (w1, r)" by (cases "m w")
  show thesis
  proof (cases r)
    case Panics
    then show thesis using assms m by (simp add: act_bind_def)
  next
    case (Returns s)
    then show thesis using assms m that by (cases s) (simp_all add: act_bind_def)
  qed
qed

lemma act_seq_Cons_ok:
  assumes "act_seq (m # ms) w = (w', Returns (Inr ()))"
  obtains w1 where "m w = (w1, Returns (Inr ()))" "act_seq ms w1 = (w', Returns (Inr ()))"
  using assms by (auto elim: act_bind_ok)

lemma act_seq_Nil_ok: "act_seq [] w = (w', Returns (Inr ())) \<Longrightarrow> w' = w"
  by (simp add: act_return_def)

lemma ckpt_save_records_ok:
  assumes "ckpt_save_records E w = (w', Returns (Inr ()))"
  obtains b where "env_enc_records E (co_records (cw_coll w)) = Some b"
    "w' = w\<lparr>cw_dir := AList.update RecordsBin b (cw_dir w)\<rparr>"
  using assms by (auto simp: ckpt_save_records_def act_fail_def act_return_def split: option.splits)

lemma ckpt_save_marker_ok:
  assumes "ckpt_save_marker E m w = (w', Returns (Inr ()))"
  obtains b where "env_enc_ckpt E m = Some b" "w' = w\<lparr>cw_dir := AList.update CheckpointJson b (cw_dir w)\<rparr>"
  using assms by (auto simp: ckpt_save_marker_def act_fail_def act_return_def split: option.splits)

lemma put_index_files_lookup:
  "map_of (put_index_files fs dir) f =
     (case f of IndexBin \<Rightarrow> (case fs GraphFile of Some b \<Rightarrow> Some b | None \<Rightarrow> map_of dir IndexBin)
      | IndexMeta \<Rightarrow> (case fs MetaFile of Some b \<Rightarrow> Some b | None \<Rightarrow> map_of dir IndexMeta)
      | _ \<Rightarrow> map_of dir f)"
  by (auto simp: put_index_files_def Let_def split: option.split ckpt_file.split)

text \<open>Saving the index touches its two files only.\<close>

lemma ckpt_save_index_ok:
  assumes "ckpt_save_index E w = (w', Returns (Inr ()))"
  shows "cw_coll w' = cw_coll w \<and> cw_cat w' = cw_cat w \<and>
    (\<forall>f. f \<noteq> IndexBin \<longrightarrow> f \<noteq> IndexMeta \<longrightarrow> map_of (cw_dir w') f = map_of (cw_dir w) f) \<and>
    (if index_is_empty (env_ann E) (co_index (cw_coll w)) then index_files (cw_dir w') = Map.empty
     else index_save (env_ann E) (env_enc_meta E) (co_index (cw_coll w)) (index_files (cw_dir w)) =
       (index_files (cw_dir w'), Inr ()))"
proof (cases "index_is_empty (env_ann E) (co_index (cw_coll w))")
  case True
  have "index_files (AList.delete IndexMeta (AList.delete IndexBin (cw_dir w))) f = None" for f
    by (cases f) (simp_all add: index_files_def)
  then have "index_files (AList.delete IndexMeta (AList.delete IndexBin (cw_dir w))) = Map.empty" by (rule ext)
  then show ?thesis using assms True by (auto simp: ckpt_save_index_def act_return_def)
next
  case False
  obtain fs r where s: "index_save (env_ann E) (env_enc_meta E) (co_index (cw_coll w)) (index_files (cw_dir w)) = (fs, r)"
    by (cases "index_save (env_ann E) (env_enc_meta E) (co_index (cw_coll w)) (index_files (cw_dir w))")
  have w': "w' = w\<lparr>cw_dir := put_index_files fs (cw_dir w)\<rparr>" and r: "r = Inr ()"
    using assms False s by (auto simp: ckpt_save_index_def split: sum.splits)
  have some: "fs GraphFile \<noteq> None \<and> fs MetaFile \<noteq> None"
    using s r by (auto simp: index_save_def Let_def split: sum.splits option.splits)
  have "index_files (put_index_files fs (cw_dir w)) f = fs f" for f
    using some by (cases f) (auto simp: index_files_def put_index_files_lookup)
  then have "index_files (put_index_files fs (cw_dir w)) = fs" by (rule ext)
  then show ?thesis
    using False s r by (auto simp: w' put_index_files_lookup split: ckpt_file.split)
qed

text \<open>The segment step, for a non-empty and for an empty set of vectors.\<close>

lemma map_of_remove_segments: "map_of (remove_segments dir) f = (if is_seg f then None else map_of dir f)"
  by (induction dir) (auto simp: remove_segments_def)

lemma ckpt_save_segments_ok:
  assumes "ckpt_save_segments E w = (w', Returns (Inr ()))"
  defines "entries \<equiv> segment_entries (co_records (cw_coll w))"
  shows "cw_cat w' = cw_cat w \<and>
    (\<forall>f. \<not> is_seg f \<longrightarrow> f \<noteq> SegmentIndexBin \<longrightarrow> map_of (cw_dir w') f = map_of (cw_dir w) f) \<and>
    (if entries = [] then
       cw_coll w' = (cw_coll w)\<lparr>co_segments := [], co_segment_index := []\<rparr> \<and>
       (\<forall>n. map_of (cw_dir w') (SegBin n) = None) \<and> map_of (cw_dir w') SegmentIndexBin = None
     else
       (\<exists>wr b. writer_push_all (map snd entries) (writer_new (cc_dimension (co_config (cw_coll w)))) = Returns wr \<and>
          env_enc_segidx E (zip (map fst entries) [0 ..< length entries]) = Some b \<and>
          map_of (cw_dir w') SegmentIndexBin = Some b \<and>
          map_of (cw_dir w') (SegBin 0) = Some (writer_write (crc32 (env_codec E)) wr) \<and>
          (\<forall>n. 0 < n \<longrightarrow> map_of (cw_dir w') (SegBin n) = map_of (cw_dir w) (SegBin n)) \<and>
          (\<forall>seg. segment_open (crc32 (env_codec E)) (writer_write (crc32 (env_codec E)) wr) = Returns (Inr seg) \<longrightarrow>
             cw_coll w' = (cw_coll w)\<lparr>co_segments := [seg], co_segment_index := zip (map fst entries) [0 ..< length entries]\<rparr>)))"
proof (cases "entries = []")
  case True
  then have "w' = w\<lparr>cw_dir := AList.delete SegmentIndexBin (remove_segments (cw_dir w)),
      cw_coll := (cw_coll w)\<lparr>co_segments := [], co_segment_index := []\<rparr>\<rparr>"
    using assms by (simp add: ckpt_save_segments_def act_return_def)
  then show ?thesis using True by (simp add: map_of_remove_segments is_seg_def)
next
  case False
  let ?idx = "zip (map fst entries) [0 ..< length entries]" and ?crc = "crc32 (env_codec E)"
  obtain wr where wr: "writer_push_all (map snd entries) (writer_new (cc_dimension (co_config (cw_coll w)))) = Returns wr"
    using assms False unfolding ckpt_save_segments_def Let_def
    by (cases "writer_push_all (map snd entries) (writer_new (cc_dimension (co_config (cw_coll w))))") auto
  obtain b where b: "env_enc_segidx E ?idx = Some b"
    using assms False wr unfolding ckpt_save_segments_def Let_def
    by (cases "env_enc_segidx E ?idx") (auto simp: act_fail_def)
  let ?dir = "AList.update SegmentIndexBin b (AList.update (SegBin 0) (writer_write ?crc wr) (cw_dir w))"
  have w': "cw_dir w' = ?dir \<and> cw_cat w' = cw_cat w \<and>
      (\<forall>seg. segment_open ?crc (writer_write ?crc wr) = Returns (Inr seg) \<longrightarrow>
             cw_coll w' = (cw_coll w)\<lparr>co_segments := [seg], co_segment_index := ?idx\<rparr>)"
    using assms False wr b unfolding ckpt_save_segments_def Let_def
    by (auto simp: act_return_def split: run.splits sum.splits)
  show ?thesis using False wr b w' by (auto simp: is_seg_def)
qed

lemma ckpt_tail_ok:
  assumes "act_seq [ckpt_strip fl, ckpt_advance E fl, ckpt_prune E fl, ckpt_reopen E fl nx] w = (w', Returns (Inr ()))"
    and L: "log_repr (env_codec E) (co_wal (cw_coll w)) rs"
  shows "cw_dir w' = cw_dir w \<and>
    advance_log_offset (env_catalog E) (cc_id (co_config (cw_coll w))) fl (cw_cat w) = Inr (cw_cat w') \<and>
    (\<exists>wal'. cw_coll w' = (cw_coll w)\<lparr>co_records := strip_records fl (co_records (cw_coll w)), co_wal := wal',
        co_last_checkpoint_seq := fl\<rparr> \<and>
      log_repr (env_codec E) wal' (filter (\<lambda>r. fl < wr_seq r) rs) \<and>
      (filter (\<lambda>r. fl < wr_seq r) rs = [] \<longrightarrow> wal_last_seq wal' = saturating_sub1 nx))"
proof -
  let ?c = "cw_coll w" and ?gs = "filter (\<lambda>r. fl < wr_seq r) rs"
  let ?w1 = "w\<lparr>cw_coll := ?c\<lparr>co_records := strip_records fl (co_records ?c)\<rparr>\<rparr>"
  obtain w2 w3 where s: "ckpt_advance E fl ?w1 = (w2, Returns (Inr ()))" "ckpt_prune E fl w2 = (w3, Returns (Inr ()))"
    "ckpt_reopen E fl nx w3 = (w', Returns (Inr ()))"
    using assms(1) by (auto simp: ckpt_strip_def act_return_def elim!: act_bind_ok)
  have w2: "cw_coll w2 = cw_coll ?w1" "cw_dir w2 = cw_dir w"
    "advance_log_offset (env_catalog E) (cc_id (co_config ?c)) fl (cw_cat w) = Inr (cw_cat w2)"
    using s(1) by (auto simp: ckpt_advance_def act_fail_def act_return_def split: sum.splits)
  obtain fs where fs: "wal_repr (env_codec E) (co_wal ?c) fs" "rs = map (record_of (env_codec E)) fs"
    using L unfolding log_repr_def by blast
  let ?g = "filter (\<lambda>fr. fl < fst fr) fs"
  have gs: "?gs = map (record_of (env_codec E)) ?g" by (simp add: fs(2) filter_map comp_def)
  obtain p where p: "wal_prune (env_codec E) fl (co_wal ?c) = Inr p" "wal_repr (env_codec E) p ?g"
    using wal_prune_repr [OF fs(1), of fl] by blast
  have w3: "w3 = w2\<lparr>cw_coll := (cw_coll w2)\<lparr>co_wal := p\<rparr>\<rparr>"
    using s(2) p(1) by (simp add: ckpt_prune_def act_return_def w2)
  obtain q where q: "wal_open (env_codec E) (wal_file p) (Epoch (wal_epoch p))
      \<lparr>wo_fsync = co_fsync ?c, wo_start_seq = Some nx\<rparr> = Inr q" "wal_repr (env_codec E) q ?g"
      "wal_last_seq q = end_seq (saturating_sub1 nx) ?g"
    using wal_reopen [OF p(2), of "Epoch (wal_epoch p)" "\<lparr>wo_fsync = co_fsync ?c, wo_start_seq = Some nx\<rparr>"] by auto
  have "w' = w3\<lparr>cw_coll := (cw_coll w3)\<lparr>co_wal := q, co_last_checkpoint_seq := fl\<rparr>\<rparr>"
    using s(3) q(1) by (simp add: ckpt_reopen_def act_return_def w3 w2 Let_def)
  moreover have "log_repr (env_codec E) q ?gs" unfolding log_repr_def gs using q(2) by blast
  moreover have "?gs = [] \<longrightarrow> wal_last_seq q = saturating_sub1 nx" using q(3) gs by auto
  ultimately show ?thesis using w2 by (intro conjI exI [of _ q]) (simp_all add: w3)
qed

end
