(* ===== verification/Checkpoint_Recovery.thy ===== *)
theory Checkpoint_Recovery
  imports Checkpoint_Semantics
begin

text \<open>
  Opening a collection from the files of a checkpoint: restoring the snapshot, the index and the
  segment, and replaying the rest of the log. The restored collection satisfies the invariant and
  shows the records and vectors the checkpoint was taken of.
\<close>

section \<open>Rebuilding the offsets and the postings\<close>

text \<open>The collection while the records before it have been indexed.\<close>

definition indexing :: "('b, 'g) engine_env \<Rightarrow> ('b, 'g) collection \<Rightarrow> (id \<times> live_record) list \<Rightarrow> ('b, 'g) collection \<Rightarrow> bool" where
  "indexing E c0 xs c \<longleftrightarrow>
     offsets_inv c \<and> dom (map_of (co_offsets c)) = fst ` set xs \<and> unat (co_next_offset c) = length xs \<and>
     postings_repr (env_bitmap E) (env_float E) (co_postings c) (doc_map c) \<and>
     c = c0\<lparr>co_offsets := co_offsets c, co_id_by_offset := co_id_by_offset c, co_next_offset := co_next_offset c,
            co_postings := co_postings c\<rparr>"

lemma indexing_keeps:
  assumes "indexing E c0 xs c"
  shows "co_records c = co_records c0 \<and> co_buffer c = co_buffer c0 \<and> co_index c = co_index c0 \<and> co_config c = co_config c0 \<and>
    co_wal c = co_wal c0 \<and> co_segments c = co_segments c0 \<and> co_segment_index c = co_segment_index c0"
proof -
  have k: "c = c0\<lparr>co_offsets := co_offsets c, co_id_by_offset := co_id_by_offset c, co_next_offset := co_next_offset c,
      co_postings := co_postings c\<rparr>"
    using assms unfolding indexing_def by blast
  from arg_cong [OF k, of co_records] arg_cong [OF k, of co_buffer] arg_cong [OF k, of co_index]
    arg_cong [OF k, of co_config] arg_cong [OF k, of co_wal] arg_cong [OF k, of co_segments]
    arg_cong [OF k, of co_segment_index]
  show ?thesis by simp
qed

lemma index_record_offset:
  assumes "map_of (co_offsets c) (fst x) = None"
  shows "offset_for (fst x) c =
    ((index_record E x c)\<lparr>co_postings := co_postings c\<rparr>, co_next_offset c)"
  using assms by (simp add: offset_for_def index_record_def Let_def)

lemma indexing_step:
  assumes J: "indexing E c0 xs c" and new: "fst x \<notin> fst ` set xs" and r: "map_of (co_records c0) (fst x) = Some (snd x)"
    and room: "length xs + 1 < 2 ^ 32"
  shows "indexing E c0 (xs @ [x]) (index_record E x c)"
proof -
  let ?c' = "index_record E x c" and ?off = "co_next_offset c"
  have O: "offsets_inv c" and P: "postings_repr (env_bitmap E) (env_float E) (co_postings c) (doc_map c)"
    and n: "unat ?off = length xs"
    and keep: "c = c0\<lparr>co_offsets := co_offsets c, co_id_by_offset := co_id_by_offset c, co_next_offset := ?off,
      co_postings := co_postings c\<rparr>"
    using J unfolding indexing_def by blast+
  have none: "map_of (co_offsets c) (fst x) = None" using J new unfolding indexing_def by blast
  have nx: "?off \<noteq> - 1" using n room by (auto simp: unat_max32)
  note F = offset_for_inv [OF O nx index_record_offset [OF none, of E]]
  have recs: "co_records c = co_records c0" using indexing_keeps [OF J] by blast
  have O': "offsets_inv ?c'" by (rule offsets_inv_cong [OF conjunct1 [OF F]]) simp_all
  have ids: "map_of (co_id_by_offset ?c') = (map_of (co_id_by_offset c))(?off \<mapsto> fst x)"
    "map_of (co_offsets ?c') = (map_of (co_offsets c))(fst x \<mapsto> ?off)"
    using F by simp_all
  have fresh: "doc_map c ?off = None" using F none by (simp add: doc_map_def)
  have recs': "map_of (co_records ?c') = (map_of (co_records c))(fst x \<mapsto> snd x)"
    using r recs by (simp add: index_record_def Let_def fun_upd_idem)
  have "doc_map ?c' = (doc_map c)(?off \<mapsto> md_or_empty (lr_metadata (snd x)))"
    by (rule doc_map_write [OF O ids(1) recs']) (simp add: none)
  then have P': "postings_repr (env_bitmap E) (env_float E) (co_postings ?c') (doc_map ?c')"
    using postings.insert_repr [OF P fresh, of "lr_metadata (snd x)"] by (simp add: index_record_def Let_def)
  have n': "unat (co_next_offset ?c') = length (xs @ [x])"
    using unat_succ [OF nx] n by (simp add: index_record_def Let_def)
  have dom: "dom (map_of (co_offsets ?c')) = fst ` set (xs @ [x])"
    using J ids(2) unfolding indexing_def by simp
  have "?c' = c0\<lparr>co_offsets := co_offsets ?c', co_id_by_offset := co_id_by_offset ?c', co_next_offset := co_next_offset ?c',
      co_postings := co_postings ?c'\<rparr>"
    by (subst (1) keep) (simp add: index_record_def Let_def)
  then show ?thesis using O' P' n' dom unfolding indexing_def by blast
qed

lemma indexing_all:
  "indexing E c0 xs c \<Longrightarrow> distinct (map fst (xs @ ys)) \<Longrightarrow> \<forall>x\<in>set ys. map_of (co_records c0) (fst x) = Some (snd x) \<Longrightarrow>
   length xs + length ys < 2 ^ 32 \<Longrightarrow> indexing E c0 (xs @ ys) (fold (index_record E) ys c)"
proof (induction ys arbitrary: xs c)
  case (Cons y ys)
  have "fst y \<notin> fst ` set xs" "map_of (co_records c0) (fst y) = Some (snd y)" "length xs + 1 < 2 ^ 32"
    using Cons.prems(2-4) by auto
  from Cons.IH [OF indexing_step [OF Cons.prems(1) this]] Cons.prems(2-4) show ?case by simp
qed simp

text \<open>A records map restored into a collection without offsets.\<close>

lemma restore_records:
  assumes B: "bitmap_laws (env_bitmap E)" "of_laws (env_float E)" and wf: "hm_wf R" "length R < 2 ^ 32"
    and R: "\<And>i r. map_of R i = Some r \<Longrightarrow> lr_id r = i \<and> hm_wf (md_or_empty (lr_metadata r))"
    and c0: "co_records c0 = R" "co_offsets c0 = []" "co_id_by_offset c0 = []" "co_next_offset c0 = 0"
      "co_postings c0 = postings_new (env_bitmap E)" "co_buffer c0 = []"
    and V: "index_repr (env_ann E) (co_index c0) V" "dom V \<subseteq> dom (map_of R)"
  shows "coll_inv E (fold (index_record E) R c0) \<and> unat (co_next_offset (fold (index_record E) R c0)) = length R \<and>
    indexing E c0 R (fold (index_record E) R c0)"
proof -
  have "doc_map c0 = Map.empty" by (rule ext) (simp add: doc_map_def c0)
  then have J0: "indexing E c0 [] c0"
    using postings_new_repr [OF B] by (simp add: indexing_def c0 offsets_inv_def)
  have "\<forall>x\<in>set R. map_of (co_records c0) (fst x) = Some (snd x)"
    using hm_wf_in_set [OF wf(1)] by (auto simp: c0)
  with indexing_all [OF J0, of R] wf have J: "indexing E c0 R (fold (index_record E) R c0)" by (simp add: hm_wf_def)
  let ?c = "fold (index_record E) R c0"
  have keep: "co_records ?c = R" "co_buffer ?c = []" "co_index ?c = co_index c0"
    using indexing_keeps [OF J] c0 by simp_all
  have dom: "dom (map_of (co_offsets ?c)) = dom (map_of R)"
    using J by (simp add: indexing_def dom_map_of_conv_image_fst)
  have "records_inv ?c"
    unfolding records_inv_def keep using R wf(1) dom by blast
  moreover have "index_inv E ?c" unfolding index_inv_def keep using V by blast
  ultimately show ?thesis using J by (simp add: coll_inv_def buffer_inv_def keep indexing_def)
qed

section \<open>Moving vectors out of the records\<close>

lemma coll_inv_change:
  assumes I: "coll_inv E c"
    and same: "co_offsets c' = co_offsets c" "co_id_by_offset c' = co_id_by_offset c" "co_next_offset c' = co_next_offset c"
      "co_postings c' = co_postings c" "co_buffer c' = co_buffer c"
    and recs: "hm_wf (co_records c')" "\<And>i. map_of (co_records c') i = map_option (g i) (map_of (co_records c) i)"
    and g: "\<And>i r. lr_id (g i r) = lr_id r \<and> lr_metadata (g i r) = lr_metadata r"
    and V: "index_repr (env_ann E) (co_index c') V" "dom V \<subseteq> dom (map_of (co_records c))"
  shows "coll_inv E c'"
proof -
  note D = coll_invD [OF I]
  have dom: "map_of (co_records c') i = None \<longleftrightarrow> map_of (co_records c) i = None" for i by (simp add: recs(2))
  have "doc_map c' = doc_map c"
    by (rule ext) (simp add: doc_map_def same recs(2) g option.map_comp comp_def map_option_bind split: bind_split)
  moreover have "offsets_inv c'" by (rule offsets_inv_cong [OF D(1) same(1-3)])
  moreover have "records_inv c'"
    using D(2) recs(1) unfolding records_inv_def same by (auto simp: recs(2) g)
  moreover have "buffer_inv c'" using D(4) unfolding buffer_inv_def same by (simp add: dom)
  moreover have "dom V \<subseteq> dom (map_of (co_records c'))" using V(2) dom by (auto simp: subset_iff domIff)
  ultimately show ?thesis using D(3) V(1) by (auto simp: coll_inv_def same index_inv_def)
qed

lemma strip_records_lookup: "map_of (strip_records s R) i = map_option (strip_record s) (map_of R i)"
  by (simp add: strip_records_def map_of_map)

lemma strip_records_wf [simp]: "hm_wf (strip_records s R) = hm_wf R"
  by (simp add: strip_records_def hm_wf_map_val)

lemma strip_record_fields:
  "lr_id (strip_record s r) = lr_id r" "lr_metadata (strip_record s r) = lr_metadata r"
  "lr_document (strip_record s r) = lr_document r" "lr_seq (strip_record s r) = lr_seq r"
  by (simp_all add: strip_record_def)

text \<open>The same record, perhaps without its vector; operations preserve this.\<close>

fun moved :: "live_record option \<Rightarrow> live_record option \<Rightarrow> bool" where
  "moved None x' = (x' = None)"
| "moved (Some r) x' = (x' = Some r \<or> x' = Some (r\<lparr>lr_embedding := None\<rparr>))"

lemma moved_refl [simp]: "moved x x"
  by (cases x) simp_all

lemma moved_strip: "moved x (map_option (strip_record s) x)"
  by (cases x) (simp_all add: strip_record_def)

lemma moved_effect: "moved x x' \<Longrightarrow> moved (op_effect op seq x) (op_effect op seq x')"
  by (cases x; cases op) auto

lemma moved_replay: "(\<And>i. moved (M i) (N i)) \<Longrightarrow> moved (spec_replay rs M i) (spec_replay rs N i)"
proof (induction rs arbitrary: M N)
  case (Cons r rs)
  have "moved (spec_apply (wr_op r) (wr_seq r) M j) (spec_apply (wr_op r) (wr_seq r) N j)" for j
    using Cons.prems by (simp add: spec_apply_def moved_effect)
  then show ?case using Cons.IH by simp
qed simp

text \<open>What a reader sees of an id: the metadata, the document, the sequence number and the vector.\<close>

definition record_view ::
  "('b, 'g) collection \<Rightarrow> id \<rightharpoonup> metadata option \<times> document option \<times> u64 \<times> embedding option run" where
  "record_view c i =
     map_option (\<lambda>r. (lr_metadata r, lr_document r, lr_seq r, vector_of c i r)) (map_of (co_records c) i)"

lemma view_moved:
  assumes "co_segment_index c = []" "moved (map_of (co_records c) i) (map_of (co_records c') i)"
    and "load_vector c' i = Returns (Option.bind (map_of (co_records c) i) lr_embedding)"
  shows "record_view c' i = record_view c i"
proof (cases "map_of (co_records c) i")
  case (Some r)
  have "load_vector c i = Returns None" using assms(1) by (simp add: load_vector_def load_vector_from_def)
  then show ?thesis using Some assms(2,3)
    by (cases "lr_embedding r") (auto simp: record_view_def vector_of_def)
qed (use assms(2) in \<open>simp add: record_view_def\<close>)

section \<open>The segment of a checkpoint\<close>

lemma segment_entries_ascending:
  "sorted_wrt (\<lambda>a b. \<not> str_less (fst b) (fst a)) (segment_entries R)"
  unfolding segment_entries_def by (rule sorted_sort_by) (auto dest: str_less_asym str_not_less_trans)

lemma segment_entries_lookup:
  assumes "hm_wf R"
  shows "hm_wf (segment_entries R)" "map_of (segment_entries R) i = Option.bind (map_of R i) lr_embedding"
    "length (segment_entries R) \<le> length R"
proof -
  let ?xs = "List.map_filter (\<lambda>(i, r). map_option (Pair i) (lr_embedding r)) R"
  have sub: "fst ` set ?xs \<subseteq> fst ` set R" by (force simp: in_map_filter)
  have "distinct (map fst R) \<Longrightarrow> distinct (map fst (List.map_filter (\<lambda>(i, r). map_option (Pair i) (lr_embedding r)) R))" for R :: "(id \<times> live_record) list"
  proof (induction R)
    case (Cons x R)
    have "fst y \<in> fst ` set R" if "y \<in> set (List.map_filter (\<lambda>(i, r). map_option (Pair i) (lr_embedding r)) R)" for y :: "id \<times> embedding"
      using that by (force simp: in_map_filter)
    then show ?case using Cons by (cases x) (auto simp: List.map_filter_simps split: option.split)
  qed (simp add: List.map_filter_simps)
  then have d: "distinct (map fst ?xs)" using assms by (simp add: hm_wf_def)
  then show wf: "hm_wf (segment_entries R)" by (simp add: segment_entries_def hm_wf_def)
  have "map_of (segment_entries R) i = Some e \<longleftrightarrow> Option.bind (map_of R i) lr_embedding = Some e" for e
  proof -
    have "map_of (segment_entries R) i = Some e \<longleftrightarrow> (i, e) \<in> set ?xs"
      using hm_wf_in_set [OF wf, of i e] by (simp add: segment_entries_def)
    also have "\<dots> \<longleftrightarrow> (\<exists>r. (i, r) \<in> set R \<and> lr_embedding r = Some e)" by (force simp: in_map_filter)
    finally show ?thesis by (simp add: hm_wf_in_set [OF assms] bind_eq_Some_conv)
  qed
  then show "map_of (segment_entries R) i = Option.bind (map_of R i) lr_embedding"
    by (metis option.exhaust)
  show "length (segment_entries R) \<le> length R"
    by (simp add: segment_entries_def List.map_filter_def)
qed

lemma segment_lookup:
  assumes "hm_wf es" "map_of idx = map_of (zip (map fst es) [0 ..< length es])"
    and "\<forall>n < length es. get_vector s n = Returns (Some (map snd es ! n))"
  shows "load_vector_from (s # ss) idx i = Returns (map_of es i)"
proof (cases "map_of es i")
  case None
  then have "i \<notin> set (map fst es)" by (auto simp: map_of_eq_None_iff)
  then have "map_of idx i = None" unfolding assms(2) by (simp add: map_of_zip_is_None)
  then show ?thesis using None by (simp add: load_vector_from_def)
next
  case (Some e)
  then obtain n where n: "n < length es" "es ! n = (i, e)" by (meson in_set_conv_nth map_of_SomeD)
  have "map_of (zip (map fst es) [0 ..< length es]) (map fst es ! n) = Some ([0 ..< length es] ! n)"
    by (rule map_of_zip_nth) (use assms(1) n(1) in \<open>simp_all add: hm_wf_def\<close>)
  then show ?thesis using assms(2,3) n Some by (simp add: load_vector_from_def)
qed

lemma segment_files_one:
  assumes "map_of dir (SegBin 0) = Some b" "map_of dir (SegBin (Suc 0)) = None"
  shows "segment_files dir = [b]"
proof -
  obtain n where n: "length dir = Suc n" using assms(1) by (cases dir) auto
  have "takeWhile (\<lambda>x. x \<noteq> None) (map (\<lambda>i. map_of dir (SegBin i)) [Suc 0 ..< Suc n]) = []"
    using assms(2) by (cases n) (simp_all add: upt_conv_Cons del: upt_Suc)
  then show ?thesis using assms by (simp add: segment_files_def n upt_conv_Cons del: upt_Suc)
qed

lemma segment_files_none: "map_of dir (SegBin 0) = None \<Longrightarrow> segment_files dir = []"
  by (cases dir) (auto simp: segment_files_def upt_conv_Cons simp del: upt_Suc)

section \<open>The files of a finished checkpoint\<close>

lemma ckpt_save_segments_keeps:
  assumes "ckpt_save_segments E w = (w', Returns (Inr ()))"
  shows "\<exists>sg ix. cw_coll w' = (cw_coll w)\<lparr>co_segments := sg, co_segment_index := ix\<rparr>"
  using assms unfolding ckpt_save_segments_def Let_def
  by (intro exI [of _ "co_segments (cw_coll w')"] exI [of _ "co_segment_index (cw_coll w')"])
    (auto simp: act_return_def act_fail_def split: if_splits run.splits option.splits sum.splits)

lemma checkpoint_files:
  assumes "checkpoint E w = (w', Returns (Inr ()))" and "co_records (cw_coll w) \<noteq> []"
    and L: "log_repr (env_codec E) (co_wal (cw_coll w)) rs"
  defines "c \<equiv> cw_coll w"
  defines "es \<equiv> segment_entries (co_records c)"
  obtains rb cb files0 wal' where
    "env_enc_records E (co_records c) = Some rb" "map_of (cw_dir w') RecordsBin = Some rb"
    "env_enc_ckpt E (checkpoint_meta_of c) = Some cb" "map_of (cw_dir w') CheckpointJson = Some cb"
    "if index_is_empty (env_ann E) (co_index c) then index_files (cw_dir w') = Map.empty
     else index_save (env_ann E) (env_enc_meta E) (co_index c) files0 = (index_files (cw_dir w'), Inr ())"
    "if es = [] then map_of (cw_dir w') (SegBin 0) = None \<and> map_of (cw_dir w') SegmentIndexBin = None
     else (\<exists>wr b. writer_push_all (map snd es) (writer_new (cc_dimension (co_config c))) = Returns wr \<and>
        env_enc_segidx E (zip (map fst es) [0 ..< length es]) = Some b \<and>
        map_of (cw_dir w') SegmentIndexBin = Some b \<and>
        map_of (cw_dir w') (SegBin 0) = Some (writer_write (crc32 (env_codec E)) wr) \<and>
        map_of (cw_dir w') (SegBin (Suc 0)) = map_of (cw_dir w) (SegBin (Suc 0)) \<and>
        (\<forall>seg. segment_open (crc32 (env_codec E)) (writer_write (crc32 (env_codec E)) wr) = Returns (Inr seg) \<longrightarrow>
           co_segments (cw_coll w') = [seg] \<and> co_segment_index (cw_coll w') = zip (map fst es) [0 ..< length es]))"
    "es = [] \<longrightarrow> co_segments (cw_coll w') = [] \<and> co_segment_index (cw_coll w') = []"
    "co_records (cw_coll w') = strip_records (co_flushed_seq c) (co_records c)"
    "co_wal (cw_coll w') = wal'" "log_repr (env_codec E) wal' (filter (\<lambda>r. co_flushed_seq c < wr_seq r) rs)"
    "filter (\<lambda>r. co_flushed_seq c < wr_seq r) rs = [] \<longrightarrow> wal_last_seq wal' = saturating_sub1 (wal_last_seq (co_wal c) + 1)"
    "advance_log_offset (env_catalog E) (cc_id (co_config c)) (co_flushed_seq c) (cw_cat w) = Inr (cw_cat w')"
    "co_flushed_seq (cw_coll w') = co_flushed_seq c \<and> co_config (cw_coll w') = co_config c \<and> co_index (cw_coll w') = co_index c \<and>
     co_last_checkpoint_seq (cw_coll w') = co_flushed_seq c"
proof -
  let ?m = "checkpoint_meta_of c" and ?fl = "co_flushed_seq c"
  have fl: "cm_flushed_seq ?m = ?fl" by (simp add: checkpoint_meta_of_def)
  obtain w1 w2 w3 w4 where s: "ckpt_save_records E w = (w1, Returns (Inr ()))" "ckpt_save_index E w1 = (w2, Returns (Inr ()))"
    "ckpt_save_marker E ?m w2 = (w3, Returns (Inr ()))" "ckpt_save_segments E w3 = (w4, Returns (Inr ()))"
    and tail: "act_seq [ckpt_strip ?fl, ckpt_advance E ?fl, ckpt_prune E ?fl, ckpt_reopen E ?fl (cm_next_seq ?m)] w4 = (w', Returns (Inr ()))"
  proof -
    have "act_seq (checkpoint_steps E ?m) w = (w', Returns (Inr ()))"
      using assms(1,2) by (simp add: checkpoint_def c_def)
    then have 1: "act_seq (ckpt_save_records E # ckpt_save_index E # ckpt_save_marker E ?m # ckpt_save_segments E #
        [ckpt_strip ?fl, ckpt_advance E ?fl, ckpt_prune E ?fl, ckpt_reopen E ?fl (cm_next_seq ?m)]) w = (w', Returns (Inr ()))"
      by (simp only: checkpoint_steps_def fl)
    from act_seq_Cons_ok [OF 1] obtain w1 where a: "ckpt_save_records E w = (w1, Returns (Inr ()))" and
      2: "act_seq (ckpt_save_index E # ckpt_save_marker E ?m # ckpt_save_segments E #
        [ckpt_strip ?fl, ckpt_advance E ?fl, ckpt_prune E ?fl, ckpt_reopen E ?fl (cm_next_seq ?m)]) w1 = (w', Returns (Inr ()))" .
    from act_seq_Cons_ok [OF 2] obtain w2 where b: "ckpt_save_index E w1 = (w2, Returns (Inr ()))" and
      3: "act_seq (ckpt_save_marker E ?m # ckpt_save_segments E #
        [ckpt_strip ?fl, ckpt_advance E ?fl, ckpt_prune E ?fl, ckpt_reopen E ?fl (cm_next_seq ?m)]) w2 = (w', Returns (Inr ()))" .
    from act_seq_Cons_ok [OF 3] obtain w3 where c: "ckpt_save_marker E ?m w2 = (w3, Returns (Inr ()))" and
      4: "act_seq (ckpt_save_segments E #
        [ckpt_strip ?fl, ckpt_advance E ?fl, ckpt_prune E ?fl, ckpt_reopen E ?fl (cm_next_seq ?m)]) w3 = (w', Returns (Inr ()))" .
    from act_seq_Cons_ok [OF 4] obtain w4 where d: "ckpt_save_segments E w3 = (w4, Returns (Inr ()))"
      "act_seq [ckpt_strip ?fl, ckpt_advance E ?fl, ckpt_prune E ?fl, ckpt_reopen E ?fl (cm_next_seq ?m)] w4 = (w', Returns (Inr ()))" .
    show thesis by (rule that [OF a b c d])
  qed
  obtain rb where rb: "env_enc_records E (co_records c) = Some rb" "w1 = w\<lparr>cw_dir := AList.update RecordsBin rb (cw_dir w)\<rparr>"
    using ckpt_save_records_ok [OF s(1)] by (auto simp: c_def)
  note w2 = ckpt_save_index_ok [OF s(2)]
  obtain cb where cb: "env_enc_ckpt E ?m = Some cb" "w3 = w2\<lparr>cw_dir := AList.update CheckpointJson cb (cw_dir w2)\<rparr>"
    using ckpt_save_marker_ok [OF s(3)] by blast
  note w4 = ckpt_save_segments_ok [OF s(4)]
  have c1: "cw_coll w1 = c" "cw_coll w3 = c" using rb(2) cb(2) w2 by (simp_all add: c_def)
  note w4' = w4 [unfolded c1, folded es_def]
  have ix: "index_files (cw_dir w4) f = index_files (cw_dir w2) f" for f
    using w4 by (cases f) (simp_all add: index_files_def is_seg_def cb(2))
  then have ix: "index_files (cw_dir w4) = index_files (cw_dir w2)" by (rule ext)
  have keep: "map_of (cw_dir w4) RecordsBin = Some rb" "map_of (cw_dir w4) CheckpointJson = Some cb"
    "map_of (cw_dir w3) (SegBin (Suc 0)) = map_of (cw_dir w) (SegBin (Suc 0))"
    using w2 w4 by (simp_all add: is_seg_def cb(2) rb(2))
  obtain sg idx where c4: "cw_coll w4 = c\<lparr>co_segments := sg, co_segment_index := idx\<rparr>"
    using ckpt_save_segments_keeps [OF s(4)] c1 by auto
  have L4: "log_repr (env_codec E) (co_wal (cw_coll w4)) rs" using L by (simp add: c4 c_def)
  obtain wal' where t: "cw_dir w' = cw_dir w4" "cw_coll w' = (cw_coll w4)\<lparr>co_records := strip_records ?fl (co_records c),
      co_wal := wal', co_last_checkpoint_seq := ?fl\<rparr>" "log_repr (env_codec E) wal' (filter (\<lambda>r. ?fl < wr_seq r) rs)"
      "filter (\<lambda>r. ?fl < wr_seq r) rs = [] \<longrightarrow> wal_last_seq wal' = saturating_sub1 (wal_last_seq (co_wal c) + 1)"
      "advance_log_offset (env_catalog E) (cc_id (co_config c)) ?fl (cw_cat w) = Inr (cw_cat w')"
  proof -
    have "cm_next_seq ?m = wal_last_seq (co_wal c) + 1" by (simp add: checkpoint_meta_of_def)
    moreover have "cw_cat w4 = cw_cat w" using w2 w4 rb(2) cb(2) by simp
    ultimately show thesis using ckpt_tail_ok [OF tail L4] by (elim conjE exE) (rule that; simp add: c4)
  qed
  show thesis
  proof (rule that [of rb cb "index_files (cw_dir w1)" wal'])
    show "if index_is_empty (env_ann E) (co_index c) then index_files (cw_dir w') = Map.empty
        else index_save (env_ann E) (env_enc_meta E) (co_index c) (index_files (cw_dir w1)) = (index_files (cw_dir w'), Inr ())"
      using w2 unfolding t(1) ix c1 by blast
    show "if es = [] then map_of (cw_dir w') (SegBin 0) = None \<and> map_of (cw_dir w') SegmentIndexBin = None
     else (\<exists>wr b. writer_push_all (map snd es) (writer_new (cc_dimension (co_config c))) = Returns wr \<and>
        env_enc_segidx E (zip (map fst es) [0 ..< length es]) = Some b \<and>
        map_of (cw_dir w') SegmentIndexBin = Some b \<and>
        map_of (cw_dir w') (SegBin 0) = Some (writer_write (crc32 (env_codec E)) wr) \<and>
        map_of (cw_dir w') (SegBin (Suc 0)) = map_of (cw_dir w) (SegBin (Suc 0)) \<and>
        (\<forall>seg. segment_open (crc32 (env_codec E)) (writer_write (crc32 (env_codec E)) wr) = Returns (Inr seg) \<longrightarrow>
           co_segments (cw_coll w') = [seg] \<and> co_segment_index (cw_coll w') = zip (map fst es) [0 ..< length es]))"
    proof (cases "es = []")
      case False
      then obtain wr b where "writer_push_all (map snd es) (writer_new (cc_dimension (co_config c))) = Returns wr"
        "env_enc_segidx E (zip (map fst es) [0 ..< length es]) = Some b"
        "map_of (cw_dir w4) SegmentIndexBin = Some b"
        "map_of (cw_dir w4) (SegBin 0) = Some (writer_write (crc32 (env_codec E)) wr)"
        "\<forall>n. 0 < n \<longrightarrow> map_of (cw_dir w4) (SegBin n) = map_of (cw_dir w3) (SegBin n)"
        "\<forall>seg. segment_open (crc32 (env_codec E)) (writer_write (crc32 (env_codec E)) wr) = Returns (Inr seg) \<longrightarrow>
           cw_coll w4 = c\<lparr>co_segments := [seg], co_segment_index := zip (map fst es) [0 ..< length es]\<rparr>"
        using w4' by auto
      then show ?thesis using False keep(3) by (auto simp: t(1,2))
    qed (use w4' in \<open>simp add: t(1)\<close>)
    show "es = [] \<longrightarrow> co_segments (cw_coll w') = [] \<and> co_segment_index (cw_coll w') = []"
      using w4' by (simp add: t(2))
  qed (use rb cb keep t c4 in simp_all)
qed

section \<open>Loading a checkpoint\<close>

lemma load_checkpoint_ok:
  assumes files: "map_of dir CheckpointJson = Some cb" "env_dec_ckpt E cb = Some meta" "map_of dir RecordsBin = Some rb"
      "env_dec_records E rb = Some R" "length R = cm_record_count meta"
      "load_segments (crc32 (env_codec E)) dir = Returns segs"
    and wal: "wal_open (env_codec E) (wal_file (co_wal c)) ep
      \<lparr>wo_fsync = fsync, wo_start_seq = Some (cm_next_seq meta)\<rparr> = Inr wal'"
    and B: "bitmap_laws (env_bitmap E)" "of_laws (env_float E)" and wf: "hm_wf R" "length R < 2 ^ 32"
    and R: "\<And>i r. map_of R i = Some r \<Longrightarrow> lr_id r = i \<and> hm_wf (md_or_empty (lr_metadata r))"
    and c: "co_buffer c = []" "co_segment_index c = []" "index_repr (env_ann E) (co_index c) Map.empty"
    and x: "x = (case index_load (env_ann E) (env_dec_meta E) (index_files dir) (cc_space (co_config c))
        (cc_dimension (co_config c)) of Inr y \<Rightarrow> y | Inl _ \<Rightarrow> co_index c)"
      "index_repr (env_ann E) x V" "dom V \<subseteq> dom (map_of R)"
  shows "\<exists>c6. load_checkpoint E ep fsync dir c = Returns (c6, True) \<and> coll_inv E c6 \<and>
    co_records c6 = (if segs = [] then R else strip_records (cm_flushed_seq meta) R) \<and> co_buffer c6 = [] \<and>
    co_index c6 = x \<and> co_flushed_seq c6 = cm_flushed_seq meta \<and> co_wal c6 = wal' \<and> co_segments c6 = segs \<and>
    co_segment_index c6 = (case Option.bind (map_of dir SegmentIndexBin) (env_dec_segidx E) of Some idx \<Rightarrow> idx | None \<Rightarrow> []) \<and>
    unat (co_next_offset c6) = length R \<and> co_config c6 = co_config c"
proof -
  let ?c0 = "c\<lparr>co_records := R, co_offsets := [], co_id_by_offset := [],
      co_postings := postings_new (env_bitmap E), co_next_offset := 0\<rparr>"
  let ?F = "fold (index_record E) R ?c0" and ?fl = "cm_flushed_seq meta"
  let ?idx = "case Option.bind (map_of dir SegmentIndexBin) (env_dec_segidx E) of Some idx \<Rightarrow> idx | None \<Rightarrow> []"
  let ?R = "if segs = [] then R else strip_records ?fl R"
  let ?c6 = "?F\<lparr>co_flushed_seq := ?fl, co_last_checkpoint_seq := ?fl, co_index := x, co_segments := segs,
      co_segment_index := ?idx, co_records := ?R, co_wal := wal'\<rparr>"
  have F: "coll_inv E ?F" "unat (co_next_offset ?F) = length R" "indexing E ?c0 R ?F"
    using restore_records [OF B wf R, of ?c0 Map.empty] c by simp_all
  have keep: "co_records ?F = R" "co_buffer ?F = []" "co_index ?F = co_index c" "co_config ?F = co_config c"
    "co_wal ?F = co_wal c" "co_segment_index ?F = []"
    using indexing_keeps [OF F(3)] c by simp_all
  have "load_checkpoint E ep fsync dir c = Returns (?c6, True)"
  proof (cases "index_load (env_ann E) (env_dec_meta E) (index_files dir) (cc_space (co_config c)) (cc_dimension (co_config c))")
    case (Inl e)
    then show ?thesis
      using files wal x(1) keep
      by (cases "Option.bind (map_of dir SegmentIndexBin) (env_dec_segidx E)"; cases "segs = []")
        (simp_all add: load_checkpoint_def Let_def)
  next
    case (Inr y)
    then show ?thesis
      using files wal x(1) keep
      by (cases "Option.bind (map_of dir SegmentIndexBin) (env_dec_segidx E)"; cases "segs = []")
        (simp_all add: load_checkpoint_def Let_def)
  qed
  moreover have "coll_inv E ?c6"
  proof (rule coll_inv_change [OF F(1), where g = "\<lambda>i. if segs = [] then id else strip_record ?fl" and V = V])
    show "map_of (co_records ?c6) i = map_option (if segs = [] then id else strip_record ?fl) (map_of (co_records ?F) i)" for i
      by (simp add: keep strip_records_lookup option.map_id)
  qed (use wf(1) x keep in \<open>simp_all add: strip_record_fields\<close>)
  ultimately show ?thesis using F(2) keep by (intro exI [of _ ?c6]) simp
qed

text \<open>What the codecs of the checkpoint files have to satisfy; a hash map may come back in another order.\<close>

definition ckpt_codec_laws :: "('b, 'g) engine_env \<Rightarrow> bool" where
  "ckpt_codec_laws E \<longleftrightarrow>
     meta_codec_laws (env_enc_meta E) (env_dec_meta E) \<and>
     (\<forall>rs b. hm_wf rs \<longrightarrow> env_enc_records E rs = Some b \<longrightarrow>
        (\<exists>rs'. env_dec_records E b = Some rs' \<and> hm_wf rs' \<and> map_of rs' = map_of rs)) \<and>
     (\<forall>m b. env_enc_ckpt E m = Some b \<longrightarrow> env_dec_ckpt E b = Some m) \<and>
     (\<forall>x b. hm_wf x \<longrightarrow> env_enc_segidx E x = Some b \<longrightarrow> (\<exists>x'. env_dec_segidx E b = Some x' \<and> map_of x' = map_of x))"

text \<open>The vectors of a checkpoint fit one segment.\<close>

definition segment_fits :: "('b, 'g) collection \<Rightarrow> bool" where
  "segment_fits c \<longleftrightarrow>
     (\<forall>i r e. map_of (co_records c) i = Some r \<longrightarrow> lr_embedding r = Some e \<longrightarrow> length e = cc_dimension (co_config c)) \<and>
     cc_dimension (co_config c) < 2 ^ 32 \<and> length (co_records c) < 2 ^ 32 \<and>
     HEADER_SIZE + length (co_records c) * cc_dimension (co_config c) * 4 < 2 ^ 64"

lemma segment_of_checkpoint:
  assumes wf: "hm_wf (co_records c)" and fits: "segment_fits c"
  defines "es \<equiv> segment_entries (co_records c)"
  obtains wr s where "writer_push_all (map snd es) (writer_new (cc_dimension (co_config c))) = Returns wr"
    "segment_open crc (writer_write crc wr) = Returns (Inr s)"
    "\<forall>n < length es. get_vector s n = Returns (Some (map snd es ! n))"
proof -
  note S = segment_entries_lookup [OF wf, folded es_def]
  have "length v = cc_dimension (co_config c)" if "v \<in> set (map snd es)" for v
  proof -
    from that obtain i where "(i, v) \<in> set es" by auto
    then have "map_of es i = Some v" by (simp add: hm_wf_in_set [OF S(1)])
    then obtain r where "map_of (co_records c) i = Some r" "lr_embedding r = Some v"
      unfolding S(2) by (auto simp: bind_eq_Some_conv)
    then show ?thesis using fits unfolding segment_fits_def by blast
  qed
  then have dims: "list_all (\<lambda>v. length v = cc_dimension (co_config c)) (map snd es)" by (simp add: list_all_iff)
  have "length es * cc_dimension (co_config c) * 4 \<le> length (co_records c) * cc_dimension (co_config c) * 4"
    using S(3) by (intro mult_le_mono) simp_all
  then have size: "HEADER_SIZE + length (map snd es) * cc_dimension (co_config c) * 4 < 2 ^ 64"
    "length (map snd es) < 2 ^ 32" "cc_dimension (co_config c) < 2 ^ 32"
    using fits S(3) unfolding segment_fits_def by (simp_all only: length_map) linarith+
  from segment_written [OF dims size(3,2,1), of crc] show thesis by (auto intro: that)
qed

lemma index_load_dimension:
  "index_load A dec fs space dim = Inr x \<Longrightarrow> ui_dimension x = dim"
  by (auto simp: index_load_def split: option.splits sum.splits if_splits)

lemma checkpoint_index:
  assumes R: "index_repr A y V" "ui_space y = space" "ui_dimension y = dim" and C: "meta_codec_laws enc dec"
    and f: "if index_is_empty A y then fs = Map.empty else index_save A enc y fs0 = (fs, Inr ())"
    and y0: "index_repr A y0 Map.empty" "ui_dimension y0 = dim" "ui_next_label y0 = 0"
  defines "x \<equiv> case index_load A dec fs space dim of Inr z \<Rightarrow> z | Inl _ \<Rightarrow> y0"
  shows "\<exists>V'. index_repr A x V' \<and> dom V' \<subseteq> dom V \<and> ui_dimension x = dim \<and> ui_next_label x \<le> ui_next_label y"
proof (cases "index_is_empty A y")
  case True
  then have "x = y0" using f by (simp add: x_def index_load_def)
  then show ?thesis using y0 by (intro exI [of _ Map.empty]) simp
next
  case False
  then have s: "index_save A enc y fs0 = (fs, Inr ())" using f by simp
  obtain z where z: "index_load A dec fs space dim = Inr z" "index_repr A z V" "ui_next_label z = ui_next_label y"
    using index_save_load [OF R(1) C s] unfolding R(2,3) by blast
  then have "x = z" by (simp add: x_def)
  then show ?thesis using z index_load_dimension [OF z(1)] by (intro exI [of _ V]) simp
qed

text \<open>The vectors a restored collection reads from its segment.\<close>

lemma checkpoint_vectors:
  assumes wf: "hm_wf (co_records c)" and fits: "segment_fits c" and C: "ckpt_codec_laws E"
  defines "es \<equiv> segment_entries (co_records c)"
  assumes f: "if es = [] then map_of dir (SegBin 0) = None \<and> map_of dir SegmentIndexBin = None
     else (\<exists>wr b. writer_push_all (map snd es) (writer_new (cc_dimension (co_config c))) = Returns wr \<and>
        env_enc_segidx E (zip (map fst es) [0 ..< length es]) = Some b \<and>
        map_of dir SegmentIndexBin = Some b \<and>
        map_of dir (SegBin 0) = Some (writer_write (crc32 (env_codec E)) wr) \<and>
        map_of dir (SegBin (Suc 0)) = None)"
  shows "\<exists>segs. load_segments (crc32 (env_codec E)) dir = Returns segs \<and>
    (\<forall>i. load_vector_from segs (case Option.bind (map_of dir SegmentIndexBin) (env_dec_segidx E) of
        Some idx \<Rightarrow> idx | None \<Rightarrow> []) i = Returns (Option.bind (map_of (co_records c) i) lr_embedding))"
proof -
  note S = segment_entries_lookup [OF wf, folded es_def]
  show ?thesis
  proof (cases "es = []")
    case True
    have "Option.bind (map_of (co_records c) i) lr_embedding = None" for i using S(2) [of i] True by simp
    then show ?thesis using f True by (simp add: load_segments_def segment_files_none load_vector_from_def)
  next
    case False
    obtain wr b where w: "writer_push_all (map snd es) (writer_new (cc_dimension (co_config c))) = Returns wr"
      "env_enc_segidx E (zip (map fst es) [0 ..< length es]) = Some b" "map_of dir SegmentIndexBin = Some b"
      "map_of dir (SegBin 0) = Some (writer_write (crc32 (env_codec E)) wr)" "map_of dir (SegBin (Suc 0)) = None"
      using f False by auto
    obtain s where s: "segment_open (crc32 (env_codec E)) (writer_write (crc32 (env_codec E)) wr) = Returns (Inr s)"
      "\<forall>n < length es. get_vector s n = Returns (Some (map snd es ! n))"
      using segment_of_checkpoint [OF wf fits, of "crc32 (env_codec E)", folded es_def] w(1) by auto
    have "hm_wf (zip (map fst es) [0 ..< length es])" using S(1) by (simp add: hm_wf_def)
    then obtain idx where idx: "env_dec_segidx E b = Some idx" "map_of idx = map_of (zip (map fst es) [0 ..< length es])"
      using C w(2) unfolding ckpt_codec_laws_def by blast
    have "load_segments (crc32 (env_codec E)) dir = Returns [s]"
      by (simp add: load_segments_def segment_files_one [OF w(4,5)] s(1))
    moreover have "load_vector_from [s] idx i = Returns (Option.bind (map_of (co_records c) i) lr_embedding)" for i
      using segment_lookup [OF S(1) idx(2) s(2)] S(2) by simp
    ultimately show ?thesis using w(3) idx(1) by auto
  qed
qed

section \<open>A checkpoint finishes\<close>

lemma act_seq_step: "m w = (w1, Returns (Inr ())) \<Longrightarrow> act_seq (m # ms) w = act_seq ms w1"
  by (simp add: act_bind_def)

text \<open>What has to be encodable, and the catalog entry that takes the watermark.\<close>

definition ckpt_encodable :: "('b, 'g) engine_env \<Rightarrow> ('b, 'g) coll_world \<Rightarrow> bool" where
  "ckpt_encodable E w \<longleftrightarrow>
     (let c = cw_coll w; es = segment_entries (co_records c) in
      env_enc_records E (co_records c) \<noteq> None \<and> env_enc_ckpt E (checkpoint_meta_of c) \<noteq> None \<and>
      (es \<noteq> [] \<longrightarrow> env_enc_segidx E (zip (map fst es) [0 ..< length es]) \<noteq> None) \<and>
      (\<forall>fs. snd (index_save (env_ann E) (env_enc_meta E) (co_index c) fs) = Inr ()) \<and>
      (\<exists>cat. advance_log_offset (env_catalog E) (cc_id (co_config c)) (co_flushed_seq c) (cw_cat w) = Inr cat))"

lemma ckpt_save_index_total:
  assumes "\<forall>fs. snd (index_save (env_ann E) (env_enc_meta E) (co_index (cw_coll w)) fs) = Inr ()"
  shows "\<exists>w'. ckpt_save_index E w = (w', Returns (Inr ()))"
proof -
  obtain fs r where s: "index_save (env_ann E) (env_enc_meta E) (co_index (cw_coll w)) (index_files (cw_dir w)) = (fs, r)"
    by (cases "index_save (env_ann E) (env_enc_meta E) (co_index (cw_coll w)) (index_files (cw_dir w))")
  then have "r = Inr ()" using assms by (metis snd_conv)
  then show ?thesis using s by (simp add: ckpt_save_index_def act_return_def)
qed

lemma ckpt_save_segments_total:
  assumes "hm_wf (co_records (cw_coll w))" "segment_fits (cw_coll w)"
    and "segment_entries (co_records (cw_coll w)) \<noteq> [] \<Longrightarrow>
      env_enc_segidx E (zip (map fst (segment_entries (co_records (cw_coll w)))) [0 ..< length (segment_entries (co_records (cw_coll w)))]) \<noteq> None"
  shows "\<exists>w'. ckpt_save_segments E w = (w', Returns (Inr ()))"
proof -
  obtain wr s where
    "writer_push_all (map snd (segment_entries (co_records (cw_coll w)))) (writer_new (cc_dimension (co_config (cw_coll w)))) = Returns wr"
    "segment_open (crc32 (env_codec E)) (writer_write (crc32 (env_codec E)) wr) = Returns (Inr s)"
    using segment_of_checkpoint [OF assms(1,2)] by metis
  then show ?thesis using assms(3) by (auto simp: ckpt_save_segments_def Let_def act_return_def)
qed

lemma ckpt_tail_total:
  assumes "advance_log_offset (env_catalog E) (cc_id (co_config (cw_coll w))) fl (cw_cat w) = Inr cat"
    and L: "log_repr (env_codec E) (co_wal (cw_coll w)) rs"
  shows "\<exists>w'. act_seq [ckpt_strip fl, ckpt_advance E fl, ckpt_prune E fl, ckpt_reopen E fl nx] w = (w', Returns (Inr ()))"
proof -
  let ?c = "cw_coll w"
  obtain p where p: "wal_prune (env_codec E) fl (co_wal ?c) = Inr p" "log_repr (env_codec E) p (filter (\<lambda>r. fl < wr_seq r) rs)"
    using wal_log.prune_ok [OF L] by blast
  obtain fs where "wal_repr (env_codec E) p fs" using log_wal_reopen [OF p(2)] by blast
  from wal_reopen [OF this, of "Epoch (wal_epoch p)" "\<lparr>wo_fsync = co_fsync ?c, wo_start_seq = Some nx\<rparr>"]
  obtain q where "wal_open (env_codec E) (wal_file p) (Epoch (wal_epoch p))
      \<lparr>wo_fsync = co_fsync ?c, wo_start_seq = Some nx\<rparr> = Inr q" by blast
  then show ?thesis using assms(1) p(1)
    by (simp add: ckpt_strip_def ckpt_advance_def ckpt_prune_def ckpt_reopen_def act_bind_def act_return_def Let_def)
qed

lemma checkpoint_returns:
  assumes wf: "hm_wf (co_records (cw_coll w))" and fits: "segment_fits (cw_coll w)" and enc: "ckpt_encodable E w"
    and L: "log_repr (env_codec E) (co_wal (cw_coll w)) rs"
  shows "\<exists>w'. checkpoint E w = (w', Returns (Inr ()))"
proof (cases "co_records (cw_coll w) = []")
  case True
  then show ?thesis by (simp add: checkpoint_def act_return_def)
next
  case False
  let ?c = "cw_coll w" and ?m = "checkpoint_meta_of (cw_coll w)" and ?fl = "co_flushed_seq (cw_coll w)"
  have fl: "cm_flushed_seq ?m = ?fl" by (simp add: checkpoint_meta_of_def)
  obtain rb where "env_enc_records E (co_records ?c) = Some rb" using enc by (auto simp: ckpt_encodable_def Let_def)
  then obtain w1 where w1: "ckpt_save_records E w = (w1, Returns (Inr ()))" "cw_coll w1 = ?c" "cw_cat w1 = cw_cat w"
    by (simp add: ckpt_save_records_def act_return_def)
  have "\<forall>fs. snd (index_save (env_ann E) (env_enc_meta E) (co_index (cw_coll w1)) fs) = Inr ()"
    using enc unfolding w1(2) ckpt_encodable_def Let_def by blast
  then obtain w2 where w2: "ckpt_save_index E w1 = (w2, Returns (Inr ()))" "cw_coll w2 = ?c" "cw_cat w2 = cw_cat w"
    using ckpt_save_index_total ckpt_save_index_ok w1(2,3) by metis
  obtain cb where "env_enc_ckpt E ?m = Some cb" using enc by (auto simp: ckpt_encodable_def Let_def)
  then obtain w3 where w3: "ckpt_save_marker E ?m w2 = (w3, Returns (Inr ()))" "cw_coll w3 = ?c" "cw_cat w3 = cw_cat w"
    using w2(2,3) by (simp add: ckpt_save_marker_def act_return_def)
  obtain w4 where w4: "ckpt_save_segments E w3 = (w4, Returns (Inr ()))"
    using ckpt_save_segments_total [of w3 E] w3(2) wf fits enc by (auto simp: ckpt_encodable_def Let_def)
  have k4: "cw_cat w4 = cw_cat w" "co_wal (cw_coll w4) = co_wal ?c" "co_config (cw_coll w4) = co_config ?c"
    using ckpt_save_segments_ok [OF w4] ckpt_save_segments_keeps [OF w4] w3(2,3) by auto
  obtain cat where "advance_log_offset (env_catalog E) (cc_id (co_config (cw_coll w4))) ?fl (cw_cat w4) = Inr cat"
    using enc unfolding k4 ckpt_encodable_def Let_def by blast
  moreover have "log_repr (env_codec E) (co_wal (cw_coll w4)) rs" using L unfolding k4 .
  ultimately obtain w' where "act_seq [ckpt_strip ?fl, ckpt_advance E ?fl, ckpt_prune E ?fl,
      ckpt_reopen E ?fl (cm_next_seq ?m)] w4 = (w', Returns (Inr ()))"
    using ckpt_tail_total by blast
  then have "checkpoint E w = (w', Returns (Inr ()))"
    using False unfolding checkpoint_def checkpoint_steps_def fl
    by (simp only: if_False act_seq_step [where m = "ckpt_save_records E", OF w1(1)] act_seq_step [where m = "ckpt_save_index E", OF w2(1)] act_seq_step [where m = "ckpt_save_marker E ?m", OF w3(1)] 
      act_seq_step [where m = "ckpt_save_segments E", OF w4])
  then show ?thesis ..
qed

section \<open>Properties\<close>

lemma sorted_suffix:
  "sorted_wrt (<) (map f xs) \<Longrightarrow> \<exists>pre. xs = pre @ filter (\<lambda>x. s < f x) xs" for s :: "'a :: linorder"
proof (induction xs)
  case (Cons x xs)
  then obtain pre where pre: "xs = pre @ filter (\<lambda>x. s < f x) xs" by auto
  show ?case
  proof (cases "s < f x")
    case True
    then have "\<forall>y\<in>set xs. s < f y" using Cons.prems by fastforce
    then show ?thesis using True by simp
  next
    case False
    then show ?thesis using pre by (metis append_Cons filter.simps(2))
  qed
qed simp

lemma log_suffix:
  assumes "log_repr C w rs" "spec_replay rs M = N"
  shows "spec_replay (filter (\<lambda>r. s < wr_seq r) rs) N = N"
proof -
  obtain pre where "rs = pre @ filter (\<lambda>r. s < wr_seq r) rs"
    using sorted_suffix [OF wal_log.repr_sorted [OF assms(1)], of s] by blast
  then have "spec_replay (pre @ filter (\<lambda>r. s < wr_seq r) rs) N = N"
    using spec_replay_idem [of rs M] assms(2) by simp
  then show ?thesis by (rule spec_replay_fixed_suffix)
qed

text \<open>In memory: the records gave up their vectors, the segment has them.\<close>

lemma checkpoint_view:
  assumes wf: "hm_wf (co_records c)" and fits: "segment_fits c" and "co_segment_index c = []"
  defines "es \<equiv> segment_entries (co_records c)"
  assumes recs: "co_records c' = strip_records s (co_records c)"
    and none: "es = [] \<longrightarrow> co_segments c' = [] \<and> co_segment_index c' = []"
    and some: "\<And>wr seg. es \<noteq> [] \<Longrightarrow> writer_push_all (map snd es) (writer_new (cc_dimension (co_config c))) = Returns wr \<Longrightarrow>
      segment_open crc (writer_write crc wr) = Returns (Inr seg) \<Longrightarrow>
      co_segments c' = [seg] \<and> co_segment_index c' = zip (map fst es) [0 ..< length es]"
  shows "record_view c' = record_view c"
proof (rule ext, rule view_moved [OF assms(3)])
  fix i
  note S = segment_entries_lookup [OF wf, folded es_def]
  show "moved (map_of (co_records c) i) (map_of (co_records c') i)"
    by (simp add: recs strip_records_lookup moved_strip)
  show "load_vector c' i = Returns (Option.bind (map_of (co_records c) i) lr_embedding)"
  proof (cases "es = []")
    case True
    then show ?thesis using S(2) [of i] none by (simp add: load_vector_def load_vector_from_def)
  next
    case False
    obtain wr seg where "writer_push_all (map snd es) (writer_new (cc_dimension (co_config c))) = Returns wr"
        "segment_open crc (writer_write crc wr) = Returns (Inr seg)"
        and g: "\<forall>n < length es. get_vector seg n = Returns (Some (map snd es ! n))"
      using segment_of_checkpoint [OF wf fits, of crc, folded es_def] by blast
    from some [OF False this(1,2)] segment_lookup [OF S(1) refl g, of "[]" i] S(2) [of i] show ?thesis
      by (simp add: load_vector_def)
  qed
qed

text \<open>From the files: the restored collection shows what the checkpoint was taken of.\<close>

lemma checkpoint_opens:
  assumes I: "coll_inv E c" and fits: "segment_fits c" and seg0: "co_segment_index c = []"
    and L: "log_repr (env_codec E) wal' gs" "\<forall>r\<in>set gs. co_flushed_seq c < wr_seq r" "co_flushed_seq c \<noteq> - 1"
      "spec_replay gs (map_of (co_records c)) = map_of (co_records c)" "ops_ok (cc_dimension (co_config c)) gs"
    and C: "ckpt_codec_laws E" and A: "ann_reserves (env_ann E)"
      "with_hnsw (env_ann E) (cc_space (co_config c)) (cc_dimension (co_config c)) (cc_hnsw (co_config c)) = Inr y"
      "ui_space (co_index c) = cc_space (co_config c)" "ui_dimension (co_index c) = cc_dimension (co_config c)"
    and room: "length (co_records c) + length gs < 2 ^ 32" "unat (ui_next_label (co_index c)) + length gs < 2 ^ 64"
    and rb: "env_enc_records E (co_records c) = Some rb" "map_of dir RecordsBin = Some rb"
    and cb: "env_enc_ckpt E (checkpoint_meta_of c) = Some cb" "map_of dir CheckpointJson = Some cb"
    and ix: "if index_is_empty (env_ann E) (co_index c) then index_files dir = Map.empty
        else index_save (env_ann E) (env_enc_meta E) (co_index c) files0 = (index_files dir, Inr ())"
    and seg: "if segment_entries (co_records c) = [] then map_of dir (SegBin 0) = None \<and> map_of dir SegmentIndexBin = None
     else (\<exists>wr b. writer_push_all (map snd (segment_entries (co_records c))) (writer_new (cc_dimension (co_config c))) = Returns wr \<and>
        env_enc_segidx E (zip (map fst (segment_entries (co_records c))) [0 ..< length (segment_entries (co_records c))]) = Some b \<and>
        map_of dir SegmentIndexBin = Some b \<and>
        map_of dir (SegBin 0) = Some (writer_write (crc32 (env_codec E)) wr) \<and> map_of dir (SegBin (Suc 0)) = None)"
  shows "\<exists>c'. collection_open E (co_config c) (wal_file wal') dir ep fsync = Returns (Inr c') \<and>
    coll_inv E c' \<and> record_view c' = record_view c"
proof -
  note D = coll_invD [OF I]
  let ?m = "checkpoint_meta_of c" and ?fl = "co_flushed_seq c"
  have wf: "hm_wf (co_records c)" using records_invD(1) [OF D(2)] .
  have B: "bitmap_laws (env_bitmap E)" "of_laws (env_float E)" using postings_repr_laws [OF D(3)] by simp_all
  obtain V where V: "index_repr (env_ann E) (co_index c) V" "dom V \<subseteq> dom (map_of (co_records c))"
    using D(5) unfolding index_inv_def by blast
  obtain fs where fs: "wal_repr (env_codec E) wal' fs" "\<And>w. wal_repr (env_codec E) w fs \<Longrightarrow> log_repr (env_codec E) w gs"
    using log_wal_reopen [OF L(1)] by blast
  obtain c1 where c1: "collection_new E (co_config c) (wal_file wal') ep fsync = Inr c1" "co_buffer c1 = []"
    "wal_repr (env_codec E) (co_wal c1) fs" "co_index c1 = y" "ui_dimension y = cc_dimension (co_config c)"
    "ui_next_label y = 0" "co_segment_index c1 = []" "co_config c1 = co_config c" "index_repr (env_ann E) y Map.empty"
    using collection_new_ok [OF B index_reprD(1) [OF V(1)] fs(1) A(2)] by metis
  obtain wal2 where wal2: "wal_open (env_codec E) (wal_file (co_wal c1)) ep
      \<lparr>wo_fsync = fsync, wo_start_seq = Some (cm_next_seq ?m)\<rparr> = Inr wal2" "wal_repr (env_codec E) wal2 fs"
    using wal_reopen [OF c1(3), of ep "\<lparr>wo_fsync = fsync, wo_start_seq = Some (cm_next_seq ?m)\<rparr>"] by auto
  obtain R where R: "env_dec_records E rb = Some R" "hm_wf R" "map_of R = map_of (co_records c)"
    using C wf rb(1) unfolding ckpt_codec_laws_def by blast
  have lenR: "length R = length (co_records c)" using hm_length_card [OF R(2)] hm_length_card [OF wf] R(3) by simp
  have m: "env_dec_ckpt E cb = Some ?m" "length R = cm_record_count ?m" "cm_flushed_seq ?m = ?fl"
    using C cb(1) lenR by (simp_all add: ckpt_codec_laws_def checkpoint_meta_of_def)
  obtain segs where segs: "load_segments (crc32 (env_codec E)) dir = Returns segs"
    "\<And>i. load_vector_from segs (case Option.bind (map_of dir SegmentIndexBin) (env_dec_segidx E) of Some idx \<Rightarrow> idx | None \<Rightarrow> []) i =
        Returns (Option.bind (map_of (co_records c) i) lr_embedding)"
    using checkpoint_vectors [OF wf fits C seg] by blast
  have meta: "meta_codec_laws (env_enc_meta E) (env_dec_meta E)" using C by (simp add: ckpt_codec_laws_def)
  define x where "x = (case index_load (env_ann E) (env_dec_meta E) (index_files dir) (cc_space (co_config c1))
      (cc_dimension (co_config c1)) of Inr z \<Rightarrow> z | Inl _ \<Rightarrow> co_index c1)"
  obtain V' where V': "index_repr (env_ann E) x V'" "dom V' \<subseteq> dom V" "ui_dimension x = cc_dimension (co_config c)"
    "ui_next_label x \<le> ui_next_label (co_index c)"
    using checkpoint_index [OF V(1) A(3,4) meta ix c1(9,5,6)] unfolding x_def c1(4,8) by blast
  have Rr: "lr_id r = i \<and> hm_wf (md_or_empty (lr_metadata r))" if "map_of R i = Some r" for i r
    using records_invD(2,3) [OF D(2)] that unfolding R(3) by blast
  have domR: "dom V' \<subseteq> dom (map_of R)" using V'(2) V(2) unfolding R(3) by blast
  have y1: "index_repr (env_ann E) (co_index c1) Map.empty" using c1(4,9) by simp
  have lt: "length R < 2 ^ 32" using room(1) lenR by simp
  obtain c6 where c6: "load_checkpoint E ep fsync dir c1 = Returns (c6, True)" "coll_inv E c6"
    "co_records c6 = (if segs = [] then R else strip_records ?fl R)" "co_buffer c6 = []" "co_index c6 = x"
    "co_flushed_seq c6 = ?fl" "co_wal c6 = wal2" "co_segments c6 = segs"
    "co_segment_index c6 = (case Option.bind (map_of dir SegmentIndexBin) (env_dec_segidx E) of Some idx \<Rightarrow> idx | None \<Rightarrow> [])"
    "unat (co_next_offset c6) = length R"
    using load_checkpoint_ok [OF cb(2) m(1) rb(2) R(1) m(2) segs(1) wal2(1) B R(2) lt Rr c1(2,7) y1 x_def V'(1) domR]
    unfolding m(3) by blast
  have L6: "log_repr (env_codec E) (co_wal c6) gs" using fs(2) [OF wal2(2)] c6(7) by simp
  have full: "filter (in_range (?fl + 1) (wal_last_seq (co_wal c6))) gs = gs"
    using full_range [OF L6, of ?fl] L(2,3) by simp
  have none: "gs = []" if "wal_last_seq (co_wal c6) \<le> ?fl"
    using wal_log.repr_last [OF L6] that L(2) by (cases gs rule: rev_cases) auto
  have ok: "ops_ok (ui_dimension (co_index c6)) gs" "dims_ok c6"
    using L(5) V'(3) by (simp_all add: c6(5) dims_ok_empty [OF c6(4)])
  have fit: "unat (co_next_offset c6) + length gs < 2 ^ 32"
    "unat (ui_next_label (co_index c6)) + length (co_buffer c6) + length gs < 2 ^ 64"
    using room V'(4) by (simp_all add: c6(4,5,10) lenR word_le_nat_alt)
  obtain c2 c3 where c3: "replay_after E ?fl c6 = Inr c2" "flush_if_needed E c2 = (c3, Inr ())" "coll_inv E c3"
    "map_of (co_records c3) = spec_replay gs (map_of (co_records c6))"
    "co_segments c3 = co_segments c6" "co_segment_index c3 = co_segment_index c6"
    using replay_opens [OF c6(2) L6 full none ok A(1) fit] by metis
  have mv: "moved (map_of (co_records c) i) (map_of (co_records c6) i)" for i
    by (simp add: c6(3) strip_records_lookup moved_strip R(3))
  have "record_view c3 i = record_view c i" for i
    by (rule view_moved [OF seg0])
      (use moved_replay [of "map_of (co_records c)" "map_of (co_records c6)" gs i, OF mv] L(4) c3(4-6) c6(8,9) segs(2)
       in \<open>simp_all add: load_vector_def\<close>)
  then have "record_view c3 = record_view c" by (rule ext)
  then show ?thesis using c1(1) c6(1,6) c3(1-3) by (intro exI [of _ c3]) (simp add: collection_open_def)
qed

text \<open>The collection of the witnesses: one record, written, flushed, and not yet checkpointed.\<close>

lemma demo_world:
  obtains w :: "(u32 set, nat \<times> (u64 \<times> embedding) list) coll_world" and rs where "coll_inv demo_env (cw_coll w)" "log_repr demo_ops_codec (co_wal (cw_coll w)) rs"
    "co_records (cw_coll w) = [(''a'', demo_row)]" "co_segment_index (cw_coll w) = []" "cw_dir w = []"
    "co_flushed_seq (cw_coll w) = 1" "rs = [\<lparr>wr_seq = 1, wr_epoch = 3, wr_op = demo_put\<rparr>]"
    "co_config (cw_coll w) = demo_coll_config" "co_index (cw_coll w) = demo_index" "co_buffer (cw_coll w) = []"
    "catalog_repr demo_cat_codec (cw_cat w) [7 \<mapsto> demo_record 9]" "wal_last_seq (co_wal (cw_coll w)) = 1"
proof -
  let ?r = "\<lparr>wr_seq = 1, wr_epoch = 3, wr_op = demo_put\<rparr>"
  have w0: "wal_last_seq (co_wal demo_coll) = 0" "wal_header_epoch (co_wal demo_coll) = 3" by (simp_all add: demo_coll_def)
  have fits: "writable demo_ops_codec demo_put"
    by (simp add: demo_put_def demo_update_def writable_def demo_ops_codec_def RECORD_HEADER_LEN_def hm_wf_def)
  obtain w1 r where w1: "wal_append demo_ops_codec demo_put (co_wal demo_coll) = Inr (w1, r)" "log_repr demo_ops_codec w1 [r]"
    "wr_op r = demo_put" "wr_seq r = 1" "wal_last_seq w1 = 1"
    using wal_log.append_ok [OF demo_coll_log fits] w0 by auto
  have "wr_epoch r = 3" using w1(1) w0 by (auto simp: wal_append_def Let_def split: option.splits if_splits)
  then have r: "r = ?r" using w1(3,4) by simp
  obtain cat where cat: "catalog_repr demo_cat_codec cat [7 \<mapsto> demo_record 9]" using demo_catalog_advanced by blast
  let ?c1 = "apply_records demo_env [?r] demo_coll"
  let ?c = "(?c1\<lparr>co_buffer := [], co_index := demo_index, co_flushed_seq := 1\<rparr>)\<lparr>co_wal := w1\<rparr>"
  have I1: "coll_inv demo_env ?c1"
    by (rule conjunct1 [OF apply_records_inv [OF demo_coll_inv(1)]]) (simp_all add: demo_coll_def demo_put_def hm_wf_def)
  have "coll_inv demo_env (?c1\<lparr>co_buffer := [], co_index := demo_index, co_flushed_seq := 1\<rparr>)"
    by (rule coll_inv_flushed [OF I1, where V = "[''a'' \<mapsto> [7]]"]) (simp_all add: demo_index_repr demo_put_coll_fields)
  then have I: "coll_inv demo_env ?c"
    by (rule coll_inv_change [where g = "\<lambda>i r. r" and V = "[''a'' \<mapsto> [7]]"])
      (simp_all add: demo_index_repr demo_put_coll_fields hm_wf_def option.map_ident)
  show thesis
    by (rule that [of "\<lparr>cw_coll = ?c, cw_dir = [], cw_cat = cat\<rparr>" "[?r]"])
      (use I w1 r cat in \<open>simp_all add: demo_put_coll_fields\<close>)
qed

text \<open>The first checkpoint in memory, with what the next one starts from.\<close>

lemma checkpoint_in_memory:
  assumes "log_repr (env_codec E) (co_wal (cw_coll w)) rs" "co_records (cw_coll w) \<noteq> []"
    and "hm_wf (co_records (cw_coll w))" "segment_fits (cw_coll w)" "co_segment_index (cw_coll w) = []"
    and "checkpoint E w = (w', Returns (Inr ()))"
  defines "gs \<equiv> filter (\<lambda>r. co_flushed_seq (cw_coll w) < wr_seq r) rs"
  shows "record_view (cw_coll w') = record_view (cw_coll w)"
    "co_records (cw_coll w') = strip_records (co_flushed_seq (cw_coll w)) (co_records (cw_coll w))"
    "log_repr (env_codec E) (co_wal (cw_coll w')) gs"
    "gs = [] \<longrightarrow> wal_last_seq (co_wal (cw_coll w')) = saturating_sub1 (wal_last_seq (co_wal (cw_coll w)) + 1)"
    "advance_log_offset (env_catalog E) (cc_id (co_config (cw_coll w))) (co_flushed_seq (cw_coll w)) (cw_cat w) = Inr (cw_cat w')"
    "co_flushed_seq (cw_coll w') = co_flushed_seq (cw_coll w) \<and> co_config (cw_coll w') = co_config (cw_coll w) \<and>
     co_index (cw_coll w') = co_index (cw_coll w) \<and> co_last_checkpoint_seq (cw_coll w') = co_flushed_seq (cw_coll w)"
proof -
  let ?c = "cw_coll w" and ?es = "segment_entries (co_records (cw_coll w))" and ?crc = "crc32 (env_codec E)"
  note F = checkpoint_files [OF assms(6,2,1)]
  show "co_records (cw_coll w') = strip_records (co_flushed_seq ?c) (co_records ?c)" by (rule F)
  show "log_repr (env_codec E) (co_wal (cw_coll w')) gs" by (rule F) (simp add: gs_def)
  show "gs = [] \<longrightarrow> wal_last_seq (co_wal (cw_coll w')) = saturating_sub1 (wal_last_seq (co_wal ?c) + 1)"
    by (rule F) (simp add: gs_def)
  show "advance_log_offset (env_catalog E) (cc_id (co_config ?c)) (co_flushed_seq ?c) (cw_cat w) = Inr (cw_cat w')" by (rule F)
  show "co_flushed_seq (cw_coll w') = co_flushed_seq ?c \<and> co_config (cw_coll w') = co_config ?c \<and>
     co_index (cw_coll w') = co_index ?c \<and> co_last_checkpoint_seq (cw_coll w') = co_flushed_seq ?c" by (rule F)
  show "record_view (cw_coll w') = record_view ?c"
  proof (rule F)
    assume recs: "co_records (cw_coll w') = strip_records (co_flushed_seq ?c) (co_records ?c)"
      and none: "?es = [] \<longrightarrow> co_segments (cw_coll w') = [] \<and> co_segment_index (cw_coll w') = []"
      and sg: "if ?es = [] then map_of (cw_dir w') (SegBin 0) = None \<and> map_of (cw_dir w') SegmentIndexBin = None
       else (\<exists>wr b. writer_push_all (map snd ?es) (writer_new (cc_dimension (co_config ?c))) = Returns wr \<and>
          env_enc_segidx E (zip (map fst ?es) [0 ..< length ?es]) = Some b \<and>
          map_of (cw_dir w') SegmentIndexBin = Some b \<and> map_of (cw_dir w') (SegBin 0) = Some (writer_write ?crc wr) \<and>
          map_of (cw_dir w') (SegBin (Suc 0)) = map_of (cw_dir w) (SegBin (Suc 0)) \<and>
          (\<forall>seg. segment_open ?crc (writer_write ?crc wr) = Returns (Inr seg) \<longrightarrow>
             co_segments (cw_coll w') = [seg] \<and> co_segment_index (cw_coll w') = zip (map fst ?es) [0 ..< length ?es]))"
    show ?thesis
      by (rule checkpoint_view [OF assms(3-5) recs none, where crc = ?crc]) (use sg in auto)
  qed
qed

text \<open>C5: A collection survives its first checkpoint. When every vector has the configured dimension and
  fits the segment, a checkpoint that reports success changes nothing a reader sees in memory, and
  opening the collection from the files it wrote and the pruned log shows the same records with the
  same vectors, all derived state rebuilt.\<close>

theorem checkpoint_survives_restart:
  assumes "coll_inv E (cw_coll w)" "log_repr (env_codec E) (co_wal (cw_coll w)) rs" "co_records (cw_coll w) \<noteq> []"
    and "segment_fits (cw_coll w)" "co_segment_index (cw_coll w) = []" "map_of (cw_dir w) (SegBin 1) = None"
    and "co_flushed_seq (cw_coll w) \<noteq> - 1" "spec_replay rs M = map_of (co_records (cw_coll w))"
    and "ckpt_codec_laws E" "ann_reserves (env_ann E)" "ops_ok (cc_dimension (co_config (cw_coll w))) rs"
    and "ui_space (co_index (cw_coll w)) = cc_space (co_config (cw_coll w))"
    and "ui_dimension (co_index (cw_coll w)) = cc_dimension (co_config (cw_coll w))"
    and "with_hnsw (env_ann E) (cc_space (co_config (cw_coll w))) (cc_dimension (co_config (cw_coll w)))
      (cc_hnsw (co_config (cw_coll w))) = Inr y"
    and "length (co_records (cw_coll w)) + length rs < 2 ^ 32"
    and "unat (ui_next_label (co_index (cw_coll w))) + length rs < 2 ^ 64"
    and "checkpoint E w = (w', Returns (Inr ()))"
  shows "\<exists>c'. collection_open E (co_config (cw_coll w)) (wal_file (co_wal (cw_coll w'))) (cw_dir w') ep fsync = Returns (Inr c') \<and>
    coll_inv E c' \<and> record_view c' = record_view (cw_coll w) \<and> record_view (cw_coll w') = record_view (cw_coll w)"
proof -
  let ?c = "cw_coll w" and ?fl = "co_flushed_seq (cw_coll w)"
  let ?es = "segment_entries (co_records ?c)" and ?gs = "filter (\<lambda>r. ?fl < wr_seq r) rs"
  let ?crc = "crc32 (env_codec E)"
  note M = checkpoint_in_memory [OF assms(2,3) records_invD(1) [OF coll_invD(2) [OF assms(1)]] assms(4,5,17)]
  have pos: "\<forall>r\<in>set ?gs. ?fl < wr_seq r" by simp
  have ok: "ops_ok (cc_dimension (co_config ?c)) ?gs" using assms(11) by (auto simp: ops_ok_def list_all_iff)
  have len: "length ?gs \<le> length rs" by simp
  have room: "length (co_records ?c) + length ?gs < 2 ^ 32" "unat (ui_next_label (co_index ?c)) + length ?gs < 2 ^ 64"
    using assms(15,16) len by linarith+
  obtain rb cb files0 where
    f: "env_enc_records E (co_records ?c) = Some rb" "map_of (cw_dir w') RecordsBin = Some rb"
      "env_enc_ckpt E (checkpoint_meta_of ?c) = Some cb" "map_of (cw_dir w') CheckpointJson = Some cb"
      "if index_is_empty (env_ann E) (co_index ?c) then index_files (cw_dir w') = Map.empty
       else index_save (env_ann E) (env_enc_meta E) (co_index ?c) files0 = (index_files (cw_dir w'), Inr ())"
    and sg: "if ?es = [] then map_of (cw_dir w') (SegBin 0) = None \<and> map_of (cw_dir w') SegmentIndexBin = None
       else (\<exists>wr b. writer_push_all (map snd ?es) (writer_new (cc_dimension (co_config ?c))) = Returns wr \<and>
          env_enc_segidx E (zip (map fst ?es) [0 ..< length ?es]) = Some b \<and>
          map_of (cw_dir w') SegmentIndexBin = Some b \<and> map_of (cw_dir w') (SegBin 0) = Some (writer_write ?crc wr) \<and>
          map_of (cw_dir w') (SegBin (Suc 0)) = map_of (cw_dir w) (SegBin (Suc 0)) \<and>
          (\<forall>seg. segment_open ?crc (writer_write ?crc wr) = Returns (Inr seg) \<longrightarrow>
             co_segments (cw_coll w') = [seg] \<and> co_segment_index (cw_coll w') = zip (map fst ?es) [0 ..< length ?es]))"
    by (rule checkpoint_files [OF assms(17,3,2)])
  have sg': "if ?es = [] then map_of (cw_dir w') (SegBin 0) = None \<and> map_of (cw_dir w') SegmentIndexBin = None
       else (\<exists>wr b. writer_push_all (map snd ?es) (writer_new (cc_dimension (co_config ?c))) = Returns wr \<and>
          env_enc_segidx E (zip (map fst ?es) [0 ..< length ?es]) = Some b \<and>
          map_of (cw_dir w') SegmentIndexBin = Some b \<and> map_of (cw_dir w') (SegBin 0) = Some (writer_write ?crc wr) \<and>
          map_of (cw_dir w') (SegBin (Suc 0)) = None)"
    using sg assms(6) by (auto split: if_splits)
  obtain c3 where "collection_open E (co_config ?c) (wal_file (co_wal (cw_coll w'))) (cw_dir w') ep fsync = Returns (Inr c3)"
      "coll_inv E c3" "record_view c3 = record_view ?c"
    using checkpoint_opens [OF assms(1,4,5) M(3) pos assms(7) log_suffix [OF assms(2,8)] ok assms(9,10,14,12,13) room f sg',
        of ep fsync] by blast
  then show ?thesis using M(1) by blast
qed

lemma demo_ckpt_codec_laws: "ckpt_codec_laws demo_env"
proof -
  have "demo_row \<noteq> demo_row\<lparr>lr_embedding := None\<rparr>" by (simp add: demo_row_def)
  then show ?thesis using demo_meta_codec_laws
    by (auto simp: ckpt_codec_laws_def demo_env_def split: if_splits)
qed

lemma demo_with_hnsw: "\<exists>y. with_hnsw list_ann L2 1 h = Inr y"
  by (simp add: with_hnsw_def list_ann_def)

lemma demo_entries: "segment_entries [(''a'', demo_row)] = [(''a'', [7])]"
  "segment_entries [(''a'', demo_row\<lparr>lr_embedding := None\<rparr>)] = []"
  by (simp_all add: segment_entries_def demo_row_def List.map_filter_simps)

lemma demo_save: "snd (index_save list_ann demo_enc_meta demo_index fs) = Inr ()"
  by (simp add: demo_index_save)

text \<open>Both states of the demonstration, before and after its record has been stripped, can be checkpointed.\<close>

lemma demo_encodable:
  assumes "co_records (cw_coll w) = [(''a'', r)]" "r = demo_row \<or> r = demo_row\<lparr>lr_embedding := None\<rparr>"
    and "co_flushed_seq (cw_coll w) = 1" "co_config (cw_coll w) = demo_coll_config" "co_index (cw_coll w) = demo_index"
    and "catalog_repr demo_cat_codec (cw_cat w) [7 \<mapsto> demo_record 9]" "wal_last_seq (co_wal (cw_coll w)) = 1"
  shows "ckpt_encodable demo_env w" "segment_fits (cw_coll w)"
proof -
  obtain cat where "advance_log_offset demo_cat_codec 7 1 (cw_cat w) = Inr cat" using demo_advance [OF assms(6), of 1] by auto
  moreover have "checkpoint_meta_of (cw_coll w) = \<lparr>cm_flushed_seq = 1, cm_next_seq = 2, cm_record_count = 1\<rparr>"
    using assms(1,3,7) by (simp add: checkpoint_meta_of_def)
  moreover have "env_enc_ckpt demo_env \<lparr>cm_flushed_seq = 1, cm_next_seq = 2, cm_record_count = 1\<rparr> \<noteq> None"
    "env_enc_records demo_env [(''a'', r)] \<noteq> None" "env_enc_segidx demo_env [(''a'', 0)] \<noteq> None"
    using assms(2) by (auto simp: demo_env_def)
  ultimately show "ckpt_encodable demo_env w"
    using assms(1-5) by (auto simp: ckpt_encodable_def Let_def demo_entries demo_config_fields demo_save)
  show "segment_fits (cw_coll w)"
    using assms(1,2,4) by (auto simp: segment_fits_def demo_config_fields HEADER_SIZE_def demo_row_def split: if_splits)
qed

lemma checkpoint_survives_restart_witness:
  "\<exists>w w' c'. checkpoint demo_env w = (w', Returns (Inr ())) \<and> wal_last_seq (co_wal (cw_coll w)) = 1 \<and>
     collection_open demo_env demo_coll_config (wal_file (co_wal (cw_coll w'))) (cw_dir w') (Epoch 3) True = Returns (Inr c') \<and>
     record_view c' ''a'' = Some (Some [(''k'', IntV 1)], None, 1, Returns (Some [7]))"
proof (rule demo_world)
  fix w :: "(u32 set, nat \<times> (u64 \<times> embedding) list) coll_world" and rs
  assume I: "coll_inv demo_env (cw_coll w)" and L: "log_repr demo_ops_codec (co_wal (cw_coll w)) rs"
    and c: "co_records (cw_coll w) = [(''a'', demo_row)]" "co_segment_index (cw_coll w) = []" "cw_dir w = []"
      "co_flushed_seq (cw_coll w) = 1" "co_config (cw_coll w) = demo_coll_config" "co_index (cw_coll w) = demo_index"
      "wal_last_seq (co_wal (cw_coll w)) = 1"
    and rs: "rs = [\<lparr>wr_seq = 1, wr_epoch = 3, wr_op = demo_put\<rparr>]" and cat: "catalog_repr demo_cat_codec (cw_cat w) [7 \<mapsto> demo_record 9]"
  note enc = demo_encodable [OF c(1) disjI1 [OF refl] c(4,5,6) cat c(7)]
  have L': "log_repr (env_codec demo_env) (co_wal (cw_coll w)) rs" using L by simp
  have wf: "hm_wf (co_records (cw_coll w))" by (simp add: c hm_wf_def)
  obtain w' where w': "checkpoint demo_env w = (w', Returns (Inr ()))" using checkpoint_returns [OF wf enc(2,1) L'] by blast
  obtain y where y: "with_hnsw (env_ann demo_env) (cc_space (co_config (cw_coll w))) (cc_dimension (co_config (cw_coll w)))
      (cc_hnsw (co_config (cw_coll w))) = Inr y"
    using demo_with_hnsw by (auto simp: c demo_config_fields)
  have facts: "co_records (cw_coll w) \<noteq> []" "map_of (cw_dir w) (SegBin 1) = None" "co_flushed_seq (cw_coll w) \<noteq> - 1"
    "spec_replay rs Map.empty = map_of (co_records (cw_coll w))" "ann_reserves (env_ann demo_env)"
    "ops_ok (cc_dimension (co_config (cw_coll w))) rs" "ui_space (co_index (cw_coll w)) = cc_space (co_config (cw_coll w))"
    "ui_dimension (co_index (cw_coll w)) = cc_dimension (co_config (cw_coll w))"
    "length (co_records (cw_coll w)) + length rs < 2 ^ 32" "unat (ui_next_label (co_index (cw_coll w))) + length rs < 2 ^ 64"
    by (simp_all add: c rs list_ann_reserves demo_config_fields ops_ok_def demo_put_def hm_wf_def spec_apply_def demo_row_def
        demo_index_def)
  obtain c' where "collection_open demo_env (co_config (cw_coll w)) (wal_file (co_wal (cw_coll w'))) (cw_dir w') (Epoch 3) True = Returns (Inr c')"
    "record_view c' = record_view (cw_coll w)"
    using checkpoint_survives_restart [OF I L' facts(1) enc(2) c(2) facts(2,3,4) demo_ckpt_codec_laws facts(5-8) y
        facts(9,10) w', of "Epoch 3" True] by (elim exE conjE) (rule that)
  moreover have "record_view (cw_coll w) ''a'' = Some (Some [(''k'', IntV 1)], None, 1, Returns (Some [7]))"
    by (simp add: record_view_def c vector_of_def load_vector_def load_vector_from_def demo_row_def)
  ultimately show ?thesis unfolding c(5) using w' c(7) by metis
qed

text \<open>C25: A checkpoint finishes. Whenever the encoders accept the collection, the vectors fit the segment
  and the catalog can record the watermark, the checkpoint reports success; afterwards the log holds
  exactly the records above the flushed sequence number, and that number is the checkpoint's.\<close>

theorem checkpoint_completes:
  assumes "hm_wf (co_records (cw_coll w))" "co_records (cw_coll w) \<noteq> []" "segment_fits (cw_coll w)"
    and "ckpt_encodable E w" "log_repr (env_codec E) (co_wal (cw_coll w)) rs" "co_segment_index (cw_coll w) = []"
  shows "\<exists>w'. checkpoint E w = (w', Returns (Inr ())) \<and>
    log_repr (env_codec E) (co_wal (cw_coll w')) (filter (\<lambda>r. co_flushed_seq (cw_coll w) < wr_seq r) rs) \<and>
    co_last_checkpoint_seq (cw_coll w') = co_flushed_seq (cw_coll w) \<and> length (co_records (cw_coll w')) = length (co_records (cw_coll w))"
proof -
  obtain w' where w': "checkpoint E w = (w', Returns (Inr ()))" using checkpoint_returns [OF assms(1,3-5)] by blast
  note M = checkpoint_in_memory [OF assms(5,2,1,3,6) w']
  show ?thesis using w' M(2,3,6) by (intro exI [of _ w']) (simp add: strip_records_def)
qed

lemma checkpoint_completes_witness:
  "\<exists>w w'. co_records (cw_coll w) = [(''a'', demo_row)] \<and> checkpoint demo_env w = (w', Returns (Inr ())) \<and>
     log_repr demo_ops_codec (co_wal (cw_coll w')) []"
proof (rule demo_world)
  fix w :: "(u32 set, nat \<times> (u64 \<times> embedding) list) coll_world" and rs
  assume L: "log_repr demo_ops_codec (co_wal (cw_coll w)) rs"
    and c: "co_records (cw_coll w) = [(''a'', demo_row)]" "co_segment_index (cw_coll w) = []"
      "co_flushed_seq (cw_coll w) = 1" "co_config (cw_coll w) = demo_coll_config" "co_index (cw_coll w) = demo_index"
      "wal_last_seq (co_wal (cw_coll w)) = 1"
    and rs: "rs = [\<lparr>wr_seq = 1, wr_epoch = 3, wr_op = demo_put\<rparr>]" and cat: "catalog_repr demo_cat_codec (cw_cat w) [7 \<mapsto> demo_record 9]"
  note enc = demo_encodable [OF c(1) disjI1 [OF refl] c(3,4,5) cat c(6)]
  have L': "log_repr (env_codec demo_env) (co_wal (cw_coll w)) rs" using L by simp
  have wf: "hm_wf (co_records (cw_coll w))" "co_records (cw_coll w) \<noteq> []" by (simp_all add: c hm_wf_def)
  from checkpoint_completes [OF wf enc(2,1) L' c(2)] c(1,3) rs show ?thesis by auto
qed

text \<open>C33: A second checkpoint loses the vectors of the first. When everything has been flushed and nothing
  is written between two successful checkpoints, readers see every record with its vector after the
  first, and every record without any vector after the second, which also removes the segment files:
  it collects the vectors from the records only, and the first checkpoint had stripped them.\<close>

theorem second_checkpoint_loses_vectors:
  assumes "log_repr (env_codec E) (co_wal (cw_coll w)) rs" "co_records (cw_coll w) \<noteq> []"
    and "hm_wf (co_records (cw_coll w))" "segment_fits (cw_coll w)" "co_segment_index (cw_coll w) = []"
    and "\<forall>i r. map_of (co_records (cw_coll w)) i = Some r \<longrightarrow> lr_seq r \<le> co_flushed_seq (cw_coll w)"
    and "checkpoint E w = (w1, Returns (Inr ()))" "checkpoint E w1 = (w2, Returns (Inr ()))"
  shows "record_view (cw_coll w1) = record_view (cw_coll w) \<and>
    record_view (cw_coll w2) i =
      map_option (\<lambda>r. (lr_metadata r, lr_document r, lr_seq r, Returns None)) (map_of (co_records (cw_coll w)) i) \<and>
    map_of (cw_dir w2) (SegBin 0) = None"
proof -
  let ?fl = "co_flushed_seq (cw_coll w)"
  note M = checkpoint_in_memory [OF assms(1-5,7)]
  have stripped: "lr_embedding r = None" if "map_of (co_records (cw_coll w1)) j = Some r" for j r
    using that assms(6) by (auto simp: M(2) strip_records_lookup strip_record_def)
  have wf1: "hm_wf (co_records (cw_coll w1))" using assms(3) by (simp add: M(2))
  have ne: "co_records (cw_coll w1) \<noteq> []" using assms(2) by (simp add: M(2) strip_records_def)
  have "Option.bind (map_of (co_records (cw_coll w1)) j) lr_embedding = None" for j
    using stripped by (cases "map_of (co_records (cw_coll w1)) j") auto
  then have "map_of (segment_entries (co_records (cw_coll w1))) = Map.empty"
    using segment_entries_lookup(2) [OF wf1] by (intro ext) simp
  then have none: "segment_entries (co_records (cw_coll w1)) = []" by simp
  note F = checkpoint_files [OF assms(8) ne M(3)]
  have c2: "co_records (cw_coll w2) = strip_records (co_flushed_seq (cw_coll w1)) (co_records (cw_coll w1))" by (rule F)
  have seg: "map_of (cw_dir w2) (SegBin 0) = None" by (rule F) (use none in simp)
  have idx: "co_segment_index (cw_coll w2) = []" by (rule F) (use none in simp)
  have lookup: "map_of (co_records (cw_coll w2)) i =
      map_option (strip_record ?fl) (map_option (strip_record ?fl) (map_of (co_records (cw_coll w)) i))"
    using M(6) by (simp add: c2 M(2) strip_records_lookup option.map_comp)
  have "record_view (cw_coll w2) i =
      map_option (\<lambda>r. (lr_metadata r, lr_document r, lr_seq r, Returns None)) (map_of (co_records (cw_coll w)) i)"
    using assms(6) by (cases "map_of (co_records (cw_coll w)) i")
      (simp_all add: record_view_def lookup strip_record_fields vector_of_def load_vector_def load_vector_from_def idx,
       simp add: strip_record_def)
  then show ?thesis using M(1) seg by blast
qed

lemma second_checkpoint_loses_vectors_witness:
  "\<exists>w w1 w2. checkpoint demo_env w = (w1, Returns (Inr ())) \<and> checkpoint demo_env w1 = (w2, Returns (Inr ())) \<and>
     record_view (cw_coll w1) ''a'' = Some (Some [(''k'', IntV 1)], None, 1, Returns (Some [7])) \<and>
     record_view (cw_coll w2) ''a'' = Some (Some [(''k'', IntV 1)], None, 1, Returns None)"
proof (rule demo_world)
  fix w :: "(u32 set, nat \<times> (u64 \<times> embedding) list) coll_world" and rs
  assume L: "log_repr demo_ops_codec (co_wal (cw_coll w)) rs"
    and c: "co_records (cw_coll w) = [(''a'', demo_row)]" "co_segment_index (cw_coll w) = []"
      "co_flushed_seq (cw_coll w) = 1" "co_config (cw_coll w) = demo_coll_config" "co_index (cw_coll w) = demo_index"
      "wal_last_seq (co_wal (cw_coll w)) = 1"
    and rs: "rs = [\<lparr>wr_seq = 1, wr_epoch = 3, wr_op = demo_put\<rparr>]" and cat: "catalog_repr demo_cat_codec (cw_cat w) [7 \<mapsto> demo_record 9]"
  note enc = demo_encodable [OF c(1) disjI1 [OF refl] c(3,4,5) cat c(6)]
  have L': "log_repr (env_codec demo_env) (co_wal (cw_coll w)) rs" using L by simp
  have wf: "hm_wf (co_records (cw_coll w))" "co_records (cw_coll w) \<noteq> []" by (simp_all add: c hm_wf_def)
  obtain w1 where w1: "checkpoint demo_env w = (w1, Returns (Inr ()))" using checkpoint_returns [OF wf(1) enc(2,1) L'] by blast
  note M = checkpoint_in_memory [OF L' wf(2,1) enc(2) c(2) w1]
  have c1: "co_records (cw_coll w1) = [(''a'', demo_row\<lparr>lr_embedding := None\<rparr>)]" "co_flushed_seq (cw_coll w1) = 1"
    "co_config (cw_coll w1) = demo_coll_config" "co_index (cw_coll w1) = demo_index" "wal_last_seq (co_wal (cw_coll w1)) = 1"
    using M(2,4,6) c by (simp_all add: rs strip_records_def strip_record_def demo_row_def saturating_sub1_def)
  have "advance_log_offset demo_cat_codec 7 1 (cw_cat w) = Inr (cw_cat w1)" using M(5) by (simp add: c demo_config_fields)
  then have cat1: "catalog_repr demo_cat_codec (cw_cat w1) [7 \<mapsto> demo_record 9]" using demo_advance [OF cat, of 1] by auto
  note enc1 = demo_encodable [OF c1(1) disjI2 [OF refl] c1(2,3,4) cat1 c1(5)]
  have wf1: "hm_wf (co_records (cw_coll w1))" by (simp add: c1 hm_wf_def)
  obtain w2 where w2: "checkpoint demo_env w1 = (w2, Returns (Inr ()))" using checkpoint_returns [OF wf1 enc1(2,1) M(3)] by blast
  have "\<forall>i r. map_of (co_records (cw_coll w)) i = Some r \<longrightarrow> lr_seq r \<le> co_flushed_seq (cw_coll w)"
    by (simp add: c demo_row_def)
  from second_checkpoint_loses_vectors [OF L' wf(2,1) enc(2) c(2) this w1 w2, of "''a''"]
  have "record_view (cw_coll w1) ''a'' = record_view (cw_coll w) ''a''"
    "record_view (cw_coll w2) ''a'' = Some (Some [(''k'', IntV 1)], None, 1, Returns None)"
    by (simp_all add: c demo_row_def)
  moreover have "record_view (cw_coll w) ''a'' = Some (Some [(''k'', IntV 1)], None, 1, Returns (Some [7]))"
    by (simp add: record_view_def c vector_of_def load_vector_def load_vector_from_def demo_row_def)
  ultimately show ?thesis using w1 w2 by metis
qed

end
