(* ===== verification/Cluster_Types.thy ===== *)
theory Cluster_Types
  imports Wal_Log
begin

text \<open>
  The shared types of the cluster crate, \<^verbatim>\<open>crates/rekha-cluster/src/cluster.rs\<close>,
  \<^verbatim>\<open>replication.rs\<close> and \<^verbatim>\<open>raft_types.rs\<close>: the map of clock tags, the log delta that is shipped to
  followers, the follower's replication state with its retries, and the cluster operations. The
  answers of the HTTP client are a parameter of the fetch.
\<close>

section \<open>Clock tags per node\<close>

type_synonym clock_map = "(u64 \<times> clock_tag) list"

definition clock_map_new :: clock_map where
  "clock_map_new = []"

definition clock_map_advance :: "u64 \<Rightarrow> clock_tag \<Rightarrow> clock_map \<Rightarrow> clock_map" where
  "clock_map_advance node tag m =
     (case map_of m node of
        None \<Rightarrow> AList.update node tag m
      | Some entry \<Rightarrow> if tag_seq tag > tag_seq entry then AList.update node tag m else m)"

definition clock_map_get :: "u64 \<Rightarrow> clock_map \<Rightarrow> clock_tag option" where
  "clock_map_get node m = map_of m node"

text \<open>\<^verbatim>\<open>Iterator::max\<close> under the derived order of the tags.\<close>

fun tags_max :: "clock_tag list \<Rightarrow> clock_tag option" where
  "tags_max [] = None"
| "tags_max (t # ts) = (case tags_max ts of None \<Rightarrow> Some t | Some u \<Rightarrow> Some (if u < t then t else u))"

definition global_high_water :: "clock_map \<Rightarrow> clock_tag option" where
  "global_high_water m = tags_max (map snd m)"

definition clock_map_nodes :: "clock_map \<Rightarrow> u64 list" where
  "clock_map_nodes m = map fst m"

definition clock_map_len :: "clock_map \<Rightarrow> nat" where
  "clock_map_len m = length m"

definition clock_map_is_empty :: "clock_map \<Rightarrow> bool" where
  "clock_map_is_empty m = (m = [])"

section \<open>Log deltas\<close>

record delta_record =
  dr_seq :: u64
  dr_epoch :: u64
  dr_payload :: bytes

record wal_delta =
  wd_leader_node :: u64
  wd_records :: "delta_record list"
  wd_target_seq :: u64

text \<open>The \<^verbatim>\<open>expect\<close> panics when an operation cannot be serialized.\<close>

fun delta_records :: "codec \<Rightarrow> wal_record list \<Rightarrow> delta_record list run" where
  "delta_records C [] = Returns []"
| "delta_records C (r # rs) =
     (case enc_op C (wr_op r) of
        None \<Rightarrow> Panics
      | Some b \<Rightarrow> run_bind (delta_records C rs) (\<lambda>ds.
          Returns (\<lparr>dr_seq = wr_seq r, dr_epoch = wr_epoch r, dr_payload = b\<rparr> # ds)))"

definition from_wal_records :: "codec \<Rightarrow> u64 \<Rightarrow> wal_record list \<Rightarrow> u64 \<Rightarrow> wal_delta run" where
  "from_wal_records C leader_node rs target_seq =
     run_bind (delta_records C rs) (\<lambda>ds.
       Returns \<lparr>wd_leader_node = leader_node, wd_records = ds, wd_target_seq = target_seq\<rparr>)"

definition decode_ops :: "codec \<Rightarrow> wal_delta \<Rightarrow> (u64 \<times> operation) list" where
  "decode_ops C d = List.map_filter (\<lambda>r. map_option (Pair (dr_seq r)) (dec_op C (dr_payload r))) (wd_records d)"

record cluster_config =
  clc_node_id :: u64
  clc_peers :: "string list"
  clc_owned :: "uuid list"

definition cluster_config_default :: cluster_config where
  "cluster_config_default = \<lparr>clc_node_id = 0, clc_peers = [], clc_owned = []\<rparr>"

section \<open>Replication state of a follower\<close>

record wal_replication =
  rp_leader_url :: string
  rp_last_applied :: "(uuid \<times> u64) list"
  rp_poll_interval_ms :: nat

definition replication_new :: "string \<Rightarrow> nat \<Rightarrow> wal_replication" where
  "replication_new leader_url poll_interval =
     \<lparr>rp_leader_url = leader_url, rp_last_applied = [], rp_poll_interval_ms = poll_interval\<rparr>"

definition next_seq :: "uuid \<Rightarrow> wal_replication \<Rightarrow> u64" where
  "next_seq u r = (case map_of (rp_last_applied r) u of Some s \<Rightarrow> s | None \<Rightarrow> 0) + 1"

definition mark_applied :: "uuid \<Rightarrow> u64 \<Rightarrow> wal_replication \<Rightarrow> wal_replication" where
  "mark_applied u s r = r\<lparr>rp_last_applied := AList.update u s (rp_last_applied r)\<rparr>"

text \<open>What the HTTP client can answer: no response, or a status with its body or its decoded JSON.\<close>

datatype http_outcome =
    SendFailed string
  | HttpStatus string string
  | HttpOk "string + wal_delta"

definition delta_url :: "(uuid \<Rightarrow> string) \<Rightarrow> uuid \<Rightarrow> u64 \<Rightarrow> wal_replication \<Rightarrow> string" where
  "delta_url show_uuid u from_seq r =
     rp_leader_url r @ ''/internal/wal/'' @ show_uuid u @ ''/delta?from_seq='' @ nat_to_string (unat from_seq)"

fun fetch_delta :: "http_outcome \<Rightarrow> string + wal_delta" where
  "fetch_delta (SendFailed e) = Inl (''HTTP error: '' @ e)"
| "fetch_delta (HttpStatus status body) = Inl (''HTTP '' @ status @ '': '' @ body)"
| "fetch_delta (HttpOk (Inl e)) = Inl (''JSON decode error: '' @ e)"
| "fetch_delta (HttpOk (Inr d)) = Inr d"

text \<open>The delay after a failed attempt, in 64-bit arithmetic that wraps.\<close>

definition backoff_ms :: "nat \<Rightarrow> u64" where
  "backoff_ms attempt = 100 * 2 ^ attempt"

text \<open>The attempts \<open>i\<close>, \<open>i + 1\<close>, ... below the maximum; the result comes with the delays slept through.\<close>

fun retry_from :: "(nat \<Rightarrow> http_outcome) \<Rightarrow> nat \<Rightarrow> nat \<Rightarrow> nat \<Rightarrow> string \<Rightarrow> (string + wal_delta) \<times> u64 list" where
  "retry_from net max_retries i 0 last_err =
     (Inl (''Failed after '' @ nat_to_string max_retries @ '' retries: '' @ last_err), [])"
| "retry_from net max_retries i (Suc left) last_err =
     (case fetch_delta (net i) of
        Inr d \<Rightarrow> (Inr d, [])
      | Inl e \<Rightarrow>
          (case retry_from net max_retries (Suc i) left e of
             (res, ds) \<Rightarrow> (res, if i < max_retries - 1 then backoff_ms i # ds else ds)))"

definition fetch_delta_with_retry :: "(nat \<Rightarrow> http_outcome) \<Rightarrow> nat \<Rightarrow> (string + wal_delta) \<times> u64 list" where
  "fetch_delta_with_retry net max_retries = retry_from net max_retries 0 max_retries []"

section \<open>Cluster operations\<close>

datatype cluster_operation =
    AddNode u64 string
  | RemoveNode u64
  | AddCollection uuid string u32 string string string "u64 list"
  | RemoveCollection uuid
  | TransferLeadership u64

record node_info =
  ni_node_id :: u64
  ni_addr :: string
  ni_is_leader :: bool

section \<open>Lemmas\<close>

lemma clock_map_advance_wf [simp, rk_inv]: "hm_wf m \<Longrightarrow> hm_wf (clock_map_advance n t m)"
  by (simp add: clock_map_advance_def split: option.split)

lemma clock_map_advance_get:
  "clock_map_get i (clock_map_advance n t m) =
     (if i = n then Some (case clock_map_get n m of None \<Rightarrow> t | Some e \<Rightarrow> if tag_seq e < tag_seq t then t else e)
      else clock_map_get i m)"
  by (simp add: clock_map_advance_def clock_map_get_def split: option.split)

lemma tags_max_None [simp]: "tags_max ts = None \<longleftrightarrow> ts = []"
  by (cases ts) (auto split: option.split)

lemma tags_max_Some: "tags_max ts = Some t \<Longrightarrow> t \<in> set ts \<and> (\<forall>u\<in>set ts. u \<le> t)"
  by (induction ts arbitrary: t) (force split: option.splits if_splits)+

lemma delta_records_ok:
  assumes "codec_laws C"
  shows "delta_records C rs = Returns ds \<Longrightarrow>
    List.map_filter (\<lambda>r. map_option (Pair (dr_seq r)) (dec_op C (dr_payload r))) ds = map (\<lambda>r. (wr_seq r, wr_op r)) rs"
  using assms
  by (induction rs arbitrary: ds) (auto simp: List.map_filter_simps codec_laws_def run_bind_Returns split: option.splits)

lemma delta_records_total:
  "(\<And>r. r \<in> set rs \<Longrightarrow> enc_op C (wr_op r) \<noteq> None) \<Longrightarrow> \<exists>ds. delta_records C rs = Returns ds"
  by (induction rs) fastforce+

text \<open>Advancing by a list of tags.\<close>

definition clock_map_advance_all :: "(u64 \<times> clock_tag) list \<Rightarrow> clock_map \<Rightarrow> clock_map" where
  "clock_map_advance_all ts m = fold (\<lambda>(n, t). clock_map_advance n t) ts m"

lemma advance_all_get:
  "(case clock_map_get n (clock_map_advance_all ts m) of
      None \<Rightarrow> clock_map_get n m = None \<and> n \<notin> fst ` set ts
    | Some t \<Rightarrow> (clock_map_get n m = Some t \<or> (n, t) \<in> set ts) \<and>
        (\<forall>e. clock_map_get n m = Some e \<longrightarrow> tag_seq e \<le> tag_seq t) \<and>
        (\<forall>u. (n, u) \<in> set ts \<longrightarrow> tag_seq u \<le> tag_seq t))"
proof (induction ts arbitrary: m)
  case Nil
  then show ?case by (simp add: clock_map_advance_all_def split: option.split)
next
  case (Cons x ts)
  obtain k u where x: "x = (k, u)" by (cases x)
  have step: "clock_map_advance_all ((k, u) # ts) m = clock_map_advance_all ts (clock_map_advance k u m)"
    by (simp add: clock_map_advance_all_def)
  note IH = Cons.IH [of "clock_map_advance k u m"]
  show ?case
  proof (cases "k = n")
    case False
    then show ?thesis using IH unfolding x step by (auto simp: clock_map_advance_get split: option.splits)
  next
    case True
    define v where "v = (case clock_map_get n m of None \<Rightarrow> u | Some e \<Rightarrow> if tag_seq e < tag_seq u then u else e)"
    have get: "clock_map_get n (clock_map_advance k u m) = Some v" by (simp add: clock_map_advance_get True v_def)
    have v: "clock_map_get n m = Some v \<or> v = u" "tag_seq u \<le> tag_seq v"
      "\<And>e. clock_map_get n m = Some e \<Longrightarrow> tag_seq e \<le> tag_seq v"
      by (auto simp: v_def split: option.splits)
    obtain t where t: "clock_map_get n (clock_map_advance_all ts (clock_map_advance k u m)) = Some t"
      "v = t \<or> (n, t) \<in> set ts" "tag_seq v \<le> tag_seq t" "\<forall>u. (n, u) \<in> set ts \<longrightarrow> tag_seq u \<le> tag_seq t"
      using IH get by (auto split: option.splits)
    have "tag_seq u \<le> tag_seq t" "\<And>e. clock_map_get n m = Some e \<Longrightarrow> tag_seq e \<le> tag_seq t"
      using v t(3) order_trans by blast+
    then show ?thesis using v(1) t(1,2,4) unfolding x step by (auto simp: True)
  qed
qed

lemma retry_from_ok:
  "(\<exists>j d. i \<le> j \<and> j < i + left \<and> fetch_delta (net j) = Inr d \<and> (\<forall>k. i \<le> k \<longrightarrow> k < j \<longrightarrow> (\<exists>e. fetch_delta (net k) = Inl e)) \<and>
     retry_from net (i + left) i left e0 = (Inr d, map backoff_ms [i ..< j])) \<or>
   (\<forall>k. i \<le> k \<longrightarrow> k < i + left \<longrightarrow> (\<exists>e. fetch_delta (net k) = Inl e)) \<and>
   (\<exists>e. retry_from net (i + left) i left e0 = (Inl (''Failed after '' @ nat_to_string (i + left) @ '' retries: '' @ e), map backoff_ms [i ..< i + left - 1]) \<and>
      (if left = 0 then e = e0 else fetch_delta (net (i + left - 1)) = Inl e))"
proof (induction left arbitrary: i e0)
  case 0
  then show ?case by simp
next
  case (Suc left)
  show ?case
  proof (cases "fetch_delta (net i)")
    case (Inr d)
    then show ?thesis by (intro disjI1 exI [of _ i]) simp
  next
    case (Inl e)
    have up: "i < i + Suc left - 1 \<longleftrightarrow> left \<noteq> 0" by auto
    have more: "(\<exists>j. [i ..< j] = i # [Suc i ..< j]) \<and> (i < j \<longrightarrow> [i ..< j] = i # [Suc i ..< j])" for j
      using upt_conv_Cons [of i] by (auto intro: exI [of _ "Suc i"])
    from Suc.IH [of "Suc i" e] show ?thesis
    proof (elim disjE exE conjE)
      fix j d
      assume j: "Suc i \<le> j" "j < Suc i + left" "fetch_delta (net j) = Inr d"
        "\<forall>k. Suc i \<le> k \<longrightarrow> k < j \<longrightarrow> (\<exists>e. fetch_delta (net k) = Inl e)"
        "retry_from net (Suc i + left) (Suc i) left e = (Inr d, map backoff_ms [Suc i ..< j])"
      have "retry_from net (i + Suc left) i (Suc left) e0 = (Inr d, map backoff_ms [i ..< j])"
        using j(1,2,5) Inl more [of j] by simp
      moreover have "\<exists>e. fetch_delta (net k) = Inl e" if "i \<le> k" "k < j" for k
        using that j(4) Inl by (cases "k = i") auto
      ultimately show ?thesis using j(1,2,3) by (intro disjI1 exI [of _ j] exI [of _ d]) auto
    next
      fix e'
      assume f: "\<forall>k. Suc i \<le> k \<longrightarrow> k < Suc i + left \<longrightarrow> (\<exists>e. fetch_delta (net k) = Inl e)"
        and r: "retry_from net (Suc i + left) (Suc i) left e =
          (Inl (''Failed after '' @ nat_to_string (Suc i + left) @ '' retries: '' @ e'), map backoff_ms [Suc i ..< Suc i + left - 1])"
        and last: "if left = 0 then e' = e else fetch_delta (net (Suc i + left - 1)) = Inl e'"
      have "retry_from net (i + Suc left) i (Suc left) e0 =
          (Inl (''Failed after '' @ nat_to_string (i + Suc left) @ '' retries: '' @ e'), map backoff_ms [i ..< i + Suc left - 1])"
        using r Inl more [of "i + left"] by (cases left) simp_all
      moreover have "\<exists>e. fetch_delta (net k) = Inl e" if "i \<le> k" "k < i + Suc left" for k
        using that f Inl by (cases "k = i") auto
      moreover have "fetch_delta (net (i + Suc left - 1)) = Inl e'" using last Inl by (auto split: if_splits)
      ultimately show ?thesis by (intro disjI2 conjI exI [of _ e']) auto
    qed
  qed
qed

section \<open>Properties\<close>

text \<open>C30: Log deltas are lossless. Packing encodable log records into a delta returns, keeps their number,
  and unpacking it on the other side gives exactly their sequence numbers and operations in order.\<close>

theorem wal_delta_lossless:
  assumes "codec_laws C" "\<forall>r\<in>set rs. enc_op C (wr_op r) \<noteq> None"
  shows "\<exists>d. from_wal_records C node rs target = Returns d \<and> length (wd_records d) = length rs \<and>
    wd_target_seq d = target \<and> decode_ops C d = map (\<lambda>r. (wr_seq r, wr_op r)) rs"
proof -
  obtain ds where ds: "delta_records C rs = Returns ds" using delta_records_total assms(2) by blast
  have "delta_records C rs = Returns ds \<Longrightarrow> length ds = length rs" for ds
    by (induction rs arbitrary: ds) (auto simp: run_bind_Returns split: option.splits)
  with ds delta_records_ok [OF assms(1) ds] show ?thesis by (simp add: from_wal_records_def decode_ops_def)
qed

lemma wal_delta_lossless_witness:
  "\<exists>d. from_wal_records demo_codec 0 [\<lparr>wr_seq = 4, wr_epoch = 1, wr_op = Delete ''a''\<rparr>] 4 = Returns d \<and>
     decode_ops demo_codec d = [(4, Delete ''a'')]"
proof -
  have "enc_op demo_codec (Delete ''a'') \<noteq> None" by (simp add: demo_codec_def)
  then show ?thesis
    using wal_delta_lossless [OF demo_codec_laws, of "[\<lparr>wr_seq = 4, wr_epoch = 1, wr_op = Delete ''a''\<rparr>]" 0 4] by auto
qed

text \<open>Clock maps converge. After any advances, a node has a tag exactly when one was received, the
  tag is one of those received and none of them has a greater sequence number; when tags carry the
  node they are filed under, the order and repetition in which they arrive do not matter.\<close>

theorem clock_map_converges:
  "(case clock_map_get n (clock_map_advance_all ts clock_map_new) of
      None \<Rightarrow> n \<notin> fst ` set ts
    | Some t \<Rightarrow> (n, t) \<in> set ts \<and> (\<forall>u. (n, u) \<in> set ts \<longrightarrow> tag_seq u \<le> tag_seq t)) \<and>
   ((\<forall>(k, t) \<in> set ts. tag_node t = k) \<longrightarrow> set ts' = set ts \<longrightarrow>
      clock_map_get n (clock_map_advance_all ts' clock_map_new) = clock_map_get n (clock_map_advance_all ts clock_map_new))"
proof (intro conjI impI)
  note A = advance_all_get [where m = clock_map_new]
  have new: "clock_map_get n clock_map_new = None" by (simp add: clock_map_get_def clock_map_new_def)
  show "case clock_map_get n (clock_map_advance_all ts clock_map_new) of
      None \<Rightarrow> n \<notin> fst ` set ts
    | Some t \<Rightarrow> (n, t) \<in> set ts \<and> (\<forall>u. (n, u) \<in> set ts \<longrightarrow> tag_seq u \<le> tag_seq t)"
    using A [of n ts] new by (simp split: option.splits)
  assume tags: "\<forall>(k, t) \<in> set ts. tag_node t = k" and same: "set ts' = set ts"
  have node: "tag_node t = k" if "(k, t) \<in> set ts" for k t using tags that by fastforce
  show "clock_map_get n (clock_map_advance_all ts' clock_map_new) = clock_map_get n (clock_map_advance_all ts clock_map_new)"
  proof (cases "clock_map_get n (clock_map_advance_all ts clock_map_new)")
    case None
    then show ?thesis using A [of n ts] A [of n ts'] new same by (auto split: option.splits) force
  next
    case (Some t)
    then have t: "(n, t) \<in> set ts" "\<forall>u. (n, u) \<in> set ts \<longrightarrow> tag_seq u \<le> tag_seq t" using A [of n ts] new by simp_all
    then have "n \<in> fst ` set ts'" using same by force
    then obtain u where u: "clock_map_get n (clock_map_advance_all ts' clock_map_new) = Some u"
      using A [of n ts'] new by (auto split: option.splits)
    then have "(n, u) \<in> set ts" "tag_seq t \<le> tag_seq u" using A [of n ts'] new t(1) same by auto
    then have "tag_seq u = tag_seq t" using t(2) by (auto intro: antisym)
    moreover have "tag_node u = n" "tag_node t = n" using node t(1) \<open>(n, u) \<in> set ts\<close> by blast+
    ultimately have "tag_seq u = tag_seq t" "tag_node u = tag_node t" by simp_all
    then show ?thesis using u Some by (simp add: clock_tag.expand)
  qed
qed

lemma clock_map_converges_witness:
  "clock_map_get 1 (clock_map_advance_all [(1, ClockTag 1 9), (1, ClockTag 1 5)] clock_map_new) =
   clock_map_get 1 (clock_map_advance_all [(1, ClockTag 1 5), (1, ClockTag 1 9)] clock_map_new)"
  using clock_map_converges [of 1 "[(1, ClockTag 1 5), (1, ClockTag 1 9)]" "[(1, ClockTag 1 9), (1, ClockTag 1 5)]"]
  by auto

text \<open>The order on tags compares the node first, so the high-water tag is that of the highest node id.\<close>

lemma high_water_prefers_node:
  "global_high_water (clock_map_advance 2 (ClockTag 2 1) (clock_map_advance 1 (ClockTag 1 100) clock_map_new)) =
     Some (ClockTag 2 1)"
  by (simp add: clock_map_advance_def clock_map_new_def global_high_water_def less_clock_tag_def)

text \<open>C31: Fetching with retries ends. It makes at most the given number of attempts: it returns the first
  delta that arrives, having slept after exactly the failed attempts before it, or, when all attempts
  fail, the error of the last attempt (no error text without attempts) after sleeping between them, and
  never sleeps after the last attempt.\<close>

theorem fetch_retry_ends:
  "(\<exists>j < max_retries. \<exists>d. fetch_delta (net j) = Inr d \<and> (\<forall>k < j. \<exists>e. fetch_delta (net k) = Inl e) \<and>
      fetch_delta_with_retry net max_retries = (Inr d, map backoff_ms [0 ..< j])) \<or>
   (\<forall>k < max_retries. \<exists>e. fetch_delta (net k) = Inl e) \<and>
   (\<exists>e. fetch_delta_with_retry net max_retries =
        (Inl (''Failed after '' @ nat_to_string max_retries @ '' retries: '' @ e), map backoff_ms [0 ..< max_retries - 1]) \<and>
      (if max_retries = 0 then e = [] else fetch_delta (net (max_retries - 1)) = Inl e))"
  using retry_from_ok [of 0 max_retries net "[]"] unfolding fetch_delta_with_retry_def add_0 le0 simp_thms
  by (elim disjE) ((rule disjI1, blast), (rule disjI2, blast))

lemma fetch_retry_ends_witness:
  "fetch_delta_with_retry (\<lambda>i. if i = 0 then SendFailed ''down'' else HttpOk (Inr \<lparr>wd_leader_node = 0, wd_records = [], wd_target_seq = 0\<rparr>)) 3 =
     (Inr \<lparr>wd_leader_node = 0, wd_records = [], wd_target_seq = 0\<rparr>, [100]) \<and>
   (\<exists>e e'. fetch_delta (SendFailed ''down'') = Inl e \<and> fetch_delta (SendFailed ''gone'') = Inl e' \<and> e \<noteq> e' \<and>
     fetch_delta_with_retry (\<lambda>i. if i = 0 then SendFailed ''down'' else SendFailed ''gone'') 2 =
       (Inl (''Failed after '' @ nat_to_string 2 @ '' retries: '' @ e'), [100]))"
proof (intro conjI)
  let ?d = "\<lparr>wd_leader_node = 0, wd_records = [], wd_target_seq = 0\<rparr>"
  let ?net = "\<lambda>i :: nat. if i = 0 then SendFailed ''down'' else HttpOk (Inr ?d)"
  have "\<not> (\<forall>k < 3. \<exists>e. fetch_delta (?net k) = Inl e)" 
  proof
    assume "\<forall>k < 3. \<exists>e. fetch_delta (?net k) = Inl e"
    then have "\<exists>e. fetch_delta (?net 1) = Inl e" by (rule allE [of _ 1]) simp
    then show False by simp
  qed
  then have "\<exists>j < 3. \<exists>d. fetch_delta (?net j) = Inr d \<and> (\<forall>k < j. \<exists>e. fetch_delta (?net k) = Inl e) \<and>
      fetch_delta_with_retry ?net 3 = (Inr d, map backoff_ms [0 ..< j])"
    using fetch_retry_ends [of 3 ?net] by blast
  then obtain j d where j: "j < 3" "fetch_delta (?net j) = Inr d"
    "\<forall>k < j. \<exists>e. fetch_delta (?net k) = Inl e" "fetch_delta_with_retry ?net 3 = (Inr d, map backoff_ms [0 ..< j])"
    by blast
  have "j \<noteq> 0" using j(2) by (cases "j = 0") simp_all
  moreover have "j \<le> 1" by (rule_tac ccontr) (use j(3) in \<open>auto dest!: spec [of _ "1 :: nat"]\<close>)
  ultimately have "j = 1" by simp
  then show "fetch_delta_with_retry ?net 3 = (Inr ?d, [100])" using j(2,4) by (simp add: backoff_ms_def)
next
  let ?net = "\<lambda>i :: nat. if i = 0 then SendFailed ''down'' else SendFailed ''gone''"
  show "\<exists>e e'. fetch_delta (SendFailed ''down'') = Inl e \<and> fetch_delta (SendFailed ''gone'') = Inl e' \<and> e \<noteq> e' \<and>
     fetch_delta_with_retry ?net 2 = (Inl (''Failed after '' @ nat_to_string 2 @ '' retries: '' @ e'), [100])"
    using fetch_retry_ends [of 2 ?net] by (auto simp: backoff_ms_def split: if_splits)
qed

end
