(* ===== verification/Engine.thy ===== *)
theory Engine
  imports Checkpoint_Recovery Cluster_Types
begin

text \<open>
  The engine, \<^verbatim>\<open>crates/rekha-engine/src/lib.rs\<close>: the map of loaded collections over the catalog, the
  object store and the directory of log files and checkpoints. Each public operation locks one
  collection; an operation on it is an action of \<open>coll_world\<close> lifted to the engine, and a panic under
  the lock poisons it. The engine's operations are atomic here, as the locks make them for each
  collection. Errors of the file system other than missing files are not modelled.
\<close>

section \<open>State\<close>

record engine_config =
  ec_wal_fsync :: bool
  ec_epoch :: epoch

definition engine_config_default :: engine_config where
  "engine_config_default = \<lparr>ec_wal_fsync = False, ec_epoch = Epoch 0\<rparr>"

text \<open>A collection behind its mutex.\<close>

record ('b, 'g) slot =
  sl_coll :: "('b, 'g) collection"
  sl_poisoned :: bool

text \<open>\<open>en_wals\<close> and \<open>en_dirs\<close> are the log files and checkpoint directories below \<^verbatim>\<open>wal_dir\<close>.\<close>

record ('b, 'g) engine =
  en_catalog :: redb_catalog
  en_storage :: store_fs
  en_pid :: nat
  en_nonce :: nat
  en_config :: engine_config
  en_wals :: "(uuid \<times> bytes) list"
  en_dirs :: "(uuid \<times> ckpt_dir) list"
  en_colls :: "(uuid \<times> ('b, 'g) slot) list"

definition wal_bytes_of :: "uuid \<Rightarrow> (uuid \<times> bytes) list \<Rightarrow> bytes" where
  "wal_bytes_of u wals = (case map_of wals u of Some b \<Rightarrow> b | None \<Rightarrow> [])"

definition ckpt_dir_of :: "uuid \<Rightarrow> (uuid \<times> ckpt_dir) list \<Rightarrow> ckpt_dir" where
  "ckpt_dir_of u dirs = (case map_of dirs u of Some d \<Rightarrow> d | None \<Rightarrow> [])"

definition store_world :: "uuid \<Rightarrow> ('b, 'g) coll_world \<Rightarrow> bool \<Rightarrow> ('b, 'g) engine \<Rightarrow> ('b, 'g) engine" where
  "store_world u w poisoned e =
     e\<lparr>en_catalog := cw_cat w,
       en_wals := AList.update u (wal_file (co_wal (cw_coll w))) (en_wals e),
       en_dirs := AList.update u (cw_dir w) (en_dirs e),
       en_colls := AList.update u \<lparr>sl_coll = cw_coll w, sl_poisoned = poisoned\<rparr> (en_colls e)\<rparr>"

text \<open>\<^verbatim>\<open>self.collection(id)?\<close> and \<^verbatim>\<open>coll.lock().unwrap()\<close> around the body of an operation.\<close>

definition on_collection :: "uuid \<Rightarrow> (('b, 'g) coll_world, 'a) action \<Rightarrow> (('b, 'g) engine, 'a) action" where
  "on_collection u f e =
     (case map_of (en_colls e) u of
        None \<Rightarrow> act_fail (CollectionNotFound u) e
      | Some s \<Rightarrow>
          if sl_poisoned s then (e, Panics)
          else (case f \<lparr>cw_coll = sl_coll s, cw_dir = ckpt_dir_of u (en_dirs e), cw_cat = en_catalog e\<rparr> of
                  (w, r) \<Rightarrow> (store_world u w (r = Panics) e, r)))"

definition act_lift :: "engine_error + 'a \<Rightarrow> ('w, 'a) action" where
  "act_lift r w = (w, Returns r)"

text \<open>An operation that only reads the collection, and one that cannot panic.\<close>

definition reads :: "(('b, 'g) collection \<Rightarrow> engine_error + 'a) \<Rightarrow> (('b, 'g) coll_world, 'a) action" where
  "reads f w = (w, Returns (f (cw_coll w)))"

definition on_coll_sum ::
  "(('b, 'g) collection \<Rightarrow> ('b, 'g) collection \<times> (engine_error + 'a)) \<Rightarrow> (('b, 'g) coll_world, 'a) action" where
  "on_coll_sum f = on_coll (\<lambda>c. case f c of (c', r) \<Rightarrow> (c', Returns r))"

section \<open>Collections\<close>

fun open_all ::
  "('b, 'g) engine_env \<Rightarrow> engine_config \<Rightarrow> (uuid \<times> bytes) list \<Rightarrow> (uuid \<times> ckpt_dir) list \<Rightarrow> collection_record list \<Rightarrow>
     (uuid \<times> ('b, 'g) slot) list \<Rightarrow> (engine_error + (uuid \<times> ('b, 'g) slot) list) run" where
  "open_all E cfg wals dirs [] acc = Returns (Inr acc)"
| "open_all E cfg wals dirs (r # rs) acc =
     (let u = cc_id (cr_config r) in
      case collection_open E (cr_config r) (wal_bytes_of u wals) (ckpt_dir_of u dirs) (ec_epoch cfg) (ec_wal_fsync cfg) of
        Panics \<Rightarrow> Panics
      | Returns (Inl e) \<Rightarrow> Returns (Inl e)
      | Returns (Inr c) \<Rightarrow> open_all E cfg wals dirs rs (AList.update u \<lparr>sl_coll = c, sl_poisoned = False\<rparr> acc))"

text \<open>The log files as the opened collections leave them: created, or cut to their valid prefix.\<close>

definition sync_wals :: "(uuid \<times> ('b, 'g) slot) list \<Rightarrow> (uuid \<times> bytes) list \<Rightarrow> (uuid \<times> bytes) list" where
  "sync_wals colls wals = fold (\<lambda>(u, s). AList.update u (wal_file (co_wal (sl_coll s)))) colls wals"

definition engine_open ::
  "('b, 'g) engine_env \<Rightarrow> redb_catalog \<Rightarrow> store_fs \<Rightarrow> nat \<Rightarrow> engine_config \<Rightarrow> (uuid \<times> bytes) list \<Rightarrow>
     (uuid \<times> ckpt_dir) list \<Rightarrow> (engine_error + ('b, 'g) engine) run" where
  "engine_open E cat store pid cfg wals dirs =
     (case catalog_list_all (env_catalog E) cat of
        Inl e \<Rightarrow> Returns (Inl (ECatalog e))
      | Inr rs \<Rightarrow>
          (case open_all E cfg wals dirs rs [] of
             Panics \<Rightarrow> Panics
           | Returns (Inl e) \<Rightarrow> Returns (Inl e)
           | Returns (Inr colls) \<Rightarrow>
               Returns (Inr \<lparr>en_catalog = cat, en_storage = store, en_pid = pid, en_nonce = 0, en_config = cfg,
                             en_wals = sync_wals colls wals, en_dirs = dirs, en_colls = colls\<rparr>)))"

definition create_collection ::
  "('b, 'g) engine_env \<Rightarrow> collection_config \<Rightarrow> (('b, 'g) engine, collection_record) action" where
  "create_collection E config e =
     (case catalog_create (env_catalog E) config (en_catalog e) of
        Inl err \<Rightarrow> act_fail (ECatalog err) e
      | Inr (cat, r) \<Rightarrow>
          (let e1 = e\<lparr>en_catalog := cat\<rparr>; u = cc_id config in
           case collection_open E config (wal_bytes_of u (en_wals e)) (ckpt_dir_of u (en_dirs e))
                  (ec_epoch (en_config e)) (ec_wal_fsync (en_config e)) of
             Panics \<Rightarrow> (e1, Panics)
           | Returns (Inl err) \<Rightarrow> (e1, Returns (Inl err))
           | Returns (Inr c) \<Rightarrow>
               act_return r (e1\<lparr>en_wals := AList.update u (wal_file (co_wal c)) (en_wals e1),
                               en_colls := AList.update u \<lparr>sl_coll = c, sl_poisoned = False\<rparr> (en_colls e1)\<rparr>)))"

definition from_catalog :: "catalog_error + 'a \<Rightarrow> engine_error + 'a" where
  "from_catalog r = (case r of Inl e \<Rightarrow> Inl (ECatalog e) | Inr x \<Rightarrow> Inr x)"

definition get_collection ::
  "('b, 'g) engine_env \<Rightarrow> string \<Rightarrow> string \<Rightarrow> string \<Rightarrow> ('b, 'g) engine \<Rightarrow> engine_error + collection_record option" where
  "get_collection E tenant database name e = from_catalog (catalog_get (env_catalog E) tenant database name (en_catalog e))"

definition get_collection_by_id ::
  "('b, 'g) engine_env \<Rightarrow> uuid \<Rightarrow> ('b, 'g) engine \<Rightarrow> engine_error + collection_record option" where
  "get_collection_by_id E u e = from_catalog (catalog_get_by_id (env_catalog E) u (en_catalog e))"

definition list_collections ::
  "('b, 'g) engine_env \<Rightarrow> string \<Rightarrow> string \<Rightarrow> ('b, 'g) engine \<Rightarrow> engine_error + collection_record list" where
  "list_collections E tenant database e = from_catalog (catalog_list (env_catalog E) tenant database (en_catalog e))"

definition delete_collection :: "('b, 'g) engine_env \<Rightarrow> uuid \<Rightarrow> (('b, 'g) engine, unit) action" where
  "delete_collection E u e =
     (case catalog_delete (env_catalog E) u (en_catalog e) of
        Inl err \<Rightarrow> act_fail (ECatalog err) e
      | Inr cat \<Rightarrow>
          act_return () (e\<lparr>en_catalog := cat, en_colls := AList.delete u (en_colls e),
                          en_wals := AList.delete u (en_wals e), en_dirs := AList.delete u (en_dirs e)\<rparr>))"

definition engine_count :: "uuid \<Rightarrow> (('b, 'g) engine, nat) action" where
  "engine_count u = on_collection u (reads (\<lambda>c. Inr (length (co_records c))))"

section \<open>Writes\<close>

text \<open>Indexing a slice panics out of range; the batches have been validated before.\<close>

definition nth_run :: "'a list \<Rightarrow> nat \<Rightarrow> 'a run" where
  "nth_run xs i = (if i < length xs then Returns (xs ! i) else Panics)"

definition item_at :: "'a option list option \<Rightarrow> nat \<Rightarrow> 'a option run" where
  "item_at opt i = (case opt of None \<Rightarrow> Returns None | Some xs \<Rightarrow> nth_run xs i)"

definition add_ops ::
  "id list \<Rightarrow> embedding list \<Rightarrow> metadata option list option \<Rightarrow> document option list option \<Rightarrow> operation list run" where
  "add_ops ids embeddings metadatas documents =
     run_map (\<lambda>(n, i).
       run_bind (nth_run embeddings n) (\<lambda>e.
       run_bind (item_at metadatas n) (\<lambda>m.
       run_bind (item_at documents n) (\<lambda>d. Returns (Add i e m d))))) (List.enumerate 0 ids)"

definition upsert_ops ::
  "id list \<Rightarrow> embedding list \<Rightarrow> metadata option list option \<Rightarrow> document option list option \<Rightarrow> operation list run" where
  "upsert_ops ids embeddings metadatas documents =
     run_map (\<lambda>(n, i).
       run_bind (nth_run embeddings n) (\<lambda>e.
       run_bind (item_at metadatas n) (\<lambda>m.
       run_bind (item_at documents n) (\<lambda>d. Returns (Upsert i e m d))))) (List.enumerate 0 ids)"

definition update_ops ::
  "id list \<Rightarrow> metadata option list option \<Rightarrow> document option list option \<Rightarrow> operation list run" where
  "update_ops ids metadatas documents =
     run_map (\<lambda>(n, i).
       run_bind (item_at metadatas n) (\<lambda>m.
       run_bind (item_at documents n) (\<lambda>d. Returns (Update i m d)))) (List.enumerate 0 ids)"

text \<open>The dimension of a collection that has none yet is taken from the first embedding, before validation.\<close>

definition infer_dimension :: "embedding list \<Rightarrow> ('b, 'g) coll_world \<Rightarrow> ('b, 'g) coll_world \<times> nat option" where
  "infer_dimension embeddings w =
     (let c = cw_coll w in
      if cc_dimension (co_config c) = 0 \<and> embeddings \<noteq> []
      then (w\<lparr>cw_coll := c\<lparr>co_config := (co_config c)\<lparr>cc_dimension := length (hd embeddings)\<rparr>\<rparr>\<rparr>,
            Some (length (hd embeddings)))
      else (w, None))"

text \<open>Persisting the inferred dimension may fail without consequence.\<close>

definition persist_dimension :: "('b, 'g) engine_env \<Rightarrow> uuid \<Rightarrow> nat option \<Rightarrow> ('b, 'g) coll_world \<Rightarrow> ('b, 'g) coll_world" where
  "persist_dimension E u inferred w =
     (case inferred of
        None \<Rightarrow> w
      | Some dim \<Rightarrow>
          (case update_collection_dimension (env_catalog E) u dim (cw_cat w) of
             Inl _ \<Rightarrow> w
           | Inr cat \<Rightarrow> w\<lparr>cw_cat := cat\<rparr>))"

text \<open>Building the operations, the only step of a write that could index out of range.\<close>

definition act_run :: "'a run \<Rightarrow> ('w, 'a) action" where
  "act_run r w = (w, run_bind r (\<lambda>x. Returns (Inr x)))"

definition put_batch ::
  "('b, 'g) engine_env \<Rightarrow> uuid \<Rightarrow> embedding list \<Rightarrow> (('b, 'g) collection \<Rightarrow> engine_error + unit) \<Rightarrow> operation list run \<Rightarrow>
     (('b, 'g) coll_world, unit) action" where
  "put_batch E u embeddings validate ops w =
     (case infer_dimension embeddings w of
        (w1, inferred) \<Rightarrow>
          act_bind (reads validate) (\<lambda>_ w2.
          act_bind (act_run ops) (\<lambda>ops.
          act_bind (on_coll_sum (write_ops E ops)) (\<lambda>_.
          act_bind (on_coll_sum (flush_if_needed E)) (\<lambda>_. auto_checkpoint E)))
            (persist_dimension E u inferred w2)) w1)"

definition engine_add ::
  "('b, 'g) engine_env \<Rightarrow> uuid \<Rightarrow> id list \<Rightarrow> embedding list \<Rightarrow> metadata option list option \<Rightarrow>
     document option list option \<Rightarrow> (('b, 'g) engine, unit) action" where
  "engine_add E u ids embeddings metadatas documents =
     on_collection u (put_batch E u embeddings (validate_add ids embeddings metadatas documents)
       (add_ops ids embeddings metadatas documents))"

definition engine_upsert ::
  "('b, 'g) engine_env \<Rightarrow> uuid \<Rightarrow> id list \<Rightarrow> embedding list \<Rightarrow> metadata option list option \<Rightarrow>
     document option list option \<Rightarrow> (('b, 'g) engine, unit) action" where
  "engine_upsert E u ids embeddings metadatas documents =
     on_collection u (put_batch E u embeddings (validate_upsert ids embeddings metadatas documents)
       (upsert_ops ids embeddings metadatas documents))"

definition engine_update ::
  "('b, 'g) engine_env \<Rightarrow> uuid \<Rightarrow> id list \<Rightarrow> metadata option list option \<Rightarrow> document option list option \<Rightarrow>
     (('b, 'g) engine, unit) action" where
  "engine_update E u ids metadatas documents =
     on_collection u
       (act_bind (reads (validate_update ids metadatas documents)) (\<lambda>_.
        act_bind (act_run (update_ops ids metadatas documents)) (\<lambda>ops.
        act_bind (on_coll_sum (write_ops E ops)) (\<lambda>_. auto_checkpoint E))))"

definition engine_delete :: "('b, 'g) engine_env \<Rightarrow> uuid \<Rightarrow> id list \<Rightarrow> (('b, 'g) engine, unit) action" where
  "engine_delete E u ids =
     on_collection u (act_bind (on_coll_sum (write_ops E (map Delete ids))) (\<lambda>_. auto_checkpoint E))"

section \<open>Maintenance\<close>

text \<open>The \<^verbatim>\<open>.bin\<close> files of the checkpoint's segment directory, with their names.\<close>

definition segment_objects :: "ckpt_dir \<Rightarrow> (string \<times> bytes) list" where
  "segment_objects dir =
     List.map_filter (\<lambda>(f, b). case f of SegBin n \<Rightarrow> Some (''seg-'' @ nat_to_string n @ ''.bin'', b) | _ \<Rightarrow> None) dir"

fun put_objects ::
  "('b, 'g) engine_env \<Rightarrow> uuid \<Rightarrow> (string \<times> bytes) list \<Rightarrow> (('b, 'g) engine, unit) action" where
  "put_objects E u [] e = act_return () e"
| "put_objects E u ((name, b) # objs) e =
     (let key = ''col/'' @ uuid_to_string (env_catalog E) u @ ''/segments/'' @ name in
      case storage_put (en_pid e) (en_nonce e) key b (en_storage e) of
        (fs, r) \<Rightarrow>
          (let e1 = e\<lparr>en_storage := fs, en_nonce := en_nonce e + 1\<rparr> in
           case r of
             Inl err \<Rightarrow> act_fail (EStorage err) e1
           | Inr _ \<Rightarrow> put_objects E u objs e1))"

definition engine_checkpoint :: "('b, 'g) engine_env \<Rightarrow> uuid \<Rightarrow> (('b, 'g) engine, unit) action" where
  "engine_checkpoint E u =
     act_bind (on_collection u (act_bind (checkpoint E) (\<lambda>_ w. act_return (segment_objects (cw_dir w)) w)))
       (put_objects E u)"

definition engine_optimize :: "('b, 'g) engine_env \<Rightarrow> uuid \<Rightarrow> (('b, 'g) engine, optimize_stats) action" where
  "engine_optimize E u =
     act_bind (on_collection u (act_bind (optimize E) (\<lambda>stats w. act_return (stats, segment_objects (cw_dir w)) w)))
       (\<lambda>(stats, objs). act_bind (put_objects E u objs) (\<lambda>_. act_return stats))"

section \<open>Reads\<close>

definition engine_seq_of :: "uuid \<Rightarrow> id \<Rightarrow> (('b, 'g) engine, u64) action" where
  "engine_seq_of u i =
     on_collection u (reads (\<lambda>c. case map_of (co_records c) i of
       Some r \<Rightarrow> Inr (lr_seq r) | None \<Rightarrow> Inl (Validation (IdNotFound i))))"

definition get_record :: "('b, 'g) collection \<Rightarrow> id \<Rightarrow> live_record option run" where
  "get_record c i =
     (case map_of (co_records c) i of
        None \<Rightarrow> Returns None
      | Some r \<Rightarrow>
          run_bind (load_vector c i) (\<lambda>v.
            Returns (Some \<lparr>lr_id = lr_id r, lr_embedding = (case v of Some e \<Rightarrow> Some e | None \<Rightarrow> lr_embedding r),
              lr_metadata = lr_metadata r, lr_document = lr_document r, lr_seq = lr_seq r\<rparr>)))"

definition engine_get :: "uuid \<Rightarrow> id list \<Rightarrow> (('b, 'g) engine, live_record option list) action" where
  "engine_get u ids = on_collection u (\<lambda>w. (w, run_bind (run_map (get_record (cw_coll w)) ids) (\<lambda>rs. Returns (Inr rs))))"

definition engine_query ::
  "('b, 'g) engine_env \<Rightarrow> uuid \<Rightarrow> embedding \<Rightarrow> nat \<Rightarrow> query_options \<Rightarrow> (('b, 'g) engine, scored_point list) action" where
  "engine_query E u embedding k options = on_collection u (on_coll (collection_query E embedding k options))"

definition engine_indexed_count :: "('b, 'g) engine_env \<Rightarrow> uuid \<Rightarrow> (('b, 'g) engine, nat) action" where
  "engine_indexed_count E u =
     on_collection u (reads (\<lambda>c. Inr (index_len (env_ann E) (co_index c) + length (co_buffer c))))"

definition engine_committed_count :: "('b, 'g) engine_env \<Rightarrow> uuid \<Rightarrow> (('b, 'g) engine, nat) action" where
  "engine_committed_count E u = on_collection u (reads (\<lambda>c. Inr (index_len (env_ann E) (co_index c))))"

definition engine_flushed_seq :: "uuid \<Rightarrow> (('b, 'g) engine, u64) action" where
  "engine_flushed_seq u = on_collection u (reads (\<lambda>c. Inr (co_flushed_seq c)))"

section \<open>Replication\<close>

definition engine_wal_delta :: "('b, 'g) engine_env \<Rightarrow> uuid \<Rightarrow> u64 \<Rightarrow> (('b, 'g) engine, wal_delta) action" where
  "engine_wal_delta E u from_seq =
     on_collection u (\<lambda>w.
       (let wal = co_wal (cw_coll w); last = wal_last_seq wal in
        if from_seq > last then act_return \<lparr>wd_leader_node = 0, wd_records = [], wd_target_seq = last\<rparr> w
        else (case wal_read_range (env_codec E) from_seq last wal of
                Inl e \<Rightarrow> act_fail (EWal e) w
              | Inr rs \<Rightarrow> act_run (from_wal_records (env_codec E) 0 rs last) w)))"

definition engine_wal_last_seq :: "uuid \<Rightarrow> (('b, 'g) engine, u64) action" where
  "engine_wal_last_seq u = on_collection u (reads (\<lambda>c. Inr (wal_last_seq (co_wal c))))"

definition apply_remote_ops ::
  "('b, 'g) engine_env \<Rightarrow> uuid \<Rightarrow> (u64 \<times> operation) list \<Rightarrow> (('b, 'g) engine, unit) action" where
  "apply_remote_ops E u ops =
     on_collection u (on_coll_sum (\<lambda>c. (fold (\<lambda>(seq, op). apply_operation E op seq) ops c, Inr ())))"

text \<open>Snapshots of the records; the codec of the snapshot is a parameter.\<close>

fun snapshot_data :: "(uuid \<times> ('b, 'g) slot) list \<Rightarrow> engine_error + (uuid \<times> live_record list) list" where
  "snapshot_data [] = Inr []"
| "snapshot_data ((u, s) # colls) =
     (if sl_poisoned s then Inl ESerialization
      else and_then (snapshot_data colls) (\<lambda>rest. Inr ((u, map snd (co_records (sl_coll s))) # rest)))"

definition engine_snapshot ::
  "((uuid \<times> live_record list) list \<Rightarrow> bytes option) \<Rightarrow> ('b, 'g) engine \<Rightarrow> engine_error + bytes" where
  "engine_snapshot enc e =
     and_then (snapshot_data (en_colls e)) (\<lambda>d. case enc d of None \<Rightarrow> Inl ESerialization | Some b \<Rightarrow> Inr b)"

definition restore_records_of :: "live_record list \<Rightarrow> ('b, 'g) collection \<Rightarrow> ('b, 'g) collection" where
  "restore_records_of rs c = c\<lparr>co_records := fold (\<lambda>r. AList.update (lr_id r) r) rs (co_records c)\<rparr>"

text \<open>The collection is looked up in the catalog by its id as a name, in the default scope.\<close>

definition restore_collection ::
  "('b, 'g) engine_env \<Rightarrow> uuid \<times> live_record list \<Rightarrow> ('b, 'g) engine \<Rightarrow> ('b, 'g) engine" where
  "restore_collection E x e =
     (case x of (u, rs) \<Rightarrow>
        if get_collection E ''default_tenant'' ''default_database'' (uuid_to_string (env_catalog E) u) e = Inr None then e
        else (case map_of (en_colls e) u of
            None \<Rightarrow> e
          | Some s \<Rightarrow> if sl_poisoned s then e
              else e\<lparr>en_colls := AList.update u (s\<lparr>sl_coll := restore_records_of rs (sl_coll s)\<rparr>) (en_colls e)\<rparr>))"

definition restore_snapshot ::
  "('b, 'g) engine_env \<Rightarrow> (bytes \<Rightarrow> (uuid \<times> live_record list) list option) \<Rightarrow> bytes \<Rightarrow> (('b, 'g) engine, unit) action" where
  "restore_snapshot E dec b e =
     (case dec b of
        None \<Rightarrow> act_fail ESerialization e
      | Some d \<Rightarrow> act_return () (fold (restore_collection E) d e))"

end
