(* ===== verification/Engine_Semantics.thy ===== *)
theory Engine_Semantics
  imports Engine
begin

text \<open>
  What the engine's operations do: a rejected batch changes nothing, an accepted one is readable
  afterwards and survives opening the engine again from the catalog and the log files.
\<close>

section \<open>Lifting\<close>

lemma on_collection_run:
  assumes "map_of (en_colls e) u = Some s" "\<not> sl_poisoned s"
    and "f \<lparr>cw_coll = sl_coll s, cw_dir = ckpt_dir_of u (en_dirs e), cw_cat = en_catalog e\<rparr> = (w, r)"
  shows "on_collection u f e = (store_world u w (r = Panics) e, r)"
  using assms by (simp add: on_collection_def)

text \<open>What can be observed of an engine.\<close>

definition engine_view ::
  "('b, 'g) engine \<Rightarrow> redb_catalog \<times> store_fs \<times> engine_config \<times> (uuid \<Rightarrow> bytes) \<times> (uuid \<Rightarrow> ckpt_dir) \<times> (uuid \<rightharpoonup> ('b, 'g) slot)" where
  "engine_view e = (en_catalog e, en_storage e, en_config e, \<lambda>u. wal_bytes_of u (en_wals e),
     \<lambda>u. ckpt_dir_of u (en_dirs e), map_of (en_colls e))"

text \<open>The log files are those of the loaded collections.\<close>

definition engine_synced :: "('b, 'g) engine \<Rightarrow> bool" where
  "engine_synced e \<longleftrightarrow> (\<forall>u s. map_of (en_colls e) u = Some s \<longrightarrow> wal_bytes_of u (en_wals e) = wal_file (co_wal (sl_coll s)))"

lemma store_world_colls:
  "map_of (en_colls (store_world u w p e)) = (map_of (en_colls e))(u \<mapsto> \<lparr>sl_coll = cw_coll w, sl_poisoned = p\<rparr>)"
  by (simp add: store_world_def update_conv')

lemma store_world_view:
  assumes "engine_synced e" "map_of (en_colls e) u = Some s" "\<not> sl_poisoned s"
  shows "engine_view (store_world u \<lparr>cw_coll = sl_coll s, cw_dir = ckpt_dir_of u (en_dirs e), cw_cat = en_catalog e\<rparr> False e) =
    engine_view e"
proof -
  have "\<lparr>sl_coll = sl_coll s, sl_poisoned = False\<rparr> = s" using assms(3) by (cases s) simp
  moreover have "wal_bytes_of u (en_wals e) = wal_file (co_wal (sl_coll s))" using assms(1,2) unfolding engine_synced_def by blast
  ultimately show ?thesis using assms(2)
    by (auto simp: engine_view_def store_world_def fun_eq_iff update_conv' wal_bytes_of_def ckpt_dir_of_def)
qed

lemma store_world_synced:
  "engine_synced e \<Longrightarrow> engine_synced (store_world u w p e)"
  by (auto simp: engine_synced_def store_world_def update_conv' wal_bytes_of_def split: if_splits)

lemma act_bind_stop: "m w = (w', Returns (Inl e)) \<Longrightarrow> act_bind m k w = (w', Returns (Inl e))"
  by (simp add: act_bind_def)

lemma act_bind_go: "m w = (w', Returns (Inr x)) \<Longrightarrow> act_bind m k w = k x w'"
  by (simp add: act_bind_def)

lemma infer_none:
  "cc_dimension (co_config (cw_coll w)) \<noteq> 0 \<or> embeddings = [] \<Longrightarrow> infer_dimension embeddings w = (w, None)"
  by (auto simp: infer_dimension_def Let_def)

lemma put_batch_rejected:
  assumes "infer_dimension embeddings w = (w1, d)" "validate (cw_coll w1) = Inl err"
  shows "put_batch E u embeddings validate ops w = (w1, Returns (Inl err))"
  using assms by (simp add: put_batch_def reads_def act_bind_def)

section \<open>Accepted batches\<close>

lemma append_ops_ops: "append_ops C ops w = (w', Inr rs) \<Longrightarrow> map wr_op rs = ops"
proof (induction ops arbitrary: w rs)
  case (Cons op ops)
  obtain w1 r where 1: "wal_append C op w = Inr (w1, r)" "append_ops C ops w1 = (w', Inr (tl rs))" "rs = r # tl rs"
    using Cons.prems by (auto split: sum.splits prod.splits)
  have "wr_op r = op" using 1(1) by (auto simp: wal_append_def Let_def split: option.splits if_splits)
  then show ?case using Cons.IH [OF 1(2)] 1(3) by (metis list.simps(9))
qed simp

text \<open>Log, offsets, labels and the checkpoint threshold have room for a batch.\<close>

definition room_for :: "nat \<Rightarrow> ('b, 'g) collection \<Rightarrow> bool" where
  "room_for n c \<longleftrightarrow>
     unat (wal_last_seq (co_wal c)) + n < 2 ^ 64 \<and> unat (co_next_offset c) + n < 2 ^ 32 \<and>
     unat (ui_next_label (co_index c)) + length (co_buffer c) + n < 2 ^ 64 \<and>
     unat (wal_last_seq (co_wal c)) + n - unat (co_last_checkpoint_seq c) < hc_sync_threshold (cc_hnsw (co_config c))"

definition batch_ok :: "('b, 'g) engine_env \<Rightarrow> operation list \<Rightarrow> ('b, 'g) collection \<Rightarrow> bool" where
  "batch_ok E ops c \<longleftrightarrow>
     list_all (writable (env_codec E)) ops \<and> list_all op_wf ops \<and> list_all (op_dim (ui_dimension (co_index c))) ops"

text \<open>What an accepted batch leaves: the log extended by it and its effect on the records.\<close>

definition batch_result ::
  "('b, 'g) engine_env \<Rightarrow> wal_record list \<Rightarrow> operation list \<Rightarrow> ('b, 'g) collection \<Rightarrow> wal_record list \<Rightarrow> ('b, 'g) collection \<Rightarrow> bool" where
  "batch_result E rs ops c new c' \<longleftrightarrow>
     map wr_op new = ops \<and> list_all (\<lambda>r. 0 < wr_seq r) new \<and> coll_inv E c' \<and> log_repr (env_codec E) (co_wal c') (rs @ new) \<and>
     map_of (co_records c') = spec_replay new (map_of (co_records c)) \<and> co_segments c' = co_segments c \<and>
     co_segment_index c' = co_segment_index c \<and> co_config c' = co_config c \<and>
     unat (wal_last_seq (co_wal c')) = unat (wal_last_seq (co_wal c)) + length ops \<and>
     co_last_checkpoint_seq c' = co_last_checkpoint_seq c \<and> dims_ok c' \<and> ui_dimension (co_index c') = ui_dimension (co_index c)"

lemma flush_loop_dimension: "flush_loop A batch m x = (x', r) \<Longrightarrow> ui_dimension x' = ui_dimension x"
proof (induction A batch m x rule: flush_loop.induct)
  case (2 A r batch m x)
  have "index_add A i e y = (y', res) \<Longrightarrow> ui_dimension y' = ui_dimension y" for i e y y' res
    by (auto simp: index_add_def Let_def split: if_splits sum.splits)
  then show ?case using 2 by (fastforce simp: Let_def split: option.splits prod.splits sum.splits if_splits)
qed simp

lemma flush_if_needed_fields:
  "co_last_checkpoint_seq (fst (flush_if_needed E c)) = co_last_checkpoint_seq c" "co_config (fst (flush_if_needed E c)) = co_config c"
  "ui_dimension (co_index (fst (flush_if_needed E c))) = ui_dimension (co_index c)"
  "dims_ok c \<Longrightarrow> dims_ok (fst (flush_if_needed E c))"
  by (auto simp: flush_if_needed_def flush_buffer_def Let_def dims_ok_def dest: flush_loop_dimension split: prod.split sum.split)

lemma write_and_flush:
  assumes I: "coll_inv E c" and L: "log_repr (env_codec E) (co_wal c) rs" and ok: "batch_ok E ops c" "room_for (length ops) c"
    and A: "ann_reserves (env_ann E)" and D: "dims_ok c"
  obtains c1 c2 new where "write_ops E ops c = (c1, Inr ())" "flush_if_needed E c1 = (c2, Inr ())"
    "batch_result E rs ops c new c1" "batch_result E rs ops c new c2"
proof -
  obtain c1 new where w: "write_ops E ops c = (c1, Inr ())" "map wr_op new = ops" "log_repr (env_codec E) (co_wal c1) (rs @ new)"
    "coll_inv E c1" "map_of (co_records c1) = spec_replay new (map_of (co_records c))"
    "unat (wal_last_seq (co_wal c1)) = unat (wal_last_seq (co_wal c)) + length ops" "co_config c1 = co_config c"
    "\<forall>r\<in>set new. 0 < wr_seq r"
    using write_ops_ok [OF I L, of ops] ok unfolding batch_ok_def room_for_def by metis
  obtain wal new' where a: "append_ops (env_codec E) ops (co_wal c) = (wal, Inr new')" "c1 = apply_records E new' (c\<lparr>co_wal := wal\<rparr>)"
    using w(1) by (auto simp: write_ops_def split: prod.splits sum.splits)
  have ops': "map wr_op new' = ops" by (rule append_ops_ops [OF a(1)])
  have "list_all (\<lambda>r. op_wf (wr_op r) \<and> op_dim (ui_dimension (co_index c)) (wr_op r)) new'"
    using ok(1) ops' unfolding batch_ok_def list_all_iff by auto
  then have "ops_ok (ui_dimension (co_index (c\<lparr>co_wal := wal\<rparr>))) new'" by (simp add: ops_ok_def)
  moreover have "dims_ok (c\<lparr>co_wal := wal\<rparr>)" using D by (simp add: dims_ok_def)
  ultimately have d: "dims_ok c1" "length (co_buffer c1) \<le> length (co_buffer c) + length new'"
    "ui_dimension (co_index c1) = ui_dimension (co_index c)"
    using apply_records_dims [of "c\<lparr>co_wal := wal\<rparr>" new' E] by (simp_all add: a(2))
  have f: "co_segments c1 = co_segments c" "co_segment_index c1 = co_segment_index c"
    "co_last_checkpoint_seq c1 = co_last_checkpoint_seq c" "ui_next_label (co_index c1) = ui_next_label (co_index c)"
    by (simp_all add: a(2) apply_records_fields)
  have "length new' = length ops" using ops' by (metis length_map)
  then have "unat (ui_next_label (co_index c1)) + length (co_buffer c1) < 2 ^ 64"
    using ok(2) d(2) f(4) by (simp add: room_for_def)
  then obtain c2 where c2: "flush_if_needed E c1 = (c2, Inr ())" "coll_inv E c2" "co_records c2 = co_records c1"
    "co_wal c2 = co_wal c1" "co_segments c2 = co_segments c1" "co_segment_index c2 = co_segment_index c1"
    using flush_if_needed_ok [OF w(4) A d(1)] by blast
  have "co_last_checkpoint_seq c2 = co_last_checkpoint_seq c1" "co_config c2 = co_config c1" "dims_ok c2"
    "ui_dimension (co_index c2) = ui_dimension (co_index c1)"
    using flush_if_needed_fields(1-3) [of E c1] flush_if_needed_fields(4) [OF d(1), of E] c2(1) by simp_all
  with w c2 d f show thesis by (intro that [of c1 c2 new]) (simp_all add: batch_result_def list_all_iff)
qed

lemma auto_checkpoint_below:
  "unat (wal_last_seq (co_wal (cw_coll w))) - unat (co_last_checkpoint_seq (cw_coll w)) < hc_sync_threshold (cc_hnsw (co_config (cw_coll w))) \<Longrightarrow>
   auto_checkpoint E w = (w, Returns (Inr ()))"
  by (simp add: auto_checkpoint_def act_return_def Let_def)

lemma batch_no_checkpoint:
  assumes "batch_result E rs ops (cw_coll w) new c" "room_for (length ops) (cw_coll w)"
  shows "auto_checkpoint E (w\<lparr>cw_coll := c\<rparr>) = (w\<lparr>cw_coll := c\<rparr>, Returns (Inr ()))"
  using assms by (intro auto_checkpoint_below) (simp add: batch_result_def room_for_def)

text \<open>The two ways the engine writes a batch: with vectors, flushing the buffer, and without.\<close>

lemma put_batch_accepted:
  assumes I: "coll_inv E (cw_coll w)" and L: "log_repr (env_codec E) (co_wal (cw_coll w)) rs"
    and ok: "batch_ok E ops (cw_coll w)" "room_for (length ops) (cw_coll w)" and A: "ann_reserves (env_ann E)" and D: "dims_ok (cw_coll w)"
    and dim: "cc_dimension (co_config (cw_coll w)) \<noteq> 0" and valid: "validate (cw_coll w) = Inr ()"
  obtains c new where "put_batch E u embeddings validate (Returns ops) w = (w\<lparr>cw_coll := c\<rparr>, Returns (Inr ()))"
    "batch_result E rs ops (cw_coll w) new c"
proof -
  obtain c1 c2 new where c: "write_ops E ops (cw_coll w) = (c1, Inr ())" "flush_if_needed E c1 = (c2, Inr ())"
    "batch_result E rs ops (cw_coll w) new c2"
    by (rule write_and_flush [OF I L ok A D])
  have "put_batch E u embeddings validate (Returns ops) w = (w\<lparr>cw_coll := c2\<rparr>, Returns (Inr ()))"
    using dim valid c(1,2) batch_no_checkpoint [OF c(3) ok(2)]
    by (simp add: put_batch_def infer_dimension_def Let_def reads_def act_bind_def persist_dimension_def act_run_def
        on_coll_sum_def on_coll_def)
  then show thesis using c(3) by (rule that)
qed

lemma write_batch_accepted:
  assumes I: "coll_inv E (cw_coll w)" and L: "log_repr (env_codec E) (co_wal (cw_coll w)) rs"
    and ok: "batch_ok E ops (cw_coll w)" "room_for (length ops) (cw_coll w)" and A: "ann_reserves (env_ann E)" and D: "dims_ok (cw_coll w)"
  obtains c new where
    "act_bind (on_coll_sum (write_ops E ops)) (\<lambda>_. auto_checkpoint E) w = (w\<lparr>cw_coll := c\<rparr>, Returns (Inr ()))"
    "batch_result E rs ops (cw_coll w) new c"
proof -
  obtain c1 c2 new where c: "write_ops E ops (cw_coll w) = (c1, Inr ())" "batch_result E rs ops (cw_coll w) new c1"
    by (rule write_and_flush [OF I L ok A D])
  have "act_bind (on_coll_sum (write_ops E ops)) (\<lambda>_. auto_checkpoint E) w = (w\<lparr>cw_coll := c1\<rparr>, Returns (Inr ()))"
    using c(1) batch_no_checkpoint [OF c(2) ok(2)] by (simp add: act_bind_def on_coll_sum_def on_coll_def)
  then show thesis using c(2) by (rule that)
qed

section \<open>Validated batches\<close>

definition item_of :: "'a option list option \<Rightarrow> nat \<Rightarrow> 'a option" where
  "item_of opt n = (case opt of None \<Rightarrow> None | Some xs \<Rightarrow> xs ! n)"

definition add_at :: "embedding list \<Rightarrow> metadata option list option \<Rightarrow> document option list option \<Rightarrow> nat \<times> id \<Rightarrow> operation" where
  "add_at embeddings metadatas documents x =
     Add (snd x) (embeddings ! fst x) (item_of metadatas (fst x)) (item_of documents (fst x))"

lemma check_slice_lengths_iff:
  "check_slice_lengths op ids opt what = Inr () \<longleftrightarrow> (\<forall>xs. opt = Some xs \<longrightarrow> length xs = length ids)"
  by (auto simp: check_slice_lengths_def split: option.split)

lemma check_fresh_ids_iff:
  "check_fresh_ids records seen ids = Inr () \<longleftrightarrow>
     distinct ids \<and> set ids \<inter> set seen = {} \<and> (\<forall>i\<in>set ids. map_of records i = None)"
  by (induction ids arbitrary: seen) auto

lemma check_dimensions_iff:
  "check_dimensions op es d = Inr () \<longleftrightarrow> d = 0 \<or> (\<forall>e\<in>set es. length e = d)"
proof -
  have "check_dimensions_loop op es d = Inr () \<longleftrightarrow> (\<forall>e\<in>set es. length e = d)" by (induction es) auto
  then show ?thesis by (simp add: check_dimensions_def)
qed

lemma validate_add_iff:
  "validate_add ids embeddings metadatas documents c = Inr () \<longleftrightarrow>
     length ids = length embeddings \<and> (\<forall>xs. metadatas = Some xs \<longrightarrow> length xs = length ids) \<and>
     (\<forall>xs. documents = Some xs \<longrightarrow> length xs = length ids) \<and>
     (cc_dimension (co_config c) = 0 \<or> (\<forall>e\<in>set embeddings. length e = cc_dimension (co_config c))) \<and>
     distinct ids \<and> (\<forall>i\<in>set ids. map_of (co_records c) i = None)"
  by (auto simp: validate_add_def and_then_Inr_iff check_slice_lengths_iff check_dimensions_iff check_fresh_ids_iff)

lemma add_ops_valid:
  assumes "length ids = length embeddings" "\<forall>xs. metadatas = Some xs \<longrightarrow> length xs = length ids"
    and "\<forall>xs. documents = Some xs \<longrightarrow> length xs = length ids"
  shows "add_ops ids embeddings metadatas documents =
    Returns (map (add_at embeddings metadatas documents) (List.enumerate 0 ids))"
  unfolding add_ops_def
  by (rule run_map_Returns)
    (use assms in \<open>auto simp: nth_run_def item_at_def item_of_def add_at_def in_set_enumerate_eq split: option.split\<close>)

lemma replay_distinct:
  "distinct (map (\<lambda>r. op_id (wr_op r)) new) \<Longrightarrow> r \<in> set new \<Longrightarrow>
   spec_replay new M (op_id (wr_op r)) = op_effect (wr_op r) (wr_seq r) (M (op_id (wr_op r)))"
proof (induction new arbitrary: M)
  case (Cons x new)
  show ?case
  proof (cases "x = r")
    case True
    have "spec_replay new N (op_id (wr_op r)) = N (op_id (wr_op r))" for N
      using Cons.prems(1) True unfolding spec_replay_at id_effects_def
      by (subst filter_False) (auto simp: image_iff)
    then show ?thesis using True by (simp add: spec_apply_def)
  next
    case False
    then have r: "r \<in> set new" using Cons.prems(2) by simp
    then have "op_id (wr_op x) \<noteq> op_id (wr_op r)" using Cons.prems(1) by (auto simp: image_iff)
    then show ?thesis using Cons.IH [OF _ r] Cons.prems(1) by (simp add: spec_apply_def)
  qed
qed simp

lemma replay_outside:
  "i \<notin> (\<lambda>r. op_id (wr_op r)) ` set new \<Longrightarrow> spec_replay new M i = M i"
  unfolding spec_replay_at id_effects_def by (subst filter_False) auto

section \<open>Opening\<close>

text \<open>A collection without checkpoints whose records are the replay of its log.\<close>

definition logged :: "('b, 'g) engine_env \<Rightarrow> collection_config \<Rightarrow> ('b, 'g) collection \<Rightarrow> bool" where
  "logged E config c \<longleftrightarrow>
     (\<exists>rs. log_repr (env_codec E) (co_wal c) rs \<and> (\<forall>r\<in>set rs. 0 < wr_seq r) \<and>
        spec_replay rs Map.empty = map_of (co_records c) \<and> ops_ok (cc_dimension config) rs \<and> length rs < 2 ^ 32) \<and>
     (\<exists>x. with_hnsw (env_ann E) (cc_space config) (cc_dimension config) (cc_hnsw config) = Inr x)"

definition engine_logged :: "('b, 'g) engine_env \<Rightarrow> (uuid \<rightharpoonup> collection_record) \<Rightarrow> ('b, 'g) engine \<Rightarrow> bool" where
  "engine_logged E M e \<longleftrightarrow>
     catalog_repr (env_catalog E) (en_catalog e) M \<and> bitmap_laws (env_bitmap E) \<and> of_laws (env_float E) \<and>
     ann_laws (env_ann E) \<and> ann_reserves (env_ann E) \<and> engine_synced e \<and>
     (\<forall>u. (map_of (en_colls e) u = None) = (M u = None)) \<and>
     (\<forall>u r s. M u = Some r \<longrightarrow> map_of (en_colls e) u = Some s \<longrightarrow>
        logged E (cr_config r) (sl_coll s) \<and> ckpt_dir_of u (en_dirs e) = [])"

lemma logged_opens:
  assumes "logged E config c" "bitmap_laws (env_bitmap E)" "of_laws (env_float E)" "ann_laws (env_ann E)" "ann_reserves (env_ann E)"
  obtains c' where "collection_open E config (wal_file (co_wal c)) [] ep fsync = Returns (Inr c')" "coll_inv E c'"
    "map_of (co_records c') = map_of (co_records c)" "co_segment_index c' = []"
proof -
  obtain rs x where "log_repr (env_codec E) (co_wal c) rs" "\<forall>r\<in>set rs. 0 < wr_seq r" "ops_ok (cc_dimension config) rs"
    "length rs < 2 ^ 32" "with_hnsw (env_ann E) (cc_space config) (cc_dimension config) (cc_hnsw config) = Inr x"
    "spec_replay rs Map.empty = map_of (co_records c)"
    using assms(1) unfolding logged_def by blast
  from open_replays_log [OF assms(2-5) this(1-5), of ep fsync] this(6) show thesis using that by auto
qed

lemma open_all_ok:
  assumes "\<And>r. r \<in> set rs \<Longrightarrow> \<exists>c. collection_open E (cr_config r) (wal_bytes_of (cc_id (cr_config r)) wals)
      (ckpt_dir_of (cc_id (cr_config r)) dirs) (ec_epoch cfg) (ec_wal_fsync cfg) = Returns (Inr c) \<and> P (cc_id (cr_config r)) c"
  shows "(\<And>u s. map_of acc u = Some s \<Longrightarrow> P u (sl_coll s) \<and> \<not> sl_poisoned s) \<Longrightarrow>
    \<exists>colls. open_all E cfg wals dirs rs acc = Returns (Inr colls) \<and>
      dom (map_of colls) = dom (map_of acc) \<union> (\<lambda>r. cc_id (cr_config r)) ` set rs \<and>
      (\<forall>u s. map_of colls u = Some s \<longrightarrow> P u (sl_coll s) \<and> \<not> sl_poisoned s)"
  using assms
proof (induction rs arbitrary: acc)
  case (Cons r rs)
  let ?u = "cc_id (cr_config r)"
  obtain c where c: "collection_open E (cr_config r) (wal_bytes_of ?u wals) (ckpt_dir_of ?u dirs) (ec_epoch cfg) (ec_wal_fsync cfg) =
      Returns (Inr c)" "P ?u c"
    using Cons.prems(2) [of r] by auto
  let ?acc = "AList.update ?u \<lparr>sl_coll = c, sl_poisoned = False\<rparr> acc"
  have acc: "P u (sl_coll s) \<and> \<not> sl_poisoned s" if "map_of ?acc u = Some s" for u s
    using that Cons.prems(1) [of u s] c(2) by (auto simp: update_conv' split: if_splits)
  have "\<exists>colls. open_all E cfg wals dirs rs ?acc = Returns (Inr colls) \<and>
      dom (map_of colls) = dom (map_of ?acc) \<union> (\<lambda>r. cc_id (cr_config r)) ` set rs \<and>
      (\<forall>u s. map_of colls u = Some s \<longrightarrow> P u (sl_coll s) \<and> \<not> sl_poisoned s)"
    by (rule Cons.IH [OF acc]) (use Cons.prems(2) in auto)
  then obtain colls where "open_all E cfg wals dirs rs ?acc = Returns (Inr colls)"
    "dom (map_of colls) = dom (map_of ?acc) \<union> (\<lambda>r. cc_id (cr_config r)) ` set rs"
    "\<forall>u s. map_of colls u = Some s \<longrightarrow> P u (sl_coll s) \<and> \<not> sl_poisoned s" by blast
  then show ?case using c(1) by (intro exI [of _ colls]) (auto simp: Let_def update_conv')
qed auto

section \<open>Properties\<close>

text \<open>C13: A rejected batch writes nothing. When the dimension of the collection is set and the validation
  of an add, an upsert or an update fails, the operation reports that error and leaves the engine as
  it was: the records, buffers and indexes of all collections, the log files, the checkpoints, the
  catalog and the object store.\<close>

theorem rejected_batch_writes_nothing:
  assumes "engine_synced e" "map_of (en_colls e) u = Some s" "\<not> sl_poisoned s"
    and "cc_dimension (co_config (sl_coll s)) \<noteq> 0"
  shows "(validate_add ids embeddings metadatas documents (sl_coll s) = Inl err \<longrightarrow>
      (\<exists>e'. engine_add E u ids embeddings metadatas documents e = (e', Returns (Inl err)) \<and> engine_view e' = engine_view e)) \<and>
    (validate_upsert ids embeddings metadatas documents (sl_coll s) = Inl err \<longrightarrow>
      (\<exists>e'. engine_upsert E u ids embeddings metadatas documents e = (e', Returns (Inl err)) \<and> engine_view e' = engine_view e)) \<and>
    (validate_update ids metadatas documents (sl_coll s) = Inl err \<longrightarrow>
      (\<exists>e'. engine_update E u ids metadatas documents e = (e', Returns (Inl err)) \<and> engine_view e' = engine_view e))"
proof -
  let ?w = "\<lparr>cw_coll = sl_coll s, cw_dir = ckpt_dir_of u (en_dirs e), cw_cat = en_catalog e\<rparr>"
  have inf: "infer_dimension embeddings ?w = (?w, None)" by (rule infer_none) (use assms(4) in simp)
  note view = store_world_view [OF assms(1-3)]
  have put: "\<exists>e'. on_collection u (put_batch E u embeddings validate ops) e = (e', Returns (Inl err)) \<and> engine_view e' = engine_view e"
    if "validate (sl_coll s) = Inl err" for validate ops
  proof -
    have "put_batch E u embeddings validate ops ?w = (?w, Returns (Inl err))"
      by (rule put_batch_rejected [OF inf]) (use that in simp)
    from on_collection_run [where f = "put_batch E u embeddings validate ops", OF assms(2,3) this] view show ?thesis by simp
  qed
  have upd: "\<exists>e'. on_collection u (act_bind (reads validate) k) e = (e', Returns (Inl err)) \<and> engine_view e' = engine_view e"
    if "validate (sl_coll s) = Inl err" for validate and k :: "unit \<Rightarrow> (('a, 'b) coll_world, unit) action"
  proof -
    have "act_bind (reads validate) k ?w = (?w, Returns (Inl err))"
      by (rule act_bind_stop) (use that in \<open>simp add: reads_def\<close>)
    from on_collection_run [where f = "act_bind (reads validate) k", OF assms(2,3) this] view show ?thesis by simp
  qed
  show ?thesis unfolding engine_add_def engine_upsert_def engine_update_def using put upd by blast
qed

text \<open>The engine of the witnesses: one empty collection of dimension 1.\<close>

definition demo_engine :: "redb_catalog \<Rightarrow> (u32 set, nat \<times> (u64 \<times> embedding) list) engine" where
  "demo_engine cat =
     \<lparr>en_catalog = cat, en_storage = \<lparr>sf_files = [], sf_dirs = [[]]\<rparr>, en_pid = 1, en_nonce = 0,
      en_config = engine_config_default, en_wals = [(7, wal_file (co_wal demo_coll))], en_dirs = [],
      en_colls = [(7, \<lparr>sl_coll = demo_coll, sl_poisoned = False\<rparr>)]\<rparr>"

lemma demo_engine_synced: "engine_synced (demo_engine cat)"
  by (simp add: engine_synced_def demo_engine_def wal_bytes_of_def)

lemma demo_engine_slot:
  "map_of (en_colls (demo_engine cat)) 7 = Some \<lparr>sl_coll = demo_coll, sl_poisoned = False\<rparr>" "ckpt_dir_of u (en_dirs (demo_engine cat)) = []"
  "en_catalog (demo_engine cat) = cat"
  by (simp_all add: demo_engine_def ckpt_dir_of_def)

lemma demo_coll_parts:
  "co_config demo_coll = demo_coll_config" "co_records demo_coll = []" "co_buffer demo_coll = []" "co_segment_index demo_coll = []"
  "wal_last_seq (co_wal demo_coll) = 0" "co_next_offset demo_coll = 0" "ui_next_label (co_index demo_coll) = 0"
  "ui_dimension (co_index demo_coll) = 1" "co_last_checkpoint_seq demo_coll = 0" "co_flushed_seq demo_coll = 0"
  by (simp_all add: demo_coll_def)

lemma rejected_batch_writes_nothing_witness:
  "\<exists>e'. engine_add demo_env 7 [''a''] [[7, 8]] None None (demo_engine ensure_tables) =
     (e', Returns (Inl (Validation (DimensionMismatch ''add'' 2 1)))) \<and> engine_view e' = engine_view (demo_engine ensure_tables)"
proof -
  have "validate_add [''a''] [[7, 8]] None None demo_coll = Inl (Validation (DimensionMismatch ''add'' 2 1))"
    by (simp add: validate_add_def check_slice_lengths_def check_dimensions_def demo_coll_parts demo_config_fields)
  then show ?thesis
    using rejected_batch_writes_nothing [OF demo_engine_synced demo_engine_slot(1), of "[''a'']" "[[7, 8]]" None None
        "Validation (DimensionMismatch ''add'' 2 1)" demo_env]
    by (simp add: demo_coll_parts demo_config_fields)
qed

text \<open>A rejected batch can fix the dimension. On a collection without a dimension, an add whose two
  vectors have different lengths is rejected, but the collection keeps the length of the first as its
  dimension, the catalog does not, and from then on the second vector alone is rejected too.\<close>

theorem rejected_batch_fixes_dimension:
  assumes "map_of (en_colls e) u = Some s" "\<not> sl_poisoned s" "cc_dimension (co_config (sl_coll s)) = 0"
    and "length v \<noteq> length w" "v \<noteq> []"
  shows "\<exists>e' s'. engine_add E u [i, j] [v, w] None None e =
      (e', Returns (Inl (Validation (DimensionMismatch ''add'' (length w) (length v))))) \<and>
    map_of (en_colls e') u = Some s' \<and> cc_dimension (co_config (sl_coll s')) = length v \<and> en_catalog e' = en_catalog e \<and>
    snd (engine_add E u [j] [w] None None e') = Returns (Inl (Validation (DimensionMismatch ''add'' (length w) (length v))))"
proof -
  let ?w = "\<lparr>cw_coll = sl_coll s, cw_dir = ckpt_dir_of u (en_dirs e), cw_cat = en_catalog e\<rparr>"
  let ?c = "(sl_coll s)\<lparr>co_config := (co_config (sl_coll s))\<lparr>cc_dimension := length v\<rparr>\<rparr>"
  let ?err = "Validation (DimensionMismatch ''add'' (length w) (length v))"
  have inf: "infer_dimension [v, w] ?w = (?w\<lparr>cw_coll := ?c\<rparr>, Some (length v))"
    using assms(3) by (simp add: infer_dimension_def Let_def)
  have rej: "validate_add [i, j] [v, w] None None ?c = Inl ?err" "validate_add [j] [w] None None ?c = Inl ?err"
    using assms(4,5) by (auto simp: validate_add_def check_slice_lengths_def check_dimensions_def)
  let ?e' = "store_world u (?w\<lparr>cw_coll := ?c\<rparr>) False e"
  have 1: "engine_add E u [i, j] [v, w] None None e = (?e', Returns (Inl ?err))"
  proof -
    let ?f = "put_batch E u [v, w] (validate_add [i, j] [v, w] None None) (add_ops [i, j] [v, w] None None)"
    have "?f ?w = (?w\<lparr>cw_coll := ?c\<rparr>, Returns (Inl ?err))" by (rule put_batch_rejected [OF inf]) (use rej(1) in simp)
    from on_collection_run [where f = ?f, OF assms(1,2) this] show ?thesis by (simp add: engine_add_def)
  qed
  have s': "map_of (en_colls ?e') u = Some \<lparr>sl_coll = ?c, sl_poisoned = False\<rparr>" by (simp add: store_world_colls)
  let ?w' = "\<lparr>cw_coll = ?c, cw_dir = ckpt_dir_of u (en_dirs ?e'), cw_cat = en_catalog ?e'\<rparr>"
  have inf': "infer_dimension [w] ?w' = (?w', None)" by (rule infer_none) (use assms(5) in simp)
  have "snd (engine_add E u [j] [w] None None ?e') = Returns (Inl ?err)"
  proof -
    let ?f = "put_batch E u [w] (validate_add [j] [w] None None) (add_ops [j] [w] None None)"
    have "?f ?w' = (?w', Returns (Inl ?err))" by (rule put_batch_rejected [OF inf']) (use rej(2) in simp)
    from on_collection_run [where f = ?f and e = ?e', OF s'] this show ?thesis by (simp add: engine_add_def)
  qed
  then show ?thesis using 1 s' by (intro exI [of _ ?e']) (auto simp: store_world_def)
qed

lemma rejected_batch_fixes_dimension_witness:
  "\<exists>e e' s'. map_of (en_colls e) 7 = Some \<lparr>sl_coll = demo_coll\<lparr>co_config := demo_coll_config\<lparr>cc_dimension := 0\<rparr>\<rparr>, sl_poisoned = False\<rparr> \<and>
     engine_add demo_env 7 [''a'', ''b''] [[1], [2, 3]] None None e =
       (e', Returns (Inl (Validation (DimensionMismatch ''add'' 2 1)))) \<and>
     map_of (en_colls e') 7 = Some s' \<and> cc_dimension (co_config (sl_coll s')) = 1"
proof -
  let ?s = "\<lparr>sl_coll = demo_coll\<lparr>co_config := demo_coll_config\<lparr>cc_dimension := 0\<rparr>\<rparr>, sl_poisoned = False\<rparr>"
  let ?e = "(demo_engine ensure_tables)\<lparr>en_colls := [(7, ?s)]\<rparr>"
  have s: "map_of (en_colls ?e) 7 = Some ?s" by simp
  obtain e' s' where "engine_add demo_env 7 [''a'', ''b''] [[1], [2, 3]] None None ?e =
      (e', Returns (Inl (Validation (DimensionMismatch ''add'' (length [2 :: f32, 3]) (length [1 :: f32])))))"
    "map_of (en_colls e') 7 = Some s'" "cc_dimension (co_config (sl_coll s')) = length [1 :: f32]"
    using rejected_batch_fixes_dimension [OF s, of "[1]" "[2, 3]" demo_env "''a''" "''b''"] by auto
  then show ?thesis using s
    by (intro exI [of _ ?e] exI [of _ e'] exI [of _ s']) (simp add: numeral_2_eq_2)
qed

text \<open>An accepted batch is written and read back.\<close>

lemma engine_add_run:
  assumes "map_of (en_colls e) u = Some s" "\<not> sl_poisoned s" "coll_inv E (sl_coll s)" "log_repr (env_codec E) (co_wal (sl_coll s)) rs"
    and "validate_add ids embeddings metadatas documents (sl_coll s) = Inr ()" "cc_dimension (co_config (sl_coll s)) \<noteq> 0"
    and "batch_ok E (map (add_at embeddings metadatas documents) (List.enumerate 0 ids)) (sl_coll s)"
    and "room_for (length ids) (sl_coll s)" "ann_reserves (env_ann E)" "dims_ok (sl_coll s)"
  obtains c new where "engine_add E u ids embeddings metadatas documents e =
      (store_world u \<lparr>cw_coll = c, cw_dir = ckpt_dir_of u (en_dirs e), cw_cat = en_catalog e\<rparr> False e, Returns (Inr ()))"
    "map wr_op new = map (add_at embeddings metadatas documents) (List.enumerate 0 ids)" "coll_inv E c"
    "log_repr (env_codec E) (co_wal c) (rs @ new)" "\<forall>r\<in>set new. 0 < wr_seq r"
    "map_of (co_records c) = spec_replay new (map_of (co_records (sl_coll s)))"
    "co_segment_index c = co_segment_index (sl_coll s)" "co_config c = co_config (sl_coll s)"
proof -
  let ?w = "\<lparr>cw_coll = sl_coll s, cw_dir = ckpt_dir_of u (en_dirs e), cw_cat = en_catalog e\<rparr>"
  let ?ops = "map (add_at embeddings metadatas documents) (List.enumerate 0 ids)"
  have v: "length ids = length embeddings" "\<forall>xs. metadatas = Some xs \<longrightarrow> length xs = length ids"
    "\<forall>xs. documents = Some xs \<longrightarrow> length xs = length ids"
    using assms(5) unfolding validate_add_iff by blast+
  have ops: "add_ops ids embeddings metadatas documents = Returns ?ops" by (rule add_ops_valid [OF v])
  obtain c new where c: "put_batch E u embeddings (validate_add ids embeddings metadatas documents) (Returns ?ops) ?w =
      (?w\<lparr>cw_coll := c\<rparr>, Returns (Inr ()))" "batch_result E rs ?ops (sl_coll s) new c"
  proof (rule put_batch_accepted [of E ?w rs ?ops "validate_add ids embeddings metadatas documents" u embeddings])
    show "room_for (length ?ops) (cw_coll ?w)" using assms(8) by simp
  qed (use assms in simp_all)
  have "engine_add E u ids embeddings metadatas documents e = (store_world u (?w\<lparr>cw_coll := c\<rparr>) False e, Returns (Inr ()))"
    using on_collection_run [where f = "put_batch E u embeddings (validate_add ids embeddings metadatas documents) (Returns ?ops)",
        OF assms(1,2) c(1)] by (simp add: engine_add_def ops)
  then show thesis using c(2) by (intro that [of c new]) (simp_all add: batch_result_def list_all_iff)
qed

lemma added_ids:
  assumes "map wr_op new = map (add_at embeddings metadatas documents) (List.enumerate 0 ids)"
  shows "map (\<lambda>r. op_id (wr_op r)) new = ids"
proof -
  have "map (\<lambda>r. op_id (wr_op r)) new = map op_id (map wr_op new)" by simp
  also have "\<dots> = ids" unfolding assms by (simp add: add_at_def comp_def)
  finally show ?thesis .
qed

lemma added_row:
  assumes new: "map wr_op new = map (add_at embeddings metadatas documents) (List.enumerate 0 ids)"
    and "distinct ids" "n < length ids"
  shows "spec_replay new f (ids ! n) = Some \<lparr>lr_id = ids ! n, lr_embedding = Some (embeddings ! n),
      lr_metadata = item_of metadatas n, lr_document = item_of documents n, lr_seq = wr_seq (new ! n)\<rparr>"
proof -
  note opids = added_ids [OF new]
  have len: "length new = length ids" using opids by (metis length_map)
  have op: "wr_op (new ! n) = add_at embeddings metadatas documents (n, ids ! n)"
    using assms(3) len arg_cong [OF new, of "\<lambda>xs. xs ! n"] by (simp add: nth_enumerate_eq)
  have "spec_replay new f (op_id (wr_op (new ! n))) = op_effect (wr_op (new ! n)) (wr_seq (new ! n)) (f (op_id (wr_op (new ! n))))"
    by (rule replay_distinct) (use opids assms(2,3) len in simp_all)
  then show ?thesis unfolding op by (simp add: add_at_def)
qed

text \<open>A record that is in no segment is read back as it is.\<close>

lemma engine_get_row:
  assumes "map_of (en_colls e) u = Some s" "\<not> sl_poisoned s" "map_of (co_records (sl_coll s)) i = Some r"
    and "map_of (co_segment_index (sl_coll s)) i = None"
  shows "snd (engine_get u [i] e) = Returns (Inr [Some r])"
proof -
  have "load_vector (sl_coll s) i = Returns None" using assms(4) by (simp add: load_vector_def load_vector_from_def)
  then show ?thesis using assms(1-3) by (simp add: engine_get_def on_collection_def get_record_def)
qed

lemma engine_add_ok:
  assumes "map_of (en_colls e) u = Some s" "\<not> sl_poisoned s" "coll_inv E (sl_coll s)" "log_repr (env_codec E) (co_wal (sl_coll s)) rs"
    and "validate_add ids embeddings metadatas documents (sl_coll s) = Inr ()" "cc_dimension (co_config (sl_coll s)) \<noteq> 0"
    and "batch_ok E (map (add_at embeddings metadatas documents) (List.enumerate 0 ids)) (sl_coll s)"
    and "room_for (length ids) (sl_coll s)" "ann_reserves (env_ann E)" "dims_ok (sl_coll s)"
    and "\<forall>i\<in>set ids. map_of (co_segment_index (sl_coll s)) i = None"
  shows "\<exists>e' s'. engine_add E u ids embeddings metadatas documents e = (e', Returns (Inr ())) \<and>
    map_of (en_colls e') u = Some s' \<and> coll_inv E (sl_coll s') \<and>
    (\<forall>n < length ids. \<exists>r. snd (engine_get u [ids ! n] e') = Returns (Inr [Some r]) \<and> lr_id r = ids ! n \<and>
       lr_embedding r = Some (embeddings ! n) \<and> lr_metadata r = item_of metadatas n \<and> lr_document r = item_of documents n) \<and>
    (\<forall>i. i \<notin> set ids \<longrightarrow> map_of (co_records (sl_coll s')) i = map_of (co_records (sl_coll s)) i) \<and>
    (\<forall>v. v \<noteq> u \<longrightarrow> map_of (en_colls e') v = map_of (en_colls e) v)"
proof -
  obtain c new where c: "engine_add E u ids embeddings metadatas documents e =
      (store_world u \<lparr>cw_coll = c, cw_dir = ckpt_dir_of u (en_dirs e), cw_cat = en_catalog e\<rparr> False e, Returns (Inr ()))"
    "map wr_op new = map (add_at embeddings metadatas documents) (List.enumerate 0 ids)" "coll_inv E c"
    "map_of (co_records c) = spec_replay new (map_of (co_records (sl_coll s)))" "co_segment_index c = co_segment_index (sl_coll s)"
    by (rule engine_add_run [OF assms(1-10)])
  let ?e' = "store_world u \<lparr>cw_coll = c, cw_dir = ckpt_dir_of u (en_dirs e), cw_cat = en_catalog e\<rparr> False e"
    and ?s' = "\<lparr>sl_coll = c, sl_poisoned = False\<rparr>"
  have s': "map_of (en_colls ?e') u = Some ?s'" by (simp add: store_world_colls)
  have dist: "distinct ids" using assms(5) unfolding validate_add_iff by blast
  have get: "\<exists>r. snd (engine_get u [ids ! n] ?e') = Returns (Inr [Some r]) \<and> lr_id r = ids ! n \<and>
       lr_embedding r = Some (embeddings ! n) \<and> lr_metadata r = item_of metadatas n \<and> lr_document r = item_of documents n"
    if n: "n < length ids" for n
    using engine_get_row [OF s'] added_row [OF c(2) dist n] assms(11) n by (simp add: c(4,5))
  have other: "map_of (co_records c) i = map_of (co_records (sl_coll s)) i" if "i \<notin> set ids" for i
    unfolding c(4) by (rule replay_outside) (use that added_ids [OF c(2)] in \<open>metis image_set\<close>)
  show ?thesis using c(1,3) s' get other by (intro exI [of _ ?e'] exI [of _ ?s']) (simp add: store_world_colls)
qed

text \<open>What is added can be read. A valid batch of new ids, encodable and within the bounds of the log,
  the offsets and the checkpoint threshold, is accepted; afterwards every id of the batch is read back
  with its vector, metadata and document, every other record is unchanged, and no other collection is.\<close>

theorem add_then_get:
  assumes "map_of (en_colls e) u = Some s" "\<not> sl_poisoned s" "coll_inv E (sl_coll s)" "log_repr (env_codec E) (co_wal (sl_coll s)) rs"
    and "validate_add ids embeddings metadatas documents (sl_coll s) = Inr ()" "cc_dimension (co_config (sl_coll s)) \<noteq> 0"
    and "batch_ok E (map (add_at embeddings metadatas documents) (List.enumerate 0 ids)) (sl_coll s)"
    and "room_for (length ids) (sl_coll s)" "ann_reserves (env_ann E)" "dims_ok (sl_coll s)"
    and "\<forall>i\<in>set ids. map_of (co_segment_index (sl_coll s)) i = None"
  shows "\<exists>e' s'. engine_add E u ids embeddings metadatas documents e = (e', Returns (Inr ())) \<and>
    map_of (en_colls e') u = Some s' \<and> coll_inv E (sl_coll s') \<and>
    (\<forall>n < length ids. \<exists>r. snd (engine_get u [ids ! n] e') = Returns (Inr [Some r]) \<and> lr_id r = ids ! n \<and>
       lr_embedding r = Some (embeddings ! n) \<and> lr_metadata r = item_of metadatas n \<and> lr_document r = item_of documents n) \<and>
    (\<forall>i. i \<notin> set ids \<longrightarrow> map_of (co_records (sl_coll s')) i = map_of (co_records (sl_coll s)) i) \<and>
    (\<forall>v. v \<noteq> u \<longrightarrow> map_of (en_colls e') v = map_of (en_colls e) v)"
  by (rule engine_add_ok [OF assms])

text \<open>The witness: one record added to the empty collection.\<close>

lemma demo_add_facts:
  "\<not> sl_poisoned \<lparr>sl_coll = demo_coll, sl_poisoned = False\<rparr>" "coll_inv demo_env demo_coll" "log_repr (env_codec demo_env) (co_wal demo_coll) []"
  "validate_add [''a''] [[7]] (Some [Some [(''k'', IntV 1)]]) None demo_coll = Inr ()" "cc_dimension (co_config demo_coll) \<noteq> 0"
  "batch_ok demo_env (map (add_at [[7]] (Some [Some [(''k'', IntV 1)]]) None) (List.enumerate 0 [''a''])) demo_coll"
  "room_for (length [''a'']) demo_coll" "ann_reserves (env_ann demo_env)" "dims_ok demo_coll"
  "\<forall>i\<in>set [''a'']. map_of (co_segment_index demo_coll) i = None"
proof -
  let ?ops = "map (add_at [[7]] (Some [Some [(''k'', IntV 1)]]) (None :: document option list option)) (List.enumerate 0 [''a''])"
  have ops: "?ops = [demo_put]" by (simp add: add_at_def demo_put_def item_of_def)
  show "batch_ok demo_env ?ops demo_coll" unfolding ops
    by (simp add: batch_ok_def demo_coll_parts writable_def demo_ops_codec_def RECORD_HEADER_LEN_def demo_put_def hm_wf_def)
  show "room_for (length [''a'']) demo_coll" by (simp add: room_for_def demo_coll_parts demo_config_fields hnsw_default_def)
  show "validate_add [''a''] [[7]] (Some [Some [(''k'', IntV 1)]]) None demo_coll = Inr ()"
    by (simp add: validate_add_iff demo_coll_parts demo_config_fields)
qed (use demo_coll_inv(1) demo_coll_log in \<open>simp_all add: demo_coll_parts demo_config_fields list_ann_reserves dims_ok_def\<close>)

lemma add_then_get_witness:
  "\<exists>e' r. engine_add demo_env 7 [''a''] [[7]] (Some [Some [(''k'', IntV 1)]]) None (demo_engine ensure_tables) = (e', Returns (Inr ())) \<and>
     snd (engine_get 7 [''a''] e') = Returns (Inr [Some r]) \<and> lr_embedding r = Some [7] \<and> lr_metadata r = Some [(''k'', IntV 1)]"
proof -
  let ?s = "\<lparr>sl_coll = demo_coll, sl_poisoned = False\<rparr>"
  have sl: "sl_coll ?s = demo_coll" by simp
  from add_then_get [OF demo_engine_slot(1) [of ensure_tables], unfolded sl, OF demo_add_facts] obtain e' s' where
    "engine_add demo_env 7 [''a''] [[7]] (Some [Some [(''k'', IntV 1)]]) None (demo_engine ensure_tables) = (e', Returns (Inr ()))"
    "\<forall>n < length [''a'']. \<exists>r. snd (engine_get 7 [[''a''] ! n] e') = Returns (Inr [Some r]) \<and> lr_id r = [''a''] ! n \<and>
       lr_embedding r = Some ([[7]] ! n) \<and> lr_metadata r = item_of (Some [Some [(''k'', IntV 1)]]) n \<and>
       lr_document r = item_of None n"
    by (elim exE conjE) (rule that)
  then show ?thesis by (auto simp: item_of_def)
qed

lemma engine_reopens:
  assumes "engine_logged E M e"
  shows "\<exists>e'. engine_open E (en_catalog e) (en_storage e) pid cfg (en_wals e) (en_dirs e) = Returns (Inr e') \<and>
    dom (map_of (en_colls e')) = dom (map_of (en_colls e)) \<and>
    (\<forall>u s s'. map_of (en_colls e) u = Some s \<longrightarrow> map_of (en_colls e') u = Some s' \<longrightarrow>
       map_of (co_records (sl_coll s')) = map_of (co_records (sl_coll s)) \<and> coll_inv E (sl_coll s') \<and> \<not> sl_poisoned s' \<and>
       co_segment_index (sl_coll s') = [])"
proof -
  let ?P = "\<lambda>u c. coll_inv E c \<and> (\<forall>s. map_of (en_colls e) u = Some s \<longrightarrow> map_of (co_records c) = map_of (co_records (sl_coll s))) \<and> co_segment_index c = []"
  have R: "catalog_repr (env_catalog E) (en_catalog e) M" using assms unfolding engine_logged_def by blast
  obtain rs where rs: "catalog_list_all (env_catalog E) (en_catalog e) = Inr rs" "set rs = ran M"
    using catalog_list_all_repr [OF R] by blast
  have id: "M (cc_id (cr_config r)) = Some r" if "r \<in> set rs" for r
  proof -
    from that rs(2) obtain u where "M u = Some r" by (auto simp: ran_def)
    with catalog_reprD(4) [OF R this] show ?thesis by simp
  qed
  have "\<exists>c. collection_open E (cr_config r) (wal_bytes_of (cc_id (cr_config r)) (en_wals e))
      (ckpt_dir_of (cc_id (cr_config r)) (en_dirs e)) (ec_epoch cfg) (ec_wal_fsync cfg) = Returns (Inr c) \<and> ?P (cc_id (cr_config r)) c"
    if "r \<in> set rs" for r
  proof -
    let ?u = "cc_id (cr_config r)"
    note r = that
    obtain s where s: "map_of (en_colls e) ?u = Some s" using assms id [OF r] unfolding engine_logged_def by fastforce
    have l: "logged E (cr_config r) (sl_coll s)" "ckpt_dir_of ?u (en_dirs e) = []"
      "wal_bytes_of ?u (en_wals e) = wal_file (co_wal (sl_coll s))"
      using assms id [OF r] s unfolding engine_logged_def engine_synced_def by blast+
    have laws: "bitmap_laws (env_bitmap E)" "of_laws (env_float E)" "ann_laws (env_ann E)" "ann_reserves (env_ann E)"
      using assms unfolding engine_logged_def by blast+
    obtain c where "collection_open E (cr_config r) (wal_file (co_wal (sl_coll s))) [] (ec_epoch cfg) (ec_wal_fsync cfg) = Returns (Inr c)"
      "coll_inv E c" "map_of (co_records c) = map_of (co_records (sl_coll s))" "co_segment_index c = []"
      by (rule logged_opens [OF l(1) laws])
    then show ?thesis using s l(2,3) by (intro exI [of _ c]) simp
  qed
  note opened = open_all_ok [OF this, of rs "[]"]
  obtain colls where colls: "open_all E cfg (en_wals e) (en_dirs e) rs [] = Returns (Inr colls)"
    "dom (map_of colls) = (\<lambda>r. cc_id (cr_config r)) ` set rs"
    "\<forall>u s. map_of colls u = Some s \<longrightarrow> ?P u (sl_coll s) \<and> \<not> sl_poisoned s"
    using opened by auto
  have "(\<lambda>r. cc_id (cr_config r)) ` set rs = dom M"
    using id rs(2) catalog_reprD(4) [OF R] by (auto simp: ran_def image_iff) (metis)
  then have "dom (map_of colls) = dom (map_of (en_colls e))"
    using colls(2) assms unfolding engine_logged_def dom_def by auto
  then show ?thesis using rs(1) colls(1,3) by (simp add: engine_open_def)
qed

text \<open>An accepted batch leaves the engine the replay of its logs.\<close>

lemma log_repr_unique:
  assumes "log_repr C w rs" "log_repr C w rs'"
  shows "rs = rs'"
proof -
  have all: "filter (in_range 0 (wal_last_seq w)) xs = xs" if "log_repr C w xs" for xs
    using wal_log.seq_bounded [OF that] by (simp add: in_range_def)
  have "Inr rs = (Inr rs' :: wal_error + wal_record list)"
    using wal_log.range_ok [OF assms(1), of 0 "wal_last_seq w"] wal_log.range_ok [OF assms(2), of 0 "wal_last_seq w"]
    by (simp add: all assms)
  then show ?thesis by simp
qed

lemma engine_add_logged:
  assumes EL: "engine_logged E M e" "M u = Some rec"
    and s: "map_of (en_colls e) u = Some s" "\<not> sl_poisoned s" "coll_inv E (sl_coll s)" "log_repr (env_codec E) (co_wal (sl_coll s)) rs"
    and v: "validate_add ids embeddings metadatas documents (sl_coll s) = Inr ()" "cc_dimension (co_config (sl_coll s)) \<noteq> 0"
    and b: "batch_ok E (map (add_at embeddings metadatas documents) (List.enumerate 0 ids)) (sl_coll s)"
    and r: "room_for (length ids) (sl_coll s)" and d: "dims_ok (sl_coll s)"
    and dim: "cc_dimension (cr_config rec) = cc_dimension (co_config (sl_coll s))" and len: "length rs + length ids < 2 ^ 32"
  obtains e' s' where "engine_add E u ids embeddings metadatas documents e = (e', Returns (Inr ()))" "engine_logged E M e'"
    "map_of (en_colls e') u = Some s'"
    "\<And>n. n < length ids \<Longrightarrow> \<exists>q. map_of (co_records (sl_coll s')) (ids ! n) = Some \<lparr>lr_id = ids ! n,
       lr_embedding = Some (embeddings ! n), lr_metadata = item_of metadatas n, lr_document = item_of documents n, lr_seq = q\<rparr>"
proof -
  have A: "ann_reserves (env_ann E)" using EL(1) unfolding engine_logged_def by blast
  obtain c new where c: "engine_add E u ids embeddings metadatas documents e =
      (store_world u \<lparr>cw_coll = c, cw_dir = ckpt_dir_of u (en_dirs e), cw_cat = en_catalog e\<rparr> False e, Returns (Inr ()))"
    "map wr_op new = map (add_at embeddings metadatas documents) (List.enumerate 0 ids)"
    "log_repr (env_codec E) (co_wal c) (rs @ new)" "\<forall>r\<in>set new. 0 < wr_seq r"
    "map_of (co_records c) = spec_replay new (map_of (co_records (sl_coll s)))"
    by (rule engine_add_run [OF s v b r A d])
  let ?e' = "store_world u \<lparr>cw_coll = c, cw_dir = ckpt_dir_of u (en_dirs e), cw_cat = en_catalog e\<rparr> False e"
  have L: "logged E (cr_config rec) (sl_coll s)" "ckpt_dir_of u (en_dirs e) = []"
    using EL s(1) unfolding engine_logged_def by blast+
  obtain rs' where "log_repr (env_codec E) (co_wal (sl_coll s)) rs'" and rs': "\<forall>r\<in>set rs'. 0 < wr_seq r"
    "spec_replay rs' Map.empty = map_of (co_records (sl_coll s))" "ops_ok (cc_dimension (cr_config rec)) rs'"
    using L(1) unfolding logged_def by blast
  then have eq: "rs' = rs" using log_repr_unique [OF s(4)] by blast
  have valid: "length ids = length embeddings" "\<forall>x\<in>set embeddings. length x = cc_dimension (co_config (sl_coll s))" "distinct ids"
    using v unfolding validate_add_iff by auto
  have ops: "list_all (\<lambda>x. op_wf x \<and> op_dim (cc_dimension (cr_config rec)) x) (map wr_op new)"
  proof -
    have "op_dim (cc_dimension (cr_config rec)) (add_at embeddings metadatas documents x)" if "x \<in> set (List.enumerate 0 ids)" for x
      using that valid(1,2) dim by (auto simp: add_at_def in_set_enumerate_eq)
    then show ?thesis using b unfolding c(2) batch_ok_def by (auto simp: list_all_iff)
  qed
  have lnew: "length new = length ids" using added_ids [OF c(2)] by (metis length_map)
  have "spec_replay (rs @ new) Map.empty = map_of (co_records c)" using rs'(2) c(5) eq by simp
  moreover have "ops_ok (cc_dimension (cr_config rec)) (rs @ new)" using rs'(3) ops eq by (auto simp: ops_ok_def list_all_iff)
  moreover have "\<forall>r\<in>set (rs @ new). 0 < wr_seq r" "length (rs @ new) < 2 ^ 32" using rs'(1) c(4) eq len lnew by auto
  ultimately have "logged E (cr_config rec) c" using c(3) L(1) unfolding logged_def by blast
  then have "engine_logged E M ?e'"
    using EL s(1) L(2) unfolding engine_logged_def engine_synced_def
    by (auto simp: store_world_def update_conv' wal_bytes_of_def ckpt_dir_of_def)
  moreover have "\<exists>q. map_of (co_records c) (ids ! n) = Some \<lparr>lr_id = ids ! n, lr_embedding = Some (embeddings ! n),
      lr_metadata = item_of metadatas n, lr_document = item_of documents n, lr_seq = q\<rparr>" if "n < length ids" for n
    using added_row [OF c(2) valid(3) that] unfolding c(5) by blast
  ultimately show thesis using c(1)
    by (intro that [of ?e' "\<lparr>sl_coll = c, sl_poisoned = False\<rparr>"]) (simp_all add: store_world_colls)
qed

text \<open>C7: The engine survives a restart. When every catalogued collection is the replay of its log and has no
  checkpoint, opening the engine again from the catalog, the object store and the log files succeeds
  and loads exactly the catalogued collections, each with the records it had, its derived state
  rebuilt and its lock free.\<close>

theorem engine_survives_restart:
  assumes "engine_logged E M e"
  shows "\<exists>e'. engine_open E (en_catalog e) (en_storage e) pid cfg (en_wals e) (en_dirs e) = Returns (Inr e') \<and>
    dom (map_of (en_colls e')) = dom (map_of (en_colls e)) \<and>
    (\<forall>u s s'. map_of (en_colls e) u = Some s \<longrightarrow> map_of (en_colls e') u = Some s' \<longrightarrow>
       map_of (co_records (sl_coll s')) = map_of (co_records (sl_coll s)) \<and> coll_inv E (sl_coll s') \<and> \<not> sl_poisoned s')"
  using engine_reopens [OF assms, of pid cfg] by blast

lemma engine_survives_restart_witness:
  "\<exists>(e :: (u32 set, nat \<times> (u64 \<times> embedding) list) engine) e' s'. engine_open demo_env (en_catalog e) (en_storage e) 1 engine_config_default (en_wals e) (en_dirs e) = Returns (Inr e') \<and>
     map_of (en_colls e') 7 = Some s' \<and> map_option lr_metadata (map_of (co_records (sl_coll s')) ''a'') = Some (Some [(''k'', IntV 2)])"
proof -
  have "writable demo_ops_codec demo_update"
    by (simp add: demo_put_def demo_update_def writable_def demo_ops_codec_def RECORD_HEADER_LEN_def hm_wf_def)
  then obtain w1 r where w1: "log_repr demo_ops_codec w1 [r]" "wr_op r = demo_update" "wr_seq r = 1"
    using wal_log.append_ok [OF demo_coll_log, of demo_update] demo_coll_parts(5) by auto
  let ?row = "\<lparr>lr_id = ''a'', lr_embedding = None, lr_metadata = Some [(''k'', IntV 2)], lr_document = None, lr_seq = 1\<rparr>"
  let ?c = "demo_coll\<lparr>co_wal := w1, co_records := [(''a'', ?row)]\<rparr>"
  obtain cat where "catalog_create demo_cat_codec demo_config ensure_tables = Inr (cat, demo_record 0)"
    using demo_create by blast
  note cat = demo_catalog [OF this]
  let ?e = "\<lparr>en_catalog = cat, en_storage = \<lparr>sf_files = [], sf_dirs = [[]]\<rparr>, en_pid = 1, en_nonce = 0,
      en_config = engine_config_default, en_wals = [(7, wal_file w1)], en_dirs = [],
      en_colls = [(7, \<lparr>sl_coll = ?c, sl_poisoned = False\<rparr>)]\<rparr>"
  have replay: "spec_replay [r] Map.empty = map_of [(''a'', ?row)]"
    by (simp add: w1 spec_apply_def demo_update_def)
  have logged: "logged demo_env demo_config ?c"
    unfolding logged_def
    by (intro conjI exI [of _ "[r]"]) (use w1 replay in \<open>simp_all add: ops_ok_def demo_update_def hm_wf_def with_hnsw_def list_ann_def\<close>)
  have "cr_config (demo_record 0) = demo_config" by (simp add: demo_record_def)
  then have "engine_logged demo_env [7 \<mapsto> demo_record 0] ?e"
    using cat logged
    by (simp add: engine_logged_def set_bitmap_laws ordered_f64_laws list_ann_laws list_ann_reserves engine_synced_def
        wal_bytes_of_def ckpt_dir_of_def)
  from engine_survives_restart [OF this, of 1 engine_config_default] obtain e' where
    e': "engine_open demo_env (en_catalog ?e) (en_storage ?e) 1 engine_config_default (en_wals ?e) (en_dirs ?e) = Returns (Inr e')"
    "dom (map_of (en_colls e')) = dom (map_of (en_colls ?e))"
    "\<forall>u s s'. map_of (en_colls ?e) u = Some s \<longrightarrow> map_of (en_colls e') u = Some s' \<longrightarrow>
       map_of (co_records (sl_coll s')) = map_of (co_records (sl_coll s))"
    by blast
  have "7 \<in> dom (map_of (en_colls e'))" unfolding e'(2) by simp
  then obtain s' where s': "map_of (en_colls e') 7 = Some s'" by blast
  have "map_of (en_colls ?e) 7 = Some \<lparr>sl_coll = ?c, sl_poisoned = False\<rparr>" by simp
  with e'(3) s' have "map_of (co_records (sl_coll s')) = map_of (co_records ?c)" by fastforce
  then have "map_of (co_records (sl_coll s')) ''a'' = Some ?row" by simp
  then show ?thesis using e'(1) s' by (intro exI [of _ ?e] exI [of _ e'] exI [of _ s']) simp
qed

text \<open>A snapshot is not restored. Collections are looked up by their id as if it were a name, so unless
  some collection of the default scope is named like the id of a collection in the snapshot, restoring
  it reports success and changes nothing at all.\<close>

theorem restore_snapshot_ignored:
  assumes "dec b = Some d"
    and "\<forall>(u, rs)\<in>set d. catalog_get (env_catalog E) ''default_tenant'' ''default_database'' (uuid_to_string (env_catalog E) u) (en_catalog e) = Inr None"
  shows "restore_snapshot E dec b e = (e, Returns (Inr ()))"
proof -
  have "fold (restore_collection E) d e = e"
    using assms(2)
    by (induction d) (auto simp: restore_collection_def get_collection_def from_catalog_def)
  then show ?thesis using assms(1) by (simp add: restore_snapshot_def act_return_def)
qed

text \<open>The witness: the snapshot of a leader with one record, restored into a follower that has the same
  collection without records.\<close>

lemma restore_snapshot_ignored_witness:
  "\<exists>cat leader b dec. map_of (en_colls leader) 7 = Some \<lparr>sl_coll = demo_coll\<lparr>co_records := [(''a'', demo_row)]\<rparr>, sl_poisoned = False\<rparr> \<and>
     engine_snapshot (\<lambda>d. if d = [(7, [demo_row])] then Some [1] else None) leader = Inr b \<and> dec b = Some [(7, [demo_row])] \<and>
     catalog_get_by_id demo_cat_codec 7 cat = Inr (Some (demo_record 0)) \<and>
     restore_snapshot demo_env dec b (demo_engine cat) = (demo_engine cat, Returns (Inr ()))"
proof -
  obtain cat where cat: "catalog_create demo_cat_codec demo_config ensure_tables = Inr (cat, demo_record 0)"
    using demo_create by blast
  note R = demo_catalog [OF cat]
  let ?leader = "(demo_engine cat)\<lparr>en_colls := [(7, \<lparr>sl_coll = demo_coll\<lparr>co_records := [(''a'', demo_row)]\<rparr>, sl_poisoned = False\<rparr>)]\<rparr>"
  have snap: "engine_snapshot (\<lambda>d. if d = [(7, [demo_row])] then Some [1] else None) ?leader = Inr [1]"
    by (simp add: engine_snapshot_def)
  have "ct_by_name cat = [((''default_tenant'', ''default_database'', ''docs''), bytes_of_string (uuid_to_string demo_cat_codec 7))]"
    using cat by (auto simp: catalog_create_def Let_def encode_as_def demo_cat_codec_def ensure_tables_def demo_config_def
        collection_config_new_def name_key_def and_then_Inr_iff split: if_splits)
  moreover have "uuid_to_string demo_cat_codec 7 \<noteq> ''docs''"
  proof -
    have "length (uuid_to_string demo_cat_codec 7) = 16" by (simp add: demo_cat_codec_def string_of_bytes_def)
    then show ?thesis by auto
  qed
  ultimately have none: "catalog_get (env_catalog demo_env) ''default_tenant'' ''default_database''
      (uuid_to_string (env_catalog demo_env) 7) (en_catalog (demo_engine cat)) = Inr None"
    by (simp add: catalog_get_def demo_engine_slot)
  have "restore_snapshot demo_env (\<lambda>b. if b = [1] then Some [(7, [demo_row])] else None) [1] (demo_engine cat) =
      (demo_engine cat, Returns (Inr ()))"
    by (rule restore_snapshot_ignored [where d = "[(7, [demo_row])]"]) (use none in simp_all)
  moreover have "catalog_get_by_id demo_cat_codec 7 cat = Inr (Some (demo_record 0))"
    using redb.get_by_id_eq [OF R, of 7] by simp
  ultimately show ?thesis using snap
    by (intro exI [of _ cat] exI [of _ ?leader] exI [of _ "[1]"] exI [of _ "\<lambda>b. if b = [1] then Some [(7, [demo_row])] else None"]) simp
qed

end
