(* ===== verification/Replication.thy ===== *)
theory Replication
  imports Engine_Semantics
begin

text \<open>
  The follower's replication loop, \<^verbatim>\<open>crates/rekha-cli/src/main.rs\<close> with
  \<^verbatim>\<open>crates/rekha-cluster/src/replication.rs\<close>: one round polls the leader for every collection, applies
  the records of each delta one by one and advances the position. The answers of the leader are a
  parameter; in the step relation they are computed from the leader's engine.
\<close>

section \<open>The loop\<close>

text \<open>An entry that does not decode, or that the engine rejects, is skipped; the position advances anyway.\<close>

fun apply_entries ::
  "('b, 'g) engine_env \<Rightarrow> uuid \<Rightarrow> delta_record list \<Rightarrow> wal_replication \<times> ('b, 'g) engine \<Rightarrow>
     (wal_replication \<times> ('b, 'g) engine) run" where
  "apply_entries E u [] st = Returns st"
| "apply_entries E u (d # ds) st =
     (case st of (rp, e) \<Rightarrow>
        (case dec_op (env_codec E) (dr_payload d) of
           None \<Rightarrow> apply_entries E u ds (mark_applied u (dr_seq d) rp, e)
         | Some op \<Rightarrow>
             (case apply_remote_ops E u [(dr_seq d, op)] e of
                (e', Panics) \<Rightarrow> Panics
              | (e', Returns _) \<Rightarrow> apply_entries E u ds (mark_applied u (dr_seq d) rp, e'))))"

definition follower_poll ::
  "('b, 'g) engine_env \<Rightarrow> uuid \<Rightarrow> (nat \<Rightarrow> http_outcome) \<Rightarrow> wal_replication \<times> ('b, 'g) engine \<Rightarrow>
     (wal_replication \<times> ('b, 'g) engine) run" where
  "follower_poll E u net st =
     (case fst (fetch_delta_with_retry net 3) of
        Inl _ \<Rightarrow> Returns st
      | Inr delta \<Rightarrow> apply_entries E u (wd_records delta) st)"

fun poll_all ::
  "('b, 'g) engine_env \<Rightarrow> (uuid \<Rightarrow> u64 \<Rightarrow> nat \<Rightarrow> http_outcome) \<Rightarrow> collection_record list \<Rightarrow>
     wal_replication \<times> ('b, 'g) engine \<Rightarrow> (wal_replication \<times> ('b, 'g) engine) run" where
  "poll_all E net [] st = Returns st"
| "poll_all E net (r # rs) st =
     (let u = cc_id (cr_config r) in
      run_bind (follower_poll E u (net u (next_seq u (fst st))) st) (poll_all E net rs))"

text \<open>One turn of the loop; the sleep after it is the poll interval.\<close>

definition follower_round ::
  "('b, 'g) engine_env \<Rightarrow> (uuid \<Rightarrow> u64 \<Rightarrow> nat \<Rightarrow> http_outcome) \<Rightarrow> wal_replication \<times> ('b, 'g) engine \<Rightarrow>
     (wal_replication \<times> ('b, 'g) engine) run" where
  "follower_round E net st =
     (case list_collections E ''default_tenant'' ''default_database'' (snd st) of
        Inl _ \<Rightarrow> Returns st
      | Inr rs \<Rightarrow> poll_all E net rs st)"

section \<open>A leader and a follower\<close>

record ('b, 'g) repl_system =
  ry_leader :: "('b, 'g) engine"
  ry_repl :: wal_replication
  ry_follower :: "('b, 'g) engine"

definition slot_of :: "uuid \<Rightarrow> ('b, 'g) engine \<Rightarrow> ('b, 'g) collection option" where
  "slot_of u e = (case map_of (en_colls e) u of None \<Rightarrow> None | Some s \<Rightarrow> if sl_poisoned s then None else Some (sl_coll s))"

text \<open>The writes of the leader are the engine's.\<close>

datatype leader_batch =
    Batch_add "id list" "embedding list" "metadata option list option" "document option list option"
  | Batch_upsert "id list" "embedding list" "metadata option list option" "document option list option"
  | Batch_update "id list" "metadata option list option" "document option list option"
  | Batch_delete "id list"

fun leader_do :: "('b, 'g) engine_env \<Rightarrow> uuid \<Rightarrow> leader_batch \<Rightarrow> (('b, 'g) engine, unit) action" where
  "leader_do E u (Batch_add ids es ms ds) = engine_add E u ids es ms ds"
| "leader_do E u (Batch_upsert ids es ms ds) = engine_upsert E u ids es ms ds"
| "leader_do E u (Batch_update ids ms ds) = engine_update E u ids ms ds"
| "leader_do E u (Batch_delete ids) = engine_delete E u ids"

fun batch_validate :: "leader_batch \<Rightarrow> ('b, 'g) collection \<Rightarrow> engine_error + unit" where
  "batch_validate (Batch_add ids es ms ds) = validate_add ids es ms ds"
| "batch_validate (Batch_upsert ids es ms ds) = validate_upsert ids es ms ds"
| "batch_validate (Batch_update ids ms ds) = validate_update ids ms ds"
| "batch_validate (Batch_delete ids) = (\<lambda>_. Inr ())"

fun batch_operations :: "leader_batch \<Rightarrow> operation list run" where
  "batch_operations (Batch_add ids es ms ds) = add_ops ids es ms ds"
| "batch_operations (Batch_upsert ids es ms ds) = upsert_ops ids es ms ds"
| "batch_operations (Batch_update ids ms ds) = update_ops ids ms ds"
| "batch_operations (Batch_delete ids) = Returns (map Delete ids)"

text \<open>
  Room for a batch: its operations can be encoded, the counters have room, and the log stays below the
  threshold of the next automatic checkpoint (\<open>room_for\<close>), so that nothing of it is pruned.
\<close>

definition write_room :: "('b, 'g) engine_env \<Rightarrow> leader_batch \<Rightarrow> ('b, 'g) collection \<Rightarrow> bool" where
  "write_room E b c \<longleftrightarrow>
     (case batch_operations b of
        Panics \<Rightarrow> True
      | Returns ops \<Rightarrow>
          list_all (writable (env_codec E)) ops \<and> list_all op_wf ops \<and> room_for (length ops) c \<and>
          unat (wal_last_seq (co_wal c)) + length ops < 2 ^ 32)"

text \<open>
  The engine of the leader writes a batch, which its validation may reject; a poll is answered with the
  delta of the moment; or all attempts of a poll fail, however they fail.
\<close>

inductive repl_step ::
  "('b, 'g) engine_env \<Rightarrow> uuid \<Rightarrow> ('b, 'g) repl_system \<Rightarrow> ('b, 'g) repl_system \<Rightarrow> bool" for E u where
  Leader_writes:
    "slot_of u (ry_leader y) = Some c \<Longrightarrow> batch_validate b c = Inr () \<longrightarrow> write_room E b c \<Longrightarrow>
     leader_do E u b (ry_leader y) = (l', r) \<Longrightarrow>
     repl_step E u y (y\<lparr>ry_leader := l'\<rparr>)"
| Poll_answered:
    "engine_wal_delta E u (next_seq u (ry_repl y)) (ry_leader y) = (l', Returns (Inr d)) \<Longrightarrow>
     follower_poll E u (\<lambda>_. HttpOk (Inr d)) (ry_repl y, ry_follower y) = Returns (rp', f') \<Longrightarrow>
     repl_step E u y (y\<lparr>ry_leader := l', ry_repl := rp', ry_follower := f'\<rparr>)"
| Poll_failed:
    "\<forall>i < 3. \<exists>e. fetch_delta (net i) = Inl e \<Longrightarrow>
     follower_poll E u net (ry_repl y, ry_follower y) = Returns (rp', f') \<Longrightarrow>
     repl_step E u y (y\<lparr>ry_repl := rp', ry_follower := f'\<rparr>)"

inductive_cases repl_stepE: "repl_step E u y z"

section \<open>Lemmas\<close>

definition applied_seq :: "uuid \<Rightarrow> wal_replication \<Rightarrow> u64" where
  "applied_seq u rp = (case map_of (rp_last_applied rp) u of Some s \<Rightarrow> s | None \<Rightarrow> 0)"

lemma next_seq_applied: "next_seq u rp = applied_seq u rp + 1"
  by (simp add: next_seq_def applied_seq_def)

lemma applied_mark [simp]: "applied_seq u (mark_applied u s rp) = s"
  by (simp add: applied_seq_def mark_applied_def)

lemma slot_of_Some: "slot_of u e = Some c \<longleftrightarrow> map_of (en_colls e) u = Some \<lparr>sl_coll = c, sl_poisoned = False\<rparr>"
proof (cases "map_of (en_colls e) u")
  case (Some s)
  then show ?thesis by (cases s) (simp add: slot_of_def)
qed (simp add: slot_of_def)

lemma slot_of_store [simp]:
  fixes e :: "('b, 'g) engine"
  shows "slot_of u (store_world u w p e) = (if p then None else Some (cw_coll w))"
  by (simp add: slot_of_def store_world_colls)

lemma on_collection_slot:
  assumes "slot_of u e = Some c"
    and "f \<lparr>cw_coll = c, cw_dir = ckpt_dir_of u (en_dirs e), cw_cat = en_catalog e\<rparr> = (w, Returns r)"
  shows "on_collection u f e = (store_world u w False e, Returns r)"
  using on_collection_run [where f = f and e = e and u = u and s = "\<lparr>sl_coll = c, sl_poisoned = False\<rparr>"] assms
  by (simp add: slot_of_Some)

lemma apply_remote_one:
  assumes "slot_of u e = Some c"
  shows "\<exists>e'. apply_remote_ops E u [(seq, op)] e = (e', Returns (Inr ())) \<and> slot_of u e' = Some (apply_operation E op seq c)"
  using on_collection_slot [OF assms, of "on_coll_sum (\<lambda>c. (fold (\<lambda>(seq, op). apply_operation E op seq) [(seq, op)] c, Inr ()))"]
  by (simp add: apply_remote_ops_def on_coll_sum_def on_coll_def)

text \<open>Applying the records of a delta is replaying them.\<close>

lemma apply_entries_records:
  assumes C: "codec_laws (env_codec E)"
  shows "delta_records (env_codec E) rs = Returns ds \<Longrightarrow> slot_of u e = Some c \<Longrightarrow>
    \<exists>rp' e'. apply_entries E u ds (rp, e) = Returns (rp', e') \<and> slot_of u e' = Some (apply_records E rs c) \<and>
      applied_seq u rp' = (if rs = [] then applied_seq u rp else wr_seq (last rs))"
proof (induction rs arbitrary: ds rp e c)
  case Nil
  then show ?case by (auto simp: apply_records_def)
next
  case (Cons r rs)
  obtain b ds' where d: "enc_op (env_codec E) (wr_op r) = Some b" "delta_records (env_codec E) rs = Returns ds'"
    "ds = \<lparr>dr_seq = wr_seq r, dr_epoch = wr_epoch r, dr_payload = b\<rparr> # ds'"
    using Cons.prems(1) by (auto simp: run_bind_Returns split: option.splits)
  have dec: "dec_op (env_codec E) b = Some (wr_op r)" using C d(1) by (simp add: codec_laws_def)
  obtain e1 where e1: "apply_remote_ops E u [(wr_seq r, wr_op r)] e = (e1, Returns (Inr ()))"
    "slot_of u e1 = Some (apply_operation E (wr_op r) (wr_seq r) c)"
    using apply_remote_one [OF Cons.prems(2)] by blast
  obtain rp' e' where e': "apply_entries E u ds' (mark_applied u (wr_seq r) rp, e1) = Returns (rp', e')"
    "slot_of u e' = Some (apply_records E rs (apply_operation E (wr_op r) (wr_seq r) c))"
    "applied_seq u rp' = (if rs = [] then wr_seq r else wr_seq (last rs))"
    using Cons.IH [OF d(2) e1(2), of "mark_applied u (wr_seq r) rp"] by auto
  then show ?case using d(3) dec e1(1) by (simp add: apply_records_def)
qed

lemma poll_answer:
  "follower_poll E u (\<lambda>_. HttpOk (Inr d)) st = apply_entries E u (wd_records d) st"
  by (simp add: follower_poll_def fetch_delta_with_retry_def eval_nat_numeral)

lemma poll_failure:
  assumes "\<forall>i < 3. \<exists>e. fetch_delta (net i) = Inl e"
  shows "follower_poll E u net st = Returns st"
  using retry_from_ok [of 0 3 net "[]"] assms
  by (auto simp: follower_poll_def fetch_delta_with_retry_def)

section \<open>The invariant\<close>

text \<open>
  The leader's log is complete and its replay gives its records; its vectors have the dimension of the
  collection, which is set; the follower holds the replay of the
  log up to its position.
\<close>

definition leader_ready :: "('b, 'g) collection \<Rightarrow> bool" where
  "leader_ready c \<longleftrightarrow>
     cc_dimension (co_config c) \<noteq> 0 \<and> ui_dimension (co_index c) = cc_dimension (co_config c) \<and> dims_ok c"

definition repl_log :: "('b, 'g) engine_env \<Rightarrow> uuid \<Rightarrow> ('b, 'g) repl_system \<Rightarrow> wal_record list \<Rightarrow> bool" where
  "repl_log E u y rs \<longleftrightarrow>
     (\<exists>c f. slot_of u (ry_leader y) = Some c \<and> slot_of u (ry_follower y) = Some f \<and> coll_inv E c \<and> coll_inv E f \<and>
        leader_ready c \<and> log_repr (env_codec E) (co_wal c) rs \<and> (\<forall>r\<in>set rs. 0 < wr_seq r \<and> op_wf (wr_op r) \<and> enc_op (env_codec E) (wr_op r) \<noteq> None) \<and>
        (rs = [] \<longrightarrow> wal_last_seq (co_wal c) = 0) \<and> unat (wal_last_seq (co_wal c)) < 2 ^ 32 \<and> length rs \<le> unat (wal_last_seq (co_wal c)) \<and>
        map_of (co_records c) = spec_replay rs Map.empty \<and>
        applied_seq u (ry_repl y) \<le> wal_last_seq (co_wal c) \<and>
        map_of (co_records f) = spec_replay (filter (\<lambda>r. wr_seq r \<le> applied_seq u (ry_repl y)) rs) Map.empty \<and>
        unat (co_next_offset f) \<le> length (filter (\<lambda>r. wr_seq r \<le> applied_seq u (ry_repl y)) rs))"

lemma filter_split_sorted:
  fixes f :: "'a \<Rightarrow> 'b :: linorder"
  shows "sorted_wrt (<) (map f xs) \<Longrightarrow> xs = filter (\<lambda>x. f x \<le> a) xs @ filter (\<lambda>x. a < f x) xs"
proof (induction xs)
  case (Cons x xs)
  show ?case
  proof (cases "f x \<le> a")
    case True
    then show ?thesis using Cons by (simp add: not_less)
  next
    case False
    then have "\<forall>y\<in>set xs. a < f y" using Cons.prems by fastforce
    then show ?thesis using False by (auto simp: filter_empty_conv not_le)
  qed
qed simp

text \<open>The leader's answer holds what the follower lacks.\<close>

lemma leader_answers:
  assumes C: "codec_laws (env_codec E)" and L: "slot_of u l = Some c" "log_repr (env_codec E) (co_wal c) rs"
    and enc: "\<forall>r\<in>set rs. enc_op (env_codec E) (wr_op r) \<noteq> None"
    and a: "a \<le> wal_last_seq (co_wal c)" "a \<noteq> - 1"
  obtains l' d where "engine_wal_delta E u (a + 1) l = (l', Returns (Inr d))" "slot_of u l' = Some c"
    "delta_records (env_codec E) (filter (\<lambda>r. a < wr_seq r) rs) = Returns (wd_records d)"
proof -
  let ?w = "\<lparr>cw_coll = c, cw_dir = ckpt_dir_of u (en_dirs l), cw_cat = en_catalog l\<rparr>"
  let ?tail = "filter (\<lambda>r. a < wr_seq r) rs"
  obtain ds where ds: "delta_records (env_codec E) ?tail = Returns ds"
    using delta_records_total [of ?tail] enc by auto
  show thesis
  proof (cases "a + 1 > wal_last_seq (co_wal c)")
    case True
    have "?tail = []"
    proof -
      have "\<not> a < wr_seq r" if "r \<in> set rs" for r
        using wal_log.seq_bounded [OF L(2) that] True unat_succ [OF a(2)] by (simp add: word_le_nat_alt word_less_nat_alt)
      then show ?thesis by (simp add: filter_empty_conv)
    qed
    then have "ds = []" using ds by simp
    let ?d = "\<lparr>wd_leader_node = 0, wd_records = [], wd_target_seq = wal_last_seq (co_wal c)\<rparr>"
    have "engine_wal_delta E u (a + 1) l = (store_world u ?w False l, Returns (Inr ?d))"
      unfolding engine_wal_delta_def by (rule on_collection_slot [OF L(1)]) (use True in \<open>simp add: act_return_def Let_def\<close>)
    then show thesis using ds \<open>ds = []\<close> by (intro that [of "store_world u ?w False l" ?d]) simp_all
  next
    case False
    have rr: "wal_read_range (env_codec E) (a + 1) (wal_last_seq (co_wal c)) (co_wal c) = Inr ?tail"
      using wal_log.range_ok [OF L(2), of "a + 1" "wal_last_seq (co_wal c)"] full_range [OF L(2), of a] a(2) by simp
    let ?d = "\<lparr>wd_leader_node = 0, wd_records = ds, wd_target_seq = wal_last_seq (co_wal c)\<rparr>"
    have "engine_wal_delta E u (a + 1) l = (store_world u ?w False l, Returns (Inr ?d))"
      unfolding engine_wal_delta_def
      by (rule on_collection_slot [OF L(1)])
        (use False rr ds in \<open>simp add: Let_def act_run_def from_wal_records_def\<close>)
    then show thesis using ds by (intro that [of "store_world u ?w False l" ?d]) simp_all
  qed
qed

text \<open>A poll that is answered brings the follower up to the leader.\<close>

lemma poll_catches_up:
  assumes C: "codec_laws (env_codec E)" and I: "repl_log E u y rs"
  obtains l' d rp' f' where "engine_wal_delta E u (next_seq u (ry_repl y)) (ry_leader y) = (l', Returns (Inr d))"
    "follower_poll E u (\<lambda>_. HttpOk (Inr d)) (ry_repl y, ry_follower y) = Returns (rp', f')"
    "repl_log E u (y\<lparr>ry_leader := l', ry_repl := rp', ry_follower := f'\<rparr>) rs"
    "\<exists>c f. slot_of u l' = Some c \<and> slot_of u (ry_leader y) = Some c \<and> slot_of u f' = Some f \<and> map_of (co_records f) = map_of (co_records c)"
proof -
  let ?a = "applied_seq u (ry_repl y)" and ?tail = "filter (\<lambda>r. applied_seq u (ry_repl y) < wr_seq r) rs"
  obtain c f where s: "slot_of u (ry_leader y) = Some c" "slot_of u (ry_follower y) = Some f" "coll_inv E c" "coll_inv E f" "leader_ready c"
    and L: "log_repr (env_codec E) (co_wal c) rs"
    and rs: "\<forall>r\<in>set rs. 0 < wr_seq r \<and> op_wf (wr_op r) \<and> enc_op (env_codec E) (wr_op r) \<noteq> None"
      "rs = [] \<longrightarrow> wal_last_seq (co_wal c) = 0" "unat (wal_last_seq (co_wal c)) < 2 ^ 32" "length rs \<le> unat (wal_last_seq (co_wal c))"
    and recs: "map_of (co_records c) = spec_replay rs Map.empty" "?a \<le> wal_last_seq (co_wal c)"
      "map_of (co_records f) = spec_replay (filter (\<lambda>r. wr_seq r \<le> ?a) rs) Map.empty"
      "unat (co_next_offset f) \<le> length (filter (\<lambda>r. wr_seq r \<le> ?a) rs)"
    using I unfolding repl_log_def by blast
  have a: "?a \<noteq> - 1" using recs(2) rs(3) by (auto simp: word_le_nat_alt unat_max64)
  have enc: "\<forall>r\<in>set rs. enc_op (env_codec E) (wr_op r) \<noteq> None" using rs(1) by blast
  obtain l' d where d: "engine_wal_delta E u (?a + 1) (ry_leader y) = (l', Returns (Inr d))" "slot_of u l' = Some c"
    "delta_records (env_codec E) ?tail = Returns (wd_records d)"
    by (rule leader_answers [OF C s(1) L enc recs(2) a])
  obtain rp' f' where p: "apply_entries E u (wd_records d) (ry_repl y, ry_follower y) = Returns (rp', f')"
    "slot_of u f' = Some (apply_records E ?tail f)"
    "applied_seq u rp' = (if ?tail = [] then ?a else wr_seq (last ?tail))"
    using apply_entries_records [OF C d(3) s(2), of "ry_repl y"] by blast
  have split: "rs = filter (\<lambda>r. wr_seq r \<le> ?a) rs @ ?tail"
    by (rule filter_split_sorted [OF wal_log.repr_sorted [OF L]])
  have lens: "length rs = length (filter (\<lambda>r. wr_seq r \<le> ?a) rs) + length ?tail"
    using arg_cong [OF split, of length] by simp
  have n: "unat (co_next_offset f) + length ?tail < 2 ^ 32" using recs(4) rs(3,4) lens by linarith
  have wf: "list_all (\<lambda>r. op_wf (wr_op r)) ?tail" using rs(1) by (simp add: list_all_iff)
  note A = apply_records_inv [OF s(4) n wf]
  have up: "map_of (co_records (apply_records E ?tail f)) = spec_replay rs Map.empty"
    using A recs(3) split by (metis spec_replay_simps(3))
  have new: "?a \<le> applied_seq u rp' \<and> applied_seq u rp' \<le> wal_last_seq (co_wal c) \<and> filter (\<lambda>r. wr_seq r \<le> applied_seq u rp') rs = rs"
  proof (cases "?tail = []")
    case True
    then show ?thesis using p(3) recs(2) split by simp
  next
    case False
    then have "last rs = last ?tail" using split by (metis last_appendR)
    moreover have "rs \<noteq> []" using False by auto
    ultimately have "applied_seq u rp' = wal_last_seq (co_wal c)" using p(3) False wal_log.repr_last [OF L] by simp
    then show ?thesis using recs(2) wal_log.seq_bounded [OF L] by (simp add: filter_id_conv)
  qed
  have "repl_log E u (y\<lparr>ry_leader := l', ry_repl := rp', ry_follower := f'\<rparr>) rs"
    unfolding repl_log_def
    by (intro exI [of _ c] exI [of _ "apply_records E ?tail f"])
      (use d(2) p(2) s(3,5) A L rs recs(1,4) up new lens in \<open>simp\<close>)
  then show thesis using d p s(1) recs(1) up by (intro that [of l' d rp' f']) (auto simp: next_seq_applied poll_answer)
qed

section \<open>A batch of the leader\<close>

lemma upsert_ops_valid:
  assumes "length ids = length embeddings" "\<forall>xs. metadatas = Some xs \<longrightarrow> length xs = length ids"
    and "\<forall>xs. documents = Some xs \<longrightarrow> length xs = length ids"
  shows "upsert_ops ids embeddings metadatas documents =
    Returns (map (\<lambda>(n, i). Upsert i (embeddings ! n) (item_of metadatas n) (item_of documents n)) (List.enumerate 0 ids))"
  unfolding upsert_ops_def
  by (rule run_map_Returns)
    (use assms in \<open>auto simp: nth_run_def item_at_def item_of_def in_set_enumerate_eq split: option.split\<close>)

lemma update_ops_valid:
  assumes "\<forall>xs. metadatas = Some xs \<longrightarrow> length xs = length ids" "\<forall>xs. documents = Some xs \<longrightarrow> length xs = length ids"
  shows "update_ops ids metadatas documents =
    Returns (map (\<lambda>(n, i). Update i (item_of metadatas n) (item_of documents n)) (List.enumerate 0 ids))"
  unfolding update_ops_def
  by (rule run_map_Returns)
    (use assms in \<open>auto simp: nth_run_def item_at_def item_of_def in_set_enumerate_eq split: option.split\<close>)

text \<open>A validated batch has operations, and their vectors have the dimension.\<close>

lemma batch_operations_valid:
  assumes "batch_validate b c = Inr ()" "cc_dimension (co_config c) \<noteq> 0"
  shows "\<exists>ops. batch_operations b = Returns ops \<and> list_all (op_dim (cc_dimension (co_config c))) ops"
proof (cases b)
  case (Batch_add ids es ms ds)
  then have "length ids = length es" "\<forall>xs. ms = Some xs \<longrightarrow> length xs = length ids"
    "\<forall>xs. ds = Some xs \<longrightarrow> length xs = length ids" "\<forall>e\<in>set es. length e = cc_dimension (co_config c)"
    using assms by (auto simp: validate_add_iff)
  then show ?thesis using Batch_add
    by (auto simp: add_ops_valid add_at_def list_all_iff in_set_enumerate_eq)
next
  case (Batch_upsert ids es ms ds)
  then have "length ids = length es" "\<forall>xs. ms = Some xs \<longrightarrow> length xs = length ids"
    "\<forall>xs. ds = Some xs \<longrightarrow> length xs = length ids" "\<forall>e\<in>set es. length e = cc_dimension (co_config c)"
    using assms
    by (auto simp: validate_upsert_def and_then_Inr_iff check_slice_lengths_iff check_dimensions_iff split: if_splits)
  then show ?thesis using Batch_upsert
    by (auto simp: upsert_ops_valid list_all_iff in_set_enumerate_eq)
next
  case (Batch_update ids ms ds)
  then have "\<forall>xs. ms = Some xs \<longrightarrow> length xs = length ids" "\<forall>xs. ds = Some xs \<longrightarrow> length xs = length ids"
    using assms by (auto simp: validate_update_def and_then_Inr_iff check_slice_lengths_iff)
  then show ?thesis using Batch_update by (auto simp: update_ops_valid list_all_iff)
qed (simp add: list_all_iff)

text \<open>A rejected batch leaves the collection, an accepted one extends its log.\<close>

lemma leader_do_rejected:
  assumes c: "slot_of u l = Some c" and dim: "cc_dimension (co_config c) \<noteq> 0"
    and bad: "batch_validate b c = Inl err" and D: "leader_do E u b l = (l', r)"
  shows "slot_of u l' = Some c \<and> r = Returns (Inl err)"
proof -
  let ?w = "\<lparr>cw_coll = c, cw_dir = ckpt_dir_of u (en_dirs l), cw_cat = en_catalog l\<rparr>"
  have put: "on_collection u (put_batch E u es validate ops) l = (store_world u ?w False l, Returns (Inl err))"
    if "validate c = Inl err" for es validate ops
    by (rule on_collection_slot [OF c], rule put_batch_rejected [OF infer_none]) (use dim that in simp_all)
  have upd: "on_collection u (act_bind (reads validate) k) l = (store_world u ?w False l, Returns (Inl err))"
    if "validate c = Inl err" for validate and k :: "unit \<Rightarrow> (('a, 'b) coll_world, unit) action"
    by (rule on_collection_slot [OF c], rule act_bind_stop) (use that in \<open>simp add: reads_def\<close>)
  have "leader_do E u b l = (store_world u ?w False l, Returns (Inl err))"
    using bad by (cases b) (simp_all add: engine_add_def engine_upsert_def engine_update_def put upd)
  then show ?thesis using D by auto
qed

lemma leader_do_accepted:
  assumes c: "slot_of u l = Some c" and I: "coll_inv E c" and L: "log_repr (env_codec E) (co_wal c) rs"
    and A: "ann_reserves (env_ann E)" and ready: "leader_ready c"
    and ok: "batch_validate b c = Inr ()" "write_room E b c" and D: "leader_do E u b l = (l', r)"
  obtains ops new c' where "slot_of u l' = Some c'" "r = Returns (Inr ())" "batch_result E rs ops c new c'"
    "list_all (writable (env_codec E)) ops" "list_all op_wf ops" "unat (wal_last_seq (co_wal c)) + length ops < 2 ^ 32"
    "batch_operations b = Returns ops"
proof -
  let ?w = "\<lparr>cw_coll = c, cw_dir = ckpt_dir_of u (en_dirs l), cw_cat = en_catalog l\<rparr>"
  have dim: "cc_dimension (co_config c) \<noteq> 0" "ui_dimension (co_index c) = cc_dimension (co_config c)" "dims_ok c"
    using ready by (simp_all add: leader_ready_def)
  obtain ops where ops: "batch_operations b = Returns ops" "list_all (op_dim (cc_dimension (co_config c))) ops"
    using batch_operations_valid [OF ok(1) dim(1)] by blast
  have room: "list_all (writable (env_codec E)) ops" "list_all op_wf ops" "room_for (length ops) c"
    "unat (wal_last_seq (co_wal c)) + length ops < 2 ^ 32"
    using ok(2) ops(1) by (simp_all add: write_room_def)
  have B: "batch_ok E ops c" using room(1,2) ops(2) dim(2) by (simp add: batch_ok_def)
  note goal = that
  have finish: thesis if "f ?w = (?w\<lparr>cw_coll := c'\<rparr>, Returns (Inr ()))" "leader_do E u b = on_collection u f"
    "batch_result E rs ops c new c'" for f new c'
    using on_collection_slot [where f = f, OF c that(1)] that(2,3) D room ops(1) by (intro goal [of c' ops new]) auto
  show thesis
  proof (cases b)
    case (Batch_add ids es ms ds)
    obtain c' new where "put_batch E u es (validate_add ids es ms ds) (Returns ops) ?w = (?w\<lparr>cw_coll := c'\<rparr>, Returns (Inr ()))"
      "batch_result E rs ops (cw_coll ?w) new c'"
      by (rule put_batch_accepted [of E ?w rs ops "validate_add ids es ms ds" u es]) (use I L B room A dim ok(1) Batch_add in simp_all)
    then show thesis using Batch_add ops(1) by (intro finish) (auto simp: engine_add_def)
  next
    case (Batch_upsert ids es ms ds)
    obtain c' new where "put_batch E u es (validate_upsert ids es ms ds) (Returns ops) ?w = (?w\<lparr>cw_coll := c'\<rparr>, Returns (Inr ()))"
      "batch_result E rs ops (cw_coll ?w) new c'"
      by (rule put_batch_accepted [of E ?w rs ops "validate_upsert ids es ms ds" u es]) (use I L B room A dim ok(1) Batch_upsert in simp_all)
    then show thesis using Batch_upsert ops(1) by (intro finish) (auto simp: engine_upsert_def)
  next
    case (Batch_update ids ms ds)
    obtain c' new where w: "act_bind (on_coll_sum (write_ops E ops)) (\<lambda>_. auto_checkpoint E) ?w = (?w\<lparr>cw_coll := c'\<rparr>, Returns (Inr ()))"
      "batch_result E rs ops (cw_coll ?w) new c'"
      by (rule write_batch_accepted [of E ?w rs ops]) (use I L B room A dim in simp_all)
    have "act_bind (reads (validate_update ids ms ds)) (\<lambda>_. act_bind (act_run (Returns ops)) (\<lambda>ops.
        act_bind (on_coll_sum (write_ops E ops)) (\<lambda>_. auto_checkpoint E))) ?w = (?w\<lparr>cw_coll := c'\<rparr>, Returns (Inr ()))"
      using ok(1) w(1) Batch_update by (subst act_bind_go [where x = "()"]) (auto simp: reads_def act_bind_go act_run_def)
    then show thesis using w(2) Batch_update ops(1) by (intro finish) (auto simp: engine_update_def)
  next
    case (Batch_delete ids)
    obtain c' new where w: "act_bind (on_coll_sum (write_ops E ops)) (\<lambda>_. auto_checkpoint E) ?w = (?w\<lparr>cw_coll := c'\<rparr>, Returns (Inr ()))"
      "batch_result E rs ops (cw_coll ?w) new c'"
      by (rule write_batch_accepted [of E ?w rs ops]) (use I L B room A dim in simp_all)
    from w(1) show thesis using w(2) Batch_delete ops(1) by (intro finish) (auto simp: engine_delete_def)
  qed
qed

text \<open>A batch of the leader leaves the follower where it is.\<close>

lemma leader_write_keeps:
  assumes A: "ann_reserves (env_ann E)" and I: "repl_log E u y rs" and c: "slot_of u (ry_leader y) = Some c"
    and R: "batch_validate b c = Inr () \<longrightarrow> write_room E b c" and W: "leader_do E u b (ry_leader y) = (l', r)"
  shows "\<exists>rs'. repl_log E u (y\<lparr>ry_leader := l'\<rparr>) rs'"
proof (cases "batch_validate b c")
  case (Inl err)
  have "leader_ready c" using I c unfolding repl_log_def by auto
  then have "slot_of u l' = Some c" using leader_do_rejected [OF c _ Inl W] by (simp add: leader_ready_def)
  then have "repl_log E u (y\<lparr>ry_leader := l'\<rparr>) rs" using I c by (simp add: repl_log_def)
  then show ?thesis by blast
next
  case (Inr v)
  let ?a = "applied_seq u (ry_repl y)"
  obtain f where s: "slot_of u (ry_follower y) = Some f" "coll_inv E c" "coll_inv E f" "leader_ready c"
    and L: "log_repr (env_codec E) (co_wal c) rs"
    and rs: "\<forall>r\<in>set rs. 0 < wr_seq r \<and> op_wf (wr_op r) \<and> enc_op (env_codec E) (wr_op r) \<noteq> None"
      "rs = [] \<longrightarrow> wal_last_seq (co_wal c) = 0" "length rs \<le> unat (wal_last_seq (co_wal c))"
    and recs: "map_of (co_records c) = spec_replay rs Map.empty" "?a \<le> wal_last_seq (co_wal c)"
      "map_of (co_records f) = spec_replay (filter (\<lambda>r. wr_seq r \<le> ?a) rs) Map.empty"
      "unat (co_next_offset f) \<le> length (filter (\<lambda>r. wr_seq r \<le> ?a) rs)"
    using I c unfolding repl_log_def by auto
  have V: "batch_validate b c = Inr ()" "write_room E b c" using Inr R by simp_all
  obtain ops new c' where l': "slot_of u l' = Some c'" and res: "batch_result E rs ops c new c'"
    and R': "list_all (writable (env_codec E)) ops" "list_all op_wf ops" "unat (wal_last_seq (co_wal c)) + length ops < 2 ^ 32"
    by (rule leader_do_accepted [OF c s(2) L A s(4) V W])
  have w: "map wr_op new = ops" "log_repr (env_codec E) (co_wal c') (rs @ new)" "coll_inv E c'"
    "map_of (co_records c') = spec_replay new (map_of (co_records c))"
    "unat (wal_last_seq (co_wal c')) = unat (wal_last_seq (co_wal c)) + length ops" "\<forall>r\<in>set new. 0 < wr_seq r" "leader_ready c'"
    using res s(4) by (simp_all add: batch_result_def list_all_iff leader_ready_def)
  have above: "wal_last_seq (co_wal c) < wr_seq r" if "r \<in> set new" for r
  proof (cases "rs = []")
    case True
    then show ?thesis using rs(2) w(6) that by simp
  next
    case False
    then have "wr_seq (last rs) < wr_seq r"
      using wal_log.repr_sorted [OF w(2)] that by (auto simp: sorted_wrt_append)
    then show ?thesis using wal_log.repr_last [OF L] False by simp
  qed
  have same: "filter (\<lambda>r. wr_seq r \<le> ?a) (rs @ new) = filter (\<lambda>r. wr_seq r \<le> ?a) rs"
    using above recs(2) by (fastforce simp: filter_empty_conv)
  have len: "length new = length ops" using w(1) by (metis length_map)
  have "op_wf (wr_op r) \<and> enc_op (env_codec E) (wr_op r) \<noteq> None" if "r \<in> set new" for r
    using R'(1,2) w(1) that by (auto simp: list_all_iff writable_def split: option.splits)
  then have ok: "\<forall>r\<in>set (rs @ new). 0 < wr_seq r \<and> op_wf (wr_op r) \<and> enc_op (env_codec E) (wr_op r) \<noteq> None"
    using rs(1) w(6) by auto
  have le: "wal_last_seq (co_wal c) \<le> wal_last_seq (co_wal c')" using w(5) by (simp add: word_le_nat_alt)
  have zero: "rs @ new = [] \<longrightarrow> wal_last_seq (co_wal c') = 0"
    using rs(2) w(5) len by (auto simp: unat_eq_zero)
  have small: "unat (wal_last_seq (co_wal c')) < 2 ^ 32" using R'(3) w(5) by simp
  have "repl_log E u (y\<lparr>ry_leader := l'\<rparr>) (rs @ new)"
    unfolding repl_log_def
    by (intro exI [of _ c'] exI [of _ f])
      (use l' s w(2,3,4,5,7) ok zero small rs(3) recs le same len in \<open>auto simp: spec_replay_simps\<close>)
  then show ?thesis by blast
qed

lemma repl_step_keeps:
  assumes C: "codec_laws (env_codec E)" and A: "ann_reserves (env_ann E)" and I: "repl_log E u y rs" and S: "repl_step E u y z"
  shows "\<exists>rs'. repl_log E u z rs'"
  using S
proof (cases rule: repl_step.cases)
  case (Leader_writes c b l' r)
  then show ?thesis using leader_write_keeps [OF A I Leader_writes(2-4)] by simp
next
  case (Poll_answered l' d rp' f')
  then show ?thesis using poll_catches_up [OF C I] by auto
next
  case (Poll_failed net rp' f')
  then have "rp' = ry_repl y \<and> f' = ry_follower y" using poll_failure [OF Poll_failed(2), of E u] by simp
  then have "z = y" using Poll_failed(1) by simp
  then show ?thesis using I by blast
qed

lemma repl_steps_keep:
  assumes "codec_laws (env_codec E)" "ann_reserves (env_ann E)" "(repl_step E u)\<^sup>*\<^sup>* y z" "\<exists>rs. repl_log E u y rs"
  shows "\<exists>rs. repl_log E u z rs"
  using assms(3,4) by (induction rule: rtranclp_induct) (use repl_step_keeps [OF assms(1,2)] in blast)+

text \<open>
  C4: replication is eventually consistent as long as the leader does not checkpoint. From a leader and a
  follower holding a fresh collection whose dimension is set, after any interleaving of adds, upserts,
  updates and deletes of the leader's engine, valid or rejected, that stay below the threshold of its
  automatic checkpoint, of polls answered with the delta of the moment and of polls whose attempts all
  fail, the follower holds the replay of a prefix of the leader's log, and one more poll that is answered
  makes its records those of the leader. A checkpoint, which prunes the log, ends this; the
  lemma pruned_records_not_shipped below shows how.
\<close>

theorem replication_converges:
  assumes "codec_laws (env_codec E)" and "ann_reserves (env_ann E)"
    and "repl_log E u y []"
    and "(repl_step E u)\<^sup>*\<^sup>* y z"
  shows "\<exists>l' d rp' f' c f. engine_wal_delta E u (next_seq u (ry_repl z)) (ry_leader z) = (l', Returns (Inr d)) \<and>
    follower_poll E u (\<lambda>_. HttpOk (Inr d)) (ry_repl z, ry_follower z) = Returns (rp', f') \<and>
    slot_of u (ry_leader z) = Some c \<and> slot_of u f' = Some f \<and>
    map_of (co_records f) = map_of (co_records c)"
proof -
  obtain rs where "repl_log E u z rs" using repl_steps_keep [OF assms(1,2,4)] assms(3) by blast
  from poll_catches_up [OF assms(1) this] show ?thesis by metis
qed

text \<open>
  What a checkpoint has pruned from the leader's log is never shipped: a follower that starts behind the
  pruned part ends at the leader's position with the replay of the rest only.
\<close>

lemma pruned_records_not_shipped:
  assumes C: "codec_laws (env_codec E)" and L: "slot_of u l = Some c" "log_repr (env_codec E) (co_wal c) rs"
    and rs: "\<forall>r\<in>set rs. 0 < wr_seq r \<and> op_wf (wr_op r) \<and> enc_op (env_codec E) (wr_op r) \<noteq> None"
      "rs \<noteq> []" "length rs < 2 ^ 32"
    and F: "slot_of u f = Some fc" "coll_inv E fc" "map_of (co_records fc) = Map.empty" "co_next_offset fc = 0"
    and new: "applied_seq u rp = 0"
  shows "\<exists>l' d rp' f' fc'. engine_wal_delta E u (next_seq u rp) l = (l', Returns (Inr d)) \<and>
    follower_poll E u (\<lambda>_. HttpOk (Inr d)) (rp, f) = Returns (rp', f') \<and>
    slot_of u f' = Some fc' \<and> map_of (co_records fc') = spec_replay rs Map.empty \<and>
    next_seq u rp' = wal_last_seq (co_wal c) + 1"
proof -
  have all: "filter (\<lambda>r. 0 < wr_seq r) rs = rs" using rs(1) by (simp add: filter_id_conv)
  have enc: "\<forall>r\<in>set rs. enc_op (env_codec E) (wr_op r) \<noteq> None" using rs(1) by blast
  have z: "(0 :: u64) \<le> wal_last_seq (co_wal c)" "(0 :: u64) \<noteq> - 1" by simp_all
  obtain l' d where d: "engine_wal_delta E u (0 + 1) l = (l', Returns (Inr d))" "slot_of u l' = Some c"
    "delta_records (env_codec E) (filter (\<lambda>r. 0 < wr_seq r) rs) = Returns (wd_records d)"
    by (rule leader_answers [OF C L enc z])
  obtain rp' f' where p: "apply_entries E u (wd_records d) (rp, f) = Returns (rp', f')"
    "slot_of u f' = Some (apply_records E rs fc)" "applied_seq u rp' = wr_seq (last rs)"
    using apply_entries_records [OF C d(3) F(1), of rp] rs(2) unfolding all by auto
  have "map_of (co_records (apply_records E rs fc)) = spec_replay rs Map.empty"
    using apply_records_inv [OF F(2), of rs] F(3,4) rs(1,3) by (simp add: list_all_iff)
  then show ?thesis
    using d(1) p wal_log.repr_last [OF L(2)] rs(2) new by (auto simp: next_seq_applied poll_answer)
qed

definition demo_system :: "(u32 set, nat \<times> (u64 \<times> embedding) list) repl_system" where
  "demo_system =
     \<lparr>ry_leader = demo_engine ensure_tables, ry_repl = replication_new ''http://leader'' 1000, ry_follower = demo_engine ensure_tables\<rparr>"

lemma demo_slot: "slot_of 7 (demo_engine cat) = Some demo_coll"
  by (simp add: slot_of_Some demo_engine_slot)

lemma demo_system_start: "repl_log demo_env 7 demo_system []"
proof -
  have "co_records demo_coll = []" "co_next_offset demo_coll = 0" "wal_last_seq (co_wal demo_coll) = 0"
    by (simp_all add: demo_coll_def)
  then show ?thesis
    unfolding repl_log_def
    by (intro exI [of _ demo_coll])
      (simp add: demo_system_def demo_slot demo_coll_inv demo_coll_log applied_seq_def replication_new_def
        leader_ready_def demo_add_facts(9) demo_config_fields demo_coll_parts)
qed

lemma demo_leader_writes:
  "\<exists>z c. repl_step demo_env 7 demo_system z \<and> slot_of 7 (ry_leader z) = Some c \<and> map_of (co_records c) ''a'' \<noteq> None"
proof -
  let ?b = "Batch_add [''a''] [[7]] (Some [Some [(''k'', IntV 1)]]) None" and ?e = "demo_engine ensure_tables"
  note F = demo_add_facts
  let ?ops = "map (add_at [[7]] (Some [Some [(''k'', IntV 1)]]) (None :: document option list option)) (List.enumerate 0 [''a''])"
  have room: "write_room demo_env ?b demo_coll"
    using F(6,7) by (simp add: write_room_def add_ops_valid batch_ok_def demo_coll_parts)
  have valid: "batch_validate ?b demo_coll = Inr ()" using F(4) by simp
  have ready: "leader_ready demo_coll" using F(5,9) by (simp add: leader_ready_def demo_coll_parts demo_config_fields)
  obtain l' r where D: "leader_do demo_env 7 ?b ?e = (l', r)" by fastforce
  obtain ops new c' where w: "slot_of 7 l' = Some c'" "batch_result demo_env [] ops demo_coll new c'" "batch_operations ?b = Returns ops"
    by (rule leader_do_accepted [OF demo_slot F(2,3,8) ready valid room D])
  have "repl_step demo_env 7 demo_system (demo_system\<lparr>ry_leader := l'\<rparr>)"
    by (rule repl_step.Leader_writes [of 7 demo_system demo_coll ?b demo_env l' r])
      (use D room in \<open>simp_all add: demo_system_def demo_slot\<close>)
  moreover have "map_of (co_records c') ''a'' \<noteq> None"
  proof -
    have "ops = ?ops" using w(3) by (simp add: add_ops_valid)
    then have new: "map wr_op new = ?ops" "map_of (co_records c') = spec_replay new (map_of (co_records demo_coll))"
      using w(2) by (simp_all add: batch_result_def)
    show ?thesis using added_row [OF new(1), of 0] new(2) by simp
  qed
  ultimately show ?thesis using w(1) by (intro exI [of _ "demo_system\<lparr>ry_leader := l'\<rparr>"] exI [of _ c']) simp
qed

lemma replication_converges_witness:
  "\<exists>z l' d rp' f' c f. repl_step demo_env 7 demo_system z \<and>
    engine_wal_delta demo_env 7 (next_seq 7 (ry_repl z)) (ry_leader z) = (l', Returns (Inr d)) \<and>
    follower_poll demo_env 7 (\<lambda>_. HttpOk (Inr d)) (ry_repl z, ry_follower z) = Returns (rp', f') \<and>
    slot_of 7 (ry_leader z) = Some c \<and> slot_of 7 f' = Some f \<and>
    map_of (co_records f) = map_of (co_records c) \<and> map_of (co_records f) ''a'' \<noteq> None"
proof -
  obtain z c where z: "repl_step demo_env 7 demo_system z" "slot_of 7 (ry_leader z) = Some c" "map_of (co_records c) ''a'' \<noteq> None"
    using demo_leader_writes by blast
  have C: "codec_laws (env_codec demo_env)" "ann_reserves (env_ann demo_env)" by (simp_all add: demo_ops_codec_laws list_ann_reserves)
  from replication_converges [OF C demo_system_start r_into_rtranclp [where r = "repl_step demo_env 7", OF z(1)]] z
  show ?thesis by (metis option.inject)
qed

end
