(* ===== verification/Rust_Text.thy ===== *)
theory Rust_Text
  imports Rekha_Prelude
begin

text \<open>
  The text functions of the Rust standard library that the cluster stores, the client and the command
  line use: parsing of unsigned numbers, white space, searching. A character of the model is a code
  point below 256, so \<^verbatim>\<open>char::is_whitespace\<close> is the part of Unicode's property in that range.
\<close>

section \<open>Unsigned numbers\<close>

definition is_digit :: "char \<Rightarrow> bool" where
  "is_digit c \<longleftrightarrow> (48 :: nat) \<le> of_char c \<and> (of_char c :: nat) \<le> 57"

fun digits_value :: "string \<Rightarrow> nat \<Rightarrow> nat option" where
  "digits_value [] acc = Some acc"
| "digits_value (c # cs) acc = (if is_digit c then digits_value cs (acc * 10 + (of_char c - 48)) else None)"

text \<open>\<^verbatim>\<open>str::parse\<close> at an unsigned type of \<open>w\<close> bits: an optional plus sign and at least one digit.\<close>

definition parse_unsigned :: "nat \<Rightarrow> string \<Rightarrow> nat option" where
  "parse_unsigned w s =
     (let body = (if starts_with ''+'' s then tl s else s) in
      if body = [] then None
      else (case digits_value body 0 of Some n \<Rightarrow> if n < 2 ^ w then Some n else None | None \<Rightarrow> None))"

definition parse_u64 :: "string \<Rightarrow> u64 option" where
  "parse_u64 s = map_option of_nat (parse_unsigned 64 s)"

lemma digits_value_append: "digits_value (s @ t) acc = Option.bind (digits_value s acc) (digits_value t)"
  by (induction s arbitrary: acc) auto

lemma of_char_digit [simp]: "k < 10 \<Longrightarrow> (of_char (char_of (48 + k :: nat)) :: nat) = 48 + k"
  by (simp add: of_char_of)

lemma nat_to_string_digits: "digits_value (nat_to_string n) 0 = Some n"
proof (induction n rule: nat_to_string.induct)
  case (1 n)
  show ?case
  proof (cases "n < 10")
    case True
    then show ?thesis by (subst nat_to_string.simps) (simp add: is_digit_def)
  next
    case False
    have "n mod 10 < 10" by simp
    then show ?thesis
      using 1 False by (subst nat_to_string.simps) (simp add: digits_value_append is_digit_def)
  qed
qed

lemma nat_to_string_head: "\<exists>c cs. nat_to_string n = c # cs \<and> is_digit c"
proof (cases "nat_to_string n")
  case Nil
  then show ?thesis by (subst (asm) nat_to_string.simps) (auto split: if_splits)
next
  case (Cons c cs)
  then show ?thesis using nat_to_string_digits [of n] by (auto split: if_splits)
qed

lemma parse_nat_to_string: "n < 2 ^ w \<Longrightarrow> parse_unsigned w (nat_to_string n) = Some n"
  using nat_to_string_head [of n] nat_to_string_digits [of n]
  by (auto simp: parse_unsigned_def is_digit_def)

lemma parse_u64_to_string [simp]: "parse_u64 (nat_to_string (unat (n :: u64))) = Some n"
  using parse_nat_to_string [of "unat n" 64] unsigned_less [of n, where 'a = nat] by (simp add: parse_u64_def)

lemma nat_to_string_inj: "nat_to_string m = nat_to_string n \<longleftrightarrow> m = n"
  by (metis nat_to_string_digits option.inject)

section \<open>White space\<close>

definition is_space :: "char \<Rightarrow> bool" where
  "is_space c = (let n = (of_char c :: nat) in 9 \<le> n \<and> n \<le> 13 \<or> n = 32 \<or> n = 133 \<or> n = 160)"

definition trim_start :: "string \<Rightarrow> string" where
  "trim_start s = dropWhile is_space s"

definition trim_end :: "string \<Rightarrow> string" where
  "trim_end s = rev (dropWhile is_space (rev s))"

definition trim :: "string \<Rightarrow> string" where
  "trim s = trim_end (trim_start s)"

text \<open>\<^verbatim>\<open>str::split_whitespace\<close>: the maximal pieces without white space.\<close>

function split_space :: "string \<Rightarrow> string list" where
  "split_space [] = []"
| "split_space (c # cs) =
     (if is_space c then split_space cs
      else (c # takeWhile (\<lambda>x. \<not> is_space x) cs) # split_space (dropWhile (\<lambda>x. \<not> is_space x) cs))"
  by pat_completeness auto
termination by (relation "measure length") (auto simp: le_imp_less_Suc length_dropWhile_le)

text \<open>\<^verbatim>\<open>str::find\<close> of a substring, as the position of its first occurrence.\<close>

fun find_str :: "string \<Rightarrow> string \<Rightarrow> nat option" where
  "find_str pat [] = (if pat = [] then Some 0 else None)"
| "find_str pat (x # xs) = (if starts_with pat (x # xs) then Some 0 else map_option Suc (find_str pat xs))"

definition strip_prefix :: "string \<Rightarrow> string \<Rightarrow> string option" where
  "strip_prefix p s = (if starts_with p s then Some (drop (length p) s) else None)"

lemma starts_with_iff: "starts_with p s \<longleftrightarrow> (\<exists>t. s = p @ t)"
  by (induction p s rule: starts_with.induct) auto

lemma strip_prefix_append [simp]: "strip_prefix p (p @ s) = Some s"
  by (simp add: strip_prefix_def starts_with_iff)

lemma trim_no_space: "list_all (\<lambda>c. \<not> is_space c) s \<Longrightarrow> trim s = s"
proof -
  assume "list_all (\<lambda>c. \<not> is_space c) s"
  then have "\<forall>c \<in> set s. \<not> is_space c" by (simp add: list_all_iff)
  then have "dropWhile is_space s = s" "dropWhile is_space (rev s) = rev s"
    by (metis dropWhile_eq_self_iff list.set_sel(1)) (metis \<open>\<forall>c\<in>set s. \<not> is_space c\<close> dropWhile_eq_self_iff hd_in_set set_rev)
  then show ?thesis by (simp add: trim_def trim_start_def trim_end_def)
qed

end
