(* ===== verification/Raft_Log.thy ===== *)
theory Raft_Log
  imports Cluster_Types Rust_Text
begin

text \<open>
  The two stores of the Raft log, \<^verbatim>\<open>crates/rekha-cluster/src/log_store.rs\<close> (in memory) and
  \<^verbatim>\<open>redb_log_store.rs\<close> (three key-value tables). The consensus library calls them through one trait,
  here the locale \<open>raft_log\<close>, of which both stores are interpretations. Votes and memberships are opaque
  types of the library; \<^verbatim>\<open>bincode\<close> is the parameter \<open>raft_codec\<close>. Errors of the database itself are not
  modelled. Bounds are computed in 64-bit arithmetic that wraps.
\<close>

section \<open>Entries\<close>

record log_id =
  li_term :: u64
  li_node :: u64
  li_index :: u64

datatype 'm entry_payload = BlankEntry | NormalEntry cluster_operation | MembershipEntry 'm

record 'm raft_entry =
  re_log_id :: log_id
  re_payload :: "'m entry_payload"

abbreviation entry_index :: "'m raft_entry \<Rightarrow> u64" where
  "entry_index e \<equiv> li_index (re_log_id e)"

record log_state =
  ls_last_purged :: "log_id option"
  ls_last :: "log_id option"

record 'm stored_membership =
  sm_log_id :: "log_id option"
  sm_membership :: 'm

record 'm snapshot_meta =
  sn_last_log_id :: "log_id option"
  sn_last_membership :: "'m stored_membership"
  sn_snapshot_id :: string

record 'm raft_snapshot =
  sn_meta :: "'m snapshot_meta"
  sn_data :: bytes

datatype raft_store_error = RaftIo

datatype range_bound = Bound_included u64 | Bound_excluded u64 | Bound_unbounded

fun range_start :: "range_bound \<Rightarrow> u64" where
  "range_start (Bound_included n) = n"
| "range_start (Bound_excluded n) = n + 1"
| "range_start Bound_unbounded = 0"

fun range_end :: "u64 \<Rightarrow> range_bound \<Rightarrow> u64" where
  "range_end cap (Bound_included n) = n + 1"
| "range_end cap (Bound_excluded n) = n"
| "range_end cap Bound_unbounded = cap"

definition or_else :: "'a option \<Rightarrow> 'a option \<Rightarrow> 'a option" where
  "or_else x y = (case x of Some a \<Rightarrow> Some a | None \<Rightarrow> y)"

section \<open>The store in memory\<close>

record ('m, 'v) mem_log =
  ml_entries :: "'m raft_entry list"
  ml_last_purged :: "log_id option"
  ml_committed :: "log_id option"
  ml_vote :: "'v option"

definition mem_new :: "('m, 'v) mem_log" where
  "mem_new = \<lparr>ml_entries = [], ml_last_purged = None, ml_committed = None, ml_vote = None\<rparr>"

definition mem_last_log_id :: "('m, 'v) mem_log \<Rightarrow> log_id option" where
  "mem_last_log_id s = (if ml_entries s = [] then None else Some (re_log_id (last (ml_entries s))))"

definition mem_log_state :: "('m, 'v) mem_log \<Rightarrow> log_state" where
  "mem_log_state s = \<lparr>ls_last_purged = ml_last_purged s, ls_last = or_else (mem_last_log_id s) (ml_last_purged s)\<rparr>"

definition mem_entries_between :: "u64 \<Rightarrow> u64 \<Rightarrow> ('m, 'v) mem_log \<Rightarrow> 'm raft_entry list" where
  "mem_entries_between start stop s = filter (\<lambda>e. start \<le> entry_index e \<and> entry_index e < stop) (ml_entries s)"

definition mem_get_entries :: "range_bound \<Rightarrow> range_bound \<Rightarrow> ('m, 'v) mem_log \<Rightarrow> 'm raft_entry list" where
  "mem_get_entries lo hi = mem_entries_between (range_start lo) (range_end (- 1) hi)"

definition mem_save_vote :: "'v \<Rightarrow> ('m, 'v) mem_log \<Rightarrow> ('m, 'v) mem_log" where
  "mem_save_vote v s = s\<lparr>ml_vote := Some v\<rparr>"

definition mem_read_vote :: "('m, 'v) mem_log \<Rightarrow> 'v option" where
  "mem_read_vote s = ml_vote s"

definition mem_save_committed :: "log_id option \<Rightarrow> ('m, 'v) mem_log \<Rightarrow> ('m, 'v) mem_log" where
  "mem_save_committed c s = s\<lparr>ml_committed := c\<rparr>"

definition mem_read_committed :: "('m, 'v) mem_log \<Rightarrow> log_id option" where
  "mem_read_committed s = ml_committed s"

definition mem_append :: "'m raft_entry list \<Rightarrow> ('m, 'v) mem_log \<Rightarrow> ('m, 'v) mem_log" where
  "mem_append es s = s\<lparr>ml_entries := ml_entries s @ es\<rparr>"

definition mem_truncate :: "log_id \<Rightarrow> ('m, 'v) mem_log \<Rightarrow> ('m, 'v) mem_log" where
  "mem_truncate l s = s\<lparr>ml_entries := filter (\<lambda>e. entry_index e < li_index l) (ml_entries s)\<rparr>"

definition mem_purge :: "log_id \<Rightarrow> ('m, 'v) mem_log \<Rightarrow> ('m, 'v) mem_log" where
  "mem_purge l s =
     s\<lparr>ml_last_purged := Some l, ml_entries := filter (\<lambda>e. li_index l < entry_index e) (ml_entries s)\<rparr>"

text \<open>The snapshot of the log store is empty; its id is random.\<close>

definition log_snapshot :: "'m stored_membership \<Rightarrow> string \<Rightarrow> log_id option \<Rightarrow> 'm raft_snapshot" where
  "log_snapshot default_membership snapshot_id last_id =
     \<lparr>sn_meta = \<lparr>sn_last_log_id = last_id, sn_last_membership = default_membership, sn_snapshot_id = snapshot_id\<rparr>,
      sn_data = []\<rparr>"

definition mem_build_snapshot :: "'m stored_membership \<Rightarrow> string \<Rightarrow> ('m, 'v) mem_log \<Rightarrow> 'm raft_snapshot" where
  "mem_build_snapshot dm sid s = log_snapshot dm sid (or_else (mem_last_log_id s) (ml_last_purged s))"

section \<open>The store on disk\<close>

record ('m, 'v) raft_codec =
  enc_entry :: "'m raft_entry \<Rightarrow> bytes option"
  dec_entry :: "bytes \<Rightarrow> 'm raft_entry option"
  enc_vote :: "'v \<Rightarrow> bytes option"
  dec_vote :: "bytes \<Rightarrow> 'v option"
  enc_purged :: "u64 option \<times> u64 option \<Rightarrow> bytes option"
  dec_purged :: "bytes \<Rightarrow> (u64 option \<times> u64 option) option"

definition raft_codec_laws :: "('m, 'v) raft_codec \<Rightarrow> bool" where
  "raft_codec_laws K \<longleftrightarrow>
     (\<forall>e b. enc_entry K e = Some b \<longrightarrow> dec_entry K b = Some e) \<and>
     (\<forall>v b. enc_vote K v = Some b \<longrightarrow> dec_vote K b = Some v) \<and>
     (\<forall>p. \<exists>b. enc_purged K p = Some b \<and> dec_purged K b = Some p)"

record redb_tables =
  rt_log :: "(string \<times> bytes) list"
  rt_vote :: "(string \<times> bytes) list"
  rt_state :: "(string \<times> bytes) list"

record redb_log =
  rl_db :: redb_tables
  rl_last_purged :: "log_id option"

text \<open>The persisted position has an index and a term, but no node.\<close>

definition last_purged_log_id :: "u64 option \<times> u64 option \<Rightarrow> log_id option" where
  "last_purged_log_id st =
     (case st of (Some idx, Some t) \<Rightarrow> Some \<lparr>li_term = t, li_node = 0, li_index = idx\<rparr> | _ \<Rightarrow> None)"

definition read_log_entries :: "('m, 'v) raft_codec \<Rightarrow> redb_tables \<Rightarrow> u64 \<Rightarrow> u64 \<Rightarrow> 'm raft_entry list" where
  "read_log_entries K db start stop =
     List.map_filter (\<lambda>idx. Option.bind (map_of (rt_log db) (nat_to_string idx)) (dec_entry K)) [unat start ..< unat stop]"

fun last_log_of :: "('m, 'v) raft_codec \<Rightarrow> (string \<times> bytes) list \<Rightarrow> log_id option \<Rightarrow> log_id option" where
  "last_log_of K [] mx = mx"
| "last_log_of K ((k, v) # rest) mx =
     (case parse_u64 k of
        None \<Rightarrow> last_log_of K rest mx
      | Some _ \<Rightarrow>
          (case dec_entry K v of
             None \<Rightarrow> last_log_of K rest mx
           | Some e \<Rightarrow>
               last_log_of K rest
                 (case mx of
                    None \<Rightarrow> Some (re_log_id e)
                  | Some m \<Rightarrow> if li_index m < entry_index e then Some (re_log_id e) else Some m)))"

definition find_last_log_id :: "('m, 'v) raft_codec \<Rightarrow> redb_tables \<Rightarrow> log_id option" where
  "find_last_log_id K db = last_log_of K (by_key (rt_log db)) None"

definition redb_open :: "('m, 'v) raft_codec \<Rightarrow> redb_tables \<Rightarrow> redb_log" where
  "redb_open K db =
     \<lparr>rl_db = db,
      rl_last_purged =
        (case map_of (rt_state db) ''state'' of
           None \<Rightarrow> None
         | Some b \<Rightarrow> Option.bind (dec_purged K b) last_purged_log_id)\<rparr>"

definition save_state :: "('m, 'v) raft_codec \<Rightarrow> redb_log \<Rightarrow> redb_log \<times> (raft_store_error + unit)" where
  "save_state K s =
     (case enc_purged K (map_option li_index (rl_last_purged s), map_option li_term (rl_last_purged s)) of
        None \<Rightarrow> (s, Inl RaftIo)
      | Some b \<Rightarrow> (s\<lparr>rl_db := (rl_db s)\<lparr>rt_state := AList.update ''state'' b (rt_state (rl_db s))\<rparr>\<rparr>, Inr ()))"

definition redb_get_entries :: "('m, 'v) raft_codec \<Rightarrow> range_bound \<Rightarrow> range_bound \<Rightarrow> redb_log \<Rightarrow> 'm raft_entry list" where
  "redb_get_entries K lo hi s = read_log_entries K (rl_db s) (range_start lo) (range_end 1000000 hi)"

definition redb_log_state :: "('m, 'v) raft_codec \<Rightarrow> redb_log \<Rightarrow> log_state" where
  "redb_log_state K s =
     \<lparr>ls_last_purged = rl_last_purged s, ls_last = or_else (find_last_log_id K (rl_db s)) (rl_last_purged s)\<rparr>"

definition redb_save_vote :: "('m, 'v) raft_codec \<Rightarrow> 'v \<Rightarrow> redb_log \<Rightarrow> redb_log \<times> (raft_store_error + unit)" where
  "redb_save_vote K v s =
     (case enc_vote K v of
        None \<Rightarrow> (s, Inl RaftIo)
      | Some b \<Rightarrow> (s\<lparr>rl_db := (rl_db s)\<lparr>rt_vote := AList.update ''vote'' b (rt_vote (rl_db s))\<rparr>\<rparr>, Inr ()))"

definition redb_read_vote :: "('m, 'v) raft_codec \<Rightarrow> redb_log \<Rightarrow> raft_store_error + 'v option" where
  "redb_read_vote K s =
     (case map_of (rt_vote (rl_db s)) ''vote'' of
        None \<Rightarrow> Inr None
      | Some b \<Rightarrow> (case dec_vote K b of None \<Rightarrow> Inl RaftIo | Some v \<Rightarrow> Inr (Some v)))"

text \<open>An append is one transaction: an entry that cannot be serialized leaves the tables as they were.\<close>

definition entry_key :: "'m raft_entry \<Rightarrow> string" where
  "entry_key e = nat_to_string (unat (entry_index e))"

fun insert_entries :: "('m, 'v) raft_codec \<Rightarrow> 'm raft_entry list \<Rightarrow> (string \<times> bytes) list \<Rightarrow> (string \<times> bytes) list option" where
  "insert_entries K [] t = Some t"
| "insert_entries K (e # es) t =
     (case enc_entry K e of
        None \<Rightarrow> None
      | Some b \<Rightarrow> insert_entries K es (AList.update (entry_key e) b t))"

definition redb_append :: "('m, 'v) raft_codec \<Rightarrow> 'm raft_entry list \<Rightarrow> redb_log \<Rightarrow> redb_log \<times> (raft_store_error + unit)" where
  "redb_append K es s =
     (case insert_entries K es (rt_log (rl_db s)) of
        None \<Rightarrow> (s, Inl RaftIo)
      | Some t \<Rightarrow> (s\<lparr>rl_db := (rl_db s)\<lparr>rt_log := t\<rparr>\<rparr>, Inr ()))"

definition remove_keys :: "(u64 \<Rightarrow> bool) \<Rightarrow> (string \<times> bytes) list \<Rightarrow> (string \<times> bytes) list" where
  "remove_keys P t =
     fold AList.delete (map fst (filter (\<lambda>(k, v). case parse_u64 k of None \<Rightarrow> False | Some i \<Rightarrow> P i) (by_key t))) t"

definition redb_truncate :: "log_id \<Rightarrow> redb_log \<Rightarrow> redb_log \<times> (raft_store_error + unit)" where
  "redb_truncate l s =
     (s\<lparr>rl_db := (rl_db s)\<lparr>rt_log := remove_keys (\<lambda>i. li_index l \<le> i) (rt_log (rl_db s))\<rparr>\<rparr>, Inr ())"

definition redb_purge :: "('m, 'v) raft_codec \<Rightarrow> log_id \<Rightarrow> redb_log \<Rightarrow> redb_log \<times> (raft_store_error + unit)" where
  "redb_purge K l s =
     save_state K
       (s\<lparr>rl_db := (rl_db s)\<lparr>rt_log := remove_keys (\<lambda>i. i \<le> li_index l) (rt_log (rl_db s))\<rparr>, rl_last_purged := Some l\<rparr>)"

definition redb_build_snapshot ::
  "('m, 'v) raft_codec \<Rightarrow> 'm stored_membership \<Rightarrow> string \<Rightarrow> redb_log \<Rightarrow> 'm raft_snapshot" where
  "redb_build_snapshot K dm sid s = log_snapshot dm sid (or_else (find_last_log_id K (rl_db s)) (rl_last_purged s))"

section \<open>The contract of a log store\<close>

text \<open>A store represents a log, a list of entries with ascending indexes, and the last purged position.\<close>

definition log_ascending :: "'m raft_entry list \<Rightarrow> bool" where
  "log_ascending es \<longleftrightarrow> sorted_wrt (<) (map (\<lambda>e. entry_index e) es)"

lemma log_ascending_filter [simp, intro]: "log_ascending es \<Longrightarrow> log_ascending (filter P es)"
  unfolding log_ascending_def by (simp add: sorted_wrt_map sorted_wrt_filter)

locale raft_log =
  fixes repr :: "'s \<Rightarrow> 'm raft_entry list \<Rightarrow> log_id option \<Rightarrow> bool"
    and encodable :: "'m raft_entry \<Rightarrow> bool"
    and get :: "u64 \<Rightarrow> u64 \<Rightarrow> 's \<Rightarrow> 'm raft_entry list"
    and state :: "'s \<Rightarrow> log_state"
    and app :: "'m raft_entry list \<Rightarrow> 's \<Rightarrow> 's \<times> (raft_store_error + unit)"
    and trunc :: "log_id \<Rightarrow> 's \<Rightarrow> 's \<times> (raft_store_error + unit)"
    and purge :: "log_id \<Rightarrow> 's \<Rightarrow> 's \<times> (raft_store_error + unit)"
  assumes get_repr: "repr s es p \<Longrightarrow> get lo hi s = filter (\<lambda>e. lo \<le> entry_index e \<and> entry_index e < hi) es"
    and state_repr: "repr s es p \<Longrightarrow>
      state s = \<lparr>ls_last_purged = p, ls_last = (if es = [] then p else Some (re_log_id (last es)))\<rparr>"
    and append_repr: "repr s es p \<Longrightarrow> log_ascending (es @ new) \<Longrightarrow> list_all encodable new \<Longrightarrow>
      \<exists>s'. app new s = (s', Inr ()) \<and> repr s' (es @ new) p"
    and truncate_repr: "repr s es p \<Longrightarrow>
      \<exists>s'. trunc l s = (s', Inr ()) \<and> repr s' (filter (\<lambda>e. entry_index e < li_index l) es) p"
    and purge_repr: "repr s es p \<Longrightarrow>
      \<exists>s'. purge l s = (s', Inr ()) \<and> repr s' (filter (\<lambda>e. li_index l < entry_index e) es) (Some l)"

datatype 'm log_command = Cmd_append "'m raft_entry list" | Cmd_truncate log_id | Cmd_purge log_id

text \<open>What a command does to the log, and when the consensus library may issue it: appended entries follow
  the last one directly, and a purge does not go back.\<close>

fun log_effect :: "'m log_command \<Rightarrow> 'm raft_entry list \<times> log_id option \<Rightarrow> 'm raft_entry list \<times> log_id option" where
  "log_effect (Cmd_append new) (es, p) = (es @ new, p)"
| "log_effect (Cmd_truncate l) (es, p) = (filter (\<lambda>e. entry_index e < li_index l) es, p)"
| "log_effect (Cmd_purge l) (es, p) = (filter (\<lambda>e. li_index l < entry_index e) es, Some l)"

definition first_index :: "log_id option \<Rightarrow> nat" where
  "first_index p = (case p of None \<Rightarrow> 0 | Some l \<Rightarrow> unat (li_index l) + 1)"

text \<open>The indexes of the log have no gap and start right after the purged position.\<close>

definition log_gapless :: "'m raft_entry list \<times> log_id option \<Rightarrow> bool" where
  "log_gapless = (\<lambda>(es, p). map (\<lambda>e. unat (entry_index e)) es = [first_index p ..< first_index p + length es])"

fun command_ok :: "('m raft_entry \<Rightarrow> bool) \<Rightarrow> 'm log_command \<Rightarrow> 'm raft_entry list \<times> log_id option \<Rightarrow> bool" where
  "command_ok enc (Cmd_append new) (es, p) =
     (list_all enc new \<and>
      map (\<lambda>e. unat (entry_index e)) new = [first_index p + length es ..< first_index p + length es + length new])"
| "command_ok enc (Cmd_truncate l) (es, p) = True"
| "command_ok enc (Cmd_purge l) (es, p) = (case p of None \<Rightarrow> True | Some l0 \<Rightarrow> li_index l0 \<le> li_index l)"

fun commands_ok :: "('m raft_entry \<Rightarrow> bool) \<Rightarrow> 'm log_command list \<Rightarrow> 'm raft_entry list \<times> log_id option \<Rightarrow> bool" where
  "commands_ok enc [] a = True"
| "commands_ok enc (c # cs) a = (command_ok enc c a \<and> commands_ok enc cs (log_effect c a))"

fun run_command ::
  "('m raft_entry list \<Rightarrow> 's \<Rightarrow> 's \<times> 'r) \<Rightarrow> (log_id \<Rightarrow> 's \<Rightarrow> 's \<times> 'r) \<Rightarrow> (log_id \<Rightarrow> 's \<Rightarrow> 's \<times> 'r) \<Rightarrow>
     'm log_command \<Rightarrow> 's \<Rightarrow> 's \<times> 'r" where
  "run_command app trunc purge (Cmd_append es) = app es"
| "run_command app trunc purge (Cmd_truncate l) = trunc l"
| "run_command app trunc purge (Cmd_purge l) = purge l"

fun run_commands ::
  "('m raft_entry list \<Rightarrow> 's \<Rightarrow> 's \<times> ('e + unit)) \<Rightarrow> (log_id \<Rightarrow> 's \<Rightarrow> 's \<times> ('e + unit)) \<Rightarrow> (log_id \<Rightarrow> 's \<Rightarrow> 's \<times> ('e + unit)) \<Rightarrow>
     'm log_command list \<Rightarrow> 's \<Rightarrow> 's \<times> ('e + unit)" where
  "run_commands app trunc purge [] s = (s, Inr ())"
| "run_commands app trunc purge (c # cs) s =
     (case run_command app trunc purge c s of
        (s', Inl e) \<Rightarrow> (s', Inl e)
      | (s', Inr _) \<Rightarrow> run_commands app trunc purge cs s')"

lemma gapless_ascending: "log_gapless (es, p) \<Longrightarrow> log_ascending es"
proof -
  assume "log_gapless (es, p)"
  then have "sorted_wrt (<) (map (\<lambda>e. unat (entry_index e)) es)" by (simp add: log_gapless_def)
  then show ?thesis by (simp add: log_ascending_def sorted_wrt_map word_less_nat_alt)
qed

lemma upt_filter_less: "filter (\<lambda>i. i < n) [a ..< b] = [a ..< min b n]"
  by (induction b) (auto simp: min_def not_less_eq_eq dest: le_antisym)

lemma upt_filter_greater: "filter (\<lambda>i. n < i) [a ..< b] = [max a (Suc n) ..< b]"
  by (induction b) (auto simp: max_def)

lemma map_filter_upt:
  assumes "map f es = [a ..< a + length es]" "filter P [a ..< a + length es] = [a' ..< b']" "\<And>e. e \<in> set es \<Longrightarrow> Q e \<longleftrightarrow> P (f e)"
  shows "map f (filter Q es) = [a' ..< a' + length (filter Q es)]"
proof -
  have "filter Q es = filter (P \<circ> f) es" using assms(3) by (intro filter_cong) auto
  then have "map f (filter Q es) = [a' ..< b']" using assms(1,2) by (simp add: filter_map [symmetric])
  moreover from this have "length (filter Q es) = b' - a'" by (metis length_map length_upt)
  ultimately show ?thesis by (cases "a' \<le> b'") simp_all
qed

lemma command_gapless:
  assumes "log_gapless (es, p)" "command_ok enc c (es, p)"
  shows "log_gapless (log_effect c (es, p))"
proof (cases c)
  case (Cmd_append new)
  then show ?thesis
    using assms upt_add_eq_append [of "first_index p" "first_index p + length es" "length new"]
    by (simp add: log_gapless_def add.assoc)
next
  case (Cmd_truncate l)
  show ?thesis
    unfolding Cmd_truncate log_gapless_def log_effect.simps prod.case
    by (rule map_filter_upt [OF _ upt_filter_less]) (use assms in \<open>simp_all add: log_gapless_def word_less_nat_alt\<close>)
next
  case (Cmd_purge l)
  have le: "first_index p \<le> unat (li_index l) + 1"
    using assms(2) Cmd_purge by (auto simp: first_index_def word_le_nat_alt split: option.splits)
  have "map (\<lambda>e. unat (entry_index e)) (filter (\<lambda>e. li_index l < entry_index e) es) =
      [max (first_index p) (Suc (unat (li_index l))) ..< max (first_index p) (Suc (unat (li_index l))) + length (filter (\<lambda>e. li_index l < entry_index e) es)]"
    by (rule map_filter_upt [OF _ upt_filter_greater]) (use assms in \<open>simp_all add: log_gapless_def word_less_nat_alt\<close>)
  moreover have "max (first_index p) (Suc (unat (li_index l))) = Suc (unat (li_index l))" using le by simp
  ultimately show ?thesis unfolding Cmd_purge log_gapless_def log_effect.simps prod.case by (simp add: first_index_def)
qed

context raft_log begin

lemma run_repr:
  "repr s es p \<Longrightarrow> log_gapless (es, p) \<Longrightarrow> commands_ok encodable cs (es, p) \<Longrightarrow>
   \<exists>s' es' p'. run_commands app trunc purge cs s = (s', Inr ()) \<and> fold log_effect cs (es, p) = (es', p') \<and>
     repr s' es' p' \<and> log_gapless (es', p')"
proof (induction cs arbitrary: s es p)
  case (Cons c cs)
  obtain es1 p1 where e1: "log_effect c (es, p) = (es1, p1)" by fastforce
  have g: "log_gapless (es1, p1)" using command_gapless [OF Cons.prems(2), of encodable c] Cons.prems(3) e1 by simp
  have "\<exists>s1. run_command app trunc purge c s = (s1, Inr ()) \<and> repr s1 es1 p1"
  proof (cases c)
    case (Cmd_append new)
    then show ?thesis
      using append_repr [OF Cons.prems(1), of new] gapless_ascending [OF g] Cons.prems(3) e1 by auto
  next
    case (Cmd_truncate l)
    then show ?thesis using truncate_repr [OF Cons.prems(1), of l] e1 by simp
  next
    case (Cmd_purge l)
    then show ?thesis using purge_repr [OF Cons.prems(1), of l] e1 by simp
  qed
  then obtain s1 where s1: "run_command app trunc purge c s = (s1, Inr ())" "repr s1 es1 p1" by blast
  then show ?case using Cons.IH [OF s1(2) g] Cons.prems(3) e1 by simp
qed simp

end

section \<open>The store in memory meets it\<close>

definition mem_repr :: "('m, 'v) mem_log \<Rightarrow> 'm raft_entry list \<Rightarrow> log_id option \<Rightarrow> bool" where
  "mem_repr s es p \<longleftrightarrow> ml_entries s = es \<and> ml_last_purged s = p"

interpretation mem: raft_log mem_repr "\<lambda>_. True" mem_entries_between mem_log_state
  "\<lambda>es s. (mem_append es s, Inr ())" "\<lambda>l s. (mem_truncate l s, Inr ())" "\<lambda>l s. (mem_purge l s, Inr ())"
  by unfold_locales
    (auto simp: mem_repr_def mem_entries_between_def mem_log_state_def mem_last_log_id_def or_else_def
      mem_append_def mem_truncate_def mem_purge_def split: option.split)

section \<open>The store on disk meets it\<close>

lemma map_of_fold_delete: "map_of (fold AList.delete ks t) k = (if k \<in> set ks then None else map_of t k)"
  by (induction ks arbitrary: t) (auto simp: delete_conv')

lemma remove_keys_get:
  "map_of (remove_keys P t) k = (case parse_u64 k of Some i \<Rightarrow> if P i then None else map_of t k | None \<Rightarrow> map_of t k)"
proof -
  let ?Q = "\<lambda>k. case parse_u64 k of None \<Rightarrow> False | Some i \<Rightarrow> P i"
  have "set (map fst (filter (\<lambda>(k, v). ?Q k) (by_key t))) = {k \<in> fst ` set t. ?Q k}" by force
  then have "map_of (remove_keys P t) k = (if k \<in> fst ` set t \<and> ?Q k then None else map_of t k)"
    unfolding remove_keys_def map_of_fold_delete by simp
  moreover have "k \<notin> fst ` set t \<Longrightarrow> map_of t k = None" by (simp add: map_of_eq_None_iff)
  ultimately show ?thesis by (cases "k \<in> fst ` set t") (simp_all split: option.split)
qed

lemma remove_keys_wf [simp]: "hm_wf t \<Longrightarrow> hm_wf (remove_keys P t)"
proof -
  have "hm_wf t \<Longrightarrow> hm_wf (fold AList.delete ks t)" for ks
    by (induction ks arbitrary: t) (auto intro: distinct_delete simp: hm_wf_def)
  then show "hm_wf t \<Longrightarrow> hm_wf (remove_keys P t)" by (simp add: remove_keys_def)
qed

lemma entry_key_parse [simp]: "parse_u64 (entry_key e) = Some (entry_index e)"
  by (simp add: entry_key_def)

lemma entry_key_eq: "entry_key e = entry_key e' \<longleftrightarrow> entry_index e = entry_index e'"
  by (simp add: entry_key_def nat_to_string_inj word_unat_eq_iff)

lemma ascending_index_inj: "log_ascending es \<Longrightarrow> e \<in> set es \<Longrightarrow> e' \<in> set es \<Longrightarrow> entry_index e = entry_index e' \<Longrightarrow> e = e'"
  unfolding log_ascending_def by (induction es) auto

lemma ascending_last: "log_ascending es \<Longrightarrow> e \<in> set es \<Longrightarrow> entry_index e \<le> entry_index (last es)"
  unfolding log_ascending_def by (induction es) (auto intro: less_imp_le)

lemma strict_sorted_distinct: "sorted_wrt (<) (map (f :: 'a \<Rightarrow> nat) es) \<Longrightarrow> distinct es"
  by (simp add: strict_sorted_iff distinct_map)

text \<open>Probing ascending positions one by one is filtering.\<close>

lemma map_filter_probe:
  fixes f :: "'a \<Rightarrow> nat"
  assumes "sorted_wrt (<) (map f es)" "\<And>i e. g i = Some e \<longleftrightarrow> e \<in> set es \<and> f e = i"
  shows "List.map_filter g [lo ..< hi] = filter (\<lambda>e. lo \<le> f e \<and> f e < hi) es"
proof (induction hi)
  case 0
  then show ?case by (simp add: List.map_filter_simps)
next
  case (Suc hi)
  have at: "filter (\<lambda>e. f e = hi) es = (case g hi of None \<Rightarrow> [] | Some e \<Rightarrow> [e])"
  proof (cases "g hi")
    case None
    then have "\<forall>e\<in>set es. f e \<noteq> hi" using assms(2) [of hi] by auto
    then show ?thesis using None by (simp add: filter_empty_conv)
  next
    case (Some e)
    then have e: "e \<in> set es" "f e = hi" using assms(2) [of hi e] by simp_all
    have "(f x = hi) = (x = e)" if "x \<in> set es" for x using assms(2) [of hi x] Some that by auto
    then have "filter (\<lambda>x. f x = hi) es = filter (\<lambda>x. x = e) es" by (rule filter_cong [OF refl])
    also have "\<dots> = [e]" using strict_sorted_distinct [OF assms(1)] e(1) by (induction es) (auto simp: filter_empty_conv)
    finally show ?thesis using Some by simp
  qed
  have split: "filter (\<lambda>e. lo \<le> f e \<and> f e < Suc hi) es =
      filter (\<lambda>e. lo \<le> f e \<and> f e < hi) es @ (if lo \<le> hi then filter (\<lambda>e. f e = hi) es else [])"
    using assms(1)
  proof (induction es)
    case (Cons x xs)
    show ?case
    proof (cases "f x < hi")
      case True
      then show ?thesis using Cons by simp
    next
      case False
      then have "\<forall>y\<in>set xs. hi < f y" using Cons.prems by auto
      then have "filter (\<lambda>e. lo \<le> f e \<and> f e < hi) xs = []" "filter (\<lambda>e. f e = hi) xs = []"
        "filter (\<lambda>e. lo \<le> f e \<and> f e < Suc hi) xs = []" by (auto simp: filter_empty_conv)
      then show ?thesis using False by (auto simp: not_less le_Suc_eq)
    qed
  qed simp
  show ?case
    unfolding split at Suc [symmetric] by (auto simp: List.map_filter_def split: option.split)
qed

text \<open>The table holds the encodable entries of the log under their decimal index.\<close>

definition table_repr :: "('m, 'v) raft_codec \<Rightarrow> (string \<times> bytes) list \<Rightarrow> 'm raft_entry list \<Rightarrow> bool" where
  "table_repr K t es \<longleftrightarrow> log_ascending es \<and> hm_wf t \<and> (\<forall>e\<in>set es. enc_entry K e \<noteq> None) \<and>
     (\<forall>k v. map_of t k = Some v \<longleftrightarrow> (\<exists>e\<in>set es. k = entry_key e \<and> enc_entry K e = Some v))"

definition purged_stored :: "('m, 'v) raft_codec \<Rightarrow> redb_tables \<Rightarrow> log_id option \<Rightarrow> bool" where
  "purged_stored K db p \<longleftrightarrow>
     Option.bind (map_of (rt_state db) ''state'') (dec_purged K) = map_option (\<lambda>l. (Some (li_index l), Some (li_term l))) p"

definition redb_repr :: "('m, 'v) raft_codec \<Rightarrow> redb_log \<Rightarrow> 'm raft_entry list \<Rightarrow> log_id option \<Rightarrow> bool" where
  "redb_repr K s es p \<longleftrightarrow>
     raft_codec_laws K \<and> table_repr K (rt_log (rl_db s)) es \<and> rl_last_purged s = p \<and> purged_stored K (rl_db s) p"

lemma raft_codec_lawsD:
  assumes "raft_codec_laws K"
  shows "enc_entry K e = Some b \<Longrightarrow> dec_entry K b = Some e" "enc_vote K v = Some b \<Longrightarrow> dec_vote K b = Some v"
    "\<exists>b. enc_purged K q = Some b \<and> dec_purged K b = Some q"
  using assms unfolding raft_codec_laws_def by blast+

lemma table_probe:
  assumes "raft_codec_laws K" "table_repr K t es"
  shows "Option.bind (map_of t (nat_to_string i)) (dec_entry K) = Some e \<longleftrightarrow> e \<in> set es \<and> unat (entry_index e) = i"
proof
  assume "Option.bind (map_of t (nat_to_string i)) (dec_entry K) = Some e"
  then obtain v where v: "map_of t (nat_to_string i) = Some v" "dec_entry K v = Some e" by (auto simp: bind_eq_Some_conv)
  then obtain e' where "e' \<in> set es" "nat_to_string i = entry_key e'" "enc_entry K e' = Some v"
    using assms(2) unfolding table_repr_def by blast
  then show "e \<in> set es \<and> unat (entry_index e) = i"
    using v(2) raft_codec_lawsD(1) [OF assms(1)] by (auto simp: entry_key_def nat_to_string_inj)
next
  assume e: "e \<in> set es \<and> unat (entry_index e) = i"
  then obtain b where "enc_entry K e = Some b" using assms(2) unfolding table_repr_def by blast
  moreover from this have "map_of t (nat_to_string i) = Some b"
    using e assms(2) unfolding table_repr_def entry_key_def by blast
  ultimately show "Option.bind (map_of t (nat_to_string i)) (dec_entry K) = Some e"
    using raft_codec_lawsD(1) [OF assms(1)] by simp
qed

lemma read_log_entries_repr:
  assumes "raft_codec_laws K" "table_repr K (rt_log db) es"
  shows "read_log_entries K db lo hi = filter (\<lambda>e. lo \<le> entry_index e \<and> entry_index e < hi) es"
proof -
  have "sorted_wrt (<) (map (\<lambda>e. unat (entry_index e)) es)"
    using assms(2) by (simp add: table_repr_def log_ascending_def sorted_wrt_map word_less_nat_alt)
  from map_filter_probe [OF this table_probe [OF assms]] show ?thesis
    by (simp add: read_log_entries_def word_le_nat_alt word_less_nat_alt)
qed

lemma last_log_of_max:
  assumes "\<forall>(k, v)\<in>set t. parse_u64 k \<noteq> None \<and> dec_entry K v \<noteq> None"
  shows "case last_log_of K t mx of
      None \<Rightarrow> t = [] \<and> mx = None
    | Some m \<Rightarrow> (mx = Some m \<or> (\<exists>(k, v)\<in>set t. map_option re_log_id (dec_entry K v) = Some m)) \<and>
        (\<forall>m0. mx = Some m0 \<longrightarrow> li_index m0 \<le> li_index m) \<and>
        (\<forall>(k, v)\<in>set t. \<forall>e. dec_entry K v = Some e \<longrightarrow> entry_index e \<le> li_index m)"
  using assms
proof (induction K t mx rule: last_log_of.induct)
  case (2 K k v rest mx)
  then obtain n e where n: "parse_u64 k = Some n" "dec_entry K v = Some e" by auto
  let ?mx = "case mx of None \<Rightarrow> Some (re_log_id e) | Some m \<Rightarrow> if li_index m < entry_index e then Some (re_log_id e) else Some m"
  have IH: "case last_log_of K rest ?mx of
      None \<Rightarrow> rest = [] \<and> ?mx = None
    | Some m \<Rightarrow> (?mx = Some m \<or> (\<exists>(k, v)\<in>set rest. map_option re_log_id (dec_entry K v) = Some m)) \<and>
        (\<forall>m0. ?mx = Some m0 \<longrightarrow> li_index m0 \<le> li_index m) \<and>
        (\<forall>(k, v)\<in>set rest. \<forall>e. dec_entry K v = Some e \<longrightarrow> entry_index e \<le> li_index m)"
    by (rule "2.IH"(3) [OF n]) (use "2.prems" in auto)
  have m0: "?mx \<noteq> None" by (auto split: option.split)
  then obtain m where m: "last_log_of K rest ?mx = Some m" using IH by (cases "last_log_of K rest ?mx") auto
  have res: "last_log_of K ((k, v) # rest) mx = Some m" using m n by simp
  have "(\<forall>m0. mx = Some m0 \<longrightarrow> li_index m0 \<le> li_index m) \<and> entry_index e \<le> li_index m"
    using IH unfolding m by (auto split: option.splits if_splits)
  moreover have "?mx = Some m \<Longrightarrow> mx = Some m \<or> map_option re_log_id (dec_entry K v) = Some m"
    using n(2) by (auto split: option.splits if_splits)
  ultimately show ?case using IH n(2) unfolding res m by auto
qed (auto split: option.split)

lemma find_last_repr:
  assumes "raft_codec_laws K" "table_repr K (rt_log db) es"
  shows "find_last_log_id K db = (if es = [] then None else Some (re_log_id (last es)))"
proof -
  let ?t = "by_key (rt_log db)"
  have mem: "(k, v) \<in> set ?t \<longleftrightarrow> (\<exists>e\<in>set es. k = entry_key e \<and> enc_entry K e = Some v)" for k v
    using assms(2) by (simp add: table_repr_def hm_wf_in_set)
  have dec: "dec_entry K v = Some e" if "enc_entry K e = Some v" for e v using that raft_codec_lawsD(1) [OF assms(1)] by blast
  have ok: "\<forall>(k, v)\<in>set ?t. parse_u64 k \<noteq> None \<and> dec_entry K v \<noteq> None"
  proof (rule ballI, simp only: split_paired_all prod.case)
    fix k v assume "(k, v) \<in> set ?t"
    then obtain e where "k = entry_key e" "enc_entry K e = Some v" using mem by blast
    then show "parse_u64 k \<noteq> None \<and> dec_entry K v \<noteq> None" using dec by simp
  qed
  note L = last_log_of_max [OF ok, of None]
  show ?thesis
  proof (cases "es = []")
    case True
    then have "set ?t = {}" using mem by (metis empty_iff equals0I list.set(1) surj_pair)
    then have "?t = []" by (simp only: set_empty)
    then show ?thesis using True by (simp add: find_last_log_id_def)
  next
    case False
    then obtain b where b: "enc_entry K (last es) = Some b" using assms(2) last_in_set unfolding table_repr_def by blast
    then have inb: "(entry_key (last es), b) \<in> set ?t" using mem False last_in_set by blast
    then have "?t \<noteq> []" by (metis empty_iff list.set(1))
    then obtain m where m: "last_log_of K ?t None = Some m" using L by (cases "last_log_of K ?t None") auto
    have "\<exists>(k, v)\<in>set ?t. map_option re_log_id (dec_entry K v) = Some m" using L unfolding m by auto
    then obtain e v where e: "e \<in> set es" "enc_entry K e = Some v" "map_option re_log_id (dec_entry K v) = Some m"
      using mem by auto
    then have me: "m = re_log_id e" using dec by auto
    have "entry_index (last es) \<le> entry_index e" using L inb dec [OF b] unfolding m me by auto
    moreover have asc: "log_ascending es" using assms(2) by (simp add: table_repr_def)
    ultimately have "entry_index e = entry_index (last es)" using ascending_last [OF _ e(1)] by fastforce
    then have "e = last es" using ascending_index_inj [OF asc e(1)] False by simp
    then show ?thesis using m me False by (simp add: find_last_log_id_def)
  qed
qed

lemma table_repr_insert:
  assumes "table_repr K t es" "log_ascending (es @ [e])" "enc_entry K e = Some b"
  shows "table_repr K (AList.update (entry_key e) b t) (es @ [e])"
proof -
  have new: "entry_key e' \<noteq> entry_key e" if "e' \<in> set es" for e'
  proof -
    have "entry_index e' < entry_index e" using assms(2) that by (auto simp: log_ascending_def sorted_wrt_append)
    then show ?thesis by (simp add: entry_key_eq)
  qed
  have "map_of (AList.update (entry_key e) b t) k = Some v \<longleftrightarrow>
      (\<exists>x\<in>set (es @ [e]). k = entry_key x \<and> enc_entry K x = Some v)" for k v
  proof (cases "k = entry_key e")
    case True
    then have "\<not> (\<exists>x\<in>set es. k = entry_key x)" using new by blast
    then show ?thesis using assms(3) True by (auto simp: update_conv')
  next
    case False
    then show ?thesis using assms(1) by (auto simp: update_conv' table_repr_def)
  qed
  then show ?thesis using assms by (auto simp: table_repr_def)
qed

lemma insert_entries_repr:
  "table_repr K t es \<Longrightarrow> log_ascending (es @ new) \<Longrightarrow> list_all (\<lambda>e. enc_entry K e \<noteq> None) new \<Longrightarrow>
   \<exists>t'. insert_entries K new t = Some t' \<and> table_repr K t' (es @ new)"
proof (induction new arbitrary: t es)
  case (Cons e new)
  obtain b where b: "enc_entry K e = Some b" using Cons.prems(3) by auto
  have "log_ascending (es @ [e])"
    using Cons.prems(2) by (auto simp: log_ascending_def sorted_wrt_append)
  from Cons.IH [OF table_repr_insert [OF Cons.prems(1) this b]] Cons.prems(2,3) b show ?case by auto
qed simp

lemma remove_keys_repr:
  assumes "table_repr K t es"
  shows "table_repr K (remove_keys P t) (filter (\<lambda>e. \<not> P (entry_index e)) es)"
proof -
  have "map_of (remove_keys P t) k = Some v \<longleftrightarrow>
      (\<exists>e\<in>set (filter (\<lambda>e. \<not> P (entry_index e)) es). k = entry_key e \<and> enc_entry K e = Some v)" for k v
  proof -
    have "map_of t k = Some v \<longleftrightarrow> (\<exists>e\<in>set es. k = entry_key e \<and> enc_entry K e = Some v)"
      using assms by (simp add: table_repr_def)
    then show ?thesis by (auto simp: remove_keys_get split: option.split)
  qed
  then show ?thesis using assms by (simp add: table_repr_def)
qed

lemma redb_append_repr:
  assumes "redb_repr K s es p" "log_ascending (es @ new)" "list_all (\<lambda>e. enc_entry K e \<noteq> None) new"
  shows "\<exists>s'. redb_append K new s = (s', Inr ()) \<and> redb_repr K s' (es @ new) p"
  using assms insert_entries_repr [of K "rt_log (rl_db s)" es new]
  by (auto simp: redb_repr_def redb_append_def purged_stored_def)

lemma redb_truncate_repr:
  assumes "redb_repr K s es p"
  shows "\<exists>s'. redb_truncate l s = (s', Inr ()) \<and> redb_repr K s' (filter (\<lambda>e. entry_index e < li_index l) es) p"
  using assms remove_keys_repr [of K "rt_log (rl_db s)" es "\<lambda>i. li_index l \<le> i"]
  by (simp add: redb_repr_def redb_truncate_def purged_stored_def not_le)

lemma redb_purge_repr:
  assumes "redb_repr K s es p"
  shows "\<exists>s'. redb_purge K l s = (s', Inr ()) \<and> redb_repr K s' (filter (\<lambda>e. li_index l < entry_index e) es) (Some l)"
proof -
  obtain b where "enc_purged K (Some (li_index l), Some (li_term l)) = Some b"
    "dec_purged K b = Some (Some (li_index l), Some (li_term l))"
    using assms raft_codec_lawsD(3) unfolding redb_repr_def by blast
  then show ?thesis
    using assms remove_keys_repr [of K "rt_log (rl_db s)" es "\<lambda>i. i \<le> li_index l"]
    by (simp add: redb_repr_def redb_purge_def save_state_def purged_stored_def not_le update_conv')
qed

interpretation redb: raft_log "redb_repr K" "\<lambda>e. enc_entry K e \<noteq> None" "\<lambda>lo hi s. read_log_entries K (rl_db s) lo hi"
  "redb_log_state K" "redb_append K" redb_truncate "redb_purge K" for K
proof unfold_locales
  fix s :: redb_log and es p and lo hi :: u64
  assume "redb_repr K s es p"
  then show "read_log_entries K (rl_db s) lo hi = filter (\<lambda>e. lo \<le> entry_index e \<and> entry_index e < hi) es"
    "redb_log_state K s = \<lparr>ls_last_purged = p, ls_last = (if es = [] then p else Some (re_log_id (last es)))\<rparr>"
    using read_log_entries_repr [of K "rl_db s" es lo hi] find_last_repr [of K "rl_db s" es]
    by (auto simp: redb_repr_def redb_log_state_def or_else_def)
qed (erule (2) redb_append_repr, erule redb_truncate_repr, erule redb_purge_repr)

section \<open>Properties\<close>

lemma mem_new_repr: "mem_repr mem_new [] None"
  by (simp add: mem_repr_def mem_new_def)

definition redb_empty :: redb_tables where
  "redb_empty = \<lparr>rt_log = [], rt_vote = [], rt_state = []\<rparr>"

lemma redb_new_repr: "raft_codec_laws K \<Longrightarrow> redb_repr K (redb_open K redb_empty) [] None"
  by (simp add: redb_repr_def redb_open_def redb_empty_def table_repr_def purged_stored_def log_ascending_def)

lemma commands_ok_weaken: "commands_ok enc cs a \<Longrightarrow> commands_ok (\<lambda>_. True) cs a"
proof (induction cs arbitrary: a)
  case (Cons c cs)
  have "command_ok (\<lambda>_. True) c a" using Cons.prems by (cases c; cases a) (simp_all add: list.pred_True)
  then show ?case using Cons by simp
qed simp

text \<open>C16: The two log stores agree. After any sequence of appends, truncations and purges that the consensus
  library may issue on a fresh log, with entries that can be serialized, both stores have accepted
  every command, report the same log state and answer every range of indexes with the same entries;
  the log has no gap and starts right after the purged position.\<close>

theorem raft_stores_agree:
  assumes "raft_codec_laws K" "commands_ok (\<lambda>e. enc_entry K e \<noteq> None) cs ([], None)"
  shows "\<exists>m r. run_commands (\<lambda>es s. (mem_append es s, Inr ())) (\<lambda>l s. (mem_truncate l s, Inr ())) (\<lambda>l s. (mem_purge l s, Inr ())) cs mem_new =
      (m :: ('m, 'v) mem_log, Inr () :: raft_store_error + unit) \<and>
    run_commands (redb_append K) redb_truncate (redb_purge K) cs (redb_open K redb_empty) = (r, Inr ()) \<and>
    mem_log_state m = redb_log_state K r \<and>
    (\<forall>lo hi. mem_entries_between lo hi m = read_log_entries K (rl_db r) lo hi) \<and>
    log_gapless (ml_entries m, ml_last_purged m)"
proof -
  have start: "log_gapless ([] :: 'm raft_entry list, None)" by (simp add: log_gapless_def)
  obtain m :: "('m, 'v) mem_log" and es p where m: "run_commands (\<lambda>es s. (mem_append es s, Inr ())) (\<lambda>l s. (mem_truncate l s, Inr ()))
      (\<lambda>l s. (mem_purge l s, Inr ())) cs mem_new = (m, Inr () :: raft_store_error + unit)"
    "mem_repr m es p" "fold log_effect cs ([], None) = (es, p)" and g: "log_gapless (es, p)"
    using mem.run_repr [OF mem_new_repr start commands_ok_weaken [OF assms(2)]] by (elim exE conjE) (rule that)
  obtain r where r: "run_commands (redb_append K) redb_truncate (redb_purge K) cs (redb_open K redb_empty) = (r, Inr ())"
    "redb_repr K r es p"
    using redb.run_repr [OF redb_new_repr [OF assms(1)] start assms(2)] m(3) by auto
  have "mem_log_state m = redb_log_state K r" using mem.state_repr [OF m(2)] redb.state_repr [OF r(2)] by simp
  moreover have "mem_entries_between lo hi m = read_log_entries K (rl_db r) lo hi" for lo hi
    using mem.get_repr [OF m(2)] redb.get_repr [OF r(2)] by simp
  ultimately show ?thesis using m r(1) g by (auto simp: mem_repr_def)
qed

text \<open>C34: The log on disk survives a restart. After such a sequence of commands and the saving of a vote, opening
  the tables again gives a store with the same entries in every range and the same vote. Of the purged
  position only the index and the term are kept: its node comes back as 0, which the stored state does not hold.\<close>

theorem raft_log_survives_restart:
  assumes "raft_codec_laws K" "commands_ok (\<lambda>e. enc_entry K e \<noteq> None) cs ([], None)" "enc_vote K v \<noteq> None"
  shows "\<exists>r r'. run_commands (redb_append K) redb_truncate (redb_purge K) cs (redb_open K redb_empty) = (r, Inr ()) \<and>
    redb_save_vote K v r = (r', Inr ()) \<and>
    redb_read_vote K (redb_open K (rl_db r')) = Inr (Some v) \<and>
    (\<forall>lo hi. read_log_entries K (rl_db (redb_open K (rl_db r'))) lo hi = read_log_entries K (rl_db r) lo hi) \<and>
    ls_last_purged (redb_log_state K (redb_open K (rl_db r'))) =
      map_option (\<lambda>l. l\<lparr>li_node := 0\<rparr>) (ls_last_purged (redb_log_state K r))"
proof -
  have start: "log_gapless ([], None)" by (simp add: log_gapless_def)
  from redb.run_repr [OF redb_new_repr [OF assms(1)] start assms(2)]
  obtain r es p where r: "run_commands (redb_append K) redb_truncate (redb_purge K) cs (redb_open K redb_empty) = (r, Inr ())"
    "redb_repr K r es p" by blast
  obtain b where b: "enc_vote K v = Some b" "dec_vote K b = Some v" using assms(3) raft_codec_lawsD(2) [OF assms(1)] by blast
  have "Option.bind (map_option (\<lambda>l. (Some (li_index l), Some (li_term l))) p) last_purged_log_id =
      map_option (\<lambda>l. l\<lparr>li_node := 0\<rparr>) p" by (cases p) (simp_all add: last_purged_log_id_def)
  moreover have "rl_last_purged (redb_open K (rl_db r)) =
      Option.bind (Option.bind (map_of (rt_state (rl_db r)) ''state'') (dec_purged K)) last_purged_log_id"
    by (simp add: redb_open_def split: option.split)
  moreover have "Option.bind (map_of (rt_state (rl_db r)) ''state'') (dec_purged K) =
      map_option (\<lambda>l. (Some (li_index l), Some (li_term l))) p"
    using r(2) by (simp add: redb_repr_def purged_stored_def)
  ultimately have "rl_last_purged (redb_open K (rl_db r)) = map_option (\<lambda>l. l\<lparr>li_node := 0\<rparr>) p" by argo
  then show ?thesis
    using r b by (simp add: redb_save_vote_def redb_read_vote_def redb_open_def redb_log_state_def redb_repr_def update_conv' read_log_entries_def)
qed

text \<open>The witnesses use a codec of two blank entries and one vote.\<close>

definition demo_entry :: "u64 \<Rightarrow> unit raft_entry" where
  "demo_entry i = \<lparr>re_log_id = \<lparr>li_term = 2, li_node = 3, li_index = i\<rparr>, re_payload = BlankEntry\<rparr>"

definition count_of :: "u64 option \<Rightarrow> nat" where
  "count_of x = (case x of None \<Rightarrow> 0 | Some n \<Rightarrow> Suc (unat n))"

definition of_count :: "nat \<Rightarrow> u64 option" where
  "of_count n = (case n of 0 \<Rightarrow> None | Suc k \<Rightarrow> Some (of_nat k))"

definition demo_raft_codec :: "(unit, nat) raft_codec" where
  "demo_raft_codec =
     \<lparr>enc_entry = (\<lambda>e. if e = demo_entry 0 then Some [0] else if e = demo_entry 1 then Some [1] else None),
      dec_entry = (\<lambda>b. if b = [0] then Some (demo_entry 0) else if b = [1] then Some (demo_entry 1) else None),
      enc_vote = (\<lambda>v. if v = 5 then Some [5] else None), dec_vote = (\<lambda>b. if b = [5] then Some 5 else None),
      enc_purged = (\<lambda>(i, t). Some (replicate (count_of i) 0 @ 1 # replicate (count_of t) 0)),
      dec_purged = (\<lambda>b. let n = length (takeWhile (\<lambda>x. x = 0) b) in Some (of_count n, of_count (length b - n - 1)))\<rparr>"

lemma of_count_of [simp]: "of_count (count_of x) = x"
  by (cases x) (simp_all add: of_count_def count_of_def)

lemma demo_raft_laws: "raft_codec_laws demo_raft_codec"
proof -
  have "takeWhile (\<lambda>x. x = (0 :: byte)) (replicate n 0 @ 1 # xs) = replicate n 0" for n xs by (induction n) simp_all
  then show ?thesis by (auto simp: raft_codec_laws_def demo_raft_codec_def split: if_splits)
qed

definition demo_commands :: "unit log_command list" where
  "demo_commands = [Cmd_append [demo_entry 0, demo_entry 1], Cmd_purge (re_log_id (demo_entry 0))]"

lemma demo_commands_ok: "commands_ok (\<lambda>e. enc_entry demo_raft_codec e \<noteq> None) demo_commands ([], None)"
  by (simp add: demo_commands_def demo_raft_codec_def demo_entry_def first_index_def)

lemma raft_stores_agree_witness:
  "\<exists>m r. run_commands (\<lambda>es s. (mem_append es s, Inr ())) (\<lambda>l s. (mem_truncate l s, Inr ())) (\<lambda>l s. (mem_purge l s, Inr ()))
      demo_commands mem_new = (m :: (unit, nat) mem_log, Inr () :: raft_store_error + unit) \<and>
    run_commands (redb_append demo_raft_codec) redb_truncate (redb_purge demo_raft_codec) demo_commands
      (redb_open demo_raft_codec redb_empty) = (r, Inr ()) \<and>
    mem_log_state m = redb_log_state demo_raft_codec r \<and> mem_entries_between 0 9 m = [demo_entry 1]"
proof -
  obtain m :: "(unit, nat) mem_log" and r where m: "run_commands (\<lambda>es s. (mem_append es s, Inr ())) (\<lambda>l s. (mem_truncate l s, Inr ()))
      (\<lambda>l s. (mem_purge l s, Inr ())) demo_commands mem_new = (m, Inr () :: raft_store_error + unit)"
    "run_commands (redb_append demo_raft_codec) redb_truncate (redb_purge demo_raft_codec) demo_commands
      (redb_open demo_raft_codec redb_empty) = (r, Inr ())" "mem_log_state m = redb_log_state demo_raft_codec r"
    using raft_stores_agree [OF demo_raft_laws demo_commands_ok] by (elim exE conjE) (rule that)
  have "ml_entries m = [demo_entry 1]"
    using m(1) by (auto simp: demo_commands_def mem_append_def mem_purge_def mem_new_def demo_entry_def)
  then have "mem_entries_between 0 9 m = [demo_entry 1]" by (simp add: mem_entries_between_def demo_entry_def)
  then show ?thesis using m by blast
qed

lemma raft_log_survives_restart_witness:
  "\<exists>r r'. run_commands (redb_append demo_raft_codec) redb_truncate (redb_purge demo_raft_codec) demo_commands
      (redb_open demo_raft_codec redb_empty) = (r, Inr ()) \<and>
    redb_save_vote demo_raft_codec 5 r = (r', Inr ()) \<and>
    redb_read_vote demo_raft_codec (redb_open demo_raft_codec (rl_db r')) = Inr (Some 5)"
proof -
  have v: "enc_vote demo_raft_codec 5 \<noteq> None" by (simp add: demo_raft_codec_def)
  from raft_log_survives_restart [OF demo_raft_laws demo_commands_ok v] show ?thesis by (elim exE conjE) (intro exI conjI)
qed

text \<open>
  An unbounded range stops at index one million on disk, whatever the log holds.
\<close>

lemma redb_unbounded_capped:
  assumes "redb_repr K s es p" "e \<in> set (redb_get_entries K lo Bound_unbounded s)"
  shows "entry_index e < 1000000"
  using assms redb.get_repr [OF assms(1)] by (auto simp: redb_get_entries_def)

end
