(* ===== verification/Cluster_State.thy ===== *)
theory Cluster_State
  imports Raft_Log
begin

text \<open>
  The replicated state machine of the cluster, \<^verbatim>\<open>crates/rekha-cluster/src/state_machine.rs\<close>, and the
  clients that carry the consensus messages, \<^verbatim>\<open>network.rs\<close>. The engine behind the trait
  \<^verbatim>\<open>EngineSnapshotProvider\<close> is a state of any type with two operations; \<^verbatim>\<open>bincode\<close>, the debug texts
  of the responses and the answers of the HTTP client are parameters.
\<close>

section \<open>State\<close>

record ('m, 'e) cluster_sm =
  cs_nodes :: "(u64 \<times> node_info) list"
  cs_collections :: "(uuid \<times> u64 list) list"
  cs_clock_map :: clock_map
  cs_last_applied :: "log_id option"
  cs_membership :: "'m stored_membership"
  cs_engine :: "'e option"

record 'e snapshot_provider =
  spv_snapshot :: "'e \<Rightarrow> string + bytes"
  spv_restore :: "bytes \<Rightarrow> 'e \<Rightarrow> 'e \<times> (string + unit)"

definition sm_new :: "'m \<Rightarrow> ('m, 'e) cluster_sm" where
  "sm_new no_members =
     \<lparr>cs_nodes = [], cs_collections = [], cs_clock_map = clock_map_new, cs_last_applied = None,
      cs_membership = \<lparr>sm_log_id = None, sm_membership = no_members\<rparr>, cs_engine = None\<rparr>"

fun cluster_apply_operation :: "cluster_operation \<Rightarrow> ('m, 'e) cluster_sm \<Rightarrow> ('m, 'e) cluster_sm" where
  "cluster_apply_operation (AddNode n addr) sm =
     sm\<lparr>cs_nodes := AList.update n \<lparr>ni_node_id = n, ni_addr = addr, ni_is_leader = False\<rparr> (cs_nodes sm)\<rparr>"
| "cluster_apply_operation (RemoveNode n) sm = sm\<lparr>cs_nodes := AList.delete n (cs_nodes sm)\<rparr>"
| "cluster_apply_operation (AddCollection u _ _ _ _ _ owners) sm =
     sm\<lparr>cs_collections := AList.update u owners (cs_collections sm)\<rparr>"
| "cluster_apply_operation (RemoveCollection u) sm = sm\<lparr>cs_collections := AList.delete u (cs_collections sm)\<rparr>"
| "cluster_apply_operation (TransferLeadership n) sm =
     sm\<lparr>cs_nodes := map (\<lambda>(k, info). (k, info\<lparr>ni_is_leader := ni_node_id info = n\<rparr>)) (cs_nodes sm)\<rparr>"

record 'm response_texts =
  show_operation :: "cluster_operation \<Rightarrow> string"
  show_membership :: "'m \<Rightarrow> string"

fun apply_entry :: "'m response_texts \<Rightarrow> 'm raft_entry \<Rightarrow> ('m, 'e) cluster_sm \<Rightarrow> ('m, 'e) cluster_sm \<times> string" where
  "apply_entry T e sm =
     (let sm1 = sm\<lparr>cs_last_applied := Some (re_log_id e)\<rparr> in
      case re_payload e of
        NormalEntry op \<Rightarrow> (cluster_apply_operation op sm1, ''applied: '' @ show_operation T op)
      | MembershipEntry m \<Rightarrow>
          (sm1\<lparr>cs_membership := \<lparr>sm_log_id = Some (re_log_id e), sm_membership = m\<rparr>\<rparr>, ''membership: '' @ show_membership T m)
      | BlankEntry \<Rightarrow> (sm1, ''blank''))"

fun apply_log :: "'m response_texts \<Rightarrow> 'm raft_entry list \<Rightarrow> ('m, 'e) cluster_sm \<Rightarrow> ('m, 'e) cluster_sm \<times> string list" where
  "apply_log T [] sm = (sm, [])"
| "apply_log T (e # es) sm =
     (case apply_entry T e sm of (sm1, r) \<Rightarrow> (case apply_log T es sm1 of (sm2, rs) \<Rightarrow> (sm2, r # rs)))"

definition applied_state :: "('m, 'e) cluster_sm \<Rightarrow> log_id option \<times> 'm stored_membership" where
  "applied_state sm = (cs_last_applied sm, cs_membership sm)"

section \<open>Snapshots\<close>

text \<open>The engine is skipped by the codec.\<close>

record ('m, 'e) sm_codec =
  enc_sm :: "('m, 'e) cluster_sm \<Rightarrow> bytes option"
  dec_sm :: "bytes \<Rightarrow> ('m, 'e) cluster_sm option"

definition sm_codec_laws :: "('m, 'e) sm_codec \<Rightarrow> bool" where
  "sm_codec_laws S \<longleftrightarrow> (\<forall>sm b. enc_sm S sm = Some b \<longrightarrow> dec_sm S b = Some (sm\<lparr>cs_engine := None\<rparr>))"

text \<open>The body shared by the builder and \<^verbatim>\<open>get_current_snapshot\<close>: a length, the cluster state, the engine's data.\<close>

definition cluster_snapshot_of ::
  "('m, 'e) sm_codec \<Rightarrow> 'e snapshot_provider \<Rightarrow> string \<Rightarrow> ('m, 'e) cluster_sm \<Rightarrow> raft_store_error + 'm raft_snapshot" where
  "cluster_snapshot_of S V snapshot_id sm =
     (case enc_sm S sm of
        None \<Rightarrow> Inl RaftIo
      | Some cluster_data \<Rightarrow>
          and_then (case cs_engine sm of
                      None \<Rightarrow> Inr []
                    | Some e \<Rightarrow> (case spv_snapshot V e of Inl _ \<Rightarrow> Inl RaftIo | Inr b \<Rightarrow> Inr b))
            (\<lambda>engine_data.
              Inr \<lparr>sn_meta = \<lparr>sn_last_log_id = cs_last_applied sm, sn_last_membership = cs_membership sm,
                              sn_snapshot_id = snapshot_id\<rparr>,
                   sn_data = u32_le (of_nat (length cluster_data)) @ cluster_data @ engine_data\<rparr>))"

definition get_snapshot_builder :: "('m, 'e) cluster_sm \<Rightarrow> ('m, 'e) cluster_sm" where
  "get_snapshot_builder sm = sm"

definition builder_build_snapshot ::
  "('m, 'e) sm_codec \<Rightarrow> 'e snapshot_provider \<Rightarrow> string \<Rightarrow> ('m, 'e) cluster_sm \<Rightarrow> raft_store_error + 'm raft_snapshot" where
  "builder_build_snapshot = cluster_snapshot_of"

definition get_current_snapshot ::
  "('m, 'e) sm_codec \<Rightarrow> 'e snapshot_provider \<Rightarrow> string \<Rightarrow> ('m, 'e) cluster_sm \<Rightarrow> raft_store_error + 'm raft_snapshot option" where
  "get_current_snapshot S V snapshot_id sm = and_then (cluster_snapshot_of S V snapshot_id sm) (\<lambda>s. Inr (Some s))"

definition begin_receiving_snapshot :: bytes where
  "begin_receiving_snapshot = []"

definition install_cluster ::
  "('m, 'e) sm_codec \<Rightarrow> bytes \<Rightarrow> nat \<Rightarrow> ('m, 'e) cluster_sm \<Rightarrow> raft_store_error + ('m, 'e) cluster_sm" where
  "install_cluster S data cluster_len sm =
     (if length data \<ge> 4 + cluster_len
      then (case dec_sm S (take cluster_len (drop 4 data)) of
              None \<Rightarrow> Inl RaftIo
            | Some new \<Rightarrow> Inr (new\<lparr>cs_engine := cs_engine sm\<rparr>))
      else Inr sm)"

definition install_engine ::
  "'e snapshot_provider \<Rightarrow> bytes \<Rightarrow> nat \<Rightarrow> ('m, 'e) cluster_sm \<Rightarrow> ('m, 'e) cluster_sm \<times> (raft_store_error + unit)" where
  "install_engine V data cluster_len sm =
     (if length data > 4 + cluster_len
      then (case cs_engine sm of
              None \<Rightarrow> (sm, Inr ())
            | Some e \<Rightarrow>
                (case spv_restore V (drop (4 + cluster_len) data) e of
                   (e', Inl _) \<Rightarrow> (sm\<lparr>cs_engine := Some e'\<rparr>, Inl RaftIo)
                 | (e', Inr _) \<Rightarrow> (sm\<lparr>cs_engine := Some e'\<rparr>, Inr ())))
      else (sm, Inr ()))"

definition install_snapshot ::
  "('m, 'e) sm_codec \<Rightarrow> 'e snapshot_provider \<Rightarrow> 'm snapshot_meta \<Rightarrow> bytes \<Rightarrow> ('m, 'e) cluster_sm \<Rightarrow>
     ('m, 'e) cluster_sm \<times> (raft_store_error + unit)" where
  "install_snapshot S V meta data sm =
     (if length data < 4 then (sm, Inr ())
      else
        (let cluster_len = unat (le_u32 data) in
         case install_cluster S data cluster_len sm of
           Inl e \<Rightarrow> (sm, Inl e)
         | Inr sm1 \<Rightarrow>
             (case install_engine V data cluster_len sm1 of
                (sm2, Inl e) \<Rightarrow> (sm2, Inl e)
              | (sm2, Inr _) \<Rightarrow>
                  (sm2\<lparr>cs_last_applied := sn_last_log_id meta, cs_membership := sn_last_membership meta\<rparr>, Inr ()))))"

section \<open>The HTTP transport\<close>

datatype rpc_error = Rpc_unreachable string | Rpc_network string

datatype 'r rpc_outcome = Rpc_send_failed string | Rpc_status nat string | Rpc_answer "string + 'r"

definition rpc_http_error :: "nat \<Rightarrow> string \<Rightarrow> string" where
  "rpc_http_error status body = ''HTTP '' @ nat_to_string status @ '': '' @ body"

definition rpc_url :: "string \<Rightarrow> string \<Rightarrow> string" where
  "rpc_url addr path = ''http://'' @ addr @ ''/internal/raft/'' @ path"

text \<open>The client posts the request to the URL; \<open>net\<close> is what comes back.\<close>

definition send_rpc :: "(string \<Rightarrow> 'q \<Rightarrow> 'r rpc_outcome) \<Rightarrow> string \<Rightarrow> string \<Rightarrow> 'q \<Rightarrow> rpc_error + 'r" where
  "send_rpc net addr path req =
     (case net (rpc_url addr path) req of
        Rpc_send_failed e \<Rightarrow> Inl (Rpc_unreachable e)
      | Rpc_status status body \<Rightarrow> Inl (Rpc_network (rpc_http_error status body))
      | Rpc_answer (Inl e) \<Rightarrow> Inl (Rpc_network e)
      | Rpc_answer (Inr r) \<Rightarrow> Inr r)"

definition net_append_entries :: "(string \<Rightarrow> 'q \<Rightarrow> 'r rpc_outcome) \<Rightarrow> string \<Rightarrow> 'q \<Rightarrow> rpc_error + 'r" where
  "net_append_entries net addr = send_rpc net addr ''append_entries''"

definition net_vote :: "(string \<Rightarrow> 'q \<Rightarrow> 'r rpc_outcome) \<Rightarrow> string \<Rightarrow> 'q \<Rightarrow> rpc_error + 'r" where
  "net_vote net addr = send_rpc net addr ''vote''"

definition net_full_snapshot ::
  "(string \<Rightarrow> 'v \<times> 'm snapshot_meta \<times> bytes \<Rightarrow> 'r rpc_outcome) \<Rightarrow> string \<Rightarrow> 'v \<Rightarrow> 'm raft_snapshot \<Rightarrow> rpc_error + 'r" where
  "net_full_snapshot net addr vote s = send_rpc net addr ''raft/install_snapshot'' (vote, sn_meta s, sn_data s)"

text \<open>The delay before the \<open>i\<close>-th retry, in milliseconds.\<close>

definition net_backoff_ms :: "nat \<Rightarrow> nat" where
  "net_backoff_ms i = min 500 (5000 * 2 ^ min i 3)"

definition new_client_addr :: "(u64 \<times> string) list \<Rightarrow> u64 \<Rightarrow> string" where
  "new_client_addr peers target =
     (case map_of peers target of
        Some addr \<Rightarrow> addr
      | None \<Rightarrow> ''127.0.0.1:'' @ nat_to_string (unat (8000 + target)))"

section \<open>The in-process transport\<close>

text \<open>A registered node is what it answers; \<open>None\<close> when it drops the message or its channel is closed.\<close>

datatype ('a, 'v, 'i, 'f) channel_message =
    Msg_append_entries 'a
  | Msg_vote 'v
  | Msg_install_snapshot 'i
  | Msg_full_snapshot 'f

type_synonym ('msg, 'r) channel_hub = "(u64 \<times> ('msg \<Rightarrow> (rpc_error + 'r) option)) list"

definition hub_new :: "('msg, 'r) channel_hub" where
  "hub_new = []"

definition hub_register :: "u64 \<Rightarrow> ('msg \<Rightarrow> (rpc_error + 'r) option) \<Rightarrow> ('msg, 'r) channel_hub \<Rightarrow> ('msg, 'r) channel_hub" where
  "hub_register n f h = AList.update n f h"

definition hub_send :: "u64 \<Rightarrow> 'msg \<Rightarrow> ('msg, 'r) channel_hub \<Rightarrow> (rpc_error + 'r) option" where
  "hub_send target msg h = (case map_of h target of None \<Rightarrow> None | Some f \<Rightarrow> f msg)"

definition channel_call :: "('msg, 'r) channel_hub \<Rightarrow> u64 \<Rightarrow> 'msg \<Rightarrow> rpc_error + 'r" where
  "channel_call h target msg =
     (case hub_send target msg h of None \<Rightarrow> Inl (Rpc_unreachable ''channel closed'') | Some r \<Rightarrow> r)"

definition channel_backoff_ms :: "nat \<Rightarrow> nat" where
  "channel_backoff_ms i = min 10 (50 * 2 ^ min i 3)"

section \<open>Lemmas\<close>

text \<open>Nodes are filed under their own id and at most one of them is the leader.\<close>

definition sm_wf :: "('m, 'e) cluster_sm \<Rightarrow> bool" where
  "sm_wf sm \<longleftrightarrow> hm_wf (cs_nodes sm) \<and> hm_wf (cs_collections sm) \<and>
     (\<forall>(k, info)\<in>set (cs_nodes sm). ni_node_id info = k) \<and>
     (\<forall>(k, info)\<in>set (cs_nodes sm). \<forall>(k', info')\<in>set (cs_nodes sm). ni_is_leader info \<longrightarrow> ni_is_leader info' \<longrightarrow> k = k')"

lemma sm_wf_map: "sm_wf sm \<longleftrightarrow> hm_wf (cs_nodes sm) \<and> hm_wf (cs_collections sm) \<and>
     (\<forall>k info. map_of (cs_nodes sm) k = Some info \<longrightarrow> ni_node_id info = k) \<and>
     (\<forall>k info k' info'. map_of (cs_nodes sm) k = Some info \<longrightarrow> map_of (cs_nodes sm) k' = Some info' \<longrightarrow>
        ni_is_leader info \<longrightarrow> ni_is_leader info' \<longrightarrow> k = k')"
  unfolding sm_wf_def by (auto simp: hm_wf_in_set [symmetric]) (fastforce simp: hm_wf_in_set [symmetric])+

lemma cluster_apply_wf [rk_inv]: "sm_wf sm \<Longrightarrow> sm_wf (cluster_apply_operation op sm)"
proof (cases op)
  case (TransferLeadership n)
  assume wf: "sm_wf sm"
  have id: "ni_node_id info = k" if "(k, info) \<in> set (cs_nodes sm)" for k info
    using wf that unfolding sm_wf_def by fast
  show ?thesis
    using wf unfolding sm_wf_def TransferLeadership by (auto dest!: id)
qed (auto simp: sm_wf_map update_conv' delete_conv' split: if_splits)

lemma apply_entry_wf [rk_inv]: "sm_wf sm \<Longrightarrow> sm_wf (fst (apply_entry T e sm))"
proof -
  assume "sm_wf sm"
  then have "sm_wf (sm\<lparr>cs_last_applied := Some (re_log_id e)\<rparr>)" by (simp add: sm_wf_def)
  then show ?thesis
    by (cases "re_payload e") (simp_all add: Let_def cluster_apply_wf, simp add: sm_wf_def)
qed

lemma cluster_apply_fields [simp]:
  "cs_last_applied (cluster_apply_operation op sm) = cs_last_applied sm"
  "cs_membership (cluster_apply_operation op sm) = cs_membership sm"
  "cs_engine (cluster_apply_operation op sm) = cs_engine sm"
  "cs_clock_map (cluster_apply_operation op sm) = cs_clock_map sm"
  by (cases op; simp)+

lemma apply_log_append:
  "apply_log T (es @ es') sm =
     (case apply_log T es sm of (sm1, rs) \<Rightarrow> (case apply_log T es' sm1 of (sm2, rs') \<Rightarrow> (sm2, rs @ rs')))"
  by (induction es arbitrary: sm) (simp_all split: prod.split)

text \<open>The membership a log leaves.\<close>

fun membership_after :: "'m raft_entry list \<Rightarrow> 'm stored_membership \<Rightarrow> 'm stored_membership" where
  "membership_after [] m = m"
| "membership_after (e # es) m =
     membership_after es (case re_payload e of MembershipEntry x \<Rightarrow> \<lparr>sm_log_id = Some (re_log_id e), sm_membership = x\<rparr> | _ \<Rightarrow> m)"

lemma apply_log_ok:
  "apply_log T es sm = (sm', rs) \<Longrightarrow> sm_wf sm \<Longrightarrow>
   sm_wf sm' \<and> length rs = length es \<and> cs_engine sm' = cs_engine sm \<and>
   cs_last_applied sm' = (if es = [] then cs_last_applied sm else Some (re_log_id (last es))) \<and>
   cs_membership sm' = membership_after es (cs_membership sm)"
proof (induction es arbitrary: sm rs)
  case (Cons e es)
  obtain sm1 r where s1: "apply_entry T e sm = (sm1, r)" by fastforce
  obtain rs' where s2: "apply_log T es sm1 = (sm', rs')" "rs = r # rs'"
    using Cons.prems(1) s1 by (auto split: prod.splits)
  have w: "sm_wf sm1" using apply_entry_wf [OF Cons.prems(2), of T e] s1 by simp
  have f: "cs_last_applied sm1 = Some (re_log_id e)" "cs_engine sm1 = cs_engine sm"
    "cs_membership sm1 = (case re_payload e of MembershipEntry x \<Rightarrow> \<lparr>sm_log_id = Some (re_log_id e), sm_membership = x\<rparr> | _ \<Rightarrow> cs_membership sm)"
    using s1 by (auto simp: Let_def split: entry_payload.splits)
  show ?case using Cons.IH [OF s2(1) w] f s2(2) by simp
qed simp

section \<open>Properties\<close>

text \<open>C35: The cluster state stays well formed. However a log is applied to a new state machine, in batches or
  as a whole, nodes are filed under their own ids, at most one of them is the leader, there is one
  response per entry, and the applied position and membership are those of the last entry and of the
  last membership entry.\<close>

theorem cluster_state_wf:
  "\<exists>sm rs. apply_log T (es @ es') (sm_new m0 :: ('m, 'e) cluster_sm) = (sm, rs) \<and>
    (case apply_log T es (sm_new m0 :: ('m, 'e) cluster_sm) of (sm1, rs1) \<Rightarrow> apply_log T es' sm1 = (sm, drop (length es) rs)) \<and>
    sm_wf sm \<and> length rs = length (es @ es') \<and>
    applied_state sm =
      (if es @ es' = [] then None else Some (re_log_id (last (es @ es'))),
       membership_after (es @ es') \<lparr>sm_log_id = None, sm_membership = m0\<rparr>)"
proof -
  obtain sm rs where a: "apply_log T (es @ es') (sm_new m0 :: ('m, 'e) cluster_sm) = (sm, rs)" by fastforce
  obtain sm1 rs1 where b: "apply_log T es (sm_new m0 :: ('m, 'e) cluster_sm) = (sm1, rs1)" by fastforce
  have wf: "sm_wf (sm_new m0 :: ('m, 'e) cluster_sm)" by (simp add: sm_wf_def sm_new_def)
  have "apply_log T es' sm1 = (sm, drop (length es) rs)"
    using a b apply_log_ok [OF b wf] by (auto simp: apply_log_append split: prod.splits)
  then show ?thesis using a b apply_log_ok [OF a wf] by (simp add: applied_state_def sm_new_def)
qed

lemma le_u32_prefix: "length b < 2 ^ 32 \<Longrightarrow> unat (le_u32 (u32_le (of_nat (length b)) @ xs)) = length b"
  by (simp add: unat_of_nat)

text \<open>C17: Snapshots carry the state. When the state machine and the engine can be serialized, building a
  snapshot succeeds, and installing it on any node succeeds: the node takes over nodes, collections,
  clock tags, applied position and membership, and keeps its engine, which has been given exactly the
  bytes of the sender's engine.\<close>

theorem snapshot_installs:
  assumes "sm_codec_laws S" "enc_sm S a = Some b" "length b < 2 ^ 32"
    and "cs_engine a = Some ea" "spv_snapshot V ea = Inr data" "data \<noteq> []"
    and "cs_engine c = Some ec" "spv_restore V data ec = (ec', Inr ())"
  shows "\<exists>s. builder_build_snapshot S V sid (get_snapshot_builder a) = Inr s \<and>
    get_current_snapshot S V sid a = Inr (Some s) \<and>
    install_snapshot S V (sn_meta s) (sn_data s) c = (a\<lparr>cs_engine := Some ec'\<rparr>, Inr ())"
proof -
  let ?bytes = "u32_le (of_nat (length b)) @ b @ data"
  have len: "unat (le_u32 ?bytes) = length b" by (rule le_u32_prefix [OF assms(3)])
  have four: "length (u32_le w) = 4" for w by simp
  have dec: "dec_sm S b = Some (a\<lparr>cs_engine := None\<rparr>)" using assms(1,2) by (simp add: sm_codec_laws_def)
  have "install_cluster S ?bytes (length b) c = Inr (a\<lparr>cs_engine := Some ec\<rparr>)"
    using dec assms(7) by (simp add: install_cluster_def four)
  moreover have "install_engine V ?bytes (length b) (a\<lparr>cs_engine := Some ec\<rparr>) = (a\<lparr>cs_engine := Some ec'\<rparr>, Inr ())"
    using assms(6,8) by (simp add: install_engine_def four)
  ultimately show ?thesis
    using assms(2,4,5) len
    by (simp add: builder_build_snapshot_def get_snapshot_builder_def get_current_snapshot_def cluster_snapshot_of_def
        install_snapshot_def four)
qed

text \<open>The witness: a state with one node and an engine that is the list of the bytes it was given.\<close>

definition demo_sm :: "bytes option \<Rightarrow> (unit, bytes) cluster_sm" where
  "demo_sm e = (cluster_apply_operation (AddNode 1 ''a'') (sm_new ()))\<lparr>cs_engine := e\<rparr>"

definition demo_sm_codec :: "(unit, bytes) sm_codec" where
  "demo_sm_codec =
     \<lparr>enc_sm = (\<lambda>sm. if sm\<lparr>cs_engine := None\<rparr> = demo_sm None then Some [1, 2] else None),
      dec_sm = (\<lambda>b. if b = [1, 2] then Some (demo_sm None) else None)\<rparr>"

definition demo_provider :: "bytes snapshot_provider" where
  "demo_provider = \<lparr>spv_snapshot = (\<lambda>e. Inr e), spv_restore = (\<lambda>b e. (b, Inr ()))\<rparr>"

lemma snapshot_installs_witness:
  "\<exists>s. builder_build_snapshot demo_sm_codec demo_provider ''s'' (demo_sm (Some [7])) = Inr s \<and>
    install_snapshot demo_sm_codec demo_provider (sn_meta s) (sn_data s) ((sm_new ())\<lparr>cs_engine := Some [9]\<rparr>) = (demo_sm (Some [7]), Inr ())"
proof -
  have laws: "sm_codec_laws demo_sm_codec" by (auto simp: sm_codec_laws_def demo_sm_codec_def)
  have enc: "enc_sm demo_sm_codec (demo_sm (Some [7])) = Some [1, 2]" by (simp add: demo_sm_codec_def demo_sm_def)
  have eng: "cs_engine (demo_sm (Some [7])) = Some [7]" "spv_snapshot demo_provider [7] = Inr [7]"
    "cs_engine ((sm_new ())\<lparr>cs_engine := Some [9]\<rparr>) = Some [9 :: byte]" "spv_restore demo_provider [7] [9] = ([7], Inr ())"
    by (simp_all add: demo_sm_def demo_provider_def)
  have small: "length [1 :: byte, 2] < 2 ^ 32" "[7 :: byte] \<noteq> []" by simp_all
  have same: "(demo_sm (Some [7]))\<lparr>cs_engine := Some [7]\<rparr> = demo_sm (Some [7])" by (simp add: demo_sm_def)
  from snapshot_installs [OF laws enc small(1) eng(1,2) small(2) eng(3,4), of "''s''"] show ?thesis
    unfolding same get_snapshot_builder_def by blast
qed

text \<open>
  A snapshot that is cut off inside the cluster state is not refused: nothing of it is installed, but the
  node takes over the applied position.
\<close>

lemma truncated_snapshot_accepted:
  assumes "4 \<le> length data" "length data < 4 + unat (le_u32 data)"
  shows "install_snapshot S V meta data sm =
    (sm\<lparr>cs_last_applied := sn_last_log_id meta, cs_membership := sn_last_membership meta\<rparr>, Inr ())"
  using assms by (simp add: install_snapshot_def install_cluster_def install_engine_def)

text \<open>The retry delay is the same at every attempt, and the snapshot path repeats the prefix of the URL.\<close>

lemma net_backoff_constant: "net_backoff_ms i = 500"
proof -
  have "(1 :: nat) \<le> 2 ^ min i 3" by simp
  then show ?thesis by (simp add: net_backoff_ms_def min_def)
qed

lemma snapshot_url_doubled: "rpc_url addr ''raft/install_snapshot'' = ''http://'' @ addr @ ''/internal/raft/raft/install_snapshot''"
  by (simp add: rpc_url_def)

end
