(* ===== verification/Api.thy ===== *)
theory Api
  imports Engine_Semantics Cluster_State
begin

text \<open>
  The HTTP API, \<^verbatim>\<open>crates/rekha-api/src/lib.rs\<close>: request and response types, validators, the
  authentication layer and one handler per route. A handler is an action on the shared state; what the
  consensus library answers is the parameter \<open>raft_ops\<close>. The JSON texts of the bodies and the
  message texts of engine errors are not modelled: a handler starts from the decoded request and ends
  in its response value or its error. The length of a string is that of its bytes.
\<close>

section \<open>State and errors\<close>

datatype api_error =
    Api_engine engine_error
  | Api_validation string
  | Api_not_found string

text \<open>Validation errors and missing collections are the client's, everything else is the server's.\<close>

fun engine_error_status :: "api_error \<Rightarrow> nat" where
  "engine_error_status (Api_not_found _) = 404"
| "engine_error_status (Api_validation _) = 400"
| "engine_error_status (Api_engine e) =
     (case e of CollectionNotFound _ \<Rightarrow> 404 | Validation _ \<Rightarrow> 400 | _ \<Rightarrow> 500)"

record ('b, 'g, 'r) app_state =
  ap_engine :: "('b, 'g) engine"
  ap_tenant :: string
  ap_database :: string
  ap_raft :: "'r option"
  ap_api_key :: "string option"

text \<open>The consensus library; requests, answers and memberships are opaque.\<close>

record ('r, 'q, 'p, 'm) raft_ops =
  ro_client_write :: "cluster_operation \<Rightarrow> 'r \<Rightarrow> 'r \<times> (string + unit)"
  ro_append_entries :: "'q \<Rightarrow> 'r \<Rightarrow> 'r \<times> 'p option"
  ro_vote :: "'q \<Rightarrow> 'r \<Rightarrow> 'r \<times> 'p option"
  ro_install_full_snapshot :: "'q \<Rightarrow> 'm raft_snapshot \<Rightarrow> 'r \<Rightarrow> 'r \<times> 'p option"
  ro_voters :: "'r \<Rightarrow> u64 list"
  ro_learners :: "'r \<Rightarrow> u64 list"
  ro_leader :: "'r \<Rightarrow> u64 option"
  ro_state :: "'r \<Rightarrow> string"
  ro_add_learner :: "u64 \<Rightarrow> 'r \<Rightarrow> 'r \<times> bool"
  ro_change_membership :: "u64 set \<Rightarrow> 'r \<Rightarrow> 'r \<times> bool"

type_synonym ('s, 'e, 'a) handler = "'s \<Rightarrow> 's \<times> ('e + 'a) run"

definition h_return :: "'a \<Rightarrow> ('s, 'e, 'a) handler" where
  "h_return x s = (s, Returns (Inr x))"

definition h_fail :: "'e \<Rightarrow> ('s, 'e, 'a) handler" where
  "h_fail e s = (s, Returns (Inl e))"

definition h_bind :: "('s, 'e, 'a) handler \<Rightarrow> ('a \<Rightarrow> ('s, 'e, 'b) handler) \<Rightarrow> ('s, 'e, 'b) handler" where
  "h_bind m k s =
     (case m s of
        (s', Panics) \<Rightarrow> (s', Panics)
      | (s', Returns (Inl e)) \<Rightarrow> (s', Returns (Inl e))
      | (s', Returns (Inr x)) \<Rightarrow> k x s')"

text \<open>A check before the handler goes on, an operation of the engine, a read of it.\<close>

definition h_check :: "'e + 'a \<Rightarrow> ('s, 'e, 'a) handler" where
  "h_check r s = (s, Returns r)"

definition engine_do :: "(('b, 'g) engine, 'a) action \<Rightarrow> (('b, 'g, 'r) app_state, api_error, 'a) handler" where
  "engine_do m s =
     (case m (ap_engine s) of
        (e, Panics) \<Rightarrow> (s\<lparr>ap_engine := e\<rparr>, Panics)
      | (e, Returns (Inl err)) \<Rightarrow> (s\<lparr>ap_engine := e\<rparr>, Returns (Inl (Api_engine err)))
      | (e, Returns (Inr x)) \<Rightarrow> (s\<lparr>ap_engine := e\<rparr>, Returns (Inr x)))"

definition engine_read :: "(('b, 'g) engine \<Rightarrow> engine_error + 'a) \<Rightarrow> (('b, 'g, 'r) app_state, api_error, 'a) handler" where
  "engine_read f = engine_do (\<lambda>e. (e, Returns (f e)))"

section \<open>Authentication\<close>

text \<open>A header is absent or has a value, which may not be text.\<close>

definition provided_token :: "(string \<times> string option) list \<Rightarrow> string option" where
  "provided_token headers =
     (case map_of headers ''x-chroma-token'' of
        Some v \<Rightarrow> v
      | None \<Rightarrow> (case map_of headers ''x-api-key'' of Some v \<Rightarrow> v | None \<Rightarrow> None))"

definition authorized :: "string option \<Rightarrow> (string \<times> string option) list \<Rightarrow> bool" where
  "authorized api_key headers =
     (case api_key of
        None \<Rightarrow> True
      | Some expected \<Rightarrow> (case provided_token headers of Some token \<Rightarrow> token = expected | None \<Rightarrow> False))"

text \<open>The layer around a route, with the status of a refusal.\<close>

definition auth ::
  "(string \<times> string option) list \<Rightarrow> ('b, 'g, 'r) app_state option \<Rightarrow>
     (('b, 'g, 'r) app_state \<Rightarrow> 'a) \<Rightarrow> nat + 'a" where
  "auth headers extension next =
     (case extension of
        None \<Rightarrow> Inl 500
      | Some s \<Rightarrow> if authorized (ap_api_key s) headers then Inr (next s) else Inl 401)"

section \<open>Validators\<close>

definition MAX_BATCH_SIZE :: nat where "MAX_BATCH_SIZE = 10000"
definition MAX_QUERY_EMBEDDINGS :: nat where "MAX_QUERY_EMBEDDINGS = 100"
definition MAX_N_RESULTS :: nat where "MAX_N_RESULTS = 1000"
definition MAX_ID_LENGTH :: nat where "MAX_ID_LENGTH = 512"
definition MAX_NAME_LENGTH :: nat where "MAX_NAME_LENGTH = 512"
definition MAX_DIMENSION :: nat where "MAX_DIMENSION = 65536"

definition validation_err :: "string \<Rightarrow> api_error + 'a" where
  "validation_err msg = Inl (Api_validation msg)"

abbreviation "num n \<equiv> nat_to_string n"

definition validate_name :: "string \<Rightarrow> api_error + unit" where
  "validate_name name =
     (if name = [] then validation_err ''name must not be empty''
      else if length name > MAX_NAME_LENGTH then validation_err (''name exceeds max length '' @ num MAX_NAME_LENGTH)
      else Inr ())"

fun validate_each_id :: "id list \<Rightarrow> api_error + unit" where
  "validate_each_id [] = Inr ()"
| "validate_each_id (i # ids) =
     (if i = [] then validation_err ''id must not be empty''
      else if length i > MAX_ID_LENGTH
      then validation_err (''id exceeds max length '' @ num MAX_ID_LENGTH @ '': '' @ i)
      else validate_each_id ids)"

definition validate_ids :: "id list \<Rightarrow> api_error + unit" where
  "validate_ids ids =
     (if ids = [] then validation_err ''ids must not be empty''
      else if length ids > MAX_BATCH_SIZE
      then validation_err (''batch size '' @ num (length ids) @ '' exceeds max '' @ num MAX_BATCH_SIZE)
      else validate_each_id ids)"

fun validate_each_embedding :: "string \<Rightarrow> embedding list \<Rightarrow> api_error + unit" where
  "validate_each_embedding what [] = Inr ()"
| "validate_each_embedding what (e # es) =
     (if e = [] then validation_err (what @ '' must not be empty'')
      else if length e > MAX_DIMENSION
      then validation_err (what @ '' dimension '' @ num (length e) @ '' exceeds max '' @ num MAX_DIMENSION)
      else validate_each_embedding what es)"

definition validate_embeddings :: "embedding list \<Rightarrow> api_error + unit" where
  "validate_embeddings es =
     (if es = [] then validation_err ''embeddings must not be empty'' else validate_each_embedding ''embedding'' es)"

definition check_len :: "string \<Rightarrow> 'a list option \<Rightarrow> nat \<Rightarrow> api_error + unit" where
  "check_len what opt n =
     (case opt of
        None \<Rightarrow> Inr ()
      | Some v \<Rightarrow>
          if length v \<noteq> n then validation_err (what @ '' len '' @ num (length v) @ '' != ids len '' @ num n) else Inr ())"

record add_request =
  ar_ids :: "id list"
  ar_embeddings :: "embedding list"
  ar_metadatas :: "metadata option list option"
  ar_documents :: "document option list option"

record update_request =
  ur_ids :: "id list"
  ur_metadatas :: "metadata option list option"
  ur_documents :: "document option list option"

record delete_request =
  der_ids :: "id list"

record query_request =
  qr_query_embeddings :: "embedding list"
  qr_n_results :: nat
  qr_where_filter :: "where_filter option"
  qr_include :: "string list"

record get_request =
  gr_ids :: "id list option"
  gr_where_filter :: "where_filter option"
  gr_include :: "string list"

record create_collection_request =
  ccr_name :: string
  ccr_dimension :: nat
  ccr_distance :: distance

definition default_distance :: distance where
  "default_distance = L2"

definition default_k :: nat where
  "default_k = 10"

definition ids_embeddings_len :: "nat \<Rightarrow> nat \<Rightarrow> api_error + unit" where
  "ids_embeddings_len n m =
     (if n \<noteq> m then validation_err (''ids len '' @ num n @ '' != embeddings len '' @ num m) else Inr ())"

definition validate_add_request :: "add_request \<Rightarrow> api_error + unit" where
  "validate_add_request r =
     and_then (validate_ids (ar_ids r)) (\<lambda>_.
     and_then (validate_embeddings (ar_embeddings r)) (\<lambda>_.
     and_then (ids_embeddings_len (length (ar_ids r)) (length (ar_embeddings r))) (\<lambda>_.
     and_then (check_len ''metadatas'' (ar_metadatas r) (length (ar_ids r))) (\<lambda>_.
       check_len ''documents'' (ar_documents r) (length (ar_ids r))))))"

definition validate_upsert_request :: "add_request \<Rightarrow> api_error + unit" where
  "validate_upsert_request r =
     and_then (validate_ids (ar_ids r)) (\<lambda>_.
     and_then (validate_embeddings (ar_embeddings r)) (\<lambda>_.
     and_then (ids_embeddings_len (length (ar_ids r)) (length (ar_embeddings r))) (\<lambda>_.
     and_then (check_len ''metadatas'' (ar_metadatas r) (length (ar_ids r))) (\<lambda>_.
       check_len ''documents'' (ar_documents r) (length (ar_ids r))))))"

definition validate_query_request :: "query_request \<Rightarrow> api_error + unit" where
  "validate_query_request r =
     (if qr_query_embeddings r = [] then validation_err ''query_embeddings must not be empty''
      else if length (qr_query_embeddings r) > MAX_QUERY_EMBEDDINGS
      then validation_err (''query_embeddings len '' @ num (length (qr_query_embeddings r)) @ '' exceeds max '' @ num MAX_QUERY_EMBEDDINGS)
      else if qr_n_results r = 0 then validation_err ''n_results must be >= 1''
      else if qr_n_results r > MAX_N_RESULTS
      then validation_err (''n_results '' @ num (qr_n_results r) @ '' exceeds max '' @ num MAX_N_RESULTS)
      else validate_each_embedding ''query embedding'' (qr_query_embeddings r))"

definition validate_delete_request :: "delete_request \<Rightarrow> api_error + unit" where
  "validate_delete_request r = validate_ids (der_ids r)"

definition validate_update_request :: "update_request \<Rightarrow> api_error + unit" where
  "validate_update_request r =
     and_then (validate_ids (ur_ids r)) (\<lambda>_.
     and_then (check_len ''metadatas'' (ur_metadatas r) (length (ur_ids r))) (\<lambda>_.
       check_len ''documents'' (ur_documents r) (length (ur_ids r))))"

end
