(* ===== verification/Api_Handlers.thy ===== *)
theory Api_Handlers
  imports Api
begin

text \<open>
  The handlers of \<^verbatim>\<open>crates/rekha-api/src/lib.rs\<close>. The fresh id and the clock of a new collection are
  arguments; response bodies are records, and the fixed JSON replies are JSON values.
\<close>

section \<open>Cluster endpoints\<close>

text \<open>A call of the consensus library: 503 without one, 500 when the call fails.\<close>

definition with_raft :: "('r \<Rightarrow> 'r \<times> 'a option) \<Rightarrow> (('b, 'g, 'r) app_state, nat, 'a) handler" where
  "with_raft f s =
     (case ap_raft s of
        None \<Rightarrow> h_fail 503 s
      | Some r \<Rightarrow>
          (case f r of
             (r', None) \<Rightarrow> h_fail 500 (s\<lparr>ap_raft := Some r'\<rparr>)
           | (r', Some x) \<Rightarrow> h_return x (s\<lparr>ap_raft := Some r'\<rparr>)))"

definition raft_append_entries :: "('r, 'q, 'p, 'm) raft_ops \<Rightarrow> 'q \<Rightarrow> (('b, 'g, 'r) app_state, nat, 'p) handler" where
  "raft_append_entries R req = with_raft (ro_append_entries R req)"

definition raft_vote :: "('r, 'q, 'p, 'm) raft_ops \<Rightarrow> 'q \<Rightarrow> (('b, 'g, 'r) app_state, nat, 'p) handler" where
  "raft_vote R req = with_raft (ro_vote R req)"

definition raft_install_snapshot ::
  "('r, 'q, 'p, 'm) raft_ops \<Rightarrow> 'q \<times> 'm snapshot_meta \<times> bytes \<Rightarrow> (('b, 'g, 'r) app_state, nat, 'p) handler" where
  "raft_install_snapshot R req =
     (case req of (vote, meta, data) \<Rightarrow>
        with_raft (ro_install_full_snapshot R vote \<lparr>sn_meta = meta, sn_data = data\<rparr>))"

definition wal_delta_handler ::
  "('b, 'g) engine_env \<Rightarrow> uuid \<Rightarrow> (string \<times> string) list \<Rightarrow> (('b, 'g, 'r) app_state, api_error, wal_delta) handler" where
  "wal_delta_handler E u params =
     engine_do (engine_wal_delta E u (case Option.bind (map_of params ''from_seq'') parse_u64 of Some n \<Rightarrow> n | None \<Rightarrow> 1))"

definition wal_status_handler :: "uuid \<Rightarrow> (('b, 'g, 'r) app_state, api_error, u64) handler" where
  "wal_status_handler u = engine_do (engine_wal_last_seq u)"

definition raft_membership :: "('r, 'q, 'p, 'm) raft_ops \<Rightarrow> (('b, 'g, 'r) app_state, nat, u64 list \<times> u64 option \<times> string) handler" where
  "raft_membership R = with_raft (\<lambda>r. (r, Some (ro_voters R r @ ro_learners R r, ro_leader R r, ro_state R r)))"

text \<open>The node id of the request body, if it is an unsigned number.\<close>

definition raft_add_learner :: "('r, 'q, 'p, 'm) raft_ops \<Rightarrow> u64 option \<Rightarrow> (('b, 'g, 'r) app_state, nat, nat) handler" where
  "raft_add_learner R node_id s =
     (if ap_raft s = None then h_fail 503 s
      else case node_id of
        None \<Rightarrow> h_fail 400 s
      | Some n \<Rightarrow> with_raft (\<lambda>r. case ro_add_learner R n r of (r', ok) \<Rightarrow> (r', if ok then Some 200 else None)) s)"

definition raft_remove_member :: "('r, 'q, 'p, 'm) raft_ops \<Rightarrow> u64 option \<Rightarrow> (('b, 'g, 'r) app_state, nat, nat) handler" where
  "raft_remove_member R node_id s =
     (case ap_raft s of
        None \<Rightarrow> h_fail 503 s
      | Some r \<Rightarrow>
          (case node_id of
             None \<Rightarrow> h_fail 400 s
           | Some n \<Rightarrow>
               (let members = set (filter (\<lambda>i. i \<noteq> n) (ro_voters R r @ ro_learners R r)) in
                if members = {} then h_fail 400 s
                else with_raft (\<lambda>r. case ro_change_membership R members r of (r', ok) \<Rightarrow> (r', if ok then Some 200 else None)) s)))"

section \<open>Collections\<close>

record collection_response =
  crs_id :: uuid
  crs_name :: string
  crs_dimension :: nat
  crs_distance :: distance
  crs_count :: nat

definition collection_response_of :: "collection_record \<Rightarrow> nat \<Rightarrow> collection_response" where
  "collection_response_of r count =
     \<lparr>crs_id = cc_id (cr_config r), crs_name = cc_name (cr_config r), crs_dimension = cc_dimension (cr_config r),
      crs_distance = cc_space (cr_config r), crs_count = count\<rparr>"

definition distance_debug :: "distance \<Rightarrow> string" where
  "distance_debug d = (case d of L2 \<Rightarrow> ''L2'' | Cosine \<Rightarrow> ''Cosine'' | Ip \<Rightarrow> ''Ip'')"

text \<open>The operation is proposed to the cluster after it has been applied locally.\<close>

definition propagate ::
  "('r, 'q, 'p, 'm) raft_ops \<Rightarrow> cluster_operation \<Rightarrow> string \<Rightarrow> (('b, 'g, 'r) app_state, api_error, unit) handler" where
  "propagate R op failure s =
     (case ap_raft s of
        None \<Rightarrow> h_return () s
      | Some r \<Rightarrow>
          (case ro_client_write R op r of
             (r', Inl e) \<Rightarrow> h_fail (Api_validation (failure @ e)) (s\<lparr>ap_raft := Some r'\<rparr>)
           | (r', Inr _) \<Rightarrow> h_return () (s\<lparr>ap_raft := Some r'\<rparr>)))"

definition api_create_collection ::
  "('b, 'g) engine_env \<Rightarrow> ('r, 'q, 'p, 'm) raft_ops \<Rightarrow> uuid \<Rightarrow> nat \<Rightarrow> create_collection_request \<Rightarrow>
     (('b, 'g, 'r) app_state, api_error, collection_response) handler" where
  "api_create_collection E R fresh now req s =
     h_bind (h_check (validate_name (ccr_name req))) (\<lambda>_.
     h_bind (h_check (if ccr_dimension req > MAX_DIMENSION
         then validation_err (''dimension '' @ num (ccr_dimension req) @ '' exceeds max '' @ num MAX_DIMENSION)
         else Inr ())) (\<lambda>_.
       let config = (collection_config_new fresh now (ccr_name req) (ccr_dimension req) (ccr_distance req))
             \<lparr>cc_tenant := ap_tenant s, cc_database := ap_database s\<rparr>
       in h_bind (engine_do (create_collection E config)) (\<lambda>record.
          h_bind (engine_do (engine_count (cc_id (cr_config record)))) (\<lambda>count.
          h_bind (propagate R
              (AddCollection (cc_id (cr_config record)) (ccr_name req) (of_nat (ccr_dimension req))
                 (to_ascii_lowercase (distance_debug (ccr_distance req))) (ap_tenant s) (ap_database s) [1])
              ''failed to replicate collection creation: '') (\<lambda>_.
            h_return (collection_response_of record count)))))) s"

fun count_each ::
  "collection_record list \<Rightarrow> (('b, 'g, 'r) app_state, api_error, collection_response list) handler" where
  "count_each [] = h_return []"
| "count_each (r # rs) =
     h_bind (engine_do (engine_count (cc_id (cr_config r)))) (\<lambda>count.
     h_bind (count_each rs) (\<lambda>out. h_return (collection_response_of r count # out)))"

definition api_list_collections ::
  "('b, 'g) engine_env \<Rightarrow> (('b, 'g, 'r) app_state, api_error, collection_response list) handler" where
  "api_list_collections E s = h_bind (engine_read (list_collections E (ap_tenant s) (ap_database s))) count_each s"

definition api_get_collection ::
  "('b, 'g) engine_env \<Rightarrow> uuid \<Rightarrow> (('b, 'g, 'r) app_state, api_error, collection_response) handler" where
  "api_get_collection E u =
     h_bind (engine_read (get_collection_by_id E u)) (\<lambda>found.
       case found of
         None \<Rightarrow> h_fail (Api_engine (CollectionNotFound u))
       | Some r \<Rightarrow> h_bind (engine_do (engine_count u)) (\<lambda>count. h_return (collection_response_of r count)))"

definition api_delete_collection ::
  "('b, 'g) engine_env \<Rightarrow> ('r, 'q, 'p, 'm) raft_ops \<Rightarrow> uuid \<Rightarrow> (('b, 'g, 'r) app_state, api_error, nat) handler" where
  "api_delete_collection E R u =
     h_bind (engine_do (delete_collection E u)) (\<lambda>_.
     h_bind (propagate R (RemoveCollection u) ''failed to replicate collection deletion: '') (\<lambda>_. h_return 200))"

section \<open>Records\<close>

definition add_records ::
  "('b, 'g) engine_env \<Rightarrow> uuid \<Rightarrow> add_request \<Rightarrow> (('b, 'g, 'r) app_state, api_error, nat) handler" where
  "add_records E u r =
     h_bind (h_check (validate_add_request r)) (\<lambda>_.
     h_bind (engine_do (engine_add E u (ar_ids r) (ar_embeddings r) (ar_metadatas r) (ar_documents r))) (\<lambda>_. h_return 200))"

definition upsert_records ::
  "('b, 'g) engine_env \<Rightarrow> uuid \<Rightarrow> add_request \<Rightarrow> (('b, 'g, 'r) app_state, api_error, nat) handler" where
  "upsert_records E u r =
     h_bind (h_check (validate_upsert_request r)) (\<lambda>_.
     h_bind (engine_do (engine_upsert E u (ar_ids r) (ar_embeddings r) (ar_metadatas r) (ar_documents r))) (\<lambda>_. h_return 200))"

definition update_records ::
  "('b, 'g) engine_env \<Rightarrow> uuid \<Rightarrow> update_request \<Rightarrow> (('b, 'g, 'r) app_state, api_error, nat) handler" where
  "update_records E u r =
     h_bind (h_check (validate_update_request r)) (\<lambda>_.
     h_bind (engine_do (engine_update E u (ur_ids r) (ur_metadatas r) (ur_documents r))) (\<lambda>_. h_return 200))"

definition delete_records ::
  "('b, 'g) engine_env \<Rightarrow> uuid \<Rightarrow> delete_request \<Rightarrow> (('b, 'g, 'r) app_state, api_error, nat) handler" where
  "delete_records E u r =
     h_bind (h_check (validate_delete_request r)) (\<lambda>_.
     h_bind (engine_do (engine_delete E u (der_ids r))) (\<lambda>_. h_return 200))"

fun query_each ::
  "('b, 'g) engine_env \<Rightarrow> uuid \<Rightarrow> nat \<Rightarrow> query_options \<Rightarrow> embedding list \<Rightarrow>
     (('b, 'g, 'r) app_state, api_error, scored_point list list) handler" where
  "query_each E u k opts [] = h_return []"
| "query_each E u k opts (q # qs) =
     h_bind (engine_do (engine_query E u q k opts)) (\<lambda>ps.
     h_bind (query_each E u k opts qs) (\<lambda>rest. h_return (ps # rest)))"

record query_response =
  qrs_ids :: "id list list"
  qrs_distances :: "f32 list list option"
  qrs_metadatas :: "metadata option list list option"
  qrs_documents :: "document option list list option"

definition f32_infinity :: f32 where
  "f32_infinity = 0x7F800000"

text \<open>\<^verbatim>\<open>resize_with\<close> where the row is shorter than \<open>k\<close>.\<close>

definition pad :: "nat \<Rightarrow> 'a \<Rightarrow> 'a list \<Rightarrow> 'a list" where
  "pad k x row = (if length row < k then row @ replicate (k - length row) x else row)"

definition column :: "bool \<Rightarrow> nat \<Rightarrow> 'a \<Rightarrow> (scored_point \<Rightarrow> 'a) \<Rightarrow> scored_point list list \<Rightarrow> 'a list list option" where
  "column present k missing f results = (if present then Some (map (\<lambda>ps. pad k missing (map f ps)) results) else None)"

definition query_response_of :: "string list \<Rightarrow> scored_point list list \<Rightarrow> query_response" where
  "query_response_of include results =
     (let k = (case results of [] \<Rightarrow> 0 | r # _ \<Rightarrow> length r) in
      \<lparr>qrs_ids = map (\<lambda>ps. pad k [] (map sp_id ps)) results,
       qrs_distances = column (''distances'' \<in> set include) k f32_infinity sp_distance results,
       qrs_metadatas = column (''metadatas'' \<in> set include) k None sp_metadata results,
       qrs_documents = column (''documents'' \<in> set include) k None sp_document results\<rparr>)"

definition query_records ::
  "('b, 'g) engine_env \<Rightarrow> uuid \<Rightarrow> query_request \<Rightarrow> (('b, 'g, 'r) app_state, api_error, query_response) handler" where
  "query_records E u r =
     h_bind (h_check (validate_query_request r)) (\<lambda>_.
     h_bind (query_each E u (qr_n_results r)
         \<lparr>qo_ef = 0, qo_where_filter = qr_where_filter r, qo_oversampling = 4\<rparr> (qr_query_embeddings r)) (\<lambda>results.
       h_return (query_response_of (qr_include r) results)))"

record get_response =
  grs_ids :: "id list"
  grs_embeddings :: "embedding list option"
  grs_metadatas :: "metadata option list option"
  grs_documents :: "document option list option"

definition get_response_of :: "string list \<Rightarrow> live_record option list \<Rightarrow> get_response" where
  "get_response_of include records =
     \<lparr>grs_ids = List.map_filter (map_option lr_id) records,
      grs_embeddings =
        (if ''embeddings'' \<in> set include then Some (List.map_filter (\<lambda>r. Option.bind r lr_embedding) records) else None),
      grs_metadatas = Some (map (\<lambda>r. Option.bind r lr_metadata) records),
      grs_documents = Some (map (\<lambda>r. Option.bind r lr_document) records)\<rparr>"

definition get_records :: "uuid \<Rightarrow> get_request \<Rightarrow> (('b, 'g, 'r) app_state, api_error, get_response) handler" where
  "get_records u r =
     (let ids = (case gr_ids r of Some ids \<Rightarrow> ids | None \<Rightarrow> []) in
      h_bind (if ids = [] then h_return [] else engine_do (engine_get u ids)) (\<lambda>records.
        h_return (get_response_of (gr_include r) records)))"

definition count_records :: "uuid \<Rightarrow> (('b, 'g, 'r) app_state, api_error, nat) handler" where
  "count_records u = engine_do (engine_count u)"

section \<open>Health and fixed replies\<close>

definition health_handler :: nat where
  "health_handler = 200"

definition ready_handler :: "('b, 'g) engine_env \<Rightarrow> ('b, 'g, 'r) app_state \<Rightarrow> nat" where
  "ready_handler E s = (case list_collections E (ap_tenant s) (ap_database s) (ap_engine s) of Inr _ \<Rightarrow> 200 | Inl _ \<Rightarrow> 503)"

definition auth_identity :: "'n json" where
  "auth_identity = JObject [(''user_id'', JString ''00000000-0000-0000-0000-000000000000'')]"

definition api_get_tenant :: "string \<Rightarrow> 'n json" where
  "api_get_tenant name = JObject [(''name'', JString name)]"

definition api_create_tenant :: "'n json \<Rightarrow> nat" where
  "api_create_tenant req = 201"

definition api_list_databases :: "string \<Rightarrow> 'n json" where
  "api_list_databases tenant = JArray []"

definition api_get_database :: "string \<Rightarrow> string \<Rightarrow> 'n json" where
  "api_get_database tenant name =
     JObject [(''id'', JString ''00000000-0000-0000-0000-000000000000''), (''name'', JString name), (''tenant'', JString tenant)]"

definition api_create_database :: "string \<Rightarrow> 'n json \<Rightarrow> nat" where
  "api_create_database tenant req = 201"

end
