(* ===== verification/Api_Chroma.thy ===== *)
theory Api_Chroma
  imports Api_Handlers
begin

text \<open>
  The Chroma-compatible routes, \<^verbatim>\<open>crates/rekha-api/src/chroma.rs\<close>: flat metadata values, the lookup of
  a collection by id or name, and one handler per route. The clock of the heartbeat is an argument.
\<close>

section \<open>Values\<close>

datatype chroma_value = ChromaStr string | ChromaBool bool | ChromaInt i64 | ChromaFloat f64

type_synonym chroma_metadata = "(string \<times> chroma_value) list"

fun value_of_chroma :: "chroma_value \<Rightarrow> metadata_value" where
  "value_of_chroma (ChromaStr s) = Str s"
| "value_of_chroma (ChromaBool b) = Bool b"
| "value_of_chroma (ChromaInt i) = IntV i"
| "value_of_chroma (ChromaFloat f) = Float f"

definition convert_metadata :: "chroma_metadata option \<Rightarrow> metadata option" where
  "convert_metadata m = map_option (map (\<lambda>(k, v). (k, value_of_chroma v))) m"

fun flat_value :: "'n num_ops \<Rightarrow> metadata_value \<Rightarrow> 'n json" where
  "flat_value N (Str s) = JString s"
| "flat_value N (Bool b) = JBool b"
| "flat_value N (IntV i) = json_of_i64 N i"
| "flat_value N (Float f) = json_of_f64 N f"

definition flatten_metadata :: "'n num_ops \<Rightarrow> metadata option \<Rightarrow> 'n json option" where
  "flatten_metadata N meta = map_option (\<lambda>m. JObject (map (\<lambda>(k, v). (k, flat_value N v)) m)) meta"

section \<open>Requests and responses\<close>

record chroma_create_request =
  chc_name :: string
  chc_metadata :: "chroma_metadata option"
  chc_dimension :: "nat option"
  chc_get_or_create :: bool

record chroma_add_request =
  cha_ids :: "id list"
  cha_embeddings :: "embedding list"
  cha_metadatas :: "chroma_metadata option list option"
  cha_documents :: "document option list option"

record chroma_query_request =
  chq_query_embeddings :: "embedding list"
  chq_n_results :: nat
  chq_where_filter :: "where_filter option"
  chq_include :: "string list"

record chroma_get_request =
  chg_ids :: "id list option"
  chg_where_filter :: "where_filter option"
  chg_include :: "string list"

record 'n chroma_collection =
  chr_id :: string
  chr_name :: string
  chr_type :: string
  chr_dimension :: "nat option"
  chr_metadata :: "'n json option"
  chr_tenant :: string
  chr_database :: string
  chr_configuration :: "'n json option"

record 'n chroma_query_response =
  chqr_ids :: "id list list"
  chqr_distances :: "f32 list list option"
  chqr_metadatas :: "'n json option list list option"
  chqr_documents :: "document option list list option"

record 'n chroma_get_response =
  chgr_ids :: "id list"
  chgr_embeddings :: "embedding list option"
  chgr_metadatas :: "'n json option list option"
  chgr_documents :: "document option list option"

record pre_flight_response =
  pfr_max_batch_size :: nat
  pfr_supports_base64 :: bool

definition default_n_results :: nat where
  "default_n_results = 10"

definition heartbeat :: "nat \<Rightarrow> u64" where
  "heartbeat now_ns = of_nat now_ns"

definition version :: "'n json" where
  "version = JString ''0.1.0''"

definition pre_flight_checks :: pre_flight_response where
  "pre_flight_checks = \<lparr>pfr_max_batch_size = 1000, pfr_supports_base64 = False\<rparr>"

section \<open>Collections\<close>

text \<open>A text that is a uuid is looked up by id alone; any other is a name in the tenant and database.\<close>

definition resolve_collection ::
  "('b, 'g) engine_env \<Rightarrow> string \<Rightarrow> string \<Rightarrow> string \<Rightarrow> ('b, 'g) engine \<Rightarrow> api_error + uuid" where
  "resolve_collection E tenant database name_or_id e =
     (case (case uuid_parse (env_catalog E) name_or_id of
              Some u \<Rightarrow> get_collection_by_id E u e
            | None \<Rightarrow> get_collection E tenant database name_or_id e) of
        Inl err \<Rightarrow> Inl (Api_engine err)
      | Inr None \<Rightarrow> Inl (Api_not_found name_or_id)
      | Inr (Some r) \<Rightarrow> Inr (cc_id (cr_config r)))"

definition resolved ::
  "('b, 'g) engine_env \<Rightarrow> string \<Rightarrow> string \<Rightarrow> string \<Rightarrow> (('b, 'g, 'r) app_state, api_error, uuid) handler" where
  "resolved E tenant database name s = (s, Returns (resolve_collection E tenant database name (ap_engine s)))"

definition chroma_response :: "('b, 'g) engine_env \<Rightarrow> 'n num_ops \<Rightarrow> collection_record \<Rightarrow> 'n chroma_collection" where
  "chroma_response E N r =
     (let c = cr_config r in
      \<lparr>chr_id = uuid_to_string (env_catalog E) (cc_id c), chr_name = cc_name c, chr_type = ''collection'',
       chr_dimension = (if cc_dimension c = 0 then None else Some (cc_dimension c)),
       chr_metadata = flatten_metadata N (cc_metadata c),
       chr_tenant = cc_tenant c, chr_database = cc_database c, chr_configuration = Some (JObject [])\<rparr>)"

definition create_collection_chroma ::
  "('b, 'g) engine_env \<Rightarrow> 'n num_ops \<Rightarrow> uuid \<Rightarrow> nat \<Rightarrow> string \<Rightarrow> string \<Rightarrow> chroma_create_request \<Rightarrow>
     (('b, 'g, 'r) app_state, api_error, nat \<times> 'n chroma_collection) handler" where
  "create_collection_chroma E N fresh now tenant database req =
     (let dimension = (case chc_dimension req of Some d \<Rightarrow> d | None \<Rightarrow> 0) in
      h_bind (h_check (validate_name (chc_name req))) (\<lambda>_.
      h_bind (h_check (if dimension > MAX_DIMENSION
          then validation_err (''dimension '' @ num dimension @ '' exceeds max '' @ num MAX_DIMENSION) else Inr ())) (\<lambda>_.
      h_bind (if chc_get_or_create req
              then engine_read (get_collection E tenant database (chc_name req)) else h_return None) (\<lambda>existing.
        case existing of
          Some r \<Rightarrow> h_return (200, chroma_response E N r)
        | None \<Rightarrow>
            h_bind (engine_do (create_collection E
                ((collection_config_new fresh now (chc_name req) dimension L2)
                   \<lparr>cc_tenant := tenant, cc_database := database, cc_metadata := convert_metadata (chc_metadata req)\<rparr>))) (\<lambda>r.
              h_return (201, chroma_response E N r))))))"

definition list_collections_chroma ::
  "('b, 'g) engine_env \<Rightarrow> 'n num_ops \<Rightarrow> string \<Rightarrow> string \<Rightarrow> (('b, 'g, 'r) app_state, api_error, 'n chroma_collection list) handler" where
  "list_collections_chroma E N tenant database =
     h_bind (engine_read (list_collections E tenant database)) (\<lambda>rs. h_return (map (chroma_response E N) rs))"

definition named_collection ::
  "('b, 'g) engine_env \<Rightarrow> string \<Rightarrow> string \<Rightarrow> string \<Rightarrow> (('b, 'g, 'r) app_state, api_error, collection_record) handler" where
  "named_collection E tenant database name =
     h_bind (engine_read (get_collection E tenant database name)) (\<lambda>found.
       case found of None \<Rightarrow> h_fail (Api_not_found name) | Some r \<Rightarrow> h_return r)"

definition get_collection_chroma ::
  "('b, 'g) engine_env \<Rightarrow> 'n num_ops \<Rightarrow> string \<Rightarrow> string \<Rightarrow> string \<Rightarrow>
     (('b, 'g, 'r) app_state, api_error, 'n chroma_collection) handler" where
  "get_collection_chroma E N tenant database name =
     h_bind (named_collection E tenant database name) (\<lambda>r. h_return (chroma_response E N r))"

definition delete_collection_chroma ::
  "('b, 'g) engine_env \<Rightarrow> 'n num_ops \<Rightarrow> ('r, 'q, 'p, 'm) raft_ops \<Rightarrow> string \<Rightarrow> string \<Rightarrow> string \<Rightarrow>
     (('b, 'g, 'r) app_state, api_error, 'n chroma_collection) handler" where
  "delete_collection_chroma E N R tenant database name =
     h_bind (named_collection E tenant database name) (\<lambda>r.
     h_bind (engine_do (delete_collection E (cc_id (cr_config r)))) (\<lambda>_.
     h_bind (propagate R (RemoveCollection (cc_id (cr_config r))) ''failed to replicate collection deletion: '') (\<lambda>_.
       h_return (chroma_response E N r))))"

section \<open>Records\<close>

fun chroma_id_lengths :: "id list \<Rightarrow> api_error + unit" where
  "chroma_id_lengths [] = Inr ()"
| "chroma_id_lengths (i # ids) =
     (if i = [] \<or> length i > MAX_ID_LENGTH then validation_err (''invalid id length: '' @ i) else chroma_id_lengths ids)"

fun chroma_dimensions :: "embedding list \<Rightarrow> api_error + unit" where
  "chroma_dimensions [] = Inr ()"
| "chroma_dimensions (e # es) =
     (if e = [] \<or> length e > MAX_DIMENSION
      then validation_err (''embedding dimension '' @ num (length e) @ '' invalid (max '' @ num MAX_DIMENSION @ '')'')
      else chroma_dimensions es)"

definition chroma_batch :: "id list \<Rightarrow> api_error + unit" where
  "chroma_batch ids =
     (if ids = [] then validation_err ''ids must not be empty''
      else if length ids > MAX_BATCH_SIZE
      then validation_err (''batch size '' @ num (length ids) @ '' exceeds max '' @ num MAX_BATCH_SIZE)
      else Inr ())"

definition validate_chroma_add :: "chroma_add_request \<Rightarrow> api_error + unit" where
  "validate_chroma_add r =
     and_then (chroma_batch (cha_ids r)) (\<lambda>_.
     and_then (ids_embeddings_len (length (cha_ids r)) (length (cha_embeddings r))) (\<lambda>_.
     and_then (chroma_id_lengths (cha_ids r)) (\<lambda>_.
     and_then (chroma_dimensions (cha_embeddings r)) (\<lambda>_.
     and_then (check_len ''metadatas'' (cha_metadatas r) (length (cha_ids r))) (\<lambda>_.
       check_len ''documents'' (cha_documents r) (length (cha_ids r)))))))"

definition convert_metadatas :: "chroma_metadata option list option \<Rightarrow> metadata option list option" where
  "convert_metadatas ms = map_option (map convert_metadata) ms"

definition add_records_chroma ::
  "('b, 'g) engine_env \<Rightarrow> string \<Rightarrow> string \<Rightarrow> string \<Rightarrow> chroma_add_request \<Rightarrow>
     (('b, 'g, 'r) app_state, api_error, nat \<times> 'n json) handler" where
  "add_records_chroma E tenant database name r =
     h_bind (h_check (validate_chroma_add r)) (\<lambda>_.
     h_bind (resolved E tenant database name) (\<lambda>u.
     h_bind (engine_do (engine_add E u (cha_ids r) (cha_embeddings r) (convert_metadatas (cha_metadatas r)) (cha_documents r))) (\<lambda>_.
       h_return (200, JObject []))))"

definition upsert_records_chroma ::
  "('b, 'g) engine_env \<Rightarrow> string \<Rightarrow> string \<Rightarrow> string \<Rightarrow> chroma_add_request \<Rightarrow>
     (('b, 'g, 'r) app_state, api_error, nat \<times> 'n json) handler" where
  "upsert_records_chroma E tenant database name r =
     h_bind (h_check (validate_chroma_add r)) (\<lambda>_.
     h_bind (resolved E tenant database name) (\<lambda>u.
     h_bind (engine_do (engine_upsert E u (cha_ids r) (cha_embeddings r) (convert_metadatas (cha_metadatas r)) (cha_documents r))) (\<lambda>_.
       h_return (200, JObject []))))"

definition update_records_chroma ::
  "('b, 'g) engine_env \<Rightarrow> string \<Rightarrow> string \<Rightarrow> string \<Rightarrow> chroma_add_request \<Rightarrow>
     (('b, 'g, 'r) app_state, api_error, nat \<times> 'n json) handler" where
  "update_records_chroma E tenant database name r =
     h_bind (h_check (chroma_batch (cha_ids r))) (\<lambda>_.
     h_bind (resolved E tenant database name) (\<lambda>u.
     h_bind (engine_do (engine_update E u (cha_ids r) (convert_metadatas (cha_metadatas r)) (cha_documents r))) (\<lambda>_.
       h_return (200, JObject []))))"

definition delete_records_chroma ::
  "('b, 'g) engine_env \<Rightarrow> string \<Rightarrow> string \<Rightarrow> string \<Rightarrow> delete_request \<Rightarrow>
     (('b, 'g, 'r) app_state, api_error, nat \<times> 'n json) handler" where
  "delete_records_chroma E tenant database name r =
     h_bind (h_check (chroma_batch (der_ids r))) (\<lambda>_.
     h_bind (resolved E tenant database name) (\<lambda>u.
     h_bind (engine_do (engine_delete E u (der_ids r))) (\<lambda>_. h_return (200, JObject []))))"

definition validate_chroma_query :: "chroma_query_request \<Rightarrow> api_error + unit" where
  "validate_chroma_query r =
     (if chq_query_embeddings r = [] then validation_err ''query_embeddings must not be empty''
      else if length (chq_query_embeddings r) > MAX_QUERY_EMBEDDINGS
      then validation_err (''query_embeddings len '' @ num (length (chq_query_embeddings r)) @ '' exceeds max '' @ num MAX_QUERY_EMBEDDINGS)
      else if chq_n_results r = 0 \<or> chq_n_results r > MAX_N_RESULTS
      then validation_err (''n_results '' @ num (chq_n_results r) @ '' out of range 1..='' @ num MAX_N_RESULTS)
      else Inr ())"

definition chroma_query_response_of :: "'n num_ops \<Rightarrow> string list \<Rightarrow> scored_point list list \<Rightarrow> 'n chroma_query_response" where
  "chroma_query_response_of N include results =
     \<lparr>chqr_ids = map (map sp_id) results,
      chqr_distances = (if ''distances'' \<in> set include then Some (map (map sp_distance) results) else None),
      chqr_metadatas = (if ''metadatas'' \<in> set include then Some (map (map (\<lambda>p. flatten_metadata N (sp_metadata p))) results) else None),
      chqr_documents = (if ''documents'' \<in> set include then Some (map (map sp_document) results) else None)\<rparr>"

definition query_records_chroma ::
  "('b, 'g) engine_env \<Rightarrow> 'n num_ops \<Rightarrow> string \<Rightarrow> string \<Rightarrow> string \<Rightarrow> chroma_query_request \<Rightarrow>
     (('b, 'g, 'r) app_state, api_error, 'n chroma_query_response) handler" where
  "query_records_chroma E N tenant database name r =
     h_bind (h_check (validate_chroma_query r)) (\<lambda>_.
     h_bind (resolved E tenant database name) (\<lambda>u.
     h_bind (query_each E u (chq_n_results r)
         \<lparr>qo_ef = 0, qo_where_filter = chq_where_filter r, qo_oversampling = 4\<rparr> (chq_query_embeddings r)) (\<lambda>results.
       h_return (chroma_query_response_of N (chq_include r) results))))"

definition chroma_get_response_of :: "'n num_ops \<Rightarrow> string list \<Rightarrow> live_record option list \<Rightarrow> 'n chroma_get_response" where
  "chroma_get_response_of N include records =
     \<lparr>chgr_ids = List.map_filter (map_option lr_id) records,
      chgr_embeddings =
        (if ''embeddings'' \<in> set include then Some (List.map_filter (\<lambda>r. Option.bind r lr_embedding) records) else None),
      chgr_metadatas = Some (map (\<lambda>r. Option.bind r (\<lambda>r. flatten_metadata N (lr_metadata r))) records),
      chgr_documents = Some (map (\<lambda>r. Option.bind r lr_document) records)\<rparr>"

definition get_records_chroma ::
  "('b, 'g) engine_env \<Rightarrow> 'n num_ops \<Rightarrow> string \<Rightarrow> string \<Rightarrow> string \<Rightarrow> chroma_get_request \<Rightarrow>
     (('b, 'g, 'r) app_state, api_error, 'n chroma_get_response) handler" where
  "get_records_chroma E N tenant database name r =
     h_bind (resolved E tenant database name) (\<lambda>u.
     h_bind (engine_do (engine_get u (case chg_ids r of Some ids \<Rightarrow> ids | None \<Rightarrow> []))) (\<lambda>records.
       h_return (chroma_get_response_of N (chg_include r) records)))"

definition count_records_chroma ::
  "('b, 'g) engine_env \<Rightarrow> string \<Rightarrow> string \<Rightarrow> string \<Rightarrow> (('b, 'g, 'r) app_state, api_error, nat) handler" where
  "count_records_chroma E tenant database name =
     h_bind (resolved E tenant database name) (\<lambda>u. engine_do (engine_count u))"

end
