(* ===== verification/Api_Semantics.thy ===== *)
theory Api_Semantics
  imports Api_Chroma
begin

text \<open>
  What the API promises: the exact bounds of its validators, that rejected requests change nothing, and
  that what is added over HTTP is read back over HTTP; and where its answers or its order of effects
  differ from what they mean to be.
\<close>

section \<open>Lemmas\<close>

lemmas h_simps = h_return_def h_fail_def h_bind_def h_check_def

lemma validate_each_id_ok: "validate_each_id ids = Inr () \<longleftrightarrow> (\<forall>i\<in>set ids. i \<noteq> [] \<and> length i \<le> MAX_ID_LENGTH)"
  by (induction ids) (auto simp: validation_err_def)

lemma validate_ids_ok:
  "validate_ids ids = Inr () \<longleftrightarrow>
     ids \<noteq> [] \<and> length ids \<le> MAX_BATCH_SIZE \<and> (\<forall>i\<in>set ids. i \<noteq> [] \<and> length i \<le> MAX_ID_LENGTH)"
  by (auto simp: validate_ids_def validation_err_def validate_each_id_ok)

lemma validate_each_embedding_ok:
  "validate_each_embedding what es = Inr () \<longleftrightarrow> (\<forall>e\<in>set es. e \<noteq> [] \<and> length e \<le> MAX_DIMENSION)"
  by (induction es) (auto simp: validation_err_def)

lemma check_len_ok: "check_len what opt n = Inr () \<longleftrightarrow> (\<forall>v. opt = Some v \<longrightarrow> length v = n)"
  by (auto simp: check_len_def validation_err_def split: option.split)

lemma and_then_ok: "and_then r (\<lambda>_. k) = Inr () \<longleftrightarrow> r = Inr () \<and> k = Inr ()"
  by (cases r) auto

text \<open>A validator fails with a validation error only.\<close>

definition only_validation :: "api_error + unit \<Rightarrow> bool" where
  "only_validation r \<longleftrightarrow> r = Inr () \<or> (\<exists>msg. r = Inl (Api_validation msg))"

named_theorems validators "the validators fail with validation errors only"

lemma only_validation_then [validators]: "only_validation r \<Longrightarrow> only_validation k \<Longrightarrow> only_validation (and_then r (\<lambda>_. k))"
  by (auto simp: only_validation_def)

lemma only_validation_err [validators]: "only_validation (validation_err msg)"
  by (simp add: only_validation_def validation_err_def)

lemma only_validation_ok [validators]: "only_validation (Inr ())"
  by (simp add: only_validation_def)

lemma only_validation_loops [validators]:
  "only_validation (validate_each_id ids)" "only_validation (validate_each_embedding what es)"
  "only_validation (chroma_id_lengths ids)" "only_validation (chroma_dimensions es)"
  by (induction ids, auto intro: validators) (induction es, auto intro: validators)+

lemma only_validation_checks [validators]:
  "only_validation (validate_ids ids)" "only_validation (validate_embeddings es)" "only_validation (check_len what opt n)"
  "only_validation (ids_embeddings_len n m)" "only_validation (chroma_batch ids)"
  by (auto simp: validate_ids_def validate_embeddings_def check_len_def ids_embeddings_len_def chroma_batch_def
      intro: validators split: option.split)

lemma only_validation_requests [validators]:
  "only_validation (validate_add_request r)" "only_validation (validate_upsert_request r)"
  "only_validation (validate_update_request ur)" "only_validation (validate_delete_request dr)"
  "only_validation (validate_query_request qr)" "only_validation (validate_chroma_add ca)" "only_validation (validate_chroma_query cq)"
  by (auto simp: validate_add_request_def validate_upsert_request_def validate_update_request_def validate_delete_request_def
      validate_query_request_def validate_chroma_add_def validate_chroma_query_def intro!: validators)

lemma rejected_then:
  "r \<noteq> Inr () \<Longrightarrow> only_validation r \<Longrightarrow>
   \<exists>err. h_bind (h_check r) k s = (s, Returns (Inl err)) \<and> engine_error_status err = 400"
  by (auto simp: only_validation_def h_simps)

section \<open>Properties\<close>

text \<open>C38: The bounds of a batch. An add request passes exactly when it has between one and 10000 ids of between
  one and 512 bytes, as many embeddings of between one and 65536 numbers, and metadata and documents
  of the same number where they are given.\<close>

theorem add_request_bounds:
  "validate_add_request r = Inr () \<longleftrightarrow>
     0 < length (ar_ids r) \<and> length (ar_ids r) \<le> 10000 \<and> list_all (\<lambda>i. 0 < length i \<and> length i \<le> 512) (ar_ids r) \<and>
     length (ar_embeddings r) = length (ar_ids r) \<and> list_all (\<lambda>e. 0 < length e \<and> length e \<le> 65536) (ar_embeddings r) \<and>
     (case ar_metadatas r of None \<Rightarrow> True | Some ms \<Rightarrow> length ms = length (ar_ids r)) \<and>
     (case ar_documents r of None \<Rightarrow> True | Some ds \<Rightarrow> length ds = length (ar_ids r))"
proof -
  have "validate_embeddings (ar_embeddings r) = Inr () \<longleftrightarrow>
      ar_embeddings r \<noteq> [] \<and> (\<forall>e\<in>set (ar_embeddings r). e \<noteq> [] \<and> length e \<le> MAX_DIMENSION)"
    by (auto simp: validate_embeddings_def validation_err_def validate_each_embedding_ok)
  moreover have "ids_embeddings_len (length (ar_ids r)) (length (ar_embeddings r)) = Inr () \<longleftrightarrow>
      length (ar_embeddings r) = length (ar_ids r)" by (auto simp: ids_embeddings_len_def validation_err_def)
  ultimately show ?thesis
    unfolding validate_add_request_def and_then_ok validate_ids_ok check_len_ok
    by (auto simp: list_all_iff MAX_BATCH_SIZE_def MAX_ID_LENGTH_def MAX_DIMENSION_def split: option.split)
qed

text \<open>A get of one id that the engine answers with a record that has its vector.\<close>

lemma get_records_row:
  assumes "snd (engine_get u [i] (ap_engine s)) = Returns (Inr [Some x])" "lr_embedding x = Some v"
  shows "snd (get_records u \<lparr>gr_ids = Some [i], gr_where_filter = None, gr_include = [''embeddings'']\<rparr> s) =
    Returns (Inr \<lparr>grs_ids = [lr_id x], grs_embeddings = Some [v], grs_metadatas = Some [lr_metadata x],
      grs_documents = Some [lr_document x]\<rparr>)"
proof -
  obtain e where "engine_get u [i] (ap_engine s) = (e, Returns (Inr [Some x]))" using assms(1) by (metis prod.collapse)
  then show ?thesis using assms(2) by (simp add: get_records_def h_simps engine_do_def get_response_of_def List.map_filter_simps)
qed

text \<open>C36: Rejected requests have no effect. When the validator of an add, upsert, update, delete or query request
  fails, the handler answers 400 and the state is as it was: engine, tenant, cluster and key.\<close>

theorem rejected_request_changes_nothing:
  fixes E :: "('b, 'g) engine_env" and s :: "('b, 'g, 'r) app_state"
  shows "(\<not> is_ok (validate_add_request r) \<longrightarrow> (\<exists>err. add_records E u r s = (s, Returns (Inl err)) \<and> engine_error_status err = 400)) \<and>
    (\<not> is_ok (validate_upsert_request r) \<longrightarrow> (\<exists>err. upsert_records E u r s = (s, Returns (Inl err)) \<and> engine_error_status err = 400)) \<and>
    (\<not> is_ok (validate_update_request ur) \<longrightarrow> (\<exists>err. update_records E u ur s = (s, Returns (Inl err)) \<and> engine_error_status err = 400)) \<and>
    (\<not> is_ok (validate_delete_request dr) \<longrightarrow> (\<exists>err. delete_records E u dr s = (s, Returns (Inl err)) \<and> engine_error_status err = 400)) \<and>
    (\<not> is_ok (validate_query_request qr) \<longrightarrow> (\<exists>err. query_records E u qr s = (s, Returns (Inl err)) \<and> engine_error_status err = 400))"
proof -
  have ok: "\<not> is_ok x \<Longrightarrow> x \<noteq> Inr ()" for x :: "api_error + unit" by auto
  show ?thesis
    unfolding add_records_def upsert_records_def update_records_def delete_records_def query_records_def
    by (intro conjI impI; rule rejected_then [OF ok]; (assumption | rule validators))
qed


text \<open>The witness: a server over the engine with one empty collection.\<close>

definition demo_app :: "(u32 set, nat \<times> (u64 \<times> embedding) list, unit) app_state" where
  "demo_app =
     \<lparr>ap_engine = demo_engine ensure_tables, ap_tenant = ''t'', ap_database = ''d'', ap_raft = None, ap_api_key = None\<rparr>"

definition demo_add_request :: add_request where
  "demo_add_request =
     \<lparr>ar_ids = [''a''], ar_embeddings = [[7]], ar_metadatas = Some [Some [(''k'', IntV 1)]], ar_documents = None\<rparr>"


lemma rejected_request_changes_nothing_witness:
  "\<exists>err. add_records demo_env 7 \<lparr>ar_ids = [''a'', ''''], ar_embeddings = [[1], [2]], ar_metadatas = None, ar_documents = None\<rparr> demo_app =
     (demo_app, Returns (Inl err)) \<and> engine_error_status err = 400"
proof -
  let ?r = "\<lparr>ar_ids = [''a'', ''''], ar_embeddings = [[1 :: f32], [2]], ar_metadatas = None, ar_documents = None\<rparr>"
  have "\<not> is_ok (validate_add_request ?r)"
    by (simp add: validate_add_request_def validate_ids_def validation_err_def MAX_BATCH_SIZE_def MAX_ID_LENGTH_def)
  then show ?thesis using rejected_request_changes_nothing [of ?r demo_env 7 demo_app] by blast
qed

section \<open>Findings\<close>

text \<open>Without its header a client is refused; the replication and consensus clients send none.\<close>

lemma key_refuses_bare_clients:
  "ap_api_key s = Some key \<Longrightarrow> auth [] (Some s) next = Inl 401"
  by (simp add: auth_def authorized_def provided_token_def)

text \<open>The rows of a get are not parallel: ids of missing records are dropped, their metadata are not.\<close>

lemma get_rows_misaligned:
  "get_response_of [] [None, Some r] =
     \<lparr>grs_ids = [lr_id r], grs_embeddings = None, grs_metadatas = Some [None, lr_metadata r], grs_documents = Some [None, lr_document r]\<rparr>"
  by (simp add: get_response_of_def List.map_filter_simps)

text \<open>The filter of a get request is ignored.\<close>

lemma get_ignores_filter: "get_records u (r\<lparr>gr_where_filter := f\<rparr>) = get_records u r"
  by (simp add: get_records_def)

text \<open>A collection id gives access from every tenant and database.\<close>

lemma id_crosses_tenants:
  "uuid_parse (env_catalog E) x = Some u \<Longrightarrow> resolve_collection E t d x e = resolve_collection E t' d' x e"
  by (simp add: resolve_collection_def)

text \<open>When the cluster refuses a new collection, the client gets an error but the collection stays.\<close>

lemma create_not_rolled_back:
  assumes "validate_name (ccr_name req) = Inr ()" "ccr_dimension req \<le> MAX_DIMENSION"
    and "create_collection E ((collection_config_new fresh now (ccr_name req) (ccr_dimension req) (ccr_distance req))
           \<lparr>cc_tenant := ap_tenant s, cc_database := ap_database s\<rparr>) (ap_engine s) = (e1, Returns (Inr record))"
    and "engine_count (cc_id (cr_config record)) e1 = (e2, Returns (Inr count))"
    and "ap_raft s = Some r" "\<And>op. ro_client_write R op r = (r', Inl err)"
  shows "api_create_collection E R fresh now req s =
    (s\<lparr>ap_engine := e2, ap_raft := Some r'\<rparr>,
     Returns (Inl (Api_validation (''failed to replicate collection creation: '' @ err))))"
  using assms by (simp add: api_create_collection_def h_simps engine_do_def Let_def propagate_def)

text \<open>The preflight reply promises a tenth of the accepted batch size.\<close>

lemma preflight_batch_size: "pfr_max_batch_size pre_flight_checks = 1000" "MAX_BATCH_SIZE = 10000"
  by (simp_all add: pre_flight_checks_def MAX_BATCH_SIZE_def)

end
