(* ===== verification/Repl_Parser.thy ===== *)
theory Repl_Parser
  imports Core_Types Rust_Text
begin

text \<open>
  The parsers of the interactive client, \<^verbatim>\<open>crates/rekha-repl/src/commands/mod.rs\<close> and
  \<^verbatim>\<open>query/sql.rs\<close>. Slicing a text with its bounds out of order panics. Parsing of floating-point
  numbers and of JSON is the parameter \<open>text_codec\<close>; \<^verbatim>\<open>to_uppercase\<close> is modelled on ASCII texts.
\<close>

section \<open>Commands\<close>

datatype command =
    ListCollections
  | DescribeCollection string
  | CreateCollection string
  | UseCollection string
  | DropCollection string
  | ToggleVertical
  | SetFormat string
  | TogglePager
  | ToggleTiming
  | ExportToFile string
  | ExecuteFile string
  | Clear
  | Help
  | Quit
  | Unknown string

definition bs :: char where
  "bs = CHR 0x5C"

definition parse_command :: "string \<Rightarrow> command" where
  "parse_command text =
     (let input = trim text in
      if input = bs # ''d'' \<or> input = bs # ''dt'' then ListCollections
      else case (case strip_prefix (bs # ''d '') input of Some n \<Rightarrow> Some n | None \<Rightarrow> strip_prefix (bs # ''dt '') input) of
        Some name \<Rightarrow> DescribeCollection (trim name)
      | None \<Rightarrow>
      if input = bs # ''x'' then ToggleVertical
      else case strip_prefix (bs # ''format '') input of
        Some fmt \<Rightarrow> SetFormat (trim fmt)
      | None \<Rightarrow>
      if input = bs # ''pager'' then TogglePager
      else if input = bs # ''timing'' then ToggleTiming
      else case strip_prefix (bs # ''o '') input of
        Some f \<Rightarrow> ExportToFile (trim f)
      | None \<Rightarrow>
      case strip_prefix (bs # ''i '') input of
        Some f \<Rightarrow> ExecuteFile (trim f)
      | None \<Rightarrow>
      case strip_prefix (bs # ''create '') input of
        Some name \<Rightarrow> CreateCollection (trim name)
      | None \<Rightarrow>
      case strip_prefix (bs # ''use '') input of
        Some name \<Rightarrow> UseCollection (trim name)
      | None \<Rightarrow>
      case strip_prefix (bs # ''drop '') input of
        Some name \<Rightarrow> DropCollection (trim name)
      | None \<Rightarrow>
      if input = bs # ''clear'' \<or> input = bs # ''cls'' then Clear
      else if input = bs # ''help'' \<or> input = bs # ''h'' \<or> input = ''?'' then Help
      else if input = bs # ''quit'' \<or> input = bs # ''q'' \<or> input = ''exit'' \<or> input = ''quit'' then Quit
      else Unknown input)"

section \<open>Queries\<close>

record 'n select_query =
  sq_collection :: string
  sq_fields :: "string list"
  sq_nearest_to :: "f32 list option"
  sq_where_filter :: "'n json option"
  sq_limit :: "nat option"
  sq_vertical :: bool

datatype 'n parsed_query =
    Select "'n select_query"
  | Count string
  | CreateNamed string

record 'n text_codec =
  tc_parse_f32 :: "string \<Rightarrow> string + f32"
  tc_parse_f64 :: "string \<Rightarrow> f64 option"
  tc_parse_json :: "string \<Rightarrow> 'n json option"
  tc_num :: "'n num_ops"

text \<open>A parser fails with a message or panics.\<close>

type_synonym 'a parse = "(string + 'a) run"

definition p_fail :: "string \<Rightarrow> 'a parse" where
  "p_fail msg = Returns (Inl msg)"

definition p_ok :: "'a \<Rightarrow> 'a parse" where
  "p_ok x = Returns (Inr x)"

fun p_bind :: "'a parse \<Rightarrow> ('a \<Rightarrow> 'b parse) \<Rightarrow> 'b parse" where
  "p_bind Panics k = Panics"
| "p_bind (Returns (Inl e)) k = Returns (Inl e)"
| "p_bind (Returns (Inr x)) k = k x"

definition p_opt :: "string \<Rightarrow> 'a option \<Rightarrow> 'a parse" where
  "p_opt msg x = (case x of None \<Rightarrow> p_fail msg | Some y \<Rightarrow> p_ok y)"

text \<open>\<^verbatim>\<open>&s[a..b]\<close>\<close>

definition slice :: "string \<Rightarrow> nat \<Rightarrow> nat \<Rightarrow> string parse" where
  "slice s a b = (if a \<le> b \<and> b \<le> length s then p_ok (drop a (take b s)) else Panics)"

definition ascii_upper :: "char \<Rightarrow> char" where
  "ascii_upper c = (let n = (of_char c :: nat) in if 97 \<le> n \<and> n \<le> 122 then char_of (n - 32) else c)"

definition to_uppercase :: "string \<Rightarrow> string" where
  "to_uppercase s = map ascii_upper s"

definition or_find :: "nat option \<Rightarrow> string \<Rightarrow> string \<Rightarrow> nat option" where
  "or_find r pat s = (case r of Some i \<Rightarrow> Some i | None \<Rightarrow> find_str pat s)"

definition find_end :: "nat option \<Rightarrow> string \<Rightarrow> nat" where
  "find_end r s = (case r of Some i \<Rightarrow> i | None \<Rightarrow> length s)"

definition extract_from_clause :: "string \<Rightarrow> string parse" where
  "extract_from_clause input =
     p_bind (p_opt ''Missing FROM clause'' (find_str ''FROM '' (to_uppercase input))) (\<lambda>i.
     p_bind (slice input (i + 5) (length input)) (\<lambda>rest.
       let after_from = trim rest;
           stop = find_end (or_find (find_str '' '' after_from) [CHR 0x0A] after_from) after_from
       in p_bind (slice after_from 0 stop) (\<lambda>name. p_ok (trim name))))"

definition extract_fields :: "string \<Rightarrow> string list parse" where
  "extract_fields input =
     p_bind (p_opt ''Missing SELECT'' (find_str ''SELECT '' (to_uppercase input))) (\<lambda>i.
     p_bind (p_opt ''Missing FROM'' (find_str ''FROM '' (to_uppercase input))) (\<lambda>j.
     p_bind (slice input (i + 7) j) (\<lambda>s.
       let fields_str = trim s in
       if fields_str = ''*'' then p_ok [''*''] else p_ok (map trim (split_on (CHR '','') fields_str)))))"

fun parse_elements :: "'n text_codec \<Rightarrow> string list \<Rightarrow> f32 list parse" where
  "parse_elements T [] = p_ok []"
| "parse_elements T (s # ss) =
     (case tc_parse_f32 T (trim s) of
        Inl e \<Rightarrow> p_fail (''Invalid vector element: '' @ e)
      | Inr x \<Rightarrow> p_bind (parse_elements T ss) (\<lambda>xs. p_ok (x # xs)))"

definition parse_vector :: "'n text_codec \<Rightarrow> string \<Rightarrow> f32 list parse" where
  "parse_vector T text =
     (let input = trim text in
      p_bind (p_opt ''Missing '[' in vector'' (find_str ''['' input)) (\<lambda>i.
      p_bind (p_opt ''Missing ']' in vector'' (find_str '']'' input)) (\<lambda>j.
      p_bind (slice input (i + 1) j) (\<lambda>inner. parse_elements T (split_on (CHR '','') inner)))))"

text \<open>\<^verbatim>\<open>str::parse::<i64>\<close>\<close>

definition parse_i64 :: "string \<Rightarrow> i64 option" where
  "parse_i64 s =
     (if starts_with ''-'' s
      then (case (if tl s = [] then None else digits_value (tl s) 0) of
              Some n \<Rightarrow> if n \<le> 2 ^ 63 then Some (- of_nat n) else None
            | None \<Rightarrow> None)
      else map_option of_nat (parse_unsigned 63 s))"

text \<open>\<^verbatim>\<open>parse_value\<close> never fails, but it slices.\<close>

definition quoted_with :: "char \<Rightarrow> string \<Rightarrow> bool" where
  "quoted_with c s \<longleftrightarrow> s \<noteq> [] \<and> hd s = c \<and> last s = c"

definition bracketed :: "string \<Rightarrow> bool" where
  "bracketed s \<longleftrightarrow> s \<noteq> [] \<and> hd s = CHR ''['' \<and> last s = CHR '']''"

lemma length_trim_le: "length (trim s) \<le> length s"
proof -
  have "length (trim s) \<le> length (trim_start s)" unfolding trim_def trim_end_def by (metis length_dropWhile_le length_rev)
  also have "\<dots> \<le> length s" by (simp add: trim_start_def length_dropWhile_le)
  finally show ?thesis .
qed

lemma length_split_part: "p \<in> set (split_on c s) \<Longrightarrow> length p \<le> length s"
proof (induction s arbitrary: p)
  case (Cons x xs)
  obtain q qs where q: "split_on c xs = q # qs" by (cases "split_on c xs") auto
  have q': "length q \<le> length xs" using Cons.IH [of q] q by simp
  have "p = [] \<or> p = x # q \<or> p \<in> set (split_on c xs)" using Cons.prems q by (auto split: if_splits)
  then show ?case using q' Cons.IH [of p] by auto
qed simp

lemma bracketed_length: "bracketed s \<Longrightarrow> 2 \<le> length s"
  by (cases s) (auto simp: bracketed_def Suc_le_eq split: if_splits)

function parse_value :: "'n text_codec \<Rightarrow> string \<Rightarrow> 'n json run" where
  "parse_value T text =
     (let input = trim text in
      if quoted_with (CHR 0x22) input \<or> quoted_with (CHR 0x27) input
      then (if length input \<ge> 2 then Returns (JString (butlast (tl input))) else Panics)
      else if input = ''true'' \<or> input = ''false'' then Returns (JBool (input = ''true''))
      else case parse_i64 input of
        Some n \<Rightarrow> Returns (json_of_i64 (tc_num T) n)
      | None \<Rightarrow>
      (case tc_parse_f64 T input of
        Some f \<Rightarrow> Returns (json_of_f64 (tc_num T) f)
      | None \<Rightarrow>
      if bracketed input
      then run_bind (run_map (\<lambda>s. parse_value T (trim s)) (split_on (CHR '','') (butlast (tl input))))
             (\<lambda>items. Returns (JArray items))
      else Returns (JString input)))"
  by pat_completeness auto
termination
proof (relation "measure (\<lambda>(T, s). length s)", goal_cases)
  case (2 T raw input s)
  then have "length s \<le> length (butlast (tl (trim raw)))" using length_split_part by blast
  moreover have "2 \<le> length (trim raw)" using 2 bracketed_length by blast
  ultimately show ?case using length_trim_le [of raw] length_trim_le [of s] by (simp add: 2)
qed simp

declare parse_value.simps [simp del]

fun first_operator :: "string list \<Rightarrow> string \<Rightarrow> (string \<times> string \<times> string) option" where
  "first_operator [] input = None"
| "first_operator (op # ops) input =
     (case find_str op input of
        Some i \<Rightarrow> Some (trim (take i input), op, trim (drop (i + length op) input))
      | None \<Rightarrow> first_operator ops input)"

definition parse_sql_condition :: "string \<Rightarrow> (string \<times> string \<times> string) parse" where
  "parse_sql_condition input =
     p_opt (''Cannot parse condition: '' @ input)
       (first_operator [''=='', ''!='', ''<='', ''>='', ''='', ''>'', ''<''] input)"

definition operator_key :: "string \<Rightarrow> string option" where
  "operator_key op =
     (if op = ''='' \<or> op = ''=='' then Some ''$eq''
      else if op = ''!='' \<or> op = ''<>'' then Some ''$ne''
      else if op = ''>'' then Some ''$gt''
      else if op = ''>='' then Some ''$gte''
      else if op = ''<'' then Some ''$lt''
      else if op = ''<='' then Some ''$lte''
      else None)"

definition parse_where :: "'n text_codec \<Rightarrow> string \<Rightarrow> 'n json parse" where
  "parse_where T text =
     (let input = trim text in
      case tc_parse_json T input of
        Some v \<Rightarrow> p_ok v
      | None \<Rightarrow>
          p_bind (parse_sql_condition input) (\<lambda>(field, op, v).
            case operator_key op of
              None \<Rightarrow> p_fail (''Unsupported operator: '' @ op)
            | Some key \<Rightarrow> run_bind (parse_value T v) (\<lambda>j. p_ok (JObject [(field, JObject [(key, j)])]))))"

definition parse_nearest :: "'n text_codec \<Rightarrow> string \<Rightarrow> f32 list option parse" where
  "parse_nearest T input =
     (case find_str ''NEAREST TO'' (to_uppercase input) of
        None \<Rightarrow> p_ok None
      | Some i \<Rightarrow>
          p_bind (slice input (i + length ''NEAREST TO'') (length input)) (\<lambda>rest.
          p_bind (parse_vector T (trim rest)) (\<lambda>v. p_ok (Some v))))"

definition parse_where_clause :: "'n text_codec \<Rightarrow> string \<Rightarrow> 'n json option parse" where
  "parse_where_clause T input =
     (let upper = to_uppercase input in
      case find_str ''WHERE '' upper of
        None \<Rightarrow> p_ok None
      | Some i \<Rightarrow>
          (let stop = find_end (or_find (or_find (or_find (find_str '' NEAREST TO'' upper) '' LIMIT'' upper)
                        '' HAVING'' upper) '' VERTICAL'' upper) input
           in p_bind (slice input (i + length ''WHERE '') stop) (\<lambda>s.
              p_bind (parse_where T (trim s)) (\<lambda>v. p_ok (Some v)))))"

definition parse_limit :: "string \<Rightarrow> nat option parse" where
  "parse_limit input =
     (let upper = to_uppercase input in
      case find_str ''LIMIT '' upper of
        None \<Rightarrow> p_ok None
      | Some i \<Rightarrow>
          (let stop = find_end (or_find (find_str '' VERTICAL'' upper) '' HAVING'' upper) input
           in p_bind (slice input (i + length ''LIMIT '') stop) (\<lambda>s. p_ok (parse_unsigned 64 (trim s)))))"

definition parse_select :: "'n text_codec \<Rightarrow> string \<Rightarrow> 'n parsed_query parse" where
  "parse_select T input =
     p_bind (extract_from_clause input) (\<lambda>collection.
     p_bind (extract_fields input) (\<lambda>fs.
     p_bind (parse_nearest T input) (\<lambda>nearest.
     p_bind (parse_where_clause T input) (\<lambda>flt.
     p_bind (parse_limit input) (\<lambda>limit.
       p_ok (Select \<lparr>sq_collection = collection, sq_fields = fs, sq_nearest_to = nearest, sq_where_filter = flt,
                     sq_limit = limit, sq_vertical = contains_str ''VERTICAL'' (to_uppercase input)\<rparr>))))))"

definition parse_query :: "'n text_codec \<Rightarrow> string \<Rightarrow> 'n parsed_query parse" where
  "parse_query T text =
     (let input = trim (trim_end_char (CHR '';'') (trim text)); upper = to_uppercase input in
      if starts_with ''CREATE COLLECTION '' upper
      then p_bind (slice input 18 (length input)) (\<lambda>rest.
             let name = trim rest in
             if name = [] then p_fail ''Missing collection name'' else p_ok (CreateNamed name))
      else if starts_with ''SELECT COUNT(*)'' upper
      then p_bind (extract_from_clause input) (\<lambda>c. p_ok (Count c))
      else if starts_with ''SELECT '' upper then parse_select T input
      else p_fail (''Unsupported query: '' @ input))"

end
