(* ===== verification/Repl_Client.thy ===== *)
theory Repl_Client
  imports Repl_Parser
begin

text \<open>
  The interactive client: the HTTP client of \<^verbatim>\<open>crates/rekha-repl/src/client.rs\<close> and the formatters of
  \<^verbatim>\<open>display/\<close>. The server is a state that answers requests with a status
  and a JSON body or a decoding error; the typed decoders, the number formats and the JSON writer
  are parameters. Texts are ASCII, so a text is cut anywhere.
\<close>

section \<open>The HTTP client\<close>

record 'n query_result =
  qres_ids :: "string list list"
  qres_distances :: "f32 list list option"
  qres_metadatas :: "'n json option list list option"
  qres_documents :: "string option list list option"

record 'n get_result =
  gres_ids :: "string list"
  gres_embeddings :: "f32 list list option"
  gres_metadatas :: "'n json option list option"
  gres_documents :: "string option list option"

record remote_collection =
  rc_id :: string
  rc_name :: string
  rc_dimension :: "nat option"

record 'n client_add =
  cla_ids :: "string list"
  cla_embeddings :: "f32 list list"
  cla_metadatas :: "'n json option list option"
  cla_documents :: "string option list option"

record 'n client_query =
  clq_query_embeddings :: "f32 list list"
  clq_n_results :: "nat option"
  clq_where_filter :: "'n json option"
  clq_include :: "string list option"

record 'n client_get =
  clg_ids :: "string list option"
  clg_where_filter :: "'n json option"
  clg_include :: "string list option"

datatype 'n client_body =
    No_body
  | Create_body string bool
  | Add_body "'n client_add"
  | Query_body "'n client_query"
  | Get_body "'n client_get"
  | Delete_body "string list"

datatype http_method = GET | POST | DELETE

record 'n client_request =
  rq_method :: http_method
  rq_url :: string
  rq_headers :: "(string \<times> string) list"
  rq_body :: "'n client_body"

text \<open>The server: no response, or a status with the body as JSON.\<close>

type_synonym ('n, 's) server = "'n client_request \<Rightarrow> 's \<Rightarrow> 's \<times> (string + nat \<times> (string + 'n json))"

record 'n client_env =
  ce_header_ok :: "string \<Rightarrow> bool"
  ce_as_u64 :: "'n \<Rightarrow> u64 option"
  ce_collections :: "'n json \<Rightarrow> string + remote_collection list"
  ce_collection :: "'n json \<Rightarrow> string + remote_collection"
  ce_query :: "'n json \<Rightarrow> string + 'n query_result"
  ce_get :: "'n json \<Rightarrow> string + 'n get_result"
  ce_status :: "nat \<Rightarrow> string"
  ce_fixed4 :: "f32 \<Rightarrow> string"
  ce_seconds :: "nat \<Rightarrow> string"
  ce_json :: "'n json \<Rightarrow> string"
  ce_json_pretty :: "'n json \<Rightarrow> string"
  ce_result_pretty :: "'n query_result \<Rightarrow> string option"
  ce_text :: "'n text_codec"

record rekha_client =
  cl_url :: string
  cl_api_key :: "string option"

definition client_new :: "string \<Rightarrow> string option \<Rightarrow> rekha_client" where
  "client_new url api_key = \<lparr>cl_url = trim_end_char (CHR ''/'') url, cl_api_key = api_key\<rparr>"

definition client_headers :: "'n client_env \<Rightarrow> rekha_client \<Rightarrow> (string \<times> string) list" where
  "client_headers V c =
     (case cl_api_key c of
        Some key \<Rightarrow> if ce_header_ok V key then [(''x-chroma-token'', key)] else []
      | None \<Rightarrow> [])"

definition send_json ::
  "'n client_env \<Rightarrow> ('n, 's) server \<Rightarrow> rekha_client \<Rightarrow> http_method \<Rightarrow> string \<Rightarrow> 'n client_body \<Rightarrow> ('n json \<Rightarrow> string + 'a) \<Rightarrow>
     's \<Rightarrow> 's \<times> (string + 'a)" where
  "send_json V net c m path body decode s =
     (case net \<lparr>rq_method = m, rq_url = cl_url c @ path, rq_headers = client_headers V c, rq_body = body\<rparr> s of
        (s', Inl e) \<Rightarrow> (s', Inl e)
      | (s', Inr (_, Inl e)) \<Rightarrow> (s', Inl e)
      | (s', Inr (_, Inr j)) \<Rightarrow> (s', decode j))"

definition send_status ::
  "'n client_env \<Rightarrow> ('n, 's) server \<Rightarrow> rekha_client \<Rightarrow> http_method \<Rightarrow> string \<Rightarrow> 'n client_body \<Rightarrow> string \<Rightarrow> 's \<Rightarrow> 's \<times> (string + unit)" where
  "send_status V net c m path body failure s =
     (case net \<lparr>rq_method = m, rq_url = cl_url c @ path, rq_headers = client_headers V c, rq_body = body\<rparr> s of
        (s', Inl e) \<Rightarrow> (s', Inl e)
      | (s', Inr (st, _)) \<Rightarrow>
          (s', if 200 \<le> st \<and> st < 300 then Inr () else Inl (failure @ '': '' @ ce_status V st)))"

text \<open>\<^verbatim>\<open>body[field].as_u64()\<close>: a missing field, and any field of a value that is no object, is null.\<close>

definition u64_field :: "'n client_env \<Rightarrow> string \<Rightarrow> 'n json \<Rightarrow> u64 option" where
  "u64_field V field j =
     (case j of
        JObject kvs \<Rightarrow> (case map_of kvs field of Some (JNumber n) \<Rightarrow> ce_as_u64 V n | _ \<Rightarrow> None)
      | _ \<Rightarrow> None)"

definition required_u64 :: "'n client_env \<Rightarrow> string \<Rightarrow> string \<Rightarrow> 'n json \<Rightarrow> string + u64" where
  "required_u64 V field msg j = (case u64_field V field j of Some n \<Rightarrow> Inr n | None \<Rightarrow> Inl msg)"

definition collections_path :: "string \<Rightarrow> string \<Rightarrow> string" where
  "collections_path tenant database = ''/api/v2/tenants/'' @ tenant @ ''/databases/'' @ database @ ''/collections''"

definition client_heartbeat :: "'n client_env \<Rightarrow> ('n, 's) server \<Rightarrow> rekha_client \<Rightarrow> 's \<Rightarrow> 's \<times> (string + u64)" where
  "client_heartbeat V net c =
     send_json V net c GET ''/api/v2/heartbeat'' No_body (required_u64 V ''nanosecond heartbeat'' ''Invalid heartbeat response'')"

definition client_list_collections ::
  "'n client_env \<Rightarrow> ('n, 's) server \<Rightarrow> rekha_client \<Rightarrow> string \<Rightarrow> string \<Rightarrow> 's \<Rightarrow> 's \<times> (string + remote_collection list)" where
  "client_list_collections V net c tenant database =
     send_json V net c GET (collections_path tenant database) No_body (ce_collections V)"

definition client_create_collection ::
  "'n client_env \<Rightarrow> ('n, 's) server \<Rightarrow> rekha_client \<Rightarrow> string \<Rightarrow> string \<Rightarrow> string \<Rightarrow> 's \<Rightarrow> 's \<times> (string + remote_collection)" where
  "client_create_collection V net c tenant database name =
     send_json V net c POST (collections_path tenant database) (Create_body name True) (ce_collection V)"

definition client_add_records ::
  "'n client_env \<Rightarrow> ('n, 's) server \<Rightarrow> rekha_client \<Rightarrow> string \<Rightarrow> string \<Rightarrow> string \<Rightarrow> 'n client_add \<Rightarrow> 's \<Rightarrow> 's \<times> (string + unit)" where
  "client_add_records V net c tenant database coll req =
     send_status V net c POST (collections_path tenant database @ ''/'' @ coll @ ''/add'') (Add_body req) ''Add failed''"

definition client_query_records ::
  "'n client_env \<Rightarrow> ('n, 's) server \<Rightarrow> rekha_client \<Rightarrow> string \<Rightarrow> string \<Rightarrow> string \<Rightarrow> 'n client_query \<Rightarrow> 's \<Rightarrow> 's \<times> (string + 'n query_result)" where
  "client_query_records V net c tenant database coll req =
     send_json V net c POST (collections_path tenant database @ ''/'' @ coll @ ''/query'') (Query_body req) (ce_query V)"

definition client_get_records ::
  "'n client_env \<Rightarrow> ('n, 's) server \<Rightarrow> rekha_client \<Rightarrow> string \<Rightarrow> string \<Rightarrow> string \<Rightarrow> 'n client_get \<Rightarrow> 's \<Rightarrow> 's \<times> (string + 'n get_result)" where
  "client_get_records V net c tenant database coll req =
     send_json V net c POST (collections_path tenant database @ ''/'' @ coll @ ''/get'') (Get_body req) (ce_get V)"

definition client_count ::
  "'n client_env \<Rightarrow> ('n, 's) server \<Rightarrow> rekha_client \<Rightarrow> string \<Rightarrow> string \<Rightarrow> string \<Rightarrow> 's \<Rightarrow> 's \<times> (string + u64)" where
  "client_count V net c tenant database coll =
     send_json V net c GET (collections_path tenant database @ ''/'' @ coll @ ''/count'') No_body
       (required_u64 V ''count'' ''Invalid count response'')"

definition client_delete_records ::
  "'n client_env \<Rightarrow> ('n, 's) server \<Rightarrow> rekha_client \<Rightarrow> string \<Rightarrow> string \<Rightarrow> string \<Rightarrow> string list \<Rightarrow> 's \<Rightarrow> 's \<times> (string + unit)" where
  "client_delete_records V net c tenant database coll ids =
     send_status V net c POST (collections_path tenant database @ ''/'' @ coll @ ''/delete'') (Delete_body ids) ''Delete failed''"

definition client_delete_collection ::
  "'n client_env \<Rightarrow> ('n, 's) server \<Rightarrow> rekha_client \<Rightarrow> string \<Rightarrow> string \<Rightarrow> string \<Rightarrow> 's \<Rightarrow> 's \<times> (string + unit)" where
  "client_delete_collection V net c tenant database name =
     send_status V net c DELETE (collections_path tenant database @ ''/'' @ name) No_body ''Delete collection failed''"

section \<open>Display\<close>

datatype output_format = Table | Json | Csv | Vertical

fun format_name :: "output_format \<Rightarrow> string" where
  "format_name Table = ''table''"
| "format_name Json = ''json''"
| "format_name Csv = ''csv''"
| "format_name Vertical = ''vertical''"

definition nl :: string where
  "nl = [CHR 0x0A]"

text \<open>The cell of row \<open>i\<close> of the first query, and the number of its rows.\<close>

definition cell :: "'a list list option \<Rightarrow> nat \<Rightarrow> 'a option" where
  "cell rows i = (case rows of Some (row # _) \<Rightarrow> (if i < length row then Some (row ! i) else None) | _ \<Rightarrow> None)"

definition row_count :: "'n query_result \<Rightarrow> nat" where
  "row_count r = (case qres_ids r of [] \<Rightarrow> 0 | ids # _ \<Rightarrow> length ids)"

definition header_names :: "'n query_result \<Rightarrow> string list" where
  "header_names r =
     [''id''] @ (if qres_distances r \<noteq> None then [''distance''] else []) @
     (if qres_documents r \<noteq> None then [''document''] else []) @ (if qres_metadatas r \<noteq> None then [''metadata''] else [])"

definition on_some :: "'a option \<Rightarrow> ('a \<Rightarrow> 'b list) \<Rightarrow> 'b list" where
  "on_some x f = (case x of Some y \<Rightarrow> f y | None \<Rightarrow> [])"

definition quote_csv :: "string \<Rightarrow> string" where
  "quote_csv s = [CHR 0x22] @ concat (map (\<lambda>c. if c = CHR 0x22 then [c, c] else [c]) s) @ [CHR 0x22]"

definition csv_row :: "'n client_env \<Rightarrow> 'n query_result \<Rightarrow> nat \<Rightarrow> string" where
  "csv_row V r i =
     on_some (cell (Some (qres_ids r)) i) (\<lambda>x. x) @
     on_some (cell (qres_distances r) i) (\<lambda>d. '','' @ ce_fixed4 V d) @
     on_some (Option.bind (cell (qres_documents r) i) (\<lambda>x. x)) (\<lambda>d. '','' @ quote_csv d) @
     on_some (Option.bind (cell (qres_metadatas r) i) (\<lambda>x. x)) (\<lambda>m. '','' @ quote_csv (ce_json V m)) @ nl"

definition format_csv :: "'n client_env \<Rightarrow> 'n query_result \<Rightarrow> string" where
  "format_csv V r =
     (if row_count r = 0 then ''Empty set''
      else join_with '','' (header_names r) @ nl @ concat (map (csv_row V r) [0 ..< row_count r]))"

definition pad_right :: "nat \<Rightarrow> string \<Rightarrow> string" where
  "pad_right w s = s @ replicate (w - length s) (CHR '' '')"

definition shorten :: "string \<Rightarrow> string" where
  "shorten s = (if length s > 40 then take 40 s else s)"

fun position :: "string \<Rightarrow> string list \<Rightarrow> nat option" where
  "position x [] = None"
| "position x (y # ys) = (if x = y then Some 0 else map_option Suc (position x ys))"

definition column_of :: "string \<Rightarrow> nat \<Rightarrow> string list \<Rightarrow> nat" where
  "column_of x d hs = (case position x hs of Some i \<Rightarrow> i | None \<Rightarrow> d)"

definition widen :: "nat \<Rightarrow> nat \<Rightarrow> nat list \<Rightarrow> nat list" where
  "widen i n ws = ws[i := max (ws ! i) n]"

text \<open>The widths grow with ids, distances and documents; metadata keep the width of their header.\<close>

definition widths_row :: "'n client_env \<Rightarrow> 'n query_result \<Rightarrow> nat \<Rightarrow> nat list \<Rightarrow> nat list" where
  "widths_row V r i ws =
     (let w1 = (case cell (Some (qres_ids r)) i of Some x \<Rightarrow> widen 0 (length x) ws | None \<Rightarrow> ws);
          w2 = (case cell (qres_distances r) i of Some d \<Rightarrow> widen 1 (length (ce_fixed4 V d)) w1 | None \<Rightarrow> w1)
      in (case Option.bind (cell (qres_documents r) i) (\<lambda>x. x) of
            Some d \<Rightarrow> widen (column_of ''document'' 2 (header_names r)) (length (shorten d)) w2
          | None \<Rightarrow> w2))"

definition table_cells :: "'n client_env \<Rightarrow> 'n query_result \<Rightarrow> nat list \<Rightarrow> nat \<Rightarrow> string list" where
  "table_cells V r ws i =
     (let boxed = (\<lambda>k s. '' '' @ pad_right (ws ! k) s @ '' '') in
      on_some (cell (Some (qres_ids r)) i) (\<lambda>x. [boxed 0 x]) @
      on_some (cell (qres_distances r) i) (\<lambda>d. [boxed 1 (ce_fixed4 V d)]) @
      on_some (Option.bind (cell (qres_documents r) i) (\<lambda>x. x))
        (\<lambda>d. [boxed (column_of ''document'' 2 (header_names r)) (shorten d)]) @
      on_some (Option.bind (cell (qres_metadatas r) i) (\<lambda>x. x))
        (\<lambda>m. [boxed (column_of ''metadata'' 3 (header_names r)) (shorten (ce_json V m))]))"

definition format_table :: "'n client_env \<Rightarrow> 'n query_result \<Rightarrow> string" where
  "format_table V r =
     (if row_count r = 0 then ''Empty set''
      else
        (let hs = header_names r;
             ws = fold (widths_row V r) [0 ..< row_count r] (map length hs);
             sep_line = ''+'' @ join_with ''+'' (map (\<lambda>w. replicate (w + 2) (CHR ''-'')) ws) @ ''+'';
             line = (\<lambda>cells. ''|'' @ join_with ''|'' cells @ ''|'' @ nl)
         in line (map (\<lambda>(i, h). '' '' @ pad_right (ws ! i) h @ '' '') (List.enumerate 0 hs)) @ sep_line @ nl @
            concat (map (\<lambda>i. line (table_cells V r ws i)) [0 ..< row_count r]) @ sep_line @ nl))"

text \<open>\<^verbatim>\<open>str::lines\<close> of a text without carriage returns.\<close>

definition text_lines :: "string \<Rightarrow> string list" where
  "text_lines s = (let ps = split_on (CHR 0x0A) s in if last ps = [] then butlast ps else ps)"

definition labelled :: "string \<Rightarrow> string \<Rightarrow> string" where
  "labelled label v = pad_right 12 label @ '' | '' @ v @ nl"

definition vertical_row :: "'n client_env \<Rightarrow> 'n query_result \<Rightarrow> nat \<Rightarrow> string" where
  "vertical_row V r i =
     ''-[ RESULT '' @ nat_to_string (i + 1) @ '' ]'' @ replicate 50 (CHR ''-'') @ nl @
     on_some (cell (Some (qres_ids r)) i) (labelled ''id'') @
     on_some (cell (qres_distances r) i) (\<lambda>d. labelled ''distance'' (ce_fixed4 V d)) @
     on_some (Option.bind (cell (qres_documents r) i) (\<lambda>x. x)) (labelled ''document'') @
     on_some (Option.bind (cell (qres_metadatas r) i) (\<lambda>x. x))
       (\<lambda>m. concat (map (\<lambda>(j, l). labelled (if j = 0 then ''metadata'' else []) l)
          (List.enumerate 0 (text_lines (ce_json_pretty V m))))) @ nl"

definition format_vertical :: "'n client_env \<Rightarrow> 'n query_result \<Rightarrow> string" where
  "format_vertical V r =
     (if row_count r = 0 then ''Empty set'' else concat (map (vertical_row V r) [0 ..< row_count r]))"

definition format_json :: "'n client_env \<Rightarrow> 'n query_result \<Rightarrow> string" where
  "format_json V r = (case ce_result_pretty V r of Some s \<Rightarrow> s | None \<Rightarrow> ''{}'')"

definition format_result :: "'n client_env \<Rightarrow> 'n query_result \<Rightarrow> output_format \<Rightarrow> string" where
  "format_result V r f =
     (case f of Table \<Rightarrow> format_table V r | Json \<Rightarrow> format_json V r | Csv \<Rightarrow> format_csv V r | Vertical \<Rightarrow> format_vertical V r)"

definition format_count :: "'n client_env \<Rightarrow> u64 \<Rightarrow> nat option \<Rightarrow> string" where
  "format_count V count timing =
     nat_to_string (unat count) @ '' rows in set'' @
     (case timing of Some d \<Rightarrow> '' ('' @ ce_seconds V d @ ''s)'' | None \<Rightarrow> [])"

end
