(* ===== verification/Repl.thy ===== *)
theory Repl
  imports Repl_Client
begin

text \<open>
  The loop of the interactive client, \<^verbatim>\<open>crates/rekha-repl/src/repl/mod.rs\<close>, with \<^verbatim>\<open>prompt.rs\<close> and the
  \<^verbatim>\<open>run\<close> of \<^verbatim>\<open>lib.rs\<close>. What the line editor returns is an input; the texts written are an output list.
\<close>

section \<open>State, input and output\<close>

record rekha_repl =
  rp_client :: rekha_client
  rp_collection :: "string option"
  rp_format :: output_format
  rp_vertical :: bool
  rp_timing :: bool
  rp_pager :: bool

datatype signal = Success string | Ctrl_C | Ctrl_D | Other_signal | Read_error

datatype repl_output = Stdout string | Stderr string

definition out_line :: "string \<Rightarrow> repl_output" where
  "out_line s = Stdout (s @ nl)"

definition err_line :: "string \<Rightarrow> repl_output" where
  "err_line s = Stderr (s @ nl)"

definition repl_new :: "rekha_client \<Rightarrow> string option \<Rightarrow> rekha_repl" where
  "repl_new client initial =
     \<lparr>rp_client = client, rp_collection = initial, rp_format = Table, rp_vertical = False, rp_timing = True, rp_pager = True\<rparr>"

definition build_prompt :: "string option \<Rightarrow> string" where
  "build_prompt collection = (case collection of Some name \<Rightarrow> ''rekha:'' @ name @ ''> '' | None \<Rightarrow> ''rekha> '')"

abbreviation tenant0 :: string where "tenant0 \<equiv> ''default_tenant''"
abbreviation database0 :: string where "database0 \<equiv> ''default_database''"

section \<open>Handlers\<close>

definition dimension_text :: "string \<Rightarrow> remote_collection \<Rightarrow> string" where
  "dimension_text unset c = (case rc_dimension c of None \<Rightarrow> unset | Some d \<Rightarrow> nat_to_string d)"

definition list_line :: "string \<Rightarrow> string \<Rightarrow> string \<Rightarrow> repl_output" where
  "list_line a b c = out_line (pad_right 30 a @ '' '' @ pad_right 10 b @ '' '' @ pad_right 10 c)"

definition handle_list_collections :: "'n client_env \<Rightarrow> ('n, 's) server \<Rightarrow> rekha_repl \<Rightarrow> 's \<Rightarrow> 's \<times> repl_output list" where
  "handle_list_collections V net r s =
     (case client_list_collections V net (rp_client r) tenant0 database0 s of
        (s', Inr cs) \<Rightarrow>
          (s', if cs = [] then [out_line ''No collections found.'']
               else [list_line ''Name'' ''Dimension'' ''ID'', out_line (replicate 55 (CHR ''-''))] @
                    map (\<lambda>c. list_line (rc_name c) (dimension_text ''-'' c) (take 8 (rc_id c))) cs @
                    [out_line (nl @ nat_to_string (length cs) @ '' collections'')])
      | (s', Inl e) \<Rightarrow> (s', [err_line (''Error: '' @ e)]))"

definition handle_describe :: "'n client_env \<Rightarrow> ('n, 's) server \<Rightarrow> rekha_repl \<Rightarrow> string \<Rightarrow> 's \<Rightarrow> 's \<times> repl_output list" where
  "handle_describe V net r name s =
     (case client_list_collections V net (rp_client r) tenant0 database0 s of
        (s', Inr cs) \<Rightarrow>
          (case List.find (\<lambda>c. rc_name c = name) cs of
             None \<Rightarrow> (s', [err_line (''Collection not found: '' @ name)])
           | Some c \<Rightarrow>
               (let shown = [out_line (''Collection: '' @ rc_name c), out_line (''ID: '' @ rc_id c),
                             out_line (''Dimension: '' @ dimension_text ''Not set'' c)]
                in case client_count V net (rp_client r) tenant0 database0 (rc_name c) s' of
                     (s'', Inr n) \<Rightarrow> (s'', shown @ [out_line (''Records: '' @ nat_to_string (unat n))])
                   | (s'', Inl _) \<Rightarrow> (s'', shown)))
      | (s', Inl e) \<Rightarrow> (s', [err_line (''Error: '' @ e)]))"

definition handle_create_collection :: "'n client_env \<Rightarrow> ('n, 's) server \<Rightarrow> rekha_repl \<Rightarrow> string \<Rightarrow> 's \<Rightarrow> 's \<times> repl_output list" where
  "handle_create_collection V net r name s =
     (case client_create_collection V net (rp_client r) tenant0 database0 name s of
        (s', Inr c) \<Rightarrow>
          (s', [out_line (''Collection '' @ [CHR 0x27] @ rc_name c @ [CHR 0x27] @ '' created (id: '' @ take 8 (rc_id c) @ '')'')])
      | (s', Inl e) \<Rightarrow> (s', [err_line (''Error creating collection: '' @ e)]))"

definition handle_drop_collection :: "'n client_env \<Rightarrow> ('n, 's) server \<Rightarrow> rekha_repl \<Rightarrow> string \<Rightarrow> 's \<Rightarrow> 's \<times> repl_output list" where
  "handle_drop_collection V net r name s =
     (case client_delete_collection V net (rp_client r) tenant0 database0 name s of
        (s', Inr _) \<Rightarrow> (s', [out_line (''Collection '' @ [CHR 0x27] @ name @ [CHR 0x27] @ '' dropped.'')])
      | (s', Inl e) \<Rightarrow> (s', [err_line (''Error dropping collection: '' @ e)]))"

definition help_lines :: "string list" where
  "help_lines =
     [''RekhaDB REPL Commands:'',
      ''  '' @ [bs] @ ''d, '' @ [bs] @ ''dt          List all collections'',
      ''  '' @ [bs] @ ''d <name>        Describe a collection'',
      ''  '' @ [bs] @ ''create <name>   Create a new collection'',
      ''  '' @ [bs] @ ''use <name>      Switch to a collection'',
      ''  '' @ [bs] @ ''drop <name>     Drop a collection'',
      ''  '' @ [bs] @ ''x               Toggle vertical output'',
      ''  '' @ [bs] @ ''format <fmt>    Set output format (table/json/csv/vertical)'',
      ''  '' @ [bs] @ ''pager           Toggle pager'',
      ''  '' @ [bs] @ ''timing          Toggle query timing'',
      ''  '' @ [bs] @ ''clear           Clear screen'',
      ''  '' @ [bs] @ ''help, '' @ [bs] @ ''h, ?     Show this help'',
      ''  '' @ [bs] @ ''quit, '' @ [bs] @ ''q        Exit'',
      [],
      ''SQL Queries:'',
      ''  CREATE COLLECTION <name>;'',
      ''  SELECT * FROM <collection> LIMIT 10;'',
      ''  SELECT * FROM <collection> NEAREST TO [0.1, 0.2, ...] LIMIT 5;'',
      ''  SELECT * FROM <collection> WHERE category = '' @ [CHR 0x27] @ ''tech'' @ [CHR 0x27] @ '' LIMIT 10;'',
      ''  SELECT COUNT(*) FROM <collection>;'',
      ''  SELECT * FROM <collection> NEAREST TO [0.1, ...] VERTICAL;'']"

section \<open>Queries\<close>

text \<open>The star stands for the collection in use; the format of a query is its own or the session's.\<close>

definition target_collection :: "rekha_repl \<Rightarrow> string \<Rightarrow> string" where
  "target_collection r c =
     (if c = ''*'' then (case rp_collection r of Some d \<Rightarrow> d | None \<Rightarrow> ''default'') else c)"

definition query_format :: "rekha_repl \<Rightarrow> bool \<Rightarrow> output_format" where
  "query_format r vertical = (if vertical then Vertical else rp_format r)"

definition get_as_query :: "'n get_result \<Rightarrow> 'n query_result" where
  "get_as_query g =
     \<lparr>qres_ids = [gres_ids g], qres_distances = None,
      qres_metadatas = map_option (\<lambda>m. [m]) (gres_metadatas g),
      qres_documents = map_option (\<lambda>d. [d]) (gres_documents g)\<rparr>"

definition execute_select ::
  "'n client_env \<Rightarrow> ('n, 's) server \<Rightarrow> rekha_repl \<Rightarrow> 'n select_query \<Rightarrow> 's \<Rightarrow> 's \<times> (string + string)" where
  "execute_select V net r q s =
     (let coll = target_collection r (sq_collection q);
          limit = (case sq_limit q of Some n \<Rightarrow> n | None \<Rightarrow> 10);
          fmt = query_format r (sq_vertical q)
      in case sq_nearest_to q of
           Some embedding \<Rightarrow>
             (case client_query_records V net (rp_client r) tenant0 database0 coll
                     \<lparr>clq_query_embeddings = [embedding], clq_n_results = Some limit, clq_where_filter = sq_where_filter q,
                      clq_include = Some [''metadatas'', ''documents'', ''distances'']\<rparr> s of
                (s', Inl e) \<Rightarrow> (s', Inl e)
              | (s', Inr result) \<Rightarrow> (s', Inr (format_result V result fmt)))
         | None \<Rightarrow>
             (case client_get_records V net (rp_client r) tenant0 database0 coll
                     \<lparr>clg_ids = None, clg_where_filter = sq_where_filter q,
                      clg_include = Some [''metadatas'', ''documents'']\<rparr> s of
                (s', Inl e) \<Rightarrow> (s', Inl e)
              | (s', Inr result) \<Rightarrow>
                  (s', Inr (if gres_ids result = [] then ''Empty set'' else format_result V (get_as_query result) fmt))))"

definition execute_query ::
  "'n client_env \<Rightarrow> ('n, 's) server \<Rightarrow> rekha_repl \<Rightarrow> 'n parsed_query \<Rightarrow> 's \<Rightarrow> 's \<times> repl_output list \<times> (string + string)" where
  "execute_query V net r query s =
     (case query of
        Select q \<Rightarrow> (case execute_select V net r q s of (s', res) \<Rightarrow> (s', [], res))
      | Count c \<Rightarrow>
          (case client_count V net (rp_client r) tenant0 database0 (target_collection r c) s of
             (s', Inl e) \<Rightarrow> (s', [], Inl e)
           | (s', Inr n) \<Rightarrow> (s', [], Inr (format_count V n None)))
      | CreateNamed name \<Rightarrow>
          (case handle_create_collection V net r name s of (s', out) \<Rightarrow> (s', out, Inr ''Collection created.'')))"

definition query_line ::
  "'n client_env \<Rightarrow> ('n, 's) server \<Rightarrow> rekha_repl \<Rightarrow> nat \<Rightarrow> string \<Rightarrow> 's \<Rightarrow> ('s \<times> repl_output list) run" where
  "query_line V net r elapsed input s =
     run_bind (parse_query (ce_text V) input) (\<lambda>parsed.
       case parsed of
         Inl e \<Rightarrow> Returns (s, [err_line (''Parse error: '' @ e)])
       | Inr q \<Rightarrow>
           (case execute_query V net r q s of
              (s', out, Inr txt) \<Rightarrow>
                Returns (s', out @ [Stdout (if rp_timing r then txt @ nl @ ''('' @ ce_seconds V elapsed @ ''s)'' @ nl else txt)])
            | (s', out, Inl e) \<Rightarrow> Returns (s', out @ [err_line (''Error: '' @ e)])))"

section \<open>The loop\<close>

definition parse_format :: "string \<Rightarrow> output_format option" where
  "parse_format f =
     (if f = ''table'' then Some Table else if f = ''json'' then Some Json
      else if f = ''csv'' then Some Csv else if f = ''vertical'' then Some Vertical else None)"

definition on_off :: "string \<Rightarrow> bool \<Rightarrow> repl_output" where
  "on_off what b = out_line (what @ (if b then ''enabled'' else ''disabled''))"

text \<open>The result of a command: the session, the server, the output and whether the loop goes on.\<close>

type_synonym 's repl_result = "rekha_repl \<times> 's \<times> repl_output list \<times> bool"

definition run_command ::
  "'n client_env \<Rightarrow> ('n, 's) server \<Rightarrow> rekha_repl \<Rightarrow> string \<Rightarrow> 's \<Rightarrow> 's repl_result" where
  "run_command V net r input s =
     (let keep = (\<lambda>(s', out). (r, s', out, True)) in
      case parse_command input of
        Quit \<Rightarrow> (r, s, [out_line ''Bye!''], False)
      | ListCollections \<Rightarrow> keep (handle_list_collections V net r s)
      | DescribeCollection name \<Rightarrow> keep (handle_describe V net r name s)
      | ToggleVertical \<Rightarrow>
          (let b = \<not> rp_vertical r in (r\<lparr>rp_vertical := b\<rparr>, s, [on_off ''Vertical display '' b], True))
      | SetFormat fmt \<Rightarrow>
          (case parse_format fmt of
             Some f \<Rightarrow> (r\<lparr>rp_format := f\<rparr>, s, [out_line (''Format set to '' @ format_name f)], True)
           | None \<Rightarrow> (r, s, [err_line (''Unknown format: '' @ fmt @ ''. Use table, json, csv, or vertical.'')], True))
      | TogglePager \<Rightarrow> (let b = \<not> rp_pager r in (r\<lparr>rp_pager := b\<rparr>, s, [on_off ''Pager '' b], True))
      | ToggleTiming \<Rightarrow> (let b = \<not> rp_timing r in (r\<lparr>rp_timing := b\<rparr>, s, [on_off ''Timing '' b], True))
      | CreateCollection name \<Rightarrow> keep (handle_create_collection V net r name s)
      | UseCollection name \<Rightarrow>
          (r\<lparr>rp_collection := Some name\<rparr>, s, [out_line (''Now using collection: '' @ name)], True)
      | DropCollection name \<Rightarrow> keep (handle_drop_collection V net r name s)
      | Help \<Rightarrow> (r, s, map out_line help_lines, True)
      | Clear \<Rightarrow> (r, s, [Stdout ([CHR 0x1B] @ ''[2J'' @ [CHR 0x1B] @ ''[1;1H'')], True)
      | _ \<Rightarrow> (r, s, [err_line (''Unknown command: '' @ input)], True))"

definition command_line :: "string \<Rightarrow> bool" where
  "command_line input \<longleftrightarrow> starts_with [bs] input \<or> input = ''exit'' \<or> input = ''quit''"

definition repl_line ::
  "'n client_env \<Rightarrow> ('n, 's) server \<Rightarrow> nat \<Rightarrow> string \<Rightarrow> rekha_repl \<Rightarrow> 's \<Rightarrow> 's repl_result run" where
  "repl_line V net elapsed line r s =
     (let input = trim line in
      if input = [] then Returns (r, s, [], True)
      else if command_line input then Returns (run_command V net r input s)
      else run_bind (query_line V net r elapsed input s) (\<lambda>(s', out). Returns (r, s', out, True)))"

definition repl_signal ::
  "'n client_env \<Rightarrow> ('n, 's) server \<Rightarrow> nat \<Rightarrow> signal \<Rightarrow> rekha_repl \<Rightarrow> 's \<Rightarrow> 's repl_result run" where
  "repl_signal V net elapsed sig r s =
     (case sig of
        Success line \<Rightarrow> repl_line V net elapsed line r s
      | Ctrl_C \<Rightarrow> Returns (r, s, [out_line ''^C''], True)
      | Ctrl_D \<Rightarrow> Returns (r, s, [out_line ''Bye!''], False)
      | Read_error \<Rightarrow> Returns (r, s, [out_line ''Bye!''], False)
      | Other_signal \<Rightarrow> Returns (r, s, [], True))"

text \<open>
  The loop over the signals read so far, each with the time its query took: the session, the server
  and whether the loop still waits for a line.
\<close>

fun repl_loop ::
  "'n client_env \<Rightarrow> ('n, 's) server \<Rightarrow> (signal \<times> nat) list \<Rightarrow> rekha_repl \<Rightarrow> 's \<Rightarrow> 's repl_result run" where
  "repl_loop V net [] r s = Returns (r, s, [], True)"
| "repl_loop V net ((sig, elapsed) # sigs) r s =
     run_bind (repl_signal V net elapsed sig r s) (\<lambda>(r', s', out, go).
       if \<not> go then Returns (r', s', out, False)
       else run_bind (repl_loop V net sigs r' s') (\<lambda>(r'', s'', out', go'). Returns (r'', s'', out @ out', go')))"

definition banner :: "repl_output list" where
  "banner =
     [out_line ''RekhaDB REPL v0.1.0 (Chroma-compatible)'',
      out_line (''Type '' @ [bs] @ ''help for help, '' @ [bs] @ ''quit to exit.'' @ nl)]"

definition repl_run ::
  "'n client_env \<Rightarrow> ('n, 's) server \<Rightarrow> (signal \<times> nat) list \<Rightarrow> rekha_repl \<Rightarrow> 's \<Rightarrow> 's repl_result run" where
  "repl_run V net sigs r s =
     run_bind (repl_loop V net sigs r s) (\<lambda>(r', s', out, go). Returns (r', s', banner @ out, go))"

definition run_repl ::
  "'n client_env \<Rightarrow> ('n, 's) server \<Rightarrow> string \<Rightarrow> string option \<Rightarrow> string option \<Rightarrow> (signal \<times> nat) list \<Rightarrow> 's \<Rightarrow> 's repl_result run" where
  "run_repl V net url api_key initial sigs s =
     (let client = client_new url api_key in
      case client_heartbeat V net client s of
        (s', hb) \<Rightarrow>
          (let greeting =
                (case hb of
                   Inr ns \<Rightarrow> [out_line (''Connected to RekhaDB (heartbeat: '' @ nat_to_string (unat ns) @ '')'')]
                 | Inl e \<Rightarrow> [err_line (''Warning: Could not reach server: '' @ e), err_line ''Starting in offline mode...''])
           in run_bind (repl_run V net sigs (repl_new client initial) s')
                (\<lambda>(r, s'', out, go). Returns (r, s'', greeting @ out, go))))"

end
