(* ===== verification/Repl_Semantics.thy ===== *)
theory Repl_Semantics
  imports Repl "HOL-Library.Sublist"
begin

text \<open>
  What the interactive client promises: a printed query is parsed back, the loop ends only when it is
  told to, and what the client sends for each kind of query.
\<close>

section \<open>Searching texts made of words\<close>

abbreviation sp :: char where "sp \<equiv> CHR '' ''"

lemma starts_with_append_word: "sp \<notin> set w \<Longrightarrow> sp \<notin> set t \<Longrightarrow> starts_with w (t @ sp # r) = starts_with w t"
  by (induction w t rule: starts_with.induct) (auto elim: starts_with.elims)

lemma starts_with_self_append [simp]: "starts_with (w @ q) (w @ r) = starts_with q r"
  by (induction w) auto

lemma starts_with_prefixD: "starts_with (p @ q) s \<Longrightarrow> starts_with p s"
  by (auto simp: starts_with_iff)

lemma starts_with_word_space:
  "sp \<notin> set w \<Longrightarrow> sp \<notin> set t \<Longrightarrow> starts_with (w @ sp # q) (t @ sp # r) = (w = t \<and> starts_with q r)"
proof (induction w t rule: starts_with.induct)
  case (1 s)
  then show ?case by (cases s) auto
qed auto

lemma find_word:
  assumes "sp \<notin> set w" "w \<noteq> []" "sp \<notin> set t"
  shows "find_str (w @ sp # q) (t @ sp # r) =
         (if suffix w t \<and> starts_with q r then Some (length t - length w)
          else map_option ((+) (Suc (length t))) (find_str (w @ sp # q) r))"
  using assms(3)
proof (induction t)
  case Nil
  have "\<not> starts_with (w @ sp # q) (sp # r)" using assms starts_with_word_space [of w "[]" q r] by simp
  then show ?case using assms by (cases "find_str (w @ sp # q) r") simp_all
next
  case (Cons x t)
  have sw: "starts_with (w @ sp # q) (x # t @ sp # r) = (w = x # t \<and> starts_with q r)"
    using starts_with_word_space [of w "x # t" q r] assms Cons.prems by simp
  have le: "suffix w t \<Longrightarrow> length w \<le> length t" by (rule suffix_length_le)
  have "\<not> suffix (x # t) t" using suffix_length_le by fastforce
  then show ?case using Cons sw le
    by (cases "find_str (w @ sp # q) r") (auto simp: suffix_Cons Suc_diff_le simp del: starts_with.simps)
qed

lemma find_no_space: "sp \<notin> set t \<Longrightarrow> find_str (w @ sp # q) t = None"
proof (induction t)
  case (Cons x t)
  have "\<not> starts_with (w @ sp # q) (x # t)"
  proof
    assume "starts_with (w @ sp # q) (x # t)"
    then obtain u where "x # t = w @ sp # q @ u" by (auto simp: starts_with_iff)
    then have "sp \<in> set (x # t)" by (metis in_set_conv_decomp)
    then show False using Cons.prems by simp
  qed
  then show ?case using Cons by simp
qed simp

lemma find_space:
  "sp \<notin> set t \<Longrightarrow>
   find_str (sp # w) (t @ sp # r) =
     (if starts_with w r then Some (length t) else map_option ((+) (Suc (length t))) (find_str (sp # w) r))"
  by (induction t; cases "find_str (sp # w) r") auto

lemma contains_word:
  assumes "sp \<notin> set w" "w \<noteq> []" "sp \<notin> set t"
  shows "contains_str w (t @ sp # r) = (contains_str w t \<or> contains_str w r)"
  using assms(3)
proof (induction t)
  case Nil
  have "\<not> starts_with w (sp # r)" using assms by (cases w) auto
  then show ?case using assms by simp
next
  case (Cons x t)
  then show ?case using starts_with_append_word [of w "x # t" r] assms by simp
qed

lemma contains_iff: "contains_str w s \<longleftrightarrow> (\<exists>a b. s = a @ w @ b)"
proof (induction w s rule: contains_str.induct)
  case (2 pat x xs)
  show ?case
  proof
    assume "contains_str pat (x # xs)"
    then show "\<exists>a b. x # xs = a @ pat @ b"
      using 2 by (metis append_Cons append_Nil contains_str.simps(2) starts_with_iff)
  next
    assume "\<exists>a b. x # xs = a @ pat @ b"
    then obtain a b where "x # xs = a @ pat @ b" by blast
    then have "starts_with pat (x # xs) \<or> (\<exists>a b. xs = a @ pat @ b)"
      unfolding starts_with_iff by (cases a) (fastforce, fastforce)
    then show "contains_str pat (x # xs)" using 2 by auto
  qed
qed simp

lemma starts_with_contains: "starts_with w s \<Longrightarrow> contains_str w s"
  unfolding contains_iff starts_with_iff by (metis append_Nil)

lemma suffix_contains: "suffix w s \<Longrightarrow> contains_str w s"
  unfolding contains_iff suffix_def by (metis append_Nil2)

lemma contains_set: "contains_str w s \<Longrightarrow> set w \<subseteq> set s"
  by (auto simp: contains_iff)

lemma trim_id: "s \<noteq> [] \<Longrightarrow> \<not> is_space (hd s) \<Longrightarrow> \<not> is_space (last s) \<Longrightarrow> trim s = s"
proof -
  assume s: "s \<noteq> []" "\<not> is_space (hd s)" "\<not> is_space (last s)"
  have "dropWhile is_space s = s" using s by (simp add: dropWhile_eq_self_iff)
  moreover have "dropWhile is_space (rev s) = rev s" using s by (simp add: dropWhile_eq_self_iff hd_rev)
  ultimately show "trim s = s" by (simp add: trim_def trim_start_def trim_end_def)
qed

lemma trim_space [simp]: "trim (sp # s) = trim s"
  by (simp add: trim_def trim_start_def is_space_def)

lemma slice_mid [simp]: "slice (a @ b @ c) (length a) (length a + length b) = p_ok b"
  by (simp add: slice_def)

lemma slice_end [simp]: "slice (a @ b) (length a) (length (a @ b)) = p_ok b"
  by (simp add: slice_def)

lemma slice_endI: "s = a @ b \<Longrightarrow> i = length a \<Longrightarrow> slice s i (length s) = p_ok b"
  by (simp add: slice_def)

section \<open>Upper case\<close>

lemma to_uppercase_append [simp]: "to_uppercase (a @ b) = to_uppercase a @ to_uppercase b"
  by (simp add: to_uppercase_def)

lemma to_uppercase_Cons: "to_uppercase (x # b) = ascii_upper x # to_uppercase b"
  by (simp add: to_uppercase_def)

lemma to_uppercase_Nil [simp]: "to_uppercase [] = []"
  by (simp add: to_uppercase_def)

lemma length_to_uppercase [simp]: "length (to_uppercase a) = length a"
  by (simp add: to_uppercase_def)

lemma ascii_upper_space: "ascii_upper c = sp \<longleftrightarrow> c = sp"
proof
  assume a: "ascii_upper c = sp"
  show "c = sp"
  proof (cases "97 \<le> (of_char c :: nat) \<and> (of_char c :: nat) \<le> 122")
    case True
    then have "((of_char c :: nat) - 32) mod 256 = of_char c - 32" by (intro mod_less) linarith
    then have "(of_char (ascii_upper c) :: nat) = of_char c - 32" using True
      by (simp add: ascii_upper_def Let_def of_char_of)
    moreover have "(of_char (ascii_upper c) :: nat) = 32" using a by simp
    ultimately show ?thesis using True by linarith
  next
    case False
    then show ?thesis using a by (auto simp: ascii_upper_def Let_def)
  qed
qed (simp add: ascii_upper_def Let_def)

lemma upper_no_space: "sp \<notin> set s \<Longrightarrow> sp \<notin> set (to_uppercase s)"
proof
  assume s: "sp \<notin> set s" and "sp \<in> set (to_uppercase s)"
  then obtain c where "c \<in> set s" "ascii_upper c = sp" by (auto simp: to_uppercase_def)
  then show False using s by (simp add: ascii_upper_space)
qed

section \<open>Printed queries\<close>

text \<open>A word holds no white space, and the keywords that end the clauses occur nowhere in it.\<close>

definition plain_word :: "string \<Rightarrow> bool" where
  "plain_word t \<longleftrightarrow> t \<noteq> [] \<and> list_all (\<lambda>c. \<not> is_space c) t \<and>
     list_all (\<lambda>k. \<not> contains_str k (to_uppercase t)) [''WHERE'', ''LIMIT'', ''NEAREST'', ''VERTICAL'', ''HAVING'']"

definition number_chars :: string where
  "number_chars = ''0123456789+-.eE''"

definition number_text :: "string \<Rightarrow> bool" where
  "number_text e \<longleftrightarrow> e \<noteq> [] \<and> list_all (\<lambda>c. c \<in> set number_chars) e"

definition print_vector :: "string list \<Rightarrow> string" where
  "print_vector es = ''['' @ join_with '','' es @ '']''"

definition print_select :: "string \<Rightarrow> string list \<Rightarrow> nat \<Rightarrow> bool \<Rightarrow> string" where
  "print_select name es n v =
     ''SELECT * FROM '' @ name @ (if es = [] then [] else '' NEAREST TO '' @ print_vector es) @
     '' LIMIT '' @ nat_to_string n @ (if v then '' VERTICAL'' else [])"

text \<open>The same text in upper case, as words.\<close>

lemma plain_word_upper:
  assumes "plain_word t"
  shows "sp \<notin> set (to_uppercase t)" "to_uppercase t \<noteq> []"
    "\<And>k. k \<in> {''WHERE'', ''LIMIT'', ''NEAREST'', ''VERTICAL'', ''HAVING''} \<Longrightarrow> \<not> contains_str k (to_uppercase t)"
proof -
  have "sp \<notin> set t" using assms by (auto simp: plain_word_def list_all_iff is_space_def)
  then show "sp \<notin> set (to_uppercase t)" by (rule upper_no_space)
  show "to_uppercase t \<noteq> []" using assms by (simp add: plain_word_def to_uppercase_def)
  show "\<not> contains_str k (to_uppercase t)"
    if "k \<in> {''WHERE'', ''LIMIT'', ''NEAREST'', ''VERTICAL'', ''HAVING''}" for k
    using assms that by (auto simp: plain_word_def)
qed

lemma foreign_letter: "x \<in> set k \<Longrightarrow> x \<notin> set t \<Longrightarrow> \<not> contains_str k t"
  using contains_set by blast

lemma digits_value_digits: "digits_value s a = Some n \<Longrightarrow> list_all is_digit s"
  by (induction s arbitrary: a) (auto split: if_splits)

lemma digit_plain: "is_digit c \<Longrightarrow> ascii_upper c = c \<and> \<not> is_space c"
  by (simp add: is_digit_def ascii_upper_def is_space_def Let_def)

lemma nat_to_string_upper [simp]: "to_uppercase (nat_to_string n) = nat_to_string n"
proof -
  have "list_all is_digit (nat_to_string n)" by (rule digits_value_digits [OF nat_to_string_digits])
  then show ?thesis by (auto simp: to_uppercase_def list_all_iff digit_plain intro: map_idI)
qed

lemma nat_to_string_digit: "c \<in> set (nat_to_string n) \<Longrightarrow> is_digit c"
  using digits_value_digits [OF nat_to_string_digits] by (auto simp: list_all_iff)

lemma nat_to_string_not_Nil [simp]: "nat_to_string n \<noteq> []"
  using nat_to_string_head [of n] by auto

lemma nat_to_string_plain: "plain_word (nat_to_string n)"
proof -
  have "\<not> is_digit (CHR ''E'')" "\<not> is_digit (CHR ''I'')" by (simp_all add: is_digit_def)
  then have "CHR ''E'' \<notin> set (nat_to_string n)" "CHR ''I'' \<notin> set (nat_to_string n)" using nat_to_string_digit by blast+
  then show ?thesis
    using nat_to_string_digit digit_plain
    by (auto simp: plain_word_def list_all_iff foreign_letter [of "CHR ''E''"] foreign_letter [of "CHR ''I''"])
qed

lemma set_join_with: "(\<And>e. e \<in> set es \<Longrightarrow> set e \<subseteq> S) \<Longrightarrow> set sep \<subseteq> S \<Longrightarrow> set (join_with sep es) \<subseteq> S"
  by (induction sep es rule: join_with.induct) auto

lemma print_vector_plain:
  assumes "list_all number_text es"
  shows "plain_word (print_vector es)"
proof -
  have "set (join_with '','' es) \<subseteq> insert (CHR '','') (set number_chars)"
    using assms by (intro set_join_with) (auto simp: number_text_def list_all_iff)
  then have set: "set (print_vector es) \<subseteq> set (''[],'' @ number_chars)" by (auto simp: print_vector_def)
  then have up: "set (to_uppercase (print_vector es)) \<subseteq> ascii_upper ` set (''[],'' @ number_chars)"
    by (simp only: to_uppercase_def list.set_map image_mono)
  have E: "(char_of (69 :: nat) :: char) = CHR ''E''" by code_simp
  have letters: "ascii_upper ` set (''[],'' @ number_chars) = set ''[],0123456789+-.E''"
    by (simp add: ascii_upper_def number_chars_def E)
  have foreign: "CHR ''H'' \<notin> set ''[],0123456789+-.E''" "CHR ''T'' \<notin> set ''[],0123456789+-.E''"
    "CHR ''A'' \<notin> set ''[],0123456789+-.E''"
    by simp_all
  have "\<not> contains_str k (to_uppercase (print_vector es))"
    if "CHR ''H'' \<in> set k \<or> CHR ''T'' \<in> set k \<or> CHR ''A'' \<in> set k" for k
    using that contains_set [of k "to_uppercase (print_vector es)"] up foreign unfolding letters by blast
  moreover have "\<not> is_space c" if "c \<in> set (print_vector es)" for c
  proof -
    have "list_all (\<lambda>c. \<not> is_space c) (''[],'' @ number_chars)" by (simp add: is_space_def number_chars_def)
    then show ?thesis using set that unfolding list_all_iff by blast
  qed
  ultimately show ?thesis by (auto simp: plain_word_def list_all_iff print_vector_def)
qed

lemma word_search:
  assumes "plain_word t"
  shows "find_str ''LIMIT '' (to_uppercase t @ sp # r) = map_option ((+) (Suc (length t))) (find_str ''LIMIT '' r)"
    "find_str ''WHERE '' (to_uppercase t @ sp # r) = map_option ((+) (Suc (length t))) (find_str ''WHERE '' r)"
    "find_str ''NEAREST TO'' (to_uppercase t @ sp # r) = map_option ((+) (Suc (length t))) (find_str ''NEAREST TO'' r)"
    "find_str '' VERTICAL'' (to_uppercase t @ sp # r) =
       (if starts_with ''VERTICAL'' r then Some (length t) else map_option ((+) (Suc (length t))) (find_str '' VERTICAL'' r))"
    "find_str '' HAVING'' (to_uppercase t @ sp # r) =
       (if starts_with ''HAVING'' r then Some (length t) else map_option ((+) (Suc (length t))) (find_str '' HAVING'' r))"
    "starts_with ''VERTICAL'' (to_uppercase t @ sp # r) = False"
    "starts_with ''HAVING'' (to_uppercase t @ sp # r) = False"
    "contains_str ''VERTICAL'' (to_uppercase t @ sp # r) = contains_str ''VERTICAL'' r"
proof -
  note u = plain_word_upper(1,2) [OF assms]
  have c: "\<not> contains_str ''WHERE'' (to_uppercase t)" "\<not> contains_str ''LIMIT'' (to_uppercase t)"
    "\<not> contains_str ''NEAREST'' (to_uppercase t)" "\<not> contains_str ''VERTICAL'' (to_uppercase t)"
    "\<not> contains_str ''HAVING'' (to_uppercase t)"
    by (rule plain_word_upper(3) [OF assms]; simp)+
  have suf: "\<not> suffix ''WHERE'' (to_uppercase t)" "\<not> suffix ''LIMIT'' (to_uppercase t)"
    "\<not> suffix ''NEAREST'' (to_uppercase t)"
    using c suffix_contains by blast+
  show "find_str ''LIMIT '' (to_uppercase t @ sp # r) = map_option ((+) (Suc (length t))) (find_str ''LIMIT '' r)"
    using find_word [of "''LIMIT''" "to_uppercase t" "[]" r] u suf by simp
  show "find_str ''WHERE '' (to_uppercase t @ sp # r) = map_option ((+) (Suc (length t))) (find_str ''WHERE '' r)"
    using find_word [of "''WHERE''" "to_uppercase t" "[]" r] u suf by simp
  show "find_str ''NEAREST TO'' (to_uppercase t @ sp # r) = map_option ((+) (Suc (length t))) (find_str ''NEAREST TO'' r)"
    using find_word [of "''NEAREST''" "to_uppercase t" "''TO''" r] u suf by simp
  show "find_str '' VERTICAL'' (to_uppercase t @ sp # r) =
       (if starts_with ''VERTICAL'' r then Some (length t) else map_option ((+) (Suc (length t))) (find_str '' VERTICAL'' r))"
    using find_space [OF u(1), of "''VERTICAL''" r] by simp
  show "find_str '' HAVING'' (to_uppercase t @ sp # r) =
       (if starts_with ''HAVING'' r then Some (length t) else map_option ((+) (Suc (length t))) (find_str '' HAVING'' r))"
    using find_space [OF u(1), of "''HAVING''" r] by simp
  have "\<not> starts_with ''VERTICAL'' (to_uppercase t)" "\<not> starts_with ''HAVING'' (to_uppercase t)"
    using c starts_with_contains by blast+
  then show "starts_with ''VERTICAL'' (to_uppercase t @ sp # r) = False"
    "starts_with ''HAVING'' (to_uppercase t @ sp # r) = False"
    using starts_with_append_word [OF _ u(1), of "''VERTICAL''" r] starts_with_append_word [OF _ u(1), of "''HAVING''" r]
    by simp_all
  show "contains_str ''VERTICAL'' (to_uppercase t @ sp # r) = contains_str ''VERTICAL'' r"
    using contains_word [OF _ _ u(1), of "''VERTICAL''" r] c by simp
qed

lemma last_word_search:
  assumes "plain_word t"
  shows "find_str ''LIMIT '' (to_uppercase t) = None" "find_str ''WHERE '' (to_uppercase t) = None"
    "find_str ''NEAREST TO'' (to_uppercase t) = None" "find_str '' VERTICAL'' (to_uppercase t) = None"
    "find_str '' HAVING'' (to_uppercase t) = None"
    "starts_with ''VERTICAL'' (to_uppercase t) = False" "starts_with ''HAVING'' (to_uppercase t) = False"
    "contains_str ''VERTICAL'' (to_uppercase t) = False"
proof -
  note n = find_no_space [OF plain_word_upper(1) [OF assms]]
  show "find_str ''LIMIT '' (to_uppercase t) = None" using n [of "''LIMIT''" "[]"] by simp
  show "find_str ''WHERE '' (to_uppercase t) = None" using n [of "''WHERE''" "[]"] by simp
  show "find_str ''NEAREST TO'' (to_uppercase t) = None" using n [of "''NEAREST''" "''TO''"] by simp
  show "find_str '' VERTICAL'' (to_uppercase t) = None" using n [of "[]" "''VERTICAL''"] by simp
  show "find_str '' HAVING'' (to_uppercase t) = None" using n [of "[]" "''HAVING''"] by simp
  have c: "\<not> contains_str ''VERTICAL'' (to_uppercase t)" "\<not> contains_str ''HAVING'' (to_uppercase t)"
    by (rule plain_word_upper(3) [OF assms]; simp)+
  then show "contains_str ''VERTICAL'' (to_uppercase t) = False" by simp
  show "starts_with ''VERTICAL'' (to_uppercase t) = False" "starts_with ''HAVING'' (to_uppercase t) = False"
    using c starts_with_contains by blast+
qed

lemmas number_search = word_search [OF nat_to_string_plain, unfolded nat_to_string_upper]
  last_word_search [OF nat_to_string_plain, unfolded nat_to_string_upper]

text \<open>The texts between the clauses.\<close>

lemma print_select_upper:
  "to_uppercase (print_select name es n v) =
     ''SELECT * FROM '' @ to_uppercase name @
     (if es = [] then [] else '' NEAREST TO '' @ to_uppercase (print_vector es)) @
     '' LIMIT '' @ nat_to_string n @ (if v then '' VERTICAL'' else [])"
  by (simp add: print_select_def to_uppercase_Cons ascii_upper_def)

lemma print_select_finds:
  assumes w: "plain_word name" "list_all number_text es"
  shows "find_str ''SELECT '' (to_uppercase (print_select name es n v)) = Some 0"
    "find_str ''FROM '' (to_uppercase (print_select name es n v)) = Some 9"
    "find_str ''WHERE '' (to_uppercase (print_select name es n v)) = None"
    "find_str '' HAVING'' (to_uppercase (print_select name es n v)) = None"
    "find_str ''NEAREST TO'' (to_uppercase (print_select name es n v)) = (if es = [] then None else Some (15 + length name))"
    "find_str ''LIMIT '' (to_uppercase (print_select name es n v)) =
       Some (15 + length name + (if es = [] then 0 else 12 + length (print_vector es)))"
    "find_str '' VERTICAL'' (to_uppercase (print_select name es n v)) =
       (if v then Some (21 + length name + (if es = [] then 0 else 12 + length (print_vector es)) + length (nat_to_string n))
        else None)"
    "contains_str ''VERTICAL'' (to_uppercase (print_select name es n v)) = v"
  unfolding print_select_upper
  by (simp_all add: word_search [OF w(1)] word_search [OF print_vector_plain [OF w(2)]] number_search)

text \<open>The printed text from the collection on.\<close>

definition print_tail :: "string list \<Rightarrow> nat \<Rightarrow> bool \<Rightarrow> string" where
  "print_tail es n v =
     (if es = [] then [] else ''NEAREST TO '' @ print_vector es @ '' '') @
     ''LIMIT '' @ nat_to_string n @ (if v then '' VERTICAL'' else [])"

lemma print_select_tail: "print_select name es n v = ''SELECT * FROM '' @ name @ sp # print_tail es n v"
  by (simp add: print_select_def print_tail_def)

lemma last_print_tail: "\<not> is_space (last (print_tail es n v)) \<and> last (print_tail es n v) \<noteq> CHR '';''"
proof -
  have "is_digit (last (nat_to_string n))" by (rule nat_to_string_digit [of _ n]) simp
  moreover have "\<not> is_digit (CHR '';'')" by (simp add: is_digit_def)
  ultimately show ?thesis using digit_plain by (auto simp: print_tail_def is_space_def)
qed

lemma trim_print_tail: "trim (name @ sp # print_tail es n v) = name @ sp # print_tail es n v" if "plain_word name"
  using that last_print_tail [of es n v]
  by (intro trim_id) (auto simp: plain_word_def list_all_iff print_tail_def)

lemma trim_print_select: "trim (print_select name es n v @ s) = print_select name es n v @ s"
  if "s = [] \<or> \<not> is_space (last s)"
  using that last_print_tail [of es n v]
  by (intro trim_id) (auto simp: print_select_tail is_space_def print_tail_def)

lemma trim_end_char_replicate: "last s \<noteq> c \<Longrightarrow> s \<noteq> [] \<Longrightarrow> trim_end_char c (s @ replicate k c) = s"
proof -
  assume s: "last s \<noteq> c" "s \<noteq> []"
  have "dropWhile (\<lambda>x. x = c) (replicate k c @ rev s) = dropWhile (\<lambda>x. x = c) (rev s)" by (induction k) auto
  also have "\<dots> = rev s" using s by (simp add: dropWhile_eq_self_iff hd_rev)
  finally show ?thesis by (simp add: trim_end_char_def)
qed

lemma query_text:
  "trim (trim_end_char (CHR '';'') (trim (print_select name es n v @ replicate k (CHR '';'')))) = print_select name es n v"
proof -
  have "trim (print_select name es n v @ replicate k (CHR '';'')) = print_select name es n v @ replicate k (CHR '';'')"
    by (rule trim_print_select) (cases k; simp add: is_space_def)
  moreover have "trim_end_char (CHR '';'') (print_select name es n v @ replicate k (CHR '';'')) = print_select name es n v"
    using last_print_tail [of es n v] by (intro trim_end_char_replicate) (auto simp: print_select_tail print_tail_def)
  ultimately show ?thesis using trim_print_select [of "[]" name es n v] by simp
qed

lemma extract_printed:
  assumes w: "plain_word name" "list_all number_text es"
  shows "extract_from_clause (print_select name es n v) = p_ok name" "extract_fields (print_select name es n v) = p_ok [''*'']"
proof -
  have no: "sp \<notin> set name" "list_all (\<lambda>c. \<not> is_space c) name" using w by (auto simp: plain_word_def list_all_iff is_space_def)
  have 1: "slice (print_select name es n v) 14 (length (print_select name es n v)) = p_ok (name @ sp # print_tail es n v)"
    by (simp add: print_select_tail slice_def)
  have 2: "find_str '' '' (name @ sp # print_tail es n v) = Some (length name)"
    using find_space [OF no(1), of "[]" "print_tail es n v"] by simp
  show "extract_from_clause (print_select name es n v) = p_ok name"
    using 1 2 slice_mid [of "[]" name "sp # print_tail es n v"] trim_no_space [OF no(2)]
    by (simp add: extract_from_clause_def print_select_finds [OF w] p_opt_def p_ok_def trim_print_tail [OF w(1)] or_find_def find_end_def)
  have 3: "slice (print_select name es n v) 7 9 = p_ok ''* ''"
    by (simp add: print_select_tail slice_def)
  have "trim ''* '' = ''*''" by (simp add: trim_def trim_start_def trim_end_def is_space_def)
  then show "extract_fields (print_select name es n v) = p_ok [''*'']"
    using 3 by (simp add: extract_fields_def print_select_finds [OF w] p_opt_def p_ok_def)
qed

lemma parse_printed_elements:
  assumes "list_all number_text es" "list_all2 (\<lambda>e x. tc_parse_f32 T e = Inr x) es xs"
  shows "parse_elements T es = p_ok xs"
  using assms(2,1)
proof (induction es xs rule: list_all2_induct)
  case (Cons e es x xs)
  have "list_all (\<lambda>c. \<not> is_space c) number_chars" by (simp add: is_space_def number_chars_def)
  then have "list_all (\<lambda>c. \<not> is_space c) e" using Cons.prems by (auto simp: number_text_def list_all_iff)
  then show ?case using Cons by (simp add: trim_no_space p_ok_def)
qed (simp add: p_ok_def)

lemma find_char: "c \<notin> set s \<Longrightarrow> find_str [c] (s @ c # r) = Some (length s)"
  by (induction s) auto

lemma parse_printed_vector:
  assumes "list_all number_text es" "es \<noteq> []" "list_all2 (\<lambda>e x. tc_parse_f32 T e = Inr x) es xs"
    and t: "trim (print_vector es @ r) = print_vector es @ r"
  shows "parse_vector T (print_vector es @ r) = p_ok xs"
proof -
  have num: "set e \<subseteq> set number_chars" if "e \<in> set es" for e
    using assms(1) that by (auto simp: number_text_def list_all_iff)
  have no: "CHR '']'' \<notin> insert (CHR '','') (set number_chars)" "CHR '','' \<notin> set number_chars" by (simp_all add: number_chars_def)
  have close: "CHR '']'' \<notin> set (join_with '','' es)"
    using set_join_with [of es "insert (CHR '','') (set number_chars)" "'',''"] num no by auto
  have split: "split_on (CHR '','') (join_with '','' es) = es"
    using assms(2) num no by (intro split_join) auto
  have f: "find_str '']'' (''['' @ join_with '','' es @ '']'' @ r) = Some (Suc (length (join_with '','' es)))"
    using find_char [of "CHR '']''" "''['' @ join_with '','' es" r] close by simp
  have "slice (''['' @ join_with '','' es @ '']'' @ r) (0 + 1) (Suc (length (join_with '','' es))) = p_ok (join_with '','' es)"
    using slice_mid [of "''[''" "join_with '','' es" "'']'' @ r"] by simp
  then show ?thesis using f split parse_printed_elements [OF assms(1,3)] unfolding parse_vector_def t
    by (simp add: print_vector_def p_opt_def p_ok_def)
qed

lemma nearest_printed:
  assumes w: "plain_word name" "list_all number_text es" "list_all2 (\<lambda>e x. tc_parse_f32 T e = Inr x) es xs"
  shows "parse_nearest T (print_select name es n v) = p_ok (if es = [] then None else Some xs)"
proof (cases "es = []")
  case True
  then show ?thesis using w by (simp add: parse_nearest_def print_select_finds)
next
  case False
  define r where "r = sp # print_tail [] n v"
  have sel: "print_select name es n v = (''SELECT * FROM '' @ name @ '' NEAREST TO'') @ sp # print_vector es @ r"
    using False by (simp add: print_select_def print_tail_def r_def)
  have "slice (print_select name es n v) (15 + length name + 10) (length (print_select name es n v)) = p_ok (sp # print_vector es @ r)"
    by (rule slice_endI [OF sel]) simp
  moreover have t: "trim (print_vector es @ r) = print_vector es @ r"
    using last_print_tail [of "[]" n v] by (intro trim_id) (auto simp: print_vector_def r_def print_tail_def is_space_def)
  ultimately show ?thesis
    using False parse_printed_vector [OF w(2) False w(3) t]
    by (simp add: parse_nearest_def print_select_finds [OF w(1,2)] p_ok_def)
qed

lemma limit_printed:
  assumes w: "plain_word name" "list_all number_text es" and n: "n < 2 ^ 64"
  shows "parse_limit (print_select name es n v) = p_ok (Some n)"
proof -
  define a where "a = ''SELECT * FROM '' @ name @ (if es = [] then [] else '' NEAREST TO '' @ print_vector es) @ '' LIMIT ''"
  have sel: "print_select name es n v = a @ nat_to_string n @ (if v then '' VERTICAL'' else [])"
    by (simp add: a_def print_select_def)
  have len: "length a = 21 + length name + (if es = [] then 0 else 12 + length (print_vector es))"
    by (simp add: a_def)
  have "slice (print_select name es n v) (length a)
      (find_end (or_find (find_str '' VERTICAL'' (to_uppercase (print_select name es n v))) '' HAVING''
        (to_uppercase (print_select name es n v))) (print_select name es n v)) = p_ok (nat_to_string n)"
    unfolding or_find_def print_select_finds [OF w]
    using slice_mid [of a "nat_to_string n" "if v then '' VERTICAL'' else []"] unfolding sel
    by (cases v) (simp_all add: find_end_def len)
  moreover have "trim (nat_to_string n) = nat_to_string n"
    using nat_to_string_plain [of n] by (intro trim_no_space) (simp add: plain_word_def)
  moreover obtain i where "find_str ''LIMIT '' (to_uppercase (print_select name es n v)) = Some i" "length a = i + length ''LIMIT ''"
    using print_select_finds(6) [OF w] len by simp
  ultimately show ?thesis using parse_nat_to_string [OF n] by (simp add: parse_limit_def Let_def p_ok_def)
qed

lemma parse_printed_select:
  assumes "plain_word name" "list_all number_text es" "list_all2 (\<lambda>e x. tc_parse_f32 T e = Inr x) es xs" "n < 2 ^ 64"
  shows "parse_query T (print_select name es n v @ replicate k (CHR '';'')) =
    p_ok (Select \<lparr>sq_collection = name, sq_fields = [''*''], sq_nearest_to = (if es = [] then None else Some xs),
                  sq_where_filter = None, sq_limit = Some n, sq_vertical = v\<rparr>)"
proof -
  have "\<not> starts_with ''CREATE COLLECTION '' (to_uppercase (print_select name es n v))"
    "\<not> starts_with ''SELECT COUNT(*)'' (to_uppercase (print_select name es n v))"
    "starts_with ''SELECT '' (to_uppercase (print_select name es n v))"
    unfolding print_select_upper by simp_all
  moreover have "parse_where_clause T (print_select name es n v) = p_ok None"
    using assms by (simp add: parse_where_clause_def print_select_finds)
  ultimately show ?thesis
    unfolding parse_query_def query_text Let_def
    using extract_printed [OF assms(1,2)] nearest_printed [OF assms(1-3)] limit_printed [OF assms(1,2,4)]
    by (simp add: parse_select_def print_select_finds [OF assms(1,2)] p_ok_def)
qed

text \<open>
  C18: A query printed from a collection name, a vector of decimal texts, a limit and the vertical flag, with
  any number of semicolons after it, is parsed back to exactly these, provided that the name holds no white
  space and none of the clause keywords.
\<close>

theorem select_query_roundtrip:
  assumes "plain_word name" and "list_all number_text es" and "n < 2 ^ 64"
    and "list_all2 (\<lambda>e x. tc_parse_f32 T e = Inr x) es xs"
  shows "parse_query T (print_select name es n v @ replicate k (CHR '';'')) =
    p_ok (Select \<lparr>sq_collection = name, sq_fields = [''*''], sq_nearest_to = (if es = [] then None else Some xs),
                  sq_where_filter = None, sq_limit = Some n, sq_vertical = v\<rparr>)"
  by (rule parse_printed_select [OF assms(1,2,4,3)])

definition demo_codec :: "f64 text_codec" where
  "demo_codec =
     \<lparr>tc_parse_f32 = (\<lambda>s. if s = ''0.5'' then Inr 0x3F000000 else if s = ''-1'' then Inr 0xBF800000 else Inl ''invalid float literal''),
      tc_parse_f64 = (\<lambda>_. None), tc_parse_json = (\<lambda>_. None),
      tc_num = \<lparr>num_as_i64 = (\<lambda>_. None), num_as_f64 = Some, num_from_i64 = ucast, num_from_f64 = Some\<rparr>\<rparr>"

lemma select_query_roundtrip_witness:
  "parse_query demo_codec (print_select ''docs'' [''0.5'', ''-1''] 5 True @ replicate 1 (CHR '';'')) =
     p_ok (Select \<lparr>sq_collection = ''docs'', sq_fields = [''*''], sq_nearest_to = Some [0x3F000000, 0xBF800000],
                   sq_where_filter = None, sq_limit = Some 5, sq_vertical = True\<rparr>)"
proof -
  have "plain_word ''docs''" by code_simp
  moreover have "list_all number_text [''0.5'', ''-1'']" by code_simp
  moreover have "list_all2 (\<lambda>e x. tc_parse_f32 demo_codec e = Inr x) [''0.5'', ''-1''] [0x3F000000, 0xBF800000]"
    by (simp add: demo_codec_def)
  ultimately show ?thesis
    using select_query_roundtrip [of "''docs''" "[''0.5'', ''-1'']" 5 demo_codec "[0x3F000000, 0xBF800000]" True 1] by simp
qed

section \<open>The loop\<close>

definition quits :: "string \<Rightarrow> bool" where
  "quits input \<longleftrightarrow> input \<in> {bs # ''quit'', bs # ''q'', ''exit'', ''quit''}"

definition ends_loop :: "signal \<Rightarrow> bool" where
  "ends_loop sig = (case sig of Success line \<Rightarrow> quits (trim line) | Ctrl_D \<Rightarrow> True | Read_error \<Rightarrow> True | _ \<Rightarrow> False)"

definition line_panics :: "'n client_env \<Rightarrow> signal \<Rightarrow> bool" where
  "line_panics V sig =
     (case sig of
        Success line \<Rightarrow> trim line \<noteq> [] \<and> \<not> command_line (trim line) \<and> parse_query (ce_text V) (trim line) = Panics
      | _ \<Rightarrow> False)"

lemma trim_end_trim [simp]: "trim_end (trim_end s) = trim_end s"
  by (simp add: trim_end_def)

lemma trim_trim [simp]: "trim (trim s) = trim s"
proof (cases "trim s = []")
  case True
  moreover have "trim [] = []" by (simp add: trim_def trim_start_def trim_end_def)
  ultimately show ?thesis by simp
next
  case False
  define a where "a = trim_start s"
  have t: "trim s = trim_end a" by (simp add: trim_def a_def)
  have front: "a \<noteq> [] \<Longrightarrow> \<not> is_space (hd a)" by (simp add: a_def trim_start_def hd_dropWhile)
  obtain u where u: "a = trim_end a @ u"
    unfolding trim_end_def by (metis rev_append rev_rev_ident takeWhile_dropWhile_id)
  then have "\<not> is_space (hd (trim s))" using False t front by (metis append_is_Nil_conv hd_append2)
  moreover have "\<not> is_space (last (trim s))"
    using False unfolding t trim_end_def by (metis hd_dropWhile last_rev rev.simps(1))
  ultimately show ?thesis using False by (intro trim_id)
qed

lemma parse_command_Quit: "parse_command s = Quit \<longleftrightarrow> quits (trim s)"
  unfolding parse_command_def Let_def quits_def strip_prefix_def bs_def by auto

lemma run_command_result:
  "run_command V net r input s = (r', s', out, go) \<Longrightarrow> rp_client r' = rp_client r \<and> (go \<longleftrightarrow> \<not> quits (trim input))"
  by (auto simp: run_command_def Let_def parse_command_Quit [symmetric] split: command.splits prod.splits option.splits)

lemma query_line_panics: "query_line V net r elapsed input s = Panics \<longleftrightarrow> parse_query (ce_text V) input = Panics"
  by (cases "parse_query (ce_text V) input") (auto simp: query_line_def split: sum.splits prod.splits)

lemma quits_command: "quits (trim line) \<Longrightarrow> command_line (trim line) \<and> trim line \<noteq> []"
  by (auto simp: quits_def command_line_def)

lemma repl_signal_result:
  "case repl_signal V net elapsed sig r s of
     Panics \<Rightarrow> line_panics V sig
   | Returns (r', s', out, go) \<Rightarrow> \<not> line_panics V sig \<and> (go \<longleftrightarrow> \<not> ends_loop sig) \<and> rp_client r' = rp_client r"
proof (cases sig)
  case (Success line)
  consider "trim line = []" | "trim line \<noteq> []" "command_line (trim line)" | "trim line \<noteq> []" "\<not> command_line (trim line)"
    by blast
  then show ?thesis
  proof cases
    case 2
    then show ?thesis using Success run_command_result [of V net r "trim line" s]
      by (cases "run_command V net r (trim line) s") (auto simp: repl_signal_def repl_line_def line_panics_def ends_loop_def)
  next
    case 3
    then have "\<not> quits (trim line)" using quits_command by blast
    then show ?thesis using Success 3 query_line_panics [of V net r elapsed "trim line" s]
      by (cases "query_line V net r elapsed (trim line) s")
        (auto simp: repl_signal_def repl_line_def line_panics_def ends_loop_def)
  qed (use Success quits_command [of line] in \<open>auto simp: repl_signal_def repl_line_def line_panics_def ends_loop_def\<close>)
qed (auto simp: repl_signal_def line_panics_def ends_loop_def)

lemma repl_loop_result:
  "case repl_loop V net sigs r s of
     Panics \<Rightarrow> list_ex (\<lambda>x. line_panics V (fst x)) (takeWhile (\<lambda>x. \<not> ends_loop (fst x)) sigs)
   | Returns (r', s', out, go) \<Rightarrow>
       list_all (\<lambda>x. \<not> line_panics V (fst x)) (takeWhile (\<lambda>x. \<not> ends_loop (fst x)) sigs) \<and>
       (go \<longleftrightarrow> list_all (\<lambda>x. \<not> ends_loop (fst x)) sigs) \<and> rp_client r' = rp_client r"
proof (induction sigs arbitrary: r s)
  case (Cons x sigs)
  obtain sig elapsed where x: "x = (sig, elapsed)" by (cases x)
  have ends: "ends_loop sig \<Longrightarrow> \<not> line_panics V sig"
    by (auto simp: ends_loop_def line_panics_def dest: quits_command split: signal.splits)
  show ?case
  proof (cases "repl_signal V net elapsed sig r s")
    case Panics
    then show ?thesis using repl_signal_result [where V = V and net = net and elapsed = elapsed and sig = sig and r = r and s = s] ends x by auto
  next
    case (Returns y)
    obtain r1 s1 out1 go1 where y: "y = (r1, s1, out1, go1)" by (cases y)
    have 1: "\<not> line_panics V sig" "go1 \<longleftrightarrow> \<not> ends_loop sig" "rp_client r1 = rp_client r"
      using repl_signal_result [where V = V and net = net and elapsed = elapsed and sig = sig and r = r and s = s] Returns y by auto
    then show ?thesis using Cons.IH [where r = r1 and s = s1] Returns x y
      by (cases "repl_loop V net sigs r1 s1"; cases go1) auto
  qed
qed simp

text \<open>
  C40: Whatever was typed, the loop has ended exactly when one of the signals read was Ctrl-D, a read error or
  a line that is a quit command; it panics exactly when a line before that makes the query parser panic; and
  no command changes the client it talks through.
\<close>

theorem repl_ends_when_told:
  "case repl_loop V net sigs r s of
     Panics \<Rightarrow> list_ex (\<lambda>x. line_panics V (fst x)) (takeWhile (\<lambda>x. \<not> ends_loop (fst x)) sigs)
   | Returns (r', s', out, go) \<Rightarrow>
       list_all (\<lambda>x. \<not> line_panics V (fst x)) (takeWhile (\<lambda>x. \<not> ends_loop (fst x)) sigs) \<and>
       (go \<longleftrightarrow> list_all (\<lambda>x. \<not> ends_loop (fst x)) sigs) \<and> rp_client r' = rp_client r"
  by (rule repl_loop_result)

section \<open>What is sent\<close>

text \<open>A query without a vector sends no limit: the limit of a plain select is dropped.\<close>

lemma select_without_nearest_drops_limit:
  "sq_nearest_to q = None \<Longrightarrow> execute_select V net r (q\<lparr>sq_limit := l\<rparr>) s = execute_select V net r q s"
  by (simp add: execute_select_def Let_def split: option.split)

text \<open>The toggle of the vertical display is never read.\<close>

lemma vertical_toggle_ignored:
  "repl_line V net elapsed line (r\<lparr>rp_vertical := b\<rparr>) s = Returns (r1, s', out, go) \<Longrightarrow>
   trim line \<noteq> [] \<Longrightarrow> \<not> command_line (trim line) \<Longrightarrow>
   repl_line V net elapsed line r s = Returns (r, s', out, go)"
proof -
  have t: "target_collection (r\<lparr>rp_vertical := b\<rparr>) c = target_collection r c"
    "query_format (r\<lparr>rp_vertical := b\<rparr>) f = query_format r f" for c f
    by (simp_all add: target_collection_def query_format_def)
  have "execute_select V net (r\<lparr>rp_vertical := b\<rparr>) q s = execute_select V net r q s" for q
    by (simp add: execute_select_def Let_def t split: option.split)
  then have "query_line V net (r\<lparr>rp_vertical := b\<rparr>) elapsed i s = query_line V net r elapsed i s" for i
    by (simp add: query_line_def execute_query_def t handle_create_collection_def cong: parsed_query.case_cong sum.case_cong)
  then show "repl_line V net elapsed line (r\<lparr>rp_vertical := b\<rparr>) s = Returns (r1, s', out, go) \<Longrightarrow>
   trim line \<noteq> [] \<Longrightarrow> \<not> command_line (trim line) \<Longrightarrow>
   repl_line V net elapsed line r s = Returns (r, s', out, go)"
    by (cases "query_line V net r elapsed (trim line) s") (auto simp: repl_line_def)
qed

text \<open>The client looks for an object with a count; a server that answers with the bare number is never understood.\<close>

lemma count_refuses_number:
  assumes "net \<lparr>rq_method = GET, rq_url = cl_url c @ collections_path t d @ ''/'' @ coll @ ''/count'',
            rq_headers = client_headers V c, rq_body = No_body\<rparr> s = (s', Inr (200, Inr (JNumber k)))"
  shows "client_count V net c t d coll s = (s', Inl ''Invalid count response'')"
  using assms by (simp add: client_count_def send_json_def required_u64_def u64_field_def)

text \<open>The unequal sign is read as a comparison of another field, and slices with their bounds out of order panic.\<close>

lemma not_equal_sign_misread: "parse_sql_condition ''a <> 1'' = p_ok (''a <'', ''>'', ''1'')"
  by code_simp

lemma limit_before_where_panics: "parse_where_clause T ''SELECT * FROM c LIMIT 5 WHERE a = 1'' = Panics"
proof -
  have u: "to_uppercase ''SELECT * FROM c LIMIT 5 WHERE a = 1'' = ''SELECT * FROM C LIMIT 5 WHERE A = 1''" by code_simp
  show ?thesis unfolding parse_where_clause_def u by (simp add: or_find_def find_end_def slice_def)
qed

lemma lone_quote_panics: "parse_value T [CHR 0x27] = Panics"
  by (subst parse_value.simps) (simp add: quoted_with_def trim_def trim_start_def trim_end_def is_space_def)

lemma question_mark_no_command: "\<not> command_line ''?'' \<and> parse_command ''?'' = Help"
  by code_simp

end
