(* ===== verification/Command_Line.thy ===== *)
theory Command_Line
  imports Repl_Client
begin

text \<open>
  The command line, \<^verbatim>\<open>crates/rekha-cli/src/main.rs\<close>: the parsed commands, the request each client command
  sends and what is done with the response, and what \<^verbatim>\<open>serve\<close> derives from its arguments: the peers, the
  members of the cluster, the leader to follow and the listeners. Argument parsing, the start of the
  process and of its listeners, and signals are not modelled. The replication task is in Replication.
\<close>

section \<open>Commands\<close>

datatype collection_action =
    Coll_create string nat string
  | Coll_list
  | Coll_get string
  | Coll_delete string

datatype membership_action =
    Member_list
  | Member_add u64 string
  | Member_remove u64

record serve_args =
  sv_data_dir :: string
  sv_host :: string
  sv_port :: nat
  sv_internal_host :: "string option"
  sv_internal_port :: "nat option"
  sv_node_id :: u64
  sv_peers :: string
  sv_tls_cert :: "string option"
  sv_tls_key :: "string option"

text \<open>The commands that send the contents of a JSON file carry the collection and the file.\<close>

datatype cli_command =
    Serve serve_args
  | Collection collection_action
  | Membership membership_action
  | Add_file string string
  | Upsert_file string string
  | Update_file string string
  | Delete_file string string
  | Query_file string string
  | Get_file string string
  | Count_coll string

section \<open>Requests\<close>

record 'n cli_request =
  cq_method :: http_method
  cq_url :: string
  cq_body :: "'n json option"

text \<open>Files, the JSON texts and the JSON form of an unsigned integer.\<close>

record 'n cli_env =
  ci_url :: string
  ci_read_file :: "string \<Rightarrow> string + string"
  ci_parse_json :: "string \<Rightarrow> string + 'n json"
  ci_pretty :: "'n json \<Rightarrow> string"
  ci_unsigned :: "nat \<Rightarrow> 'n json"
  ci_status :: "nat \<Rightarrow> string"

definition coll_path :: "string \<Rightarrow> string" where
  "coll_path cid = ''/api/v2/collections/'' @ cid"

fun collection_action_request :: "'n cli_env \<Rightarrow> collection_action \<Rightarrow> 'n cli_request" where
  "collection_action_request C (Coll_create name dimension distance) =
     \<lparr>cq_method = POST, cq_url = ci_url C @ ''/api/v2/collections'',
      cq_body = Some (JObject [(''dimension'', ci_unsigned C dimension), (''distance'', JString distance), (''name'', JString name)])\<rparr>"
| "collection_action_request C Coll_list =
     \<lparr>cq_method = GET, cq_url = ci_url C @ ''/api/v2/collections'', cq_body = None\<rparr>"
| "collection_action_request C (Coll_get cid) = \<lparr>cq_method = GET, cq_url = ci_url C @ coll_path cid, cq_body = None\<rparr>"
| "collection_action_request C (Coll_delete cid) = \<lparr>cq_method = DELETE, cq_url = ci_url C @ coll_path cid, cq_body = None\<rparr>"

fun membership_action_request :: "'n cli_env \<Rightarrow> membership_action \<Rightarrow> 'n cli_request" where
  "membership_action_request C Member_list =
     \<lparr>cq_method = GET, cq_url = ci_url C @ ''/internal/raft/membership'', cq_body = None\<rparr>"
| "membership_action_request C (Member_add n addr) =
     \<lparr>cq_method = POST, cq_url = ci_url C @ ''/internal/raft/add_learner'',
      cq_body = Some (JObject [(''addr'', JString addr), (''node_id'', ci_unsigned C (unat n))])\<rparr>"
| "membership_action_request C (Member_remove n) =
     \<lparr>cq_method = POST, cq_url = ci_url C @ ''/internal/raft/remove_member'',
      cq_body = Some (JObject [(''node_id'', ci_unsigned C (unat n))])\<rparr>"

definition file_request :: "'n cli_env \<Rightarrow> string \<Rightarrow> string \<Rightarrow> string \<Rightarrow> string + 'n cli_request" where
  "file_request C cid operation path =
     (case ci_read_file C path of
        Inl e \<Rightarrow> Inl e
      | Inr body \<Rightarrow>
          (case ci_parse_json C body of
             Inl e \<Rightarrow> Inl e
           | Inr j \<Rightarrow> Inr \<lparr>cq_method = POST, cq_url = ci_url C @ coll_path cid @ ''/'' @ operation, cq_body = Some j\<rparr>))"

text \<open>The request of a client command; \<^verbatim>\<open>serve\<close> sends none.\<close>

fun command_request :: "'n cli_env \<Rightarrow> cli_command \<Rightarrow> (string + 'n cli_request) option" where
  "command_request C (Serve a) = None"
| "command_request C (Collection a) = Some (Inr (collection_action_request C a))"
| "command_request C (Membership a) = Some (Inr (membership_action_request C a))"
| "command_request C (Add_file cid path) = Some (file_request C cid ''add'' path)"
| "command_request C (Upsert_file cid path) = Some (file_request C cid ''upsert'' path)"
| "command_request C (Update_file cid path) = Some (file_request C cid ''update'' path)"
| "command_request C (Delete_file cid path) = Some (file_request C cid ''delete'' path)"
| "command_request C (Query_file cid path) = Some (file_request C cid ''query'' path)"
| "command_request C (Get_file cid path) = Some (file_request C cid ''get'' path)"
| "command_request C (Count_coll cid) =
     Some (Inr \<lparr>cq_method = POST, cq_url = ci_url C @ coll_path cid @ ''/count'', cq_body = None\<rparr>)"

text \<open>What the process does in the end: it prints, exits with 1 after a message, or returns an error.\<close>

datatype cli_result = Printed string | Exits string | Main_error string

type_synonym ('n, 's) cli_server = "'n cli_request \<Rightarrow> 's \<Rightarrow> 's \<times> (string + nat \<times> (string + string))"

definition print_response :: "'n cli_env \<Rightarrow> nat \<times> (string + string) \<Rightarrow> cli_result" where
  "print_response C resp =
     (case resp of
        (status, Inl e) \<Rightarrow> Main_error e
      | (status, Inr body) \<Rightarrow>
          if \<not> (200 \<le> status \<and> status < 300) then Exits (''Error ('' @ ci_status C status @ ''): '' @ body)
          else (case ci_parse_json C body of Inr v \<Rightarrow> Printed (ci_pretty C v) | Inl _ \<Rightarrow> Printed body))"

definition run_client_command :: "'n cli_env \<Rightarrow> ('n, 's) cli_server \<Rightarrow> cli_command \<Rightarrow> 's \<Rightarrow> ('s \<times> cli_result) option" where
  "run_client_command C net cmd s =
     (case command_request C cmd of
        None \<Rightarrow> None
      | Some (Inl e) \<Rightarrow> Some (s, Main_error e)
      | Some (Inr req) \<Rightarrow>
          Some (case net req s of
                  (s', Inl e) \<Rightarrow> (s', Main_error e)
                | (s', Inr resp) \<Rightarrow> (s', print_response C resp)))"

section \<open>Starting a node\<close>

text \<open>The peers are numbered from 1 in the order of the list; the node itself is left out.\<close>

definition peer_map :: "u64 \<Rightarrow> string \<Rightarrow> (u64 \<times> string) list" where
  "peer_map node_id peers =
     (if peers = [] then []
      else filter (\<lambda>(i, _). i \<noteq> node_id) (map (\<lambda>(i, addr). (of_nat i + 1, trim addr)) (List.enumerate 0 (split_on (CHR '','') peers))))"

definition raft_members :: "u64 \<Rightarrow> string \<Rightarrow> u64 set" where
  "raft_members node_id peers = insert node_id (set (map fst (peer_map node_id peers)))"

text \<open>The leader a node follows: node 1, which follows nobody.\<close>

definition follows :: "u64 \<Rightarrow> string \<Rightarrow> string option" where
  "follows node_id peers =
     (if peers \<noteq> [] \<and> node_id \<noteq> 1
      then Some (case map_of (peer_map node_id peers) 1 of Some addr \<Rightarrow> addr | None \<Rightarrow> ''http://127.0.0.1:8000'')
      else None)"

datatype router_kind = Full_router | Public_router | Internal_router

definition tls_on :: "serve_args \<Rightarrow> bool" where
  "tls_on a \<longleftrightarrow> sv_tls_cert a \<noteq> None \<and> sv_tls_key a \<noteq> None"

text \<open>The listeners: an address, the router served on it and whether it is encrypted.\<close>

definition listeners :: "serve_args \<Rightarrow> (string \<times> router_kind \<times> bool) list" where
  "listeners a =
     (case sv_internal_port a of
        Some p \<Rightarrow>
          [(sv_host a @ '':'' @ nat_to_string (sv_port a), Public_router, tls_on a),
           ((case sv_internal_host a of Some h \<Rightarrow> h | None \<Rightarrow> sv_host a) @ '':'' @ nat_to_string p, Internal_router, tls_on a)]
      | None \<Rightarrow> [(sv_host a @ '':'' @ nat_to_string (sv_port a), Full_router, tls_on a)])"

section \<open>The members of a cluster\<close>

lemma peer_map_ids:
  assumes "peers \<noteq> []" "length (split_on (CHR '','') peers) < 2 ^ 64"
  shows "set (map fst (peer_map node_id peers)) =
    {w. 1 \<le> unat w \<and> unat w \<le> length (split_on (CHR '','') peers)} - {node_id}"
proof -
  define n where "n = length (split_on (CHR '','') peers)"
  have en: "fst ` set (List.enumerate 0 (split_on (CHR '','') peers)) = {0 ..< n}"
    unfolding n_def list.set_map [symmetric] by simp
  have "set (map fst (peer_map node_id peers)) = {w \<in> (\<lambda>i. of_nat i + 1) ` fst ` set (List.enumerate 0 (split_on (CHR '','') peers)). w \<noteq> node_id}"
    using assms(1) by (auto simp: peer_map_def image_image case_prod_beta intro: rev_image_eqI)
  then have ids: "set (map fst (peer_map node_id peers)) = (\<lambda>i. of_nat i + 1 :: u64) ` {0 ..< n} - {node_id}"
    unfolding en by auto
  have un: "unat (of_nat i + 1 :: u64) = i + 1" if "i < n" for i
  proof -
    have "(of_nat i + 1 :: u64) = of_nat (i + 1)" by simp
    moreover have "take_bit 64 (i + 1) = i + 1" using that assms(2) n_def by (intro take_bit_nat_eq_self) simp
    then have "unat (of_nat (i + 1) :: u64) = i + 1" by (simp add: unsigned_of_nat del: of_nat_add of_nat_Suc)
    ultimately show ?thesis by (simp only:)
  qed
  have "(\<lambda>i. of_nat i + 1 :: u64) ` {0 ..< n} = {w. 1 \<le> unat w \<and> unat w \<le> n}"
  proof (intro set_eqI iffI)
    fix w :: u64 assume "w \<in> {w. 1 \<le> unat w \<and> unat w \<le> n}"
    then have "unat w - 1 < n" "w = of_nat (unat w - 1) + 1" by (auto simp: of_nat_diff)
    then show "w \<in> (\<lambda>i. of_nat i + 1) ` {0 ..< n}" by (metis atLeast0LessThan imageI lessThan_iff)
  qed (auto simp: un)
  then show ?thesis using ids by (simp add: n_def)
qed

text \<open>Nodes of one list, each with an id that counts into it, agree on the members.\<close>

lemma members_of_list:
  assumes "peers \<noteq> []" "length (split_on (CHR '','') peers) < 2 ^ 64"
    and "1 \<le> unat node_id" "unat node_id \<le> length (split_on (CHR '','') peers)"
  shows "raft_members node_id peers = {w. 1 \<le> unat w \<and> unat w \<le> length (split_on (CHR '','') peers)}"
  using peer_map_ids [OF assms(1,2), of node_id] assms(3,4) unfolding raft_members_def by auto

text \<open>A peer is a host and a port, which is taken for the base URL of the leader as it is.\<close>

lemma leader_url_without_scheme: "follows 2 ''host1:8001,host2:8002'' = Some ''host1:8001''"
  by code_simp

end
