(* ===== verification/Routing.thy ===== *)
theory Routing
  imports Api_Chroma Repl Command_Line
begin

text \<open>
  The routers of the API, \<^verbatim>\<open>public_routes\<close>, \<^verbatim>\<open>internal_routes\<close> and \<^verbatim>\<open>chroma_router\<close> of
  \<^verbatim>\<open>crates/rekha-api\<close>, and whether the clients of the repository reach them. A route is a pattern of
  segments with its methods; matching is that of axum on paths without percent encoding.
\<close>

section \<open>Route tables\<close>

datatype endpoint =
    E_create_collection | E_list_collections | E_get_collection | E_delete_collection
  | E_add_records | E_upsert_records | E_update_records | E_delete_records | E_query_records | E_get_records
  | E_count_records | E_health | E_ready | E_auth_identity | E_create_tenant | E_get_tenant
  | E_list_databases | E_create_database | E_get_database
  | E_raft_append_entries | E_raft_vote | E_raft_install_snapshot | E_raft_membership | E_raft_add_learner
  | E_raft_remove_member | E_wal_delta | E_wal_status
  | E_heartbeat | E_version | E_pre_flight_checks
  | E_create_collection_chroma | E_list_collections_chroma | E_get_collection_chroma | E_delete_collection_chroma
  | E_add_records_chroma | E_upsert_records_chroma | E_update_records_chroma | E_delete_records_chroma
  | E_query_records_chroma | E_get_records_chroma | E_count_records_chroma

text \<open>A pattern is its segments, a parameter of a pattern is one segment.\<close>

datatype segment_pattern = Lit string | Param string

type_synonym routes = "(segment_pattern list \<times> (http_method \<times> endpoint) list) list"

definition chroma_router :: routes where
  "chroma_router =
     [([Lit ''api'', Lit ''v2'', Lit ''heartbeat''], [(GET, E_heartbeat)]),
      ([Lit ''api'', Lit ''v2'', Lit ''version''], [(GET, E_version)]),
      ([Lit ''api'', Lit ''v2'', Lit ''pre-flight-checks''], [(GET, E_pre_flight_checks)]),
      ([Lit ''api'', Lit ''v2'', Lit ''tenants'', Param ''tenant'', Lit ''databases'', Param ''database'', Lit ''collections''],
        [(POST, E_create_collection_chroma), (GET, E_list_collections_chroma)]),
      ([Lit ''api'', Lit ''v2'', Lit ''tenants'', Param ''tenant'', Lit ''databases'', Param ''database'', Lit ''collections'', Param ''name''],
        [(GET, E_get_collection_chroma), (DELETE, E_delete_collection_chroma)]),
      ([Lit ''api'', Lit ''v2'', Lit ''tenants'', Param ''tenant'', Lit ''databases'', Param ''database'', Lit ''collections'', Param ''name'', Lit ''add''], [(POST, E_add_records_chroma)]),
      ([Lit ''api'', Lit ''v2'', Lit ''tenants'', Param ''tenant'', Lit ''databases'', Param ''database'', Lit ''collections'', Param ''name'', Lit ''upsert''], [(POST, E_upsert_records_chroma)]),
      ([Lit ''api'', Lit ''v2'', Lit ''tenants'', Param ''tenant'', Lit ''databases'', Param ''database'', Lit ''collections'', Param ''name'', Lit ''update''], [(POST, E_update_records_chroma)]),
      ([Lit ''api'', Lit ''v2'', Lit ''tenants'', Param ''tenant'', Lit ''databases'', Param ''database'', Lit ''collections'', Param ''name'', Lit ''delete''], [(POST, E_delete_records_chroma)]),
      ([Lit ''api'', Lit ''v2'', Lit ''tenants'', Param ''tenant'', Lit ''databases'', Param ''database'', Lit ''collections'', Param ''name'', Lit ''query''], [(POST, E_query_records_chroma)]),
      ([Lit ''api'', Lit ''v2'', Lit ''tenants'', Param ''tenant'', Lit ''databases'', Param ''database'', Lit ''collections'', Param ''name'', Lit ''get''], [(POST, E_get_records_chroma)]),
      ([Lit ''api'', Lit ''v2'', Lit ''tenants'', Param ''tenant'', Lit ''databases'', Param ''database'', Lit ''collections'', Param ''name'', Lit ''count''], [(GET, E_count_records_chroma)])]"

definition public_routes :: routes where
  "public_routes =
     [([Lit ''api'', Lit ''v2'', Lit ''collections''], [(POST, E_create_collection), (GET, E_list_collections)]),
      ([Lit ''api'', Lit ''v2'', Lit ''collections'', Param ''id''], [(GET, E_get_collection), (DELETE, E_delete_collection)]),
      ([Lit ''api'', Lit ''v2'', Lit ''collections'', Param ''id'', Lit ''add''], [(POST, E_add_records)]),
      ([Lit ''api'', Lit ''v2'', Lit ''collections'', Param ''id'', Lit ''upsert''], [(POST, E_upsert_records)]),
      ([Lit ''api'', Lit ''v2'', Lit ''collections'', Param ''id'', Lit ''update''], [(POST, E_update_records)]),
      ([Lit ''api'', Lit ''v2'', Lit ''collections'', Param ''id'', Lit ''delete''], [(POST, E_delete_records)]),
      ([Lit ''api'', Lit ''v2'', Lit ''collections'', Param ''id'', Lit ''query''], [(POST, E_query_records)]),
      ([Lit ''api'', Lit ''v2'', Lit ''collections'', Param ''id'', Lit ''get''], [(POST, E_get_records)]),
      ([Lit ''api'', Lit ''v2'', Lit ''collections'', Param ''id'', Lit ''count''], [(POST, E_count_records)]),
      ([Lit ''health''], [(GET, E_health)]),
      ([Lit ''ready''], [(GET, E_ready)]),
      ([Lit ''api'', Lit ''v2'', Lit ''auth'', Lit ''identity''], [(GET, E_auth_identity)]),
      ([Lit ''api'', Lit ''v2'', Lit ''tenants''], [(POST, E_create_tenant)]),
      ([Lit ''api'', Lit ''v2'', Lit ''tenants'', Param ''name''], [(GET, E_get_tenant)]),
      ([Lit ''api'', Lit ''v2'', Lit ''tenants'', Param ''tenant'', Lit ''databases''], [(GET, E_list_databases), (POST, E_create_database)]),
      ([Lit ''api'', Lit ''v2'', Lit ''tenants'', Param ''tenant'', Lit ''databases'', Param ''name''], [(GET, E_get_database)])] @ chroma_router"

definition internal_routes :: routes where
  "internal_routes =
     [([Lit ''internal'', Lit ''raft'', Lit ''append_entries''], [(POST, E_raft_append_entries)]),
      ([Lit ''internal'', Lit ''raft'', Lit ''vote''], [(POST, E_raft_vote)]),
      ([Lit ''internal'', Lit ''raft'', Lit ''install_snapshot''], [(POST, E_raft_install_snapshot)]),
      ([Lit ''internal'', Lit ''raft'', Lit ''membership''], [(GET, E_raft_membership)]),
      ([Lit ''internal'', Lit ''raft'', Lit ''add_learner''], [(POST, E_raft_add_learner)]),
      ([Lit ''internal'', Lit ''raft'', Lit ''remove_member''], [(POST, E_raft_remove_member)]),
      ([Lit ''internal'', Lit ''wal'', Param ''id'', Lit ''delta''], [(GET, E_wal_delta)]),
      ([Lit ''internal'', Lit ''wal'', Param ''id'', Lit ''status''], [(GET, E_wal_status)])]"

fun router_routes :: "router_kind \<Rightarrow> routes" where
  "router_routes Full_router = public_routes @ internal_routes"
| "router_routes Public_router = public_routes"
| "router_routes Internal_router = internal_routes @ [([Lit ''health''], [(GET, E_health)])]"

section \<open>Matching\<close>

text \<open>A parameter of a pattern matches one segment that is not empty.\<close>

fun segment_matches :: "segment_pattern \<Rightarrow> string \<Rightarrow> bool" where
  "segment_matches (Lit l) s = (l = s)"
| "segment_matches (Param _) s = (s \<noteq> [])"

definition route_matches :: "segment_pattern list \<Rightarrow> string \<Rightarrow> bool" where
  "route_matches pattern path =
     (case split_on (CHR ''/'') path of
        first # segs \<Rightarrow> first = [] \<and> list_all2 segment_matches pattern segs
      | [] \<Rightarrow> False)"

datatype routed = Routed endpoint | Method_not_allowed | No_route

definition dispatch :: "router_kind \<Rightarrow> http_method \<Rightarrow> string \<Rightarrow> routed" where
  "dispatch kind m path =
     (case List.find (\<lambda>(pattern, _). route_matches pattern (takeWhile (\<lambda>c. c \<noteq> CHR ''?'') path)) (router_routes kind) of
        None \<Rightarrow> No_route
      | Some (_, methods) \<Rightarrow> (case map_of methods m of Some e \<Rightarrow> Routed e | None \<Rightarrow> Method_not_allowed))"

text \<open>A segment as the identifiers and names of the repository have it.\<close>

definition plain_segment :: "string \<Rightarrow> bool" where
  "plain_segment s \<longleftrightarrow> s \<noteq> [] \<and> list_all (\<lambda>c. c \<notin> set ''/?#%.{'' \<and> \<not> is_space c) s"

section \<open>No path has two routes\<close>

fun may_overlap :: "segment_pattern list \<Rightarrow> segment_pattern list \<Rightarrow> bool" where
  "may_overlap [] [] = True"
| "may_overlap (Lit a # ps) (Lit b # qs) = (a = b \<and> may_overlap ps qs)"
| "may_overlap (p # ps) (q # qs) = may_overlap ps qs"
| "may_overlap _ _ = False"

lemma matches_overlap:
  "list_all2 segment_matches ps ss \<Longrightarrow> list_all2 segment_matches qs ss \<Longrightarrow> may_overlap ps qs"
  by (induction ps qs arbitrary: ss rule: may_overlap.induct) (auto simp: list_all2_Cons1)

fun patterns_apart :: "segment_pattern list list \<Rightarrow> bool" where
  "patterns_apart [] = True"
| "patterns_apart (p # ps) = (list_all (\<lambda>q. \<not> may_overlap p q) ps \<and> patterns_apart ps)"

lemma may_overlap_sym: "may_overlap p q = may_overlap q p"
  by (induction p q rule: may_overlap.induct) auto

lemma patterns_apartD:
  "patterns_apart (map fst rs) \<Longrightarrow> (p, ms) \<in> set rs \<Longrightarrow> (q, ns) \<in> set rs \<Longrightarrow> may_overlap p q \<Longrightarrow> p = q \<and> ms = ns"
  by (induction rs) (auto simp: list_all_iff may_overlap_sym)

lemma full_router_apart: "patterns_apart (map fst (router_routes Full_router))"
  by (simp add: public_routes_def internal_routes_def chroma_router_def)

lemma public_router_apart: "patterns_apart (map fst (router_routes Public_router))"
  by (simp add: public_routes_def chroma_router_def)

lemma internal_router_apart: "patterns_apart (map fst (router_routes Internal_router))"
  by (simp add: internal_routes_def)

lemma routers_apart: "patterns_apart (map fst (router_routes kind))"
  by (induction kind) (rule full_router_apart, rule public_router_apart, rule internal_router_apart)

lemma route_unique:
  assumes "(p, ms) \<in> set (router_routes kind)" "(q, ns) \<in> set (router_routes kind)"
    and "route_matches p path" "route_matches q path"
  shows "p = q \<and> ms = ns"
proof -
  have "may_overlap p q" using assms(3,4) matches_overlap unfolding route_matches_def by (auto split: list.splits)
  then show ?thesis by (rule patterns_apartD [OF routers_apart assms(1,2)])
qed

text \<open>So a request goes where its path and method say, wherever the route stands in the table.\<close>

lemma dispatch_route:
  assumes "(p, ms) \<in> set (router_routes kind)" "route_matches p (takeWhile (\<lambda>c. c \<noteq> CHR ''?'') path)"
    and "map_of ms m = Some e"
  shows "dispatch kind m path = Routed e"
proof (cases "List.find (\<lambda>(pattern, _). route_matches pattern (takeWhile (\<lambda>c. c \<noteq> CHR ''?'') path)) (router_routes kind)")
  case None
  then show ?thesis using assms(1,2) by (auto simp: find_None_iff)
next
  case (Some r)
  obtain q ns where r: "r = (q, ns)" by (cases r)
  have "(q, ns) \<in> set (router_routes kind)" "route_matches q (takeWhile (\<lambda>c. c \<noteq> CHR ''?'') path)"
    using Some r by (auto simp: find_Some_iff in_set_conv_nth)
  then have "ms = ns" using route_unique [OF assms(1) _ assms(2)] by blast
  then show ?thesis using Some r assms(3) by (simp add: dispatch_def)
qed

section \<open>The clients' paths\<close>

lemma plain_segment_chars:
  assumes "plain_segment s"
  shows "CHR ''/'' \<notin> set s" "CHR ''?'' \<notin> set s" "s \<noteq> []"
  using assms by (auto simp: plain_segment_def list_all_iff)

lemma split_seg [simp]:
  assumes "plain_segment s"
  shows "split_on (CHR ''/'') (s @ CHR ''/'' # b) = s # split_on (CHR ''/'') b" "split_on (CHR ''/'') s = [s]"
  using plain_segment_chars [OF assms] by (simp_all add: split_on_append split_on_no_sep)

lemma no_query [simp]:
  assumes "plain_segment s"
  shows "takeWhile (\<lambda>c. c \<noteq> CHR ''?'') (s @ b) = s @ takeWhile (\<lambda>c. c \<noteq> CHR ''?'') b"
    "takeWhile (\<lambda>c. c \<noteq> CHR ''?'') s = s"
proof -
  have "\<forall>c \<in> set s. c \<noteq> CHR ''?''" using plain_segment_chars [OF assms] by metis
  then show "takeWhile (\<lambda>c. c \<noteq> CHR ''?'') (s @ b) = s @ takeWhile (\<lambda>c. c \<noteq> CHR ''?'') b"
    "takeWhile (\<lambda>c. c \<noteq> CHR ''?'') s = s"
    by simp_all
qed

lemma route_member:
  assumes "(p, ms) \<in> set public_routes" "kind = Full_router \<or> kind = Public_router"
    and "split_on (CHR ''/'') (takeWhile (\<lambda>c. c \<noteq> CHR ''?'') path) = [] # segs"
    and "list_all2 segment_matches p segs" "map_of ms m = Some e"
  shows "dispatch kind m path = Routed e"
  using assms by (intro dispatch_route [of p ms]) (auto simp: route_matches_def)

text \<open>The entries of the table that the clients use.\<close>

lemma collection_members:
  shows "([Lit ''api'', Lit ''v2'', Lit ''collections'', Param ''id''], [(GET, E_get_collection), (DELETE, E_delete_collection)]) \<in> set public_routes"
    "([Lit ''api'', Lit ''v2'', Lit ''collections'', Param ''id'', Lit ''add''], [(POST, E_add_records)]) \<in> set public_routes"
    "([Lit ''api'', Lit ''v2'', Lit ''collections'', Param ''id'', Lit ''upsert''], [(POST, E_upsert_records)]) \<in> set public_routes"
    "([Lit ''api'', Lit ''v2'', Lit ''collections'', Param ''id'', Lit ''update''], [(POST, E_update_records)]) \<in> set public_routes"
    "([Lit ''api'', Lit ''v2'', Lit ''collections'', Param ''id'', Lit ''delete''], [(POST, E_delete_records)]) \<in> set public_routes"
    "([Lit ''api'', Lit ''v2'', Lit ''collections'', Param ''id'', Lit ''query''], [(POST, E_query_records)]) \<in> set public_routes"
    "([Lit ''api'', Lit ''v2'', Lit ''collections'', Param ''id'', Lit ''get''], [(POST, E_get_records)]) \<in> set public_routes"
    "([Lit ''api'', Lit ''v2'', Lit ''collections'', Param ''id'', Lit ''count''], [(POST, E_count_records)]) \<in> set public_routes"
  by (simp_all add: public_routes_def)

lemma chroma_members:
  shows "([Lit ''api'', Lit ''v2'', Lit ''tenants'', Param ''tenant'', Lit ''databases'', Param ''database'', Lit ''collections''], [(POST, E_create_collection_chroma), (GET, E_list_collections_chroma)]) \<in> set public_routes"
    "([Lit ''api'', Lit ''v2'', Lit ''tenants'', Param ''tenant'', Lit ''databases'', Param ''database'', Lit ''collections'', Param ''name''], [(GET, E_get_collection_chroma), (DELETE, E_delete_collection_chroma)]) \<in> set public_routes"
    "([Lit ''api'', Lit ''v2'', Lit ''tenants'', Param ''tenant'', Lit ''databases'', Param ''database'', Lit ''collections'', Param ''name'', Lit ''add''], [(POST, E_add_records_chroma)]) \<in> set public_routes"
    "([Lit ''api'', Lit ''v2'', Lit ''tenants'', Param ''tenant'', Lit ''databases'', Param ''database'', Lit ''collections'', Param ''name'', Lit ''query''], [(POST, E_query_records_chroma)]) \<in> set public_routes"
    "([Lit ''api'', Lit ''v2'', Lit ''tenants'', Param ''tenant'', Lit ''databases'', Param ''database'', Lit ''collections'', Param ''name'', Lit ''get''], [(POST, E_get_records_chroma)]) \<in> set public_routes"
    "([Lit ''api'', Lit ''v2'', Lit ''tenants'', Param ''tenant'', Lit ''databases'', Param ''database'', Lit ''collections'', Param ''name'', Lit ''delete''], [(POST, E_delete_records_chroma)]) \<in> set public_routes"
    "([Lit ''api'', Lit ''v2'', Lit ''tenants'', Param ''tenant'', Lit ''databases'', Param ''database'', Lit ''collections'', Param ''name'', Lit ''count''], [(GET, E_count_records_chroma)]) \<in> set public_routes"
  by (simp_all add: public_routes_def chroma_router_def)

lemma collection_paths:
  assumes "plain_segment cid" and k: "kind = Full_router \<or> kind = Public_router"
  shows "dispatch kind GET (coll_path cid) = Routed E_get_collection"
    "dispatch kind DELETE (coll_path cid) = Routed E_delete_collection"
    "dispatch kind POST (coll_path cid @ ''/add'') = Routed E_add_records"
    "dispatch kind POST (coll_path cid @ ''/upsert'') = Routed E_upsert_records"
    "dispatch kind POST (coll_path cid @ ''/update'') = Routed E_update_records"
    "dispatch kind POST (coll_path cid @ ''/delete'') = Routed E_delete_records"
    "dispatch kind POST (coll_path cid @ ''/query'') = Routed E_query_records"
    "dispatch kind POST (coll_path cid @ ''/get'') = Routed E_get_records"
    "dispatch kind POST (coll_path cid @ ''/count'') = Routed E_count_records"
proof -
  note m = collection_members and c = coll_path_def assms(1) plain_segment_chars(3) [OF assms(1)]
  show "dispatch kind GET (coll_path cid) = Routed E_get_collection"
    by (rule route_member [where p = "[Lit ''api'', Lit ''v2'', Lit ''collections'', Param ''id'']" and ms = "[(GET, E_get_collection), (DELETE, E_delete_collection)]"])
      (simp add: m k c)+
  show "dispatch kind DELETE (coll_path cid) = Routed E_delete_collection"
    by (rule route_member [where p = "[Lit ''api'', Lit ''v2'', Lit ''collections'', Param ''id'']" and ms = "[(GET, E_get_collection), (DELETE, E_delete_collection)]"])
      (simp add: m k c)+
  show "dispatch kind POST (coll_path cid @ ''/add'') = Routed E_add_records"
    by (rule route_member [where p = "[Lit ''api'', Lit ''v2'', Lit ''collections'', Param ''id'', Lit ''add'']" and ms = "[(POST, E_add_records)]"])
      (simp add: m k c)+
  show "dispatch kind POST (coll_path cid @ ''/upsert'') = Routed E_upsert_records"
    by (rule route_member [where p = "[Lit ''api'', Lit ''v2'', Lit ''collections'', Param ''id'', Lit ''upsert'']" and ms = "[(POST, E_upsert_records)]"])
      (simp add: m k c)+
  show "dispatch kind POST (coll_path cid @ ''/update'') = Routed E_update_records"
    by (rule route_member [where p = "[Lit ''api'', Lit ''v2'', Lit ''collections'', Param ''id'', Lit ''update'']" and ms = "[(POST, E_update_records)]"])
      (simp add: m k c)+
  show "dispatch kind POST (coll_path cid @ ''/delete'') = Routed E_delete_records"
    by (rule route_member [where p = "[Lit ''api'', Lit ''v2'', Lit ''collections'', Param ''id'', Lit ''delete'']" and ms = "[(POST, E_delete_records)]"])
      (simp add: m k c)+
  show "dispatch kind POST (coll_path cid @ ''/query'') = Routed E_query_records"
    by (rule route_member [where p = "[Lit ''api'', Lit ''v2'', Lit ''collections'', Param ''id'', Lit ''query'']" and ms = "[(POST, E_query_records)]"])
      (simp add: m k c)+
  show "dispatch kind POST (coll_path cid @ ''/get'') = Routed E_get_records"
    by (rule route_member [where p = "[Lit ''api'', Lit ''v2'', Lit ''collections'', Param ''id'', Lit ''get'']" and ms = "[(POST, E_get_records)]"])
      (simp add: m k c)+
  show "dispatch kind POST (coll_path cid @ ''/count'') = Routed E_count_records"
    by (rule route_member [where p = "[Lit ''api'', Lit ''v2'', Lit ''collections'', Param ''id'', Lit ''count'']" and ms = "[(POST, E_count_records)]"])
      (simp add: m k c)+
qed

lemma chroma_paths:
  assumes p: "plain_segment t" "plain_segment d" "plain_segment c" and k: "kind = Full_router \<or> kind = Public_router"
  shows "dispatch kind GET (collections_path t d) = Routed E_list_collections_chroma"
    "dispatch kind POST (collections_path t d) = Routed E_create_collection_chroma"
    "dispatch kind DELETE (collections_path t d @ ''/'' @ c) = Routed E_delete_collection_chroma"
    "dispatch kind POST (collections_path t d @ ''/'' @ c @ ''/add'') = Routed E_add_records_chroma"
    "dispatch kind POST (collections_path t d @ ''/'' @ c @ ''/query'') = Routed E_query_records_chroma"
    "dispatch kind POST (collections_path t d @ ''/'' @ c @ ''/get'') = Routed E_get_records_chroma"
    "dispatch kind POST (collections_path t d @ ''/'' @ c @ ''/delete'') = Routed E_delete_records_chroma"
    "dispatch kind GET (collections_path t d @ ''/'' @ c @ ''/count'') = Routed E_count_records_chroma"
proof -
  note c = collections_path_def p plain_segment_chars(3) [OF p(1)] plain_segment_chars(3) [OF p(2)] plain_segment_chars(3) [OF p(3)]
  show "dispatch kind GET (collections_path t d) = Routed E_list_collections_chroma"
    by (rule route_member [where p = "[Lit ''api'', Lit ''v2'', Lit ''tenants'', Param ''tenant'', Lit ''databases'', Param ''database'', Lit ''collections'']" and ms = "[(POST, E_create_collection_chroma), (GET, E_list_collections_chroma)]"])
      (simp add: chroma_members k c)+
  show "dispatch kind POST (collections_path t d) = Routed E_create_collection_chroma"
    by (rule route_member [where p = "[Lit ''api'', Lit ''v2'', Lit ''tenants'', Param ''tenant'', Lit ''databases'', Param ''database'', Lit ''collections'']" and ms = "[(POST, E_create_collection_chroma), (GET, E_list_collections_chroma)]"])
      (simp add: chroma_members k c)+
  show "dispatch kind DELETE (collections_path t d @ ''/'' @ c) = Routed E_delete_collection_chroma"
    by (rule route_member [where p = "[Lit ''api'', Lit ''v2'', Lit ''tenants'', Param ''tenant'', Lit ''databases'', Param ''database'', Lit ''collections'', Param ''name'']" and ms = "[(GET, E_get_collection_chroma), (DELETE, E_delete_collection_chroma)]"])
      (simp add: chroma_members k c)+
  show "dispatch kind POST (collections_path t d @ ''/'' @ c @ ''/add'') = Routed E_add_records_chroma"
    by (rule route_member [where p = "[Lit ''api'', Lit ''v2'', Lit ''tenants'', Param ''tenant'', Lit ''databases'', Param ''database'', Lit ''collections'', Param ''name'', Lit ''add'']" and ms = "[(POST, E_add_records_chroma)]"])
      (simp add: chroma_members k c)+
  show "dispatch kind POST (collections_path t d @ ''/'' @ c @ ''/query'') = Routed E_query_records_chroma"
    by (rule route_member [where p = "[Lit ''api'', Lit ''v2'', Lit ''tenants'', Param ''tenant'', Lit ''databases'', Param ''database'', Lit ''collections'', Param ''name'', Lit ''query'']" and ms = "[(POST, E_query_records_chroma)]"])
      (simp add: chroma_members k c)+
  show "dispatch kind POST (collections_path t d @ ''/'' @ c @ ''/get'') = Routed E_get_records_chroma"
    by (rule route_member [where p = "[Lit ''api'', Lit ''v2'', Lit ''tenants'', Param ''tenant'', Lit ''databases'', Param ''database'', Lit ''collections'', Param ''name'', Lit ''get'']" and ms = "[(POST, E_get_records_chroma)]"])
      (simp add: chroma_members k c)+
  show "dispatch kind POST (collections_path t d @ ''/'' @ c @ ''/delete'') = Routed E_delete_records_chroma"
    by (rule route_member [where p = "[Lit ''api'', Lit ''v2'', Lit ''tenants'', Param ''tenant'', Lit ''databases'', Param ''database'', Lit ''collections'', Param ''name'', Lit ''delete'']" and ms = "[(POST, E_delete_records_chroma)]"])
      (simp add: chroma_members k c)+
  show "dispatch kind GET (collections_path t d @ ''/'' @ c @ ''/count'') = Routed E_count_records_chroma"
    by (rule route_member [where p = "[Lit ''api'', Lit ''v2'', Lit ''tenants'', Param ''tenant'', Lit ''databases'', Param ''database'', Lit ''collections'', Param ''name'', Lit ''count'']" and ms = "[(GET, E_count_records_chroma)]"])
      (simp add: chroma_members k c)+
qed

section \<open>Where the clients' requests go\<close>

text \<open>The handler each command means, and the texts it puts into its path.\<close>

fun meant_endpoint :: "cli_command \<Rightarrow> endpoint option" where
  "meant_endpoint (Serve _) = None"
| "meant_endpoint (Collection a) =
     Some (case a of Coll_create _ _ _ \<Rightarrow> E_create_collection | Coll_list \<Rightarrow> E_list_collections
       | Coll_get _ \<Rightarrow> E_get_collection | Coll_delete _ \<Rightarrow> E_delete_collection)"
| "meant_endpoint (Membership a) =
     Some (case a of Member_list \<Rightarrow> E_raft_membership | Member_add _ _ \<Rightarrow> E_raft_add_learner | Member_remove _ \<Rightarrow> E_raft_remove_member)"
| "meant_endpoint (Add_file _ _) = Some E_add_records"
| "meant_endpoint (Upsert_file _ _) = Some E_upsert_records"
| "meant_endpoint (Update_file _ _) = Some E_update_records"
| "meant_endpoint (Delete_file _ _) = Some E_delete_records"
| "meant_endpoint (Query_file _ _) = Some E_query_records"
| "meant_endpoint (Get_file _ _) = Some E_get_records"
| "meant_endpoint (Count_coll _) = Some E_count_records"

fun named_collection :: "cli_command \<Rightarrow> string option" where
  "named_collection (Collection (Coll_get cid)) = Some cid"
| "named_collection (Collection (Coll_delete cid)) = Some cid"
| "named_collection (Add_file cid _) = Some cid"
| "named_collection (Upsert_file cid _) = Some cid"
| "named_collection (Update_file cid _) = Some cid"
| "named_collection (Delete_file cid _) = Some cid"
| "named_collection (Query_file cid _) = Some cid"
| "named_collection (Get_file cid _) = Some cid"
| "named_collection (Count_coll cid) = Some cid"
| "named_collection _ = None"

definition goes_to :: "router_kind \<Rightarrow> string \<Rightarrow> http_method \<Rightarrow> string \<Rightarrow> endpoint \<Rightarrow> bool" where
  "goes_to kind base m url e = (starts_with base url \<and> dispatch kind m (drop (length base) url) = Routed e)"

lemma goes_to_append [simp]: "goes_to kind base m (base @ path) e \<longleftrightarrow> dispatch kind m path = Routed e"
  by (simp add: goes_to_def starts_with_iff)

lemma fixed_paths:
  "dispatch Full_router POST ''/api/v2/collections'' = Routed E_create_collection"
  "dispatch Full_router GET ''/api/v2/collections'' = Routed E_list_collections"
  "dispatch Full_router GET ''/internal/raft/membership'' = Routed E_raft_membership"
  "dispatch Full_router POST ''/internal/raft/add_learner'' = Routed E_raft_add_learner"
  "dispatch Full_router POST ''/internal/raft/remove_member'' = Routed E_raft_remove_member"
  "dispatch Full_router GET ''/api/v2/heartbeat'' = Routed E_heartbeat"
  by (simp_all add: dispatch_def route_matches_def public_routes_def internal_routes_def chroma_router_def)

lemma command_goes:
  assumes "command_request C cmd = Some (Inr req)" "pred_option plain_segment (named_collection cmd)"
  shows "\<exists>e. meant_endpoint cmd = Some e \<and> goes_to Full_router (ci_url C) (cq_method req) (cq_url req) e"
proof (cases cmd)
  case (Collection a)
  then show ?thesis using assms collection_paths [where kind = Full_router] by (cases a) (auto simp: fixed_paths)
next
  case (Membership a)
  then show ?thesis using assms by (cases a) (auto simp: fixed_paths)
qed (use assms collection_paths [where kind = Full_router] in \<open>auto simp: file_request_def split: sum.splits\<close>)

text \<open>
  C39: Every command of the command line other than the server itself sends a request that the router serving
  all routes hands to the handler the command means.
\<close>

theorem cli_requests_routed:
  assumes "command_request C cmd = Some (Inr req)" and "pred_option plain_segment (named_collection cmd)"
  shows "\<exists>e. meant_endpoint cmd = Some e \<and> goes_to Full_router (ci_url C) (cq_method req) (cq_url req) e"
  by (rule command_goes [OF assms])

definition demo_cli :: "f64 cli_env" where
  "demo_cli =
     \<lparr>ci_url = ''http://localhost:8000'', ci_read_file = (\<lambda>f. if f = ''ids.json'' then Inr ''null'' else Inl ''No such file''),
      ci_parse_json = (\<lambda>s. if s = ''null'' then Inr JNull else Inl ''expected value''), ci_pretty = (\<lambda>_. ''null''),
      ci_unsigned = (\<lambda>n. JNumber (of_nat n)), ci_status = nat_to_string\<rparr>"

lemma cli_requests_routed_witness:
  "\<exists>e. meant_endpoint (Delete_file ''c1'' ''ids.json'') = Some e \<and>
     goes_to Full_router ''http://localhost:8000'' POST ''http://localhost:8000/api/v2/collections/c1/delete'' e"
proof -
  have "command_request demo_cli (Delete_file ''c1'' ''ids.json'') =
      Some (Inr \<lparr>cq_method = POST, cq_url = ''http://localhost:8000/api/v2/collections/c1/delete'', cq_body = Some JNull\<rparr>)"
    by (simp add: file_request_def demo_cli_def coll_path_def)
  moreover have "plain_segment ''c1''" by code_simp
  then have "pred_option plain_segment (named_collection (Delete_file ''c1'' ''ids.json''))" by simp
  ultimately show ?thesis using cli_requests_routed [of demo_cli "Delete_file ''c1'' ''ids.json''"] by (force simp: demo_cli_def)
qed

text \<open>What a call of the interactive client sends, recorded by a server that refuses every request.\<close>

definition recorder :: "('n, 'n client_request list) server" where
  "recorder req s = (s @ [req], Inl ''refused'')"

definition sent :: "('n client_request list \<Rightarrow> 'n client_request list \<times> 'a) \<Rightarrow> 'n client_request list" where
  "sent call = fst (call [])"

definition sends_to :: "rekha_client \<Rightarrow> ('n client_request list \<Rightarrow> 'n client_request list \<times> 'a) \<Rightarrow> endpoint \<Rightarrow> bool" where
  "sends_to c call e = (case sent call of [req] \<Rightarrow> goes_to Full_router (cl_url c) (rq_method req) (rq_url req) e | _ \<Rightarrow> False)"

lemma send_json_sends:
  "sends_to c (send_json V recorder c m path body decode) e \<longleftrightarrow> dispatch Full_router m path = Routed e"
  by (simp add: sends_to_def sent_def send_json_def recorder_def)

lemma send_status_sends:
  "sends_to c (send_status V recorder c m path body failure) e \<longleftrightarrow> dispatch Full_router m path = Routed e"
  by (simp add: sends_to_def sent_def send_status_def recorder_def)

text \<open>
  Every call of the interactive client sends one request, and the router hands it to the handler of the
  Chroma interface that the call means.
\<close>

theorem repl_requests_routed:
  assumes "plain_segment t" and "plain_segment d" and "plain_segment n"
  shows "sends_to c (client_heartbeat V recorder c) E_heartbeat \<and>
    sends_to c (client_list_collections V recorder c t d) E_list_collections_chroma \<and>
    sends_to c (client_create_collection V recorder c t d name) E_create_collection_chroma \<and>
    sends_to c (client_add_records V recorder c t d n ra) E_add_records_chroma \<and>
    sends_to c (client_query_records V recorder c t d n rq) E_query_records_chroma \<and>
    sends_to c (client_get_records V recorder c t d n rg) E_get_records_chroma \<and>
    sends_to c (client_count V recorder c t d n) E_count_records_chroma \<and>
    sends_to c (client_delete_records V recorder c t d n ids) E_delete_records_chroma \<and>
    sends_to c (client_delete_collection V recorder c t d n) E_delete_collection_chroma"
  unfolding client_heartbeat_def client_list_collections_def client_create_collection_def client_add_records_def
    client_query_records_def client_get_records_def client_count_def client_delete_records_def
    client_delete_collection_def send_json_sends send_status_sends
  by (intro conjI fixed_paths chroma_paths [OF assms]) simp_all

lemma repl_requests_routed_witness:
  "sends_to \<lparr>cl_url = ''http://localhost:8000'', cl_api_key = None\<rparr>
     (client_count (undefined :: f64 client_env) recorder \<lparr>cl_url = ''http://localhost:8000'', cl_api_key = None\<rparr>
        ''default_tenant'' ''default_database'' ''docs'') E_count_records_chroma"
proof -
  have "plain_segment ''default_tenant''" "plain_segment ''default_database''" "plain_segment ''docs''" by code_simp+
  from repl_requests_routed [OF this] show ?thesis by blast
qed

text \<open>The calls between the nodes: the path of a snapshot has the prefix twice and is no route.\<close>

lemma cluster_calls_routed:
  "goes_to Internal_router (''http://'' @ addr) POST (rpc_url addr ''append_entries'') E_raft_append_entries"
  "goes_to Internal_router (''http://'' @ addr) POST (rpc_url addr ''vote'') E_raft_vote"
  "dispatch Internal_router POST (drop (length (''http://'' @ addr)) (rpc_url addr ''raft/install_snapshot'')) = No_route"
  using goes_to_append [of Internal_router "''http://'' @ addr"]
  by (simp_all add: rpc_url_def dispatch_def route_matches_def internal_routes_def)

end
