(* ===== verification/Server.thy ===== *)
theory Server
  imports Api_Semantics Routing
begin

text \<open>
  A running node: what \<^verbatim>\<open>serve\<close> of \<^verbatim>\<open>crates/rekha-cli/src/main.rs\<close> and \<^verbatim>\<open>crates/rekha-api/src/main.rs\<close> build
  before they listen, and what the layers around a router do with a request. The consensus library is
  started by a parameter; the catalog and the directories have been opened and created.
\<close>

section \<open>Starting\<close>

record ('b, 'g, 'r) node =
  nd_state :: "('b, 'g, 'r) app_state"
  nd_listeners :: "(string \<times> router_kind \<times> bool) list"
  nd_members :: "u64 set"
  nd_follows :: "string option"

definition serve_state :: "('b, 'g) engine \<Rightarrow> 'r option \<Rightarrow> string option \<Rightarrow> ('b, 'g, 'r) app_state" where
  "serve_state e raft api_key =
     \<lparr>ap_engine = e, ap_tenant = ''default_tenant'', ap_database = ''default_database'', ap_raft = raft, ap_api_key = api_key\<rparr>"

text \<open>An engine that does not open ends the process with its error; a consensus library that does not start panics.\<close>

definition serve_start ::
  "('b, 'g) engine_env \<Rightarrow> (u64 \<Rightarrow> (u64 \<times> string) list \<Rightarrow> 'r option) \<Rightarrow> redb_catalog \<Rightarrow> store_fs \<Rightarrow> nat \<Rightarrow> (uuid \<times> bytes) list \<Rightarrow>
     (uuid \<times> ckpt_dir) list \<Rightarrow> string option \<Rightarrow> serve_args \<Rightarrow> (engine_error + ('b, 'g, 'r) node) run" where
  "serve_start E start_raft cat store pid wals dirs api_key a =
     run_bind (engine_open E cat store pid engine_config_default wals dirs) (\<lambda>opened.
       case opened of
         Inl err \<Rightarrow> Returns (Inl err)
       | Inr e \<Rightarrow>
           (case start_raft (sv_node_id a) (peer_map (sv_node_id a) (sv_peers a)) of
              None \<Rightarrow> Panics
            | Some raft \<Rightarrow>
                Returns (Inr \<lparr>nd_state = serve_state e (Some raft) api_key, nd_listeners = listeners a,
                  nd_members = raft_members (sv_node_id a) (sv_peers a), nd_follows = follows (sv_node_id a) (sv_peers a)\<rparr>)))"

text \<open>The API server on its own: no cluster, one listener, and every failure panics.\<close>

definition standalone_start ::
  "('b, 'g) engine_env \<Rightarrow> redb_catalog \<Rightarrow> store_fs \<Rightarrow> nat \<Rightarrow> (uuid \<times> bytes) list \<Rightarrow> (uuid \<times> ckpt_dir) list \<Rightarrow>
     string option \<Rightarrow> string option \<Rightarrow> string option \<Rightarrow> (string \<times> ('b, 'g, 'r) app_state) run" where
  "standalone_start E cat store pid wals dirs host port api_key =
     run_bind (engine_open E cat store pid engine_config_default wals dirs) (\<lambda>opened.
       case opened of
         Inl err \<Rightarrow> Panics
       | Inr e \<Rightarrow>
           Returns ((case host of Some h \<Rightarrow> h | None \<Rightarrow> ''0.0.0.0'') @ '':'' @ (case port of Some p \<Rightarrow> p | None \<Rightarrow> ''8000''),
             serve_state e None api_key))"

text \<open>
  A node starts with an empty cluster state and keeps its snapshots in memory only: of what the log held
  before a purge, nothing is left after a restart.
\<close>

lemma purged_entries_lost_on_restart:
  assumes "raft_codec_laws K" "commands_ok (\<lambda>e. enc_entry K e \<noteq> None) (cs @ [Cmd_purge l]) ([], None)"
  shows "\<exists>r. run_commands (redb_append K) redb_truncate (redb_purge K) (cs @ [Cmd_purge l]) (redb_open K redb_empty) = (r, Inr ()) \<and>
    list_all (\<lambda>e. li_index l < entry_index e) (read_log_entries K (rl_db (redb_open K (rl_db r))) lo hi) \<and>
    cs_last_applied (sm_new m0) = None \<and> cs_nodes (sm_new m0) = []"
proof -
  have start: "log_gapless ([], None)" by (simp add: log_gapless_def)
  obtain r es p where r: "run_commands (redb_append K) redb_truncate (redb_purge K) (cs @ [Cmd_purge l]) (redb_open K redb_empty) = (r, Inr ())"
    "fold log_effect (cs @ [Cmd_purge l]) ([], None) = (es, p)" "redb_repr K r es p"
    using redb.run_repr [OF redb_new_repr [OF assms(1)] start assms(2)] by blast
  obtain es0 p0 where "fold log_effect cs ([], None) = (es0, p0)" by fastforce
  then have "es = filter (\<lambda>e. li_index l < entry_index e) es0" using r(2) by simp
  then have "list_all (\<lambda>e. li_index l < entry_index e) (read_log_entries K (rl_db r) lo hi)"
    using redb.get_repr [OF r(3), of lo hi] by (simp add: list_all_iff)
  then show ?thesis using r(1) by (simp add: redb_open_def sm_new_def)
qed

section \<open>Requests\<close>

record http_request =
  hr_method :: http_method
  hr_path :: string
  hr_headers :: "(string \<times> string option) list"
  hr_length :: nat

definition BODY_LIMIT :: nat where
  "BODY_LIMIT = 32 * 1024 * 1024"

datatype reply = Refused nat | Handled endpoint

text \<open>
  The layers from the outside in: the limit on the announced length of the body, the authentication, which
  also stands before the replies to unknown paths and methods, and the route. A request is \<open>Handled\<close> when
  its handler is called; what the extractors of the handler refuse is past this point.
\<close>

definition respond :: "router_kind \<Rightarrow> ('b, 'g, 'r) app_state \<Rightarrow> http_request \<Rightarrow> reply" where
  "respond kind s q =
     (if BODY_LIMIT < hr_length q then Refused 413
      else case auth (hr_headers q) (Some s) (\<lambda>_. dispatch kind (hr_method q) (hr_path q)) of
        Inl status \<Rightarrow> Refused status
      | Inr (Routed e) \<Rightarrow> Handled e
      | Inr Method_not_allowed \<Rightarrow> Refused 405
      | Inr No_route \<Rightarrow> Refused 404)"

section \<open>Which requests reach which handler\<close>

definition endpoints_of :: "routes \<Rightarrow> endpoint list" where
  "endpoints_of rs = concat (map (map snd \<circ> snd) rs)"

lemma dispatch_endpoint:
  assumes "dispatch kind m path = Routed e"
  shows "e \<in> set (endpoints_of (router_routes kind))"
proof -
  let ?find = "List.find (\<lambda>(pattern, _). route_matches pattern (takeWhile (\<lambda>c. c \<noteq> CHR ''?'') path)) (router_routes kind)"
  obtain p ms where f: "?find = Some (p, ms)" "map_of ms m = Some e"
    using assms by (auto simp: dispatch_def split: option.splits)
  have "(p, ms) \<in> set (router_routes kind)" using f(1) by (auto simp: find_Some_iff in_set_conv_nth)
  moreover have "(m, e) \<in> set ms" using f(2) by (rule map_of_SomeD)
  ultimately show ?thesis unfolding endpoints_of_def by force
qed

lemma respond_handled:
  assumes "respond kind s q = Handled e"
  shows "dispatch kind (hr_method q) (hr_path q) = Routed e" "authorized (ap_api_key s) (hr_headers q)" "hr_length q \<le> BODY_LIMIT"
  using assms by (auto simp: respond_def auth_def split: if_splits routed.splits)

lemma public_not_internal: "e \<in> set (endpoints_of public_routes) \<Longrightarrow> e \<notin> set (endpoints_of internal_routes)"
  by (auto simp: endpoints_of_def public_routes_def internal_routes_def chroma_router_def)

text \<open>
  C37: With an internal port the cluster's endpoints are isolated: no request on the public address reaches one
  of them, and nothing but them and the health check is reached on the internal address. On any listener a
  node with a key handles only requests that carry it, and none announces a body above the limit. The health
  check is no exception, although it is documented to answer 200 always: see the lemma
  health_check_needs_key.
\<close>

theorem listeners_isolated:
  assumes "sv_internal_port a \<noteq> None" and "(addr, kind, tls) \<in> set (listeners a)" and "respond kind s q = Handled e"
  shows "(kind = Public_router \<and> e \<notin> set (endpoints_of internal_routes) \<or>
      kind = Internal_router \<and> e \<in> set (E_health # endpoints_of internal_routes)) \<and>
    (ap_api_key s = None \<or> provided_token (hr_headers q) = ap_api_key s) \<and> hr_length q \<le> BODY_LIMIT"
proof -
  note h = respond_handled [OF assms(3)]
  have "kind = Public_router \<or> kind = Internal_router" using assms(1,2) by (auto simp: listeners_def)
  moreover have "e \<notin> set (endpoints_of internal_routes)" if "kind = Public_router"
    using public_not_internal dispatch_endpoint [OF h(1)] that by simp
  moreover have "e \<in> set (E_health # endpoints_of internal_routes)" if "kind = Internal_router"
    using dispatch_endpoint [OF h(1)] that by (auto simp: endpoints_of_def)
  moreover have "ap_api_key s = None \<or> provided_token (hr_headers q) = ap_api_key s"
    using h(2) by (auto simp: authorized_def split: option.splits)
  ultimately show ?thesis using h(3) by blast
qed

text \<open>A health check without the key, as \<^verbatim>\<open>docker-compose.cluster.yml\<close> makes it, is refused by a node with a key.\<close>

lemma health_check_needs_key:
  assumes "ap_api_key s = Some key" "provided_token (hr_headers q) = None"
  shows "dispatch kind GET ''/health'' = Routed E_health \<and>
    (hr_length q \<le> BODY_LIMIT \<longrightarrow> respond kind s (q\<lparr>hr_method := GET, hr_path := ''/health''\<rparr>) = Refused 401)"
  using assms
  by (cases kind) (simp_all add: dispatch_def route_matches_def internal_routes_def public_routes_def respond_def auth_def authorized_def)

definition demo_serve :: serve_args where
  "demo_serve =
     \<lparr>sv_data_dir = ''rekha-data'', sv_host = ''0.0.0.0'', sv_port = 8000, sv_internal_host = Some ''10.0.0.1'',
      sv_internal_port = Some 9000, sv_node_id = 2, sv_peers = ''h1:9000,h2:9000'', sv_tls_cert = None, sv_tls_key = None\<rparr>"

lemma listeners_isolated_witness:
  "respond Internal_router (demo_app\<lparr>ap_api_key := Some ''k''\<rparr>)
     \<lparr>hr_method = POST, hr_path = ''/internal/raft/vote'', hr_headers = [(''x-api-key'', Some ''k'')], hr_length = 10\<rparr> = Handled E_raft_vote \<and>
   E_raft_vote \<in> set (E_health # endpoints_of internal_routes)"
proof -
  have d: "dispatch Internal_router POST ''/internal/raft/vote'' = Routed E_raft_vote"
    by (simp add: dispatch_def route_matches_def internal_routes_def)
  have "authorized (Some ''k'') [(''x-api-key'', Some ''k'')]" by (simp add: authorized_def provided_token_def)
  then have r: "respond Internal_router (demo_app\<lparr>ap_api_key := Some ''k''\<rparr>)
     \<lparr>hr_method = POST, hr_path = ''/internal/raft/vote'', hr_headers = [(''x-api-key'', Some ''k'')], hr_length = 10\<rparr> = Handled E_raft_vote"
    using d by (simp add: respond_def auth_def BODY_LIMIT_def)
  have "sv_internal_port demo_serve \<noteq> None" "(''10.0.0.1:'' @ nat_to_string 9000, Internal_router, False) \<in> set (listeners demo_serve)"
    by (simp_all add: demo_serve_def listeners_def tls_on_def)
  from listeners_isolated [OF this r] r show ?thesis by blast
qed

section \<open>Acknowledged writes\<close>

text \<open>
  C1: What was acknowledged over HTTP is served after a restart. A node whose collections are the replays of
  their logs answers a valid add request with 200; a node started from the catalog, the object store and the
  log files it leaves opens, and a get there of any id of the request is answered with its vector, its
  metadata and its document.
\<close>

theorem acknowledged_add_survives_restart:
  assumes "engine_logged E M (ap_engine s)" and "M u = Some rec" and "validate_add_request r = Inr ()"
    and "map_of (en_colls (ap_engine s)) u = Some sl" and "\<not> sl_poisoned sl" and "coll_inv E (sl_coll sl)"
    and "log_repr (env_codec E) (co_wal (sl_coll sl)) rs"
    and "validate_add (ar_ids r) (ar_embeddings r) (ar_metadatas r) (ar_documents r) (sl_coll sl) = Inr ()"
    and "cc_dimension (co_config (sl_coll sl)) \<noteq> 0"
    and "batch_ok E (map (add_at (ar_embeddings r) (ar_metadatas r) (ar_documents r)) (List.enumerate 0 (ar_ids r))) (sl_coll sl)"
    and "room_for (length (ar_ids r)) (sl_coll sl)" and "dims_ok (sl_coll sl)"
    and "cc_dimension (cr_config rec) = cc_dimension (co_config (sl_coll sl))"
    and "length rs + length (ar_ids r) < 2 ^ 32"
    and "start_raft (sv_node_id a) (peer_map (sv_node_id a) (sv_peers a)) = Some raft" and "n < length (ar_ids r)"
  shows "\<exists>s' node. add_records E u r s = (s', Returns (Inr 200)) \<and>
    serve_start E start_raft (en_catalog (ap_engine s')) (en_storage (ap_engine s')) pid (en_wals (ap_engine s'))
      (en_dirs (ap_engine s')) api_key a = Returns (Inr node) \<and>
    snd (get_records u \<lparr>gr_ids = Some [ar_ids r ! n], gr_where_filter = None, gr_include = [''embeddings'']\<rparr> (nd_state node)) =
      Returns (Inr \<lparr>grs_ids = [ar_ids r ! n], grs_embeddings = Some [ar_embeddings r ! n],
        grs_metadatas = Some [item_of (ar_metadatas r) n], grs_documents = Some [item_of (ar_documents r) n]\<rparr>)"
proof -
  obtain e1 s1 q where e1: "engine_add E u (ar_ids r) (ar_embeddings r) (ar_metadatas r) (ar_documents r) (ap_engine s) = (e1, Returns (Inr ()))"
    "engine_logged E M e1" "map_of (en_colls e1) u = Some s1"
    and row: "map_of (co_records (sl_coll s1)) (ar_ids r ! n) = Some \<lparr>lr_id = ar_ids r ! n, lr_embedding = Some (ar_embeddings r ! n),
      lr_metadata = item_of (ar_metadatas r) n, lr_document = item_of (ar_documents r) n, lr_seq = q\<rparr>"
    by (rule engine_add_logged [OF assms(1,2,4-14)]) (use assms(16) in blast)
  have add: "add_records E u r s = (s\<lparr>ap_engine := e1\<rparr>, Returns (Inr 200))"
    using assms(3) e1(1) by (simp add: add_records_def h_simps engine_do_def)
  obtain e2 where e2: "engine_open E (en_catalog e1) (en_storage e1) pid engine_config_default (en_wals e1) (en_dirs e1) = Returns (Inr e2)"
    "dom (map_of (en_colls e2)) = dom (map_of (en_colls e1))"
    and same: "\<And>u s s'. map_of (en_colls e1) u = Some s \<Longrightarrow> map_of (en_colls e2) u = Some s' \<Longrightarrow>
       map_of (co_records (sl_coll s')) = map_of (co_records (sl_coll s)) \<and> \<not> sl_poisoned s' \<and> co_segment_index (sl_coll s') = []"
    using engine_reopens [OF e1(2), of pid engine_config_default] by blast
  have "u \<in> dom (map_of (en_colls e2))" unfolding e2(2) using e1(3) by blast
  then obtain s2 where s2: "map_of (en_colls e2) u = Some s2" by blast
  let ?node = "\<lparr>nd_state = serve_state e2 (Some raft) api_key, nd_listeners = listeners a,
      nd_members = raft_members (sv_node_id a) (sv_peers a), nd_follows = follows (sv_node_id a) (sv_peers a)\<rparr>"
  have start: "serve_start E start_raft (en_catalog e1) (en_storage e1) pid (en_wals e1) (en_dirs e1) api_key a = Returns (Inr ?node)"
    using e2(1) assms(15) by (simp add: serve_start_def)
  have "snd (engine_get u [ar_ids r ! n] (ap_engine (nd_state ?node))) = Returns (Inr [Some \<lparr>lr_id = ar_ids r ! n,
      lr_embedding = Some (ar_embeddings r ! n), lr_metadata = item_of (ar_metadatas r) n, lr_document = item_of (ar_documents r) n, lr_seq = q\<rparr>])"
    using engine_get_row [OF s2] same [OF e1(3) s2] row by (simp add: serve_state_def)
  from get_records_row [OF this] show ?thesis using add start
    by (intro exI [of _ "s\<lparr>ap_engine := e1\<rparr>"] exI [of _ ?node]) simp
qed

text \<open>The witness: a node with one empty collection.\<close>

lemma acknowledged_add_survives_restart_witness:
  "\<exists>cat s' node. add_records demo_env 7 demo_add_request (demo_app\<lparr>ap_engine := demo_engine cat\<rparr>) = (s', Returns (Inr 200)) \<and>
    serve_start demo_env (\<lambda>_ _. Some ()) (en_catalog (ap_engine s')) (en_storage (ap_engine s')) 1 (en_wals (ap_engine s'))
      (en_dirs (ap_engine s')) None demo_serve = Returns (Inr node) \<and>
    snd (get_records 7 \<lparr>gr_ids = Some [''a''], gr_where_filter = None, gr_include = [''embeddings'']\<rparr> (nd_state node)) =
      Returns (Inr \<lparr>grs_ids = [''a''], grs_embeddings = Some [[7]], grs_metadatas = Some [Some [(''k'', IntV 1)]], grs_documents = Some [None]\<rparr>)"
proof -
  obtain cat where "catalog_create demo_cat_codec demo_config ensure_tables = Inr (cat, demo_record 0)" using demo_create by blast
  note cat = demo_catalog [OF this]
  let ?s = "demo_app\<lparr>ap_engine := demo_engine cat\<rparr>" and ?sl = "\<lparr>sl_coll = demo_coll, sl_poisoned = False\<rparr>"
  have rec: "cr_config (demo_record 0) = demo_config" by (simp add: demo_record_def)
  have "logged demo_env demo_config demo_coll" unfolding logged_def
    by (intro conjI exI [of _ "[]"]) (use demo_coll_log in \<open>simp_all add: ops_ok_def demo_coll_parts with_hnsw_def list_ann_def\<close>)
  then have EL: "engine_logged demo_env [7 \<mapsto> demo_record 0] (ap_engine ?s)"
    using cat rec demo_engine_synced [of cat]
    by (simp add: engine_logged_def set_bitmap_laws ordered_f64_laws list_ann_laws list_ann_reserves demo_engine_def ckpt_dir_of_def)
  have r: "ar_ids demo_add_request = [''a'']" "ar_embeddings demo_add_request = [[7]]"
    "ar_metadatas demo_add_request = Some [Some [(''k'', IntV 1)]]" "ar_documents demo_add_request = None"
    by (simp_all add: demo_add_request_def)
  have sl: "map_of (en_colls (ap_engine ?s)) 7 = Some ?sl" using demo_engine_slot(1) [of cat] by simp
  have valid: "validate_add_request demo_add_request = Inr ()"
    by (simp add: validate_add_request_def r validate_ids_def validate_embeddings_def ids_embeddings_len_def check_len_def
        MAX_BATCH_SIZE_def MAX_ID_LENGTH_def MAX_DIMENSION_def)
  have M: "[7 \<mapsto> demo_record 0] 7 = Some (demo_record 0)" by simp
  have dim: "cc_dimension (cr_config (demo_record 0)) = cc_dimension (co_config demo_coll)"
    by (simp add: rec demo_coll_parts demo_config_fields demo_config_def collection_config_new_def)
  have coll: "sl_coll ?sl = demo_coll" by simp
  from acknowledged_add_survives_restart [OF EL M valid sl, unfolded coll r, OF demo_add_facts(1-7,9) dim,
      of "\<lambda>_ _. Some ()" demo_serve "()" 0 1 None]
  show ?thesis by (intro exI [of _ cat]) (auto simp: item_of_def)
qed

end
