(* ===== verification/Spec2Isabelle.thy ===== *)
theory Spec2Isabelle
  imports Where_Filter Postings_Semantics Wal_Log Segment Distance_Kernels Vector_Index Catalog Local_Storage
    Collection_Query Checkpoint_Recovery Replication Api_Semantics Repl_Semantics Routing Server
begin

text \<open>
  A verification development for RekhaDB, a vector database with a Chroma-compatible HTTP interface
  written in Rust (the crates under \<^verbatim>\<open>src/crates\<close>).

  \<^bold>\<open>The program and its theories.\<close> A \<^emph>\<open>collection\<close> is a set of records (an id, an optional vector, metadata
  and a document). A write becomes a list of operations that is appended to the write-ahead log of the
  collection and then applied to the live records, to an inverted index over the metadata and to a buffer
  of new vectors, which is flushed into an approximate index. A checkpoint moves the vectors into a
  segment file, writes a snapshot of the records and prunes the log; opening reads the checkpoint and
  replays the rest of the log. The engine keeps the loaded collections over a catalog; the API validates
  requests and calls the engine; the cluster crates replicate cluster metadata by Raft and the logs of the
  collections by polling; two clients talk to the API.

  \<^item> \<^verbatim>\<open>Rekha_Prelude\<close>: machine integers, little-endian codecs, results, panics (the type \<open>run\<close>), association
    lists, texts. \<^verbatim>\<open>Rust_Text\<close>: number parsing, trimming, searching. \<^verbatim>\<open>Float_Bits\<close>, \<^verbatim>\<open>Float32\<close>: floats as bit
    patterns.
  \<^item> \<^verbatim>\<open>Core_Types\<close> (\<^verbatim>\<open>rekha-core\<close>: \<^verbatim>\<open>types.rs\<close>, \<^verbatim>\<open>op.rs\<close>, \<^verbatim>\<open>config.rs\<close>, \<^verbatim>\<open>cluster.rs\<close>), \<^verbatim>\<open>Where_Filter\<close> (\<^verbatim>\<open>filter.rs\<close>).
  \<^item> \<^verbatim>\<open>Wal\<close>, \<^verbatim>\<open>Wal_Semantics\<close>, \<^verbatim>\<open>Wal_Log\<close> (\<^verbatim>\<open>rekha-wal\<close>): the file is its bytes plus the handle of an open log;
    \<open>wal_open\<close>, \<open>wal_append\<close>, \<open>wal_read_range\<close> and \<open>wal_prune\<close> are the functions of that name.
  \<^item> \<^verbatim>\<open>Segment\<close> (\<^verbatim>\<open>segment.rs\<close>), \<^verbatim>\<open>Distance_Kernels\<close> (\<^verbatim>\<open>rekha-distance\<close>), \<^verbatim>\<open>Vector_Index\<close> (\<^verbatim>\<open>rekha-index\<close>),
    \<^verbatim>\<open>Metadata_Postings\<close> and \<^verbatim>\<open>Postings_Semantics\<close> (\<^verbatim>\<open>postings.rs\<close>).
  \<^item> \<^verbatim>\<open>Catalog\<close>, \<^verbatim>\<open>Local_Storage\<close> (\<^verbatim>\<open>rekha-storage\<close>): transactions over four tables, files in a tree.
  \<^item> \<^verbatim>\<open>Collection\<close>, \<^verbatim>\<open>Collection_Checkpoint\<close> (\<^verbatim>\<open>collection.rs\<close>): the record \<open>collection\<close> and one definition per
    method; \<^verbatim>\<open>Collection_Semantics\<close>, \<^verbatim>\<open>Collection_Index\<close>, \<^verbatim>\<open>Collection_Query\<close>, \<^verbatim>\<open>Collection_Recovery\<close>,
    \<^verbatim>\<open>Checkpoint_Semantics\<close> and \<^verbatim>\<open>Checkpoint_Recovery\<close> prove what it does.
  \<^item> \<^verbatim>\<open>Engine\<close>, \<^verbatim>\<open>Engine_Semantics\<close> (\<^verbatim>\<open>rekha-engine/src/lib.rs\<close>).
  \<^item> \<^verbatim>\<open>Cluster_Types\<close>, \<^verbatim>\<open>Replication\<close> (\<^verbatim>\<open>cluster.rs\<close>, \<^verbatim>\<open>replication.rs\<close> and the replication task of the command line),
    \<^verbatim>\<open>Raft_Log\<close> (\<^verbatim>\<open>log_store.rs\<close>, \<^verbatim>\<open>redb_log_store.rs\<close>), \<^verbatim>\<open>Cluster_State\<close> (\<^verbatim>\<open>state_machine.rs\<close>, \<^verbatim>\<open>network.rs\<close>).
  \<^item> \<^verbatim>\<open>Api\<close>, \<^verbatim>\<open>Api_Handlers\<close>, \<^verbatim>\<open>Api_Chroma\<close>, \<^verbatim>\<open>Api_Semantics\<close> (\<^verbatim>\<open>rekha-api\<close>): a handler is an action on the shared state;
    \<^verbatim>\<open>Routing\<close> has the route tables of all routers, \<^verbatim>\<open>Server\<close> what \<^verbatim>\<open>serve\<close> (\<^verbatim>\<open>rekha-cli/src/main.rs\<close>) and
    \<^verbatim>\<open>rekha-api/src/main.rs\<close> build on start and the layers around a router.
  \<^item> \<^verbatim>\<open>Repl_Parser\<close>, \<^verbatim>\<open>Repl_Client\<close>, \<^verbatim>\<open>Repl\<close>, \<^verbatim>\<open>Repl_Semantics\<close> (\<^verbatim>\<open>rekha-repl\<close>) and \<^verbatim>\<open>Command_Line\<close> (\<^verbatim>\<open>rekha-cli\<close>).

  \<^bold>\<open>How the code is modelled.\<close> A struct is a record, an enum a datatype, a machine integer a word. A fallible
  function returns \<open>error + value\<close>; where the source can panic (slices, indexing, unwraps) the result is a
  \<open>run\<close>, whose value \<open>Panics\<close> is a branch of its own. State is passed explicitly. Code that is not in the
  repository is a parameter with the documented facts it is relied on for as named hypotheses: bincode, the
  checksum, redb tables, the approximate index, roaring bitmaps, the SIMD lanes, the consensus library, JSON
  decoders and number formats. Clocks, fresh identifiers and process ids are arguments.

  \<^bold>\<open>What is proved.\<close>
  \<^item> The log: any mix of opens, appends, torn appends, prunes and crashes recovers every acknowledged record and
    invents none; recovery is maximal; stale writers are fenced; a range read returns exactly what was appended.
  \<^item> The indexes and stores refine maps: postings, vector index, catalog, object store, both Raft logs; each
    states its contract as a locale (\<open>op_log\<close>, \<open>metadata_index\<close>, \<open>ann_index\<close>, \<open>catalog_store\<close>, \<open>object_store\<close>,
    \<open>raft_log\<close>) that is interpreted on the definitions of the code, so the properties are about these.
  \<^item> Filters: parsing and serializing are inverse, and evaluation over the inverted index selects what the
    reference evaluator matches.
  \<^item> A node: an add acknowledged over HTTP is served after a restart, internal endpoints stay off the public address.
  \<^item> Collections and engine: operations act on the map of records as specified, queries return the nearest
    records or sound filtered ones, a rejected batch changes nothing, an accepted one is readable at once, over
    HTTP, and after a restart from the log or from a checkpoint.
  \<^item> Cluster: replicas converge while the leader takes no checkpoint, snapshots carry the state, the log on
    disk survives restarts, deltas are lossless, retries end.
  \<^item> API and clients: the exact bounds of requests, every client request reaches the handler it means, a printed
    query is parsed back, the client's loop ends when told to.
  \<^item> Where the code does not do what it means to, a lemma shows the behaviour (among others a second checkpoint
    that drops vectors, records that a checkpoint prunes before they are shipped, snapshots that are never
    restored or sent, a health check that needs a key, a count the client cannot read).

  \<^bold>\<open>Bounds.\<close> There is no fuel: every loop is structural recursion or recursion with a measure. The retry loop makes
  the number of attempts it is given. Sizes that a machine integer holds in the code (sequence numbers, labels,
  offsets, lengths of files) are hypotheses where wrapping would break a property, and are stated where they do.

  \<^bold>\<open>Not modelled.\<close> File system errors other than short reads and missing files; locks, asynchronous execution and
  timing (an operation is atomic, and the interleavings considered are those of the named steps); the JSON texts
  of HTTP bodies and percent encoding of paths; logging and metrics; argument parsing, sockets, TLS
  and signals of the command line, and the limits a JSON extractor puts on a body; the entry point of the
  interactive client and the empty crates. Texts are lists of characters
  of at most eight bits, and lengths in bytes are lengths of these lists.
\<close>

end
